(* ===== verification/Prelude.thy ===== *)
theory Prelude
  imports Main "HOL-Library.Word" "HOL-Library.List_Lexorder" "HOL-Library.Char_ord"
begin

text \<open>
  The vocabulary every component shares:
  \<^item> machine integers and byte strings, with the big-endian conversions of the standard
    library (\<open>u64::to_be_bytes\<close>, \<open>u64::from_be_bytes\<close>);
  \<^item> \<open>act\<close>, the shape of a method \<open>fn f(&mut self, ..) -> Result<T, E>\<close>: a function from the
    state to a result and the state it leaves, on the error path too (an early return with
    \<open>?\<close> does not undo the writes made before it);
  \<^item> \<open>BTreeMap\<close> and \<open>BTreeSet\<close> as sorted association lists and sorted lists, in iteration
    order;
  \<^item> three ways to reason about an action: running it (\<open>run\<close>), inverting a successful run
    (\<open>okD\<close>), and invariants kept whatever the result (\<open>keeps\<close>).
\<close>

named_theorems run \<open>running an action on a state\<close>
named_theorems okD \<open>what a successful run of an action says\<close>
named_theorems keepsI \<open>introduction rules for invariants of actions\<close>

type_synonym u8 = "8 word"
type_synonym u32 = "32 word"
type_synonym u64 = "64 word"

type_synonym bytes = string

section \<open>Actions: state passing with early return\<close>

type_synonym ('s, 'f, 'a) act = "'s \<Rightarrow> ('f + 'a) \<times> 's"

definition ret :: "'a \<Rightarrow> ('s, 'f, 'a) act" where
  "ret x = (\<lambda>s. (Inr x, s))"

definition throw :: "'f \<Rightarrow> ('s, 'f, 'a) act" where
  "throw e = (\<lambda>s. (Inl e, s))"

definition bnd :: "('s, 'f, 'a) act \<Rightarrow> ('a \<Rightarrow> ('s, 'f, 'b) act) \<Rightarrow> ('s, 'f, 'b) act" where
  "bnd m f = (\<lambda>s. case m s of (r, s') \<Rightarrow> (case r of Inl e \<Rightarrow> (Inl e, s') | Inr x \<Rightarrow> f x s'))"

definition andthen :: "('s, 'f, 'a) act \<Rightarrow> ('s, 'f, 'b) act \<Rightarrow> ('s, 'f, 'b) act" where
  "andthen m n = bnd m (\<lambda>_. n)"

definition gets :: "('s \<Rightarrow> 'a) \<Rightarrow> ('s, 'f, 'a) act" where
  "gets f = (\<lambda>s. (Inr (f s), s))"

definition reads :: "('s \<Rightarrow> 'f + 'a) \<Rightarrow> ('s, 'f, 'a) act" where
  "reads f = (\<lambda>s. (f s, s))"

definition modify :: "('s \<Rightarrow> 's) \<Rightarrow> ('s, 'f, unit) act" where
  "modify f = (\<lambda>s. (Inr (), f s))"

definition lift :: "'f + 'a \<Rightarrow> ('s, 'f, 'a) act" where
  "lift r = (\<lambda>s. (r, s))"

definition unless :: "bool \<Rightarrow> 'f \<Rightarrow> ('s, 'f, unit) act" where
  "unless b e = (if b then ret () else throw e)"

definition whenever :: "bool \<Rightarrow> ('s, 'f, unit) act \<Rightarrow> ('s, 'f, unit) act" where
  "whenever b m = (if b then m else ret ())"

primrec for_each :: "'x list \<Rightarrow> ('x \<Rightarrow> ('s, 'f, unit) act) \<Rightarrow> ('s, 'f, unit) act" where
  "for_each [] f = ret ()"
| "for_each (x # xs) f = andthen (f x) (for_each xs f)"

primrec fold_act :: "'x list \<Rightarrow> ('a \<Rightarrow> 'x \<Rightarrow> ('s, 'f, 'a) act) \<Rightarrow> 'a \<Rightarrow> ('s, 'f, 'a) act" where
  "fold_act [] f acc = ret acc"
| "fold_act (x # xs) f acc = bnd (f acc x) (fold_act xs f)"

subsection \<open>Running\<close>

lemma ret_run [run]: "ret x s = (Inr x, s)"
  by (simp add: ret_def)

lemma throw_run [run]: "throw e s = (Inl e, s)"
  by (simp add: throw_def)

lemma bnd_run [run]:
  "bnd m f s = (case m s of (r, s') \<Rightarrow> (case r of Inl e \<Rightarrow> (Inl e, s') | Inr x \<Rightarrow> f x s'))"
  by (simp add: bnd_def)

lemma andthen_run [run]:
  "andthen m n s = (case m s of (r, s') \<Rightarrow> (case r of Inl e \<Rightarrow> (Inl e, s') | Inr _ \<Rightarrow> n s'))"
  by (simp add: andthen_def bnd_def)

lemma gets_run [run]: "gets f s = (Inr (f s), s)"
  by (simp add: gets_def)

lemma reads_run [run]: "reads f s = (f s, s)"
  by (simp add: reads_def)

lemma modify_run [run]: "modify f s = (Inr (), f s)"
  by (simp add: modify_def)

lemma lift_run [run]: "lift r s = (r, s)"
  by (simp add: lift_def)

lemma unless_run [run]: "unless b e s = (if b then (Inr (), s) else (Inl e, s))"
  by (simp add: unless_def ret_run throw_run)

lemma whenever_run [run]: "whenever b m s = (if b then m s else (Inr (), s))"
  by (simp add: whenever_def ret_run)

text \<open>The sequencing operator obeys the monad laws, so a body reads as the code does.\<close>

lemma bnd_ret: "bnd (ret x) f = f x"
  by (rule ext) (simp add: run)

lemma bnd_assoc: "bnd (bnd m f) g = bnd m (\<lambda>x. bnd (f x) g)"
  by (rule ext) (simp add: run split: prod.split sum.split)

subsection \<open>Inverting a successful run\<close>

lemma ret_ok [okD]: "ret x s = (Inr y, t) \<longleftrightarrow> y = x \<and> t = s"
  by (auto simp: run)

lemma throw_ok [okD]: "throw e s = (Inr y, t) \<longleftrightarrow> False"
  by (simp add: run)

lemma bnd_ok [okD]:
  "bnd m f s = (Inr y, t) \<longleftrightarrow> (\<exists>x s'. m s = (Inr x, s') \<and> f x s' = (Inr y, t))"
  by (auto simp: run split: prod.split sum.split)

lemma andthen_ok [okD]:
  "andthen m n s = (Inr y, t) \<longleftrightarrow> (\<exists>x s'. m s = (Inr x, s') \<and> n s' = (Inr y, t))"
  by (auto simp: run split: prod.split sum.split)

lemma gets_ok [okD]: "gets f s = (Inr y, t) \<longleftrightarrow> y = f s \<and> t = s"
  by (auto simp: run)

lemma reads_ok [okD]: "reads f s = (Inr y, t) \<longleftrightarrow> f s = Inr y \<and> t = s"
  by (auto simp: run)

lemma modify_ok [okD]: "modify f s = (Inr y, t) \<longleftrightarrow> t = f s"
  by (auto simp: run)

lemma lift_ok [okD]: "lift r s = (Inr y, t) \<longleftrightarrow> r = Inr y \<and> t = s"
  by (auto simp: run)

lemma unless_ok [okD]: "unless b e s = (Inr y, t) \<longleftrightarrow> b \<and> t = s"
  by (auto simp: run)

lemma whenever_ok [okD]: "whenever b m s = (Inr y, t) \<longleftrightarrow> (if b then m s = (Inr y, t) else t = s)"
  by (auto simp: run)

subsection \<open>Invariants kept on every path\<close>

definition keeps :: "('s \<Rightarrow> bool) \<Rightarrow> ('s, 'f, 'a) act \<Rightarrow> bool" where
  "keeps I m \<longleftrightarrow> (\<forall>s. I s \<longrightarrow> I (snd (m s)))"

lemma keepsD: "keeps I m \<Longrightarrow> I s \<Longrightarrow> m s = (r, t) \<Longrightarrow> I t"
  by (auto simp: keeps_def dest!: spec [where x = s])

lemma keeps_ret [keepsI]: "keeps I (ret x)"
  by (simp add: keeps_def run)

lemma keeps_throw [keepsI]: "keeps I (throw e)"
  by (simp add: keeps_def run)

lemma keeps_gets [keepsI]: "keeps I (gets f)"
  by (simp add: keeps_def run)

lemma keeps_reads [keepsI]: "keeps I (reads f)"
  by (simp add: keeps_def run)

lemma keeps_lift [keepsI]: "keeps I (lift r)"
  by (simp add: keeps_def run)

lemma keeps_unless [keepsI]: "keeps I (unless b e)"
  by (simp add: keeps_def run)

lemma keeps_bnd [keepsI]: "keeps I m \<Longrightarrow> (\<And>x. keeps I (f x)) \<Longrightarrow> keeps I (bnd m f)"
  by (auto simp: keeps_def run split: prod.split sum.split)

lemma keeps_andthen [keepsI]: "keeps I m \<Longrightarrow> keeps I n \<Longrightarrow> keeps I (andthen m n)"
  by (auto simp: keeps_def run split: prod.split sum.split)

lemma keeps_whenever [keepsI]: "keeps I m \<Longrightarrow> keeps I (whenever b m)"
  by (simp add: keeps_def run)

lemma keeps_if [keepsI]: "(b \<Longrightarrow> keeps I m) \<Longrightarrow> (\<not> b \<Longrightarrow> keeps I n) \<Longrightarrow> keeps I (if b then m else n)"
  by simp

lemma keeps_option [keepsI]:
  "(x = None \<Longrightarrow> keeps I m) \<Longrightarrow> (\<And>y. x = Some y \<Longrightarrow> keeps I (f y)) \<Longrightarrow>
   keeps I (case x of None \<Rightarrow> m | Some y \<Rightarrow> f y)"
  by (cases x) auto

lemma keeps_sum [keepsI]:
  "(\<And>y. x = Inl y \<Longrightarrow> keeps I (f y)) \<Longrightarrow> (\<And>y. x = Inr y \<Longrightarrow> keeps I (g y)) \<Longrightarrow>
   keeps I (case x of Inl y \<Rightarrow> f y | Inr y \<Rightarrow> g y)"
  by (cases x) auto

lemma keeps_prod [keepsI]:
  "(\<And>y z. x = (y, z) \<Longrightarrow> keeps I (f y z)) \<Longrightarrow> keeps I (case x of (y, z) \<Rightarrow> f y z)"
  by (cases x) auto

lemma keeps_let [keepsI]: "(\<And>y. y = x \<Longrightarrow> keeps I (f y)) \<Longrightarrow> keeps I (let y = x in f y)"
  by simp

lemma keeps_for_each [keepsI]: "(\<And>x. x \<in> set xs \<Longrightarrow> keeps I (f x)) \<Longrightarrow> keeps I (for_each xs f)"
  by (induction xs) (auto intro: keepsI)

lemma keeps_fold_act [keepsI]:
  "(\<And>acc x. x \<in> set xs \<Longrightarrow> keeps I (f acc x)) \<Longrightarrow> keeps I (fold_act xs f acc)"
proof (induction xs arbitrary: acc)
  case Nil
  then show ?case by (simp add: keeps_ret)
next
  case (Cons x xs)
  then show ?case by (auto intro!: keeps_bnd)
qed

text \<open>An action that only looks: it never changes the state.\<close>

definition pure_act :: "('s, 'f, 'a) act \<Rightarrow> bool" where
  "pure_act m \<longleftrightarrow> (\<forall>s. snd (m s) = s)"

lemma pure_act_keeps: "pure_act m \<Longrightarrow> keeps I m"
  by (simp add: keeps_def pure_act_def)

lemma pure_actD: "pure_act m \<Longrightarrow> m s = (r, t) \<Longrightarrow> t = s"
  by (metis pure_act_def snd_conv)

section \<open>Big-endian integers\<close>

primrec be_bytes :: "nat \<Rightarrow> nat \<Rightarrow> bytes" where
  "be_bytes 0 x = []"
| "be_bytes (Suc n) x = be_bytes n (x div 256) @ [char_of (x mod 256)]"

definition be_nat :: "bytes \<Rightarrow> nat" where
  "be_nat bs = foldl (\<lambda>a c. a * 256 + of_char c) 0 bs"

lemma be_nat_Nil [simp]: "be_nat [] = 0"
  by (simp add: be_nat_def)

lemma be_nat_snoc [simp]: "be_nat (bs @ [c]) = be_nat bs * 256 + of_char c"
  by (simp add: be_nat_def)

lemma length_be_bytes [simp]: "length (be_bytes n x) = n"
  by (induction n arbitrary: x) auto

lemma be_nat_be_bytes: "x < 256 ^ n \<Longrightarrow> be_nat (be_bytes n x) = x"
proof (induction n arbitrary: x)
  case 0
  then show ?case by simp
next
  case (Suc n)
  then have "x div 256 < 256 ^ n"
    by (simp add: less_mult_imp_div_less mult.commute)
  with Suc.IH show ?case by simp
qed

lemma of_char_256 [simp]: "of_char (c :: char) < (256 :: nat)"
  by (metis of_char_of nat_of_char_less_256)

lemma be_nat_append: "be_nat (xs @ ys) = be_nat xs * 256 ^ length ys + be_nat ys"
proof (induction ys rule: rev_induct)
  case Nil
  then show ?case by simp
next
  case (snoc c ys)
  have "be_nat (xs @ ys @ [c]) = be_nat (xs @ ys) * 256 + of_char c"
    using be_nat_snoc [of "xs @ ys" c] by simp
  with snoc show ?case by (simp add: algebra_simps)
qed

lemma be_nat_bound: "be_nat bs < 256 ^ length bs"
proof (induction bs rule: rev_induct)
  case Nil
  then show ?case by simp
next
  case (snoc c bs)
  have "be_nat bs * 256 + of_char c < (be_nat bs + 1) * 256" by simp
  also have "be_nat bs + 1 \<le> 256 ^ length bs" using snoc by simp
  then have "(be_nat bs + 1) * 256 \<le> 256 ^ length bs * 256" by (rule mult_le_mono1)
  finally show ?case by (simp add: mult.commute)
qed

lemma be_nat_Cons: "be_nat (c # cs) = of_char c * 256 ^ length cs + be_nat cs"
  using be_nat_append [of "[c]" cs] be_nat_snoc [of "[]" c] by simp

text \<open>
  On byte strings of one length the lexicographic order is the numeric order: this is why
  the event log, keyed by padded event numbers, is stored in the order of the events.
\<close>

lemma less_char_iff: "c < d \<longleftrightarrow> (of_char c :: nat) < of_char d"
  by (simp add: less_char_def)

lemma digit_less:
  fixes a b :: nat
  assumes "x < B" and "y < B" and "a < b"
  shows "a * B + x < b * B + y"
proof -
  have "a * B + x < (a + 1) * B" using assms(1) by simp
  also have "\<dots> \<le> b * B" using assms(3) by (intro mult_le_mono1) simp
  finally show ?thesis by simp
qed

lemma be_nat_less_iff:
  assumes "length xs = length ys"
  shows "be_nat xs < be_nat ys \<longleftrightarrow> xs < ys"
  using assms
proof (induction xs ys rule: list_induct2)
  case Nil
  then show ?case by simp
next
  case (Cons x xs y ys)
  let ?B = "256 ^ length xs :: nat"
  have b: "be_nat xs < ?B" "be_nat ys < ?B"
    using be_nat_bound [of xs] be_nat_bound [of ys] Cons.hyps by simp_all
  have e: "be_nat (x # xs) = of_char x * ?B + be_nat xs"
    "be_nat (y # ys) = of_char y * ?B + be_nat ys"
    using Cons.hyps by (simp_all add: be_nat_Cons)
  consider (lt) "(of_char x :: nat) < of_char y" | (gt) "(of_char y :: nat) < of_char x"
    | (eq) "x = y"
    by (metis linorder_neqE_nat of_char_eq_iff)
  then show ?case
  proof cases
    case lt
    then have "be_nat (x # xs) < be_nat (y # ys)"
      unfolding e by (intro digit_less b)
    with lt show ?thesis by (simp add: less_char_iff)
  next
    case gt
    then have "be_nat (y # ys) < be_nat (x # xs)"
      unfolding e by (intro digit_less b)
    with gt show ?thesis by (auto simp: less_char_iff)
  next
    case eq
    with Cons.IH e show ?thesis by (simp add: less_char_iff)
  qed
qed

lemma be_nat_inj:
  assumes "length xs = length ys" and "be_nat xs = be_nat ys"
  shows "xs = ys"
  using be_nat_less_iff [OF assms(1)] be_nat_less_iff [OF assms(1) [symmetric]] assms(2)
  by (metis less_irrefl linorder_less_linear)

definition u64_be :: "u64 \<Rightarrow> bytes" where
  "u64_be w = be_bytes 8 (unat w)"

definition u32_be :: "u32 \<Rightarrow> bytes" where
  "u32_be w = be_bytes 4 (unat w)"

lemma length_u64_be [simp]: "length (u64_be w) = 8"
  by (simp add: u64_be_def)

lemma length_u32_be [simp]: "length (u32_be w) = 4"
  by (simp add: u32_be_def)

lemma u64_be_roundtrip [simp]: "word_of_nat (be_nat (u64_be w)) = w"
proof -
  have "unat w < 256 ^ 8" using unsigned_less [of w] by simp
  then show ?thesis by (simp add: u64_be_def be_nat_be_bytes)
qed

lemma u32_be_roundtrip [simp]: "word_of_nat (be_nat (u32_be w)) = w"
proof -
  have "unat w < 256 ^ 4" using unsigned_less [of w] by simp
  then show ?thesis by (simp add: u32_be_def be_nat_be_bytes)
qed

section \<open>UTF-8\<close>

text \<open>\<open>std::str::from_utf8\<close>: the well-formed sequences of the Unicode standard.\<close>

definition utf8_cont :: "nat \<Rightarrow> bool" where
  "utf8_cont b \<longleftrightarrow> 128 \<le> b \<and> b \<le> 191"

fun utf8_codes :: "nat list \<Rightarrow> bool" where
  "utf8_codes [] = True"
| "utf8_codes (a # bs) =
     (if a < 128 then utf8_codes bs
      else if 194 \<le> a \<and> a \<le> 223 then
        (case bs of b # cs \<Rightarrow> utf8_cont b \<and> utf8_codes cs | _ \<Rightarrow> False)
      else if 224 \<le> a \<and> a \<le> 239 then
        (case bs of b # c # ds \<Rightarrow>
           utf8_cont b \<and> utf8_cont c \<and> (a = 224 \<longrightarrow> 160 \<le> b) \<and> (a = 237 \<longrightarrow> b \<le> 159)
           \<and> utf8_codes ds
         | _ \<Rightarrow> False)
      else if 240 \<le> a \<and> a \<le> 244 then
        (case bs of b # c # d # es \<Rightarrow>
           utf8_cont b \<and> utf8_cont c \<and> utf8_cont d \<and> (a = 240 \<longrightarrow> 144 \<le> b)
           \<and> (a = 244 \<longrightarrow> b \<le> 143) \<and> utf8_codes es
         | _ \<Rightarrow> False)
      else False)"

definition valid_utf8 :: "bytes \<Rightarrow> bool" where
  "valid_utf8 bs = utf8_codes (map of_char bs)"

lemma utf8_ascii: "\<forall>a \<in> set xs. a < 128 \<Longrightarrow> utf8_codes xs"
  by (induction xs) auto

lemma valid_utf8_ascii: "\<forall>c \<in> set bs. of_char c < (128 :: nat) \<Longrightarrow> valid_utf8 bs"
  by (simp add: valid_utf8_def utf8_ascii)

end
