(* ===== verification/Errors.thy ===== *)
theory Errors
  imports Prelude
begin

text \<open>
  The errors of the two servers, one constructor per function of
  \<open>many-ledger/src/error.rs\<close> and \<open>many-kvstore/src/error.rs\<close> in the groups of their
  macros, and the constructors of \<open>ManyError\<close> and of the module crates that the sources
  call. An address in an error is the address, where the code keeps its text.
  \<open>fault\<close> adds what is no \<open>ManyError\<close>: a panic (\<open>unwrap\<close>, \<open>expect\<close>, a slice of the
  wrong length, a subtraction below zero), which ends the process, and recursion that
  never returns.
\<close>

type_synonym address = nat

datatype role =
    Owner
  | CanLedgerTransact
  | CanMultisigApprove
  | CanMultisigSubmit
  | CanTokensCreate
  | CanTokensMint
  | CanTokensBurn
  | CanTokensUpdate
  | CanTokensAddExtendedInfo
  | CanTokensRemoveExtendedInfo
  | CanKvStorePut
  | CanKvStoreDisable
  | CanKvStoreTransfer

text \<open>\<open>error.rs\<close>, attribute 2.\<close>

datatype ledger_error =
    UnknownSymbol address
  | Unauthorized
  | InsufficientFunds
  | AnonymousCannotHoldFunds
  | InvalidInitialState string string
  | UnexpectedSubresourceId u32 u32
  | UnexpectedAccountId address address
  | DestinationIsSource
  | AmountIsZero
  | StorageKeyNotFound string

text \<open>\<open>error.rs\<close>, attribute 11.\<close>

datatype token_error =
    TokenInfoNotFound address
  | ExtInfoNotFound address
  | InvalidSender
  | TickerExists string
  | SubresourceExhausted address

text \<open>\<open>error.rs\<close>, attribute 12.\<close>

datatype mintburn_error =
    SymbolNotFound address
  | OverMaximumSupply address nat nat
  | MissingFunds address nat nat
  | UnableToDistributeZero address
  | PartialBurnDisabled

text \<open>\<open>error.rs\<close>, application errors.\<close>

datatype storage_error =
    StorageApplyFailed string
  | StorageGetFailed string
  | StorageCommitFailed string
  | StorageOpenFailed string
  | UnableToLoadMigrations string

text \<open>\<open>many-kvstore/src/error.rs\<close>.\<close>

datatype kv_error =
    PermissionDenied
  | InvalidInitialHash string string
  | KeyDisabled
  | AnonAltDenied
  | SubresAltUnsupported
  | KeyNotFound
  | CannotDisableEmptyKey

datatype account_error =
    UnknownAccount address
  | UserNeedsRole role
  | UnknownRole role
  | AccountMustOwnItself
  | EmptyFeature

datatype multisig_error =
    TransactionCannotBeFound
  | UserCannotApproveTransaction
  | CannotExecuteTransaction
  | TransactionExpiredOrWithdrawn
  | TransactionTypeUnsupported

datatype idstore_error =
    ExistingEntry
  | EntryNotFound string
  | InvalidAddress string
  | InvalidCredentialId string
  | RecallPhraseGenerationFailed

datatype (plugins only: code) many_error =
    LedgerError ledger_error
  | TokenError token_error
  | MintBurnError mintburn_error
  | StorageError storage_error
  | KvError kv_error
  | AccountError account_error
  | MultisigError multisig_error
  | IdStoreError idstore_error
  | Unknown string
  | SerializationError string
  | DeserializationError string
  | InvalidMethodName string
  | InvalidFromIdentity
  | InvalidIdentity
  | AttributeNotFound
  | OtherError nat string

datatype fault =
    Err many_error
  | Panic string
  | Diverges

text \<open>The attribute and the code of the ledger's attribute errors, as the macros number them.\<close>

fun ledger_error_code :: "ledger_error \<Rightarrow> nat \<times> nat" where
  "ledger_error_code (UnknownSymbol _) = (2, 1)"
| "ledger_error_code Unauthorized = (2, 2)"
| "ledger_error_code InsufficientFunds = (2, 3)"
| "ledger_error_code AnonymousCannotHoldFunds = (2, 4)"
| "ledger_error_code (InvalidInitialState _ _) = (2, 5)"
| "ledger_error_code (UnexpectedSubresourceId _ _) = (2, 6)"
| "ledger_error_code (UnexpectedAccountId _ _) = (2, 7)"
| "ledger_error_code DestinationIsSource = (2, 8)"
| "ledger_error_code AmountIsZero = (2, 9)"
| "ledger_error_code (StorageKeyNotFound _) = (2, 10)"

fun token_error_code :: "token_error \<Rightarrow> nat \<times> nat" where
  "token_error_code (TokenInfoNotFound _) = (11, 1)"
| "token_error_code (ExtInfoNotFound _) = (11, 2)"
| "token_error_code InvalidSender = (11, 3)"
| "token_error_code (TickerExists _) = (11, 4)"
| "token_error_code (SubresourceExhausted _) = (11, 5)"

fun mintburn_error_code :: "mintburn_error \<Rightarrow> nat \<times> nat" where
  "mintburn_error_code (SymbolNotFound _) = (12, 1)"
| "mintburn_error_code (OverMaximumSupply _ _ _) = (12, 2)"
| "mintburn_error_code (MissingFunds _ _ _) = (12, 3)"
| "mintburn_error_code (UnableToDistributeZero _) = (12, 4)"
| "mintburn_error_code PartialBurnDisabled = (12, 5)"

section \<open>Fallible actions\<close>

type_synonym 'a res = "fault + 'a"
type_synonym ('s, 'a) op = "('s, fault, 'a) act"

abbreviation raise :: "many_error \<Rightarrow> ('s, 'a) op" where
  "raise e \<equiv> throw (Err e)"

abbreviation "unauthorized \<equiv> LedgerError Unauthorized"
abbreviation "unknown_account a \<equiv> AccountError (UnknownAccount a)"

text \<open>\<open>r.map_err(f)\<close> for a foreign result whose error is a message.\<close>

definition map_err :: "(string \<Rightarrow> many_error) \<Rightarrow> string + 'a \<Rightarrow> 'a res" where
  "map_err f r = (case r of Inl d \<Rightarrow> Inl (Err (f d)) | Inr x \<Rightarrow> Inr x)"

lemma map_err_simps [simp]:
  "map_err f (Inl d) = Inl (Err (f d))" "map_err f (Inr x) = Inr x"
  by (simp_all add: map_err_def)

lemma map_err_ok [okD]: "map_err f r = Inr x \<longleftrightarrow> r = Inr x"
  by (cases r) auto

text \<open>\<open>r?\<close> for a foreign result whose error is a \<open>ManyError\<close>.\<close>

definition from_many :: "many_error + 'a \<Rightarrow> 'a res" where
  "from_many r = (case r of Inl e \<Rightarrow> Inl (Err e) | Inr x \<Rightarrow> Inr x)"

lemma from_many_simps [simp]:
  "from_many (Inl e) = Inl (Err e)" "from_many (Inr x) = Inr x"
  by (simp_all add: from_many_def)

lemma from_many_ok [okD]: "from_many r = Inr x \<longleftrightarrow> r = Inr x"
  by (cases r) auto

text \<open>\<open>o.ok_or_else(|| e)?\<close>.\<close>

definition ok_or :: "many_error \<Rightarrow> 'a option \<Rightarrow> 'a res" where
  "ok_or e x = (case x of None \<Rightarrow> Inl (Err e) | Some y \<Rightarrow> Inr y)"

lemma ok_or_simps [simp]: "ok_or e None = Inl (Err e)" "ok_or e (Some y) = Inr y"
  by (simp_all add: ok_or_def)

lemma ok_or_ok [okD]: "ok_or e x = Inr y \<longleftrightarrow> x = Some y"
  by (cases x) auto

text \<open>
  \<open>let r = f(..)\<close> without \<open>?\<close>: an error becomes a value and the writes stay, a panic does
  not return.
\<close>

definition attempt :: "('s, 'a) op \<Rightarrow> ('s, many_error + 'a) op" where
  "attempt m = (\<lambda>s. case m s of (r, s') \<Rightarrow>
     (case r of Inl (Err e) \<Rightarrow> Inr (Inl e) | Inl f \<Rightarrow> Inl f | Inr x \<Rightarrow> Inr (Inr x), s'))"

lemma attempt_run [run]:
  "attempt m s = (case m s of (r, s') \<Rightarrow>
     (case r of Inl (Err e) \<Rightarrow> Inr (Inl e) | Inl f \<Rightarrow> Inl f | Inr x \<Rightarrow> Inr (Inr x), s'))"
  by (simp add: attempt_def)

lemma keeps_attempt [keepsI]: "keeps I m \<Longrightarrow> keeps I (attempt m)"
  by (auto simp: keeps_def run split: prod.split)

text \<open>Sequencing of results without a state, for code that only reads.\<close>

definition rbind :: "'a res \<Rightarrow> ('a \<Rightarrow> 'b res) \<Rightarrow> 'b res" where
  "rbind r f = (case r of Inl e \<Rightarrow> Inl e | Inr x \<Rightarrow> f x)"

lemma rbind_simps [simp]: "rbind (Inl e) f = Inl e" "rbind (Inr x) f = f x"
  by (simp_all add: rbind_def)

lemma rbind_ok [okD]: "rbind r f = Inr y \<longleftrightarrow> (\<exists>x. r = Inr x \<and> f x = Inr y)"
  by (cases r) auto

text \<open>The groups of the ledger's errors never share an attribute.\<close>

lemma ledger_error_attribute [simp]: "fst (ledger_error_code e) = 2"
  by (cases e) simp_all

lemma token_error_attribute [simp]: "fst (token_error_code e) = 11"
  by (cases e) simp_all

lemma mintburn_error_attribute [simp]: "fst (mintburn_error_code e) = 12"
  by (cases e) simp_all

section \<open>The order of roles\<close>

text \<open>A set of roles is a \<open>BTreeSet\<close>: its elements have an order, here the declaration's.\<close>

instantiation role :: linorder
begin

fun role_rank :: "role \<Rightarrow> nat" where
  "role_rank Owner = 0"
| "role_rank CanLedgerTransact = 1"
| "role_rank CanMultisigApprove = 2"
| "role_rank CanMultisigSubmit = 3"
| "role_rank CanTokensCreate = 4"
| "role_rank CanTokensMint = 5"
| "role_rank CanTokensBurn = 6"
| "role_rank CanTokensUpdate = 7"
| "role_rank CanTokensAddExtendedInfo = 8"
| "role_rank CanTokensRemoveExtendedInfo = 9"
| "role_rank CanKvStorePut = 10"
| "role_rank CanKvStoreDisable = 11"
| "role_rank CanKvStoreTransfer = 12"

definition less_eq_role :: "role \<Rightarrow> role \<Rightarrow> bool" where
  "less_eq_role a b \<longleftrightarrow> role_rank a \<le> role_rank b"

definition less_role :: "role \<Rightarrow> role \<Rightarrow> bool" where
  "less_role a b \<longleftrightarrow> role_rank a < role_rank b"

lemma role_rank_inj: "role_rank a = role_rank b \<Longrightarrow> a = b"
  by (cases a; cases b) simp_all

instance
  by standard (auto simp: less_eq_role_def less_role_def role_rank_inj)

end

end
