(* ===== verification/Containers.thy ===== *)
theory Containers
  imports Prelude
begin

text \<open>
  \<open>BTreeMap\<close> and \<open>BTreeSet\<close> of the standard library, as the lists their iterators
  produce: keys in ascending order, each key once. \<open>map_of\<close> is \<open>get\<close>, \<open>map fst\<close> is
  \<open>keys\<close>. The interface \<open>ordered_map\<close> states what the components use of a map; it is
  interpreted on \<open>bt_insert\<close>.
\<close>

fun bt_insert :: "'k::linorder \<Rightarrow> 'v \<Rightarrow> ('k \<times> 'v) list \<Rightarrow> ('k \<times> 'v) list" where
  "bt_insert k v [] = [(k, v)]"
| "bt_insert k v ((k', v') # m) =
     (if k < k' then (k, v) # (k', v') # m
      else if k = k' then (k, v) # m
      else (k', v') # bt_insert k v m)"

fun bs_insert :: "'a::linorder \<Rightarrow> 'a list \<Rightarrow> 'a list" where
  "bs_insert x [] = [x]"
| "bs_insert x (y # ys) =
     (if x < y then x # y # ys else if x = y then y # ys else y # bs_insert x ys)"

definition bt_ok :: "('k::linorder \<times> 'v) list \<Rightarrow> bool" where
  "bt_ok m \<longleftrightarrow> sorted_wrt (<) (map fst m)"

definition bt_entry_or :: "'v \<Rightarrow> ('v \<Rightarrow> 'v) \<Rightarrow> 'k::linorder \<Rightarrow> ('k \<times> 'v) list \<Rightarrow> ('k \<times> 'v) list" where
  \<comment> \<open>\<open>m.entry(k).or_default()\<close> followed by a change of the value.\<close>
  "bt_entry_or d f k m = bt_insert k (f (case map_of m k of None \<Rightarrow> d | Some v \<Rightarrow> v)) m"

definition bt_and_modify :: "('v \<Rightarrow> 'v) \<Rightarrow> 'k::linorder \<Rightarrow> ('k \<times> 'v) list \<Rightarrow> ('k \<times> 'v) list" where
  \<comment> \<open>\<open>m.entry(k).and_modify(f)\<close>: an absent key stays absent.\<close>
  "bt_and_modify f k m = (case map_of m k of None \<Rightarrow> m | Some v \<Rightarrow> bt_insert k (f v) m)"

lemma bt_ok_Nil [simp]: "bt_ok []"
  by (simp add: bt_ok_def)

lemma map_of_None_above: "\<forall>x \<in> set (map fst m). k < x \<Longrightarrow> map_of m (k::'k::linorder) = None"
  by (induction m) auto

lemma fst_bt_insert: "fst ` set (bt_insert k v m) = insert k (fst ` set m)"
  by (induction k v m rule: bt_insert.induct) auto

lemma bt_ok_insert [simp]: "bt_ok m \<Longrightarrow> bt_ok (bt_insert k v m)"
  by (induction k v m rule: bt_insert.induct) (auto simp: bt_ok_def fst_bt_insert)

lemma map_of_bt_insert [simp]: "map_of (bt_insert k v m) = (map_of m)(k \<mapsto> v)"
  by (induction k v m rule: bt_insert.induct) (auto simp: fun_eq_iff)

lemma set_bs_insert [simp]: "set (bs_insert x xs) = insert x (set xs)"
  by (induction x xs rule: bs_insert.induct) auto

lemma bt_ok_and_modify [simp]: "bt_ok m \<Longrightarrow> bt_ok (bt_and_modify f k m)"
  by (simp add: bt_and_modify_def split: option.split)

lemma map_of_and_modify [simp]:
  "map_of (bt_and_modify f k m) = (map_of m)(k := map_option f (map_of m k))"
  by (auto simp: bt_and_modify_def fun_eq_iff split: option.split)

lemma map_of_entry_or [simp]:
  "map_of (bt_entry_or d f k m) =
     (map_of m)(k \<mapsto> f (case map_of m k of None \<Rightarrow> d | Some v \<Rightarrow> v))"
  by (simp add: bt_entry_or_def)

lemma bt_ok_entry_or [simp]: "bt_ok m \<Longrightarrow> bt_ok (bt_entry_or d f k m)"
  by (simp add: bt_entry_or_def)

lemma bt_ok_Cons: "bt_ok ((k, v) # m) \<longleftrightarrow> (\<forall>x \<in> fst ` set m. k < x) \<and> bt_ok m"
  by (auto simp: bt_ok_def)

lemma bt_ok_distinct: "bt_ok m \<Longrightarrow> distinct (map fst m)"
  by (simp add: bt_ok_def strict_sorted_iff)

section \<open>The interface\<close>

locale ordered_map =
  fixes ok :: "'m \<Rightarrow> bool"
    and look :: "'m \<Rightarrow> 'k \<Rightarrow> 'v option"
    and put :: "'k \<Rightarrow> 'v \<Rightarrow> 'm \<Rightarrow> 'm"
  assumes put_ok: "ok m \<Longrightarrow> ok (put k v m)"
    and look_put: "ok m \<Longrightarrow> look (put k v m) = (look m)(k \<mapsto> v)"
begin

fun put_all :: "('k \<times> 'v) list \<Rightarrow> 'm \<Rightarrow> 'm" where
  "put_all [] m = m"
| "put_all ((k, v) # kvs) m = put_all kvs (put k v m)"

lemma put_all_ok: "ok m \<Longrightarrow> ok (put_all kvs m)"
  by (induction kvs m rule: put_all.induct) (auto simp: put_ok)

lemma look_put_all: "ok m \<Longrightarrow> look (put_all kvs m) k =
    (case map_of (rev kvs) k of None \<Rightarrow> look m k | Some v \<Rightarrow> Some v)"
proof (induction kvs m rule: put_all.induct)
  case (1 m)
  then show ?case by simp
next
  case (2 k' v kvs m)
  then show ?case by (auto simp: put_ok look_put map_add_def split: option.split)
qed

lemma put_put: "ok m \<Longrightarrow> look (put k v (put k w m)) = look (put k v m)"
  by (simp add: put_ok look_put)

end

interpretation btree: ordered_map bt_ok map_of bt_insert
  by unfold_locales auto

end
