(* ===== verification/External.thy ===== *)
theory External
  imports Errors Containers
begin

text \<open>
  The code the servers call and the repository does not hold: the merk store, the minicbor
  serialisers, addresses, amounts, event numbers, time, accounts and their features, token
  extended information and the migration registry. Data whose fields the sources read is a
  \<open>record\<close> or a \<open>datatype\<close> with those fields; every function is a field of \<open>env\<close>, the
  argument \<open>E\<close> of the definitions that call it. Three types stay abstract: \<open>'m\<close> a merk
  store, \<open>'v\<close> the byte strings it holds, \<open>'g\<close> a set of migrations.

  What the proofs rely on is stated by predicates of an environment, each one a property that
  the crate documents: \<open>store_ok\<close> (a read returns what the last batch put; a batch is refused
  unless its keys ascend), \<open>codec_ok\<close> (decoding undoes encoding), \<open>address_ok\<close> (the text of
  an address identifies it and has no slash), \<open>event_id_ok\<close> (adding to an event number),
  \<open>account_ok\<close> (roles of an account).
\<close>

section \<open>Data\<close>

type_synonym timestamp = nat
type_synonym systime = int  \<comment> \<open>nanoseconds since the Unix epoch\<close>
type_synonym event_id = bytes
type_synonym memo = "bytes list"
type_synonym attr_index = "nat list"
type_synonym data_index = "nat list"
type_synonym ext_info = "(attr_index \<times> bytes) list"
type_synonym reason = "nat \<times> string"
type_synonym symbol = address
type_synonym symbols = "(symbol \<times> string) list"
type_synonym distribution = "(address \<times> nat) list"
type_synonym event_kind = nat
type_synonym json = nat  \<comment> \<open>\<open>serde_json::Value\<close>, read through the \<open>json_\<close> functions\<close>

datatype feature = Feature (feature_id: nat) (feature_args: "nat list")

type_synonym role_map = "(address \<times> role list) list"

record multisig_arg =
  arg_threshold :: "u64 option"
  arg_timeout_in_secs :: "u64 option"
  arg_execute_automatically :: "bool option"

record account =
  description :: "string option"
  roles :: role_map
  features :: "feature list"
  disabled :: "(bool + reason) option"

record token_summary =
  name :: string
  ticker :: string
  decimals :: u64

record token_supply =
  total :: nat
  circulating :: nat
  maximum :: "nat option"

record token_info =
  ti_symbol :: symbol
  ti_summary :: token_summary
  ti_supply :: token_supply
  ti_owner :: "address option"

datatype data_value = Counter u64 | OtherValue nat

datatype data_type = TypeCounter | TypeOther nat

type_synonym data_info = "data_type \<times> string"

record response =
  rsp_from :: address
  rsp_to :: "address option"
  rsp_data :: "many_error + bytes"
  rsp_timestamp :: "timestamp option"

record send_args =
  send_from :: "address option"
  send_to :: address
  send_symbol :: symbol
  send_amount :: nat
  send_memo :: "memo option"

record create_args =
  cr_description :: "string option"
  cr_roles :: role_map
  cr_features :: "feature list"

record description_args =
  de_account :: address
  de_description :: string

record roles_args =  \<comment> \<open>\<open>AddRolesArgs\<close> and \<open>RemoveRolesArgs\<close>\<close>
  ro_account :: address
  ro_roles :: role_map

record features_args =
  fe_account :: address
  fe_roles :: "role_map option"
  fe_features :: "feature list"

record defaults_args =
  df_account :: address
  df_threshold :: "u64 option"
  df_timeout_in_secs :: "u64 option"
  df_execute_automatically :: "bool option"

text \<open>A multisig transaction; \<open>TxOther\<close> stands for the kinds that cannot be executed.\<close>

datatype (plugins only: code) multisig_tx =
    TxSend send_args
  | TxAccountCreate create_args
  | TxAccountDisable address
  | TxAccountSetDescription description_args
  | TxAccountAddRoles roles_args
  | TxAccountRemoveRoles roles_args
  | TxAccountAddFeatures features_args
  | TxMultisigSubmit submit_args
  | TxMultisigSetDefaults defaults_args
  | TxMultisigApprove bytes
  | TxMultisigRevoke bytes
  | TxMultisigExecute bytes
  | TxMultisigWithdraw bytes
  | TxOther nat
and submit_args = SubmitArgs
    (su_account: address)
    (su_old_memo: "string option")
    (su_transaction: multisig_tx)
    (su_threshold: "u64 option")
    (su_timeout_in_secs: "u64 option")
    (su_execute_automatically: "bool option")
    (su_old_data: "bytes option")
    (su_memo: "memo option")

datatype multisig_state =
    Pending
  | ExecutedAutomatically
  | ExecutedManually
  | Withdrawn
  | Expired

record multisig_info =  \<comment> \<open>\<open>multisig::InfoReturn\<close>\<close>
  old_memo :: "string option"
  memo :: "memo option"
  transaction :: multisig_tx
  submitter :: address
  approvers :: "(address \<times> bool) list"
  threshold :: u64
  execute_automatically :: bool
  timeout :: timestamp
  old_data :: "bytes option"
  state :: multisig_state

text \<open>\<open>EventInfo\<close>, the kinds the servers log.\<close>

datatype (plugins only: code) event_info =
    EvSend address address symbol nat "memo option"
  | EvAccountCreate address "string option" role_map "feature list"
  | EvAccountDisable address
  | EvAccountSetDescription address string
  | EvAccountAddRoles address role_map
  | EvAccountRemoveRoles address role_map
  | EvAccountAddFeatures address role_map "feature list"
  | EvMultisigSubmit (evs_submitter: address) (evs_account: address) (evs_old_memo: "string option")
      (evs_transaction: multisig_tx) (evs_token: "bytes option") (evs_threshold: u64)
      (evs_timeout: timestamp) (evs_execute_automatically: bool) (evs_old_data: "bytes option")
      (evs_memo: "memo option")
  | EvMultisigSetDefaults address address "u64 option" "u64 option" "bool option"
  | EvMultisigApprove address bytes address
  | EvMultisigRevoke address bytes address
  | EvMultisigExecute address bytes "address option" response
  | EvMultisigWithdraw address bytes address
  | EvMultisigExpired address bytes
  | EvTokenCreate token_summary symbol "(address + unit) option" "distribution option"
      "nat option" "ext_info option" "memo option"
  | EvTokenUpdate symbol "string option" "string option" "u64 option"
      "(address + unit) option" "memo option"
  | EvTokenAddExtendedInfo symbol "attr_index list" "memo option"
  | EvTokenRemoveExtendedInfo symbol "attr_index list" "memo option"
  | EvTokenMint symbol distribution "memo option"
  | EvTokenBurn symbol distribution "memo option"
  | EvKvStorePut bytes bytes address
  | EvKvStoreDisable bytes "reason option"
  | EvKvStoreTransfer bytes address address

record event_log =
  ev_id :: event_id
  ev_time :: timestamp
  ev_content :: event_info

text \<open>\<open>MultisigTransactionStorage\<close> of \<open>storage/multisig.rs\<close>.\<close>

record multisig_storage =
  ms_account :: address
  ms_info :: multisig_info
  ms_creation :: systime
  ms_disabled :: bool

text \<open>\<open>CredentialStorage\<close> of \<open>storage/idstore.rs\<close>.\<close>

record credential =
  cred_id :: bytes
  public_key :: bytes

text \<open>\<open>KvStoreMetadata\<close> of \<open>many-kvstore/src/module.rs\<close>.\<close>

record kv_metadata =
  kv_owner :: address
  kv_disabled :: "(bool + reason) option"

datatype 'v store_op = Put 'v | Delete

record ('x, 'v) codec =
  enc :: "'x \<Rightarrow> string + 'v"
  dec :: "'v \<Rightarrow> string + 'x"


section \<open>Functions\<close>

record ('m, 'v, 'g) env =
  \<comment> \<open>merk: a Merkle tree over a RocksDB store\<close>
  merk_get :: "'m \<Rightarrow> bytes \<Rightarrow> string + 'v option"
  merk_apply :: "'m \<Rightarrow> (bytes \<times> 'v store_op) list \<Rightarrow> (string + unit) \<times> 'm"
  merk_commit :: "'m \<Rightarrow> (string + unit) \<times> 'm"
  merk_iter_range :: "'m \<Rightarrow> bytes \<Rightarrow> bytes \<Rightarrow> bool \<Rightarrow> (string + bytes \<times> 'v) list"
  merk_iter_prefix :: "'m \<Rightarrow> bytes \<Rightarrow> bool \<Rightarrow> (string + bytes \<times> 'v) list"
  merk_root_hash :: "'m \<Rightarrow> bytes"
  \<comment> \<open>stored byte strings\<close>
  of_bytes :: "bytes \<Rightarrow> 'v"
  to_bytes :: "'v \<Rightarrow> bytes"
  \<comment> \<open>amounts and addresses\<close>
  amount_to_vec :: "nat \<Rightarrow> 'v"
  amount_from :: "'v \<Rightarrow> nat"
  address_to_vec :: "address \<Rightarrow> 'v"
  address_from_bytes :: "'v \<Rightarrow> many_error + address"
  show_address :: "address \<Rightarrow> string"
  address_from_str :: "string \<Rightarrow> many_error + address"
  is_anonymous :: "address \<Rightarrow> bool"
  is_illegal :: "address \<Rightarrow> bool"
  is_public_key :: "address \<Rightarrow> bool"
  is_subresource :: "address \<Rightarrow> bool"
  with_subresource_id :: "address \<Rightarrow> u32 \<Rightarrow> many_error + address"
  subresource_id :: "address \<Rightarrow> u32 option"
  max_subresource_id :: u32
  \<comment> \<open>minicbor, per type\<close>
  c_symbols :: "(symbols, 'v) codec"
  c_token_info :: "(token_info, 'v) codec"
  c_ext_info :: "(ext_info, 'v) codec"
  c_event :: "(event_log, 'v) codec"
  c_multisig :: "(multisig_storage, 'v) codec"
  c_account :: "(account, 'v) codec"
  c_data_info :: "((data_index \<times> data_info) list, 'v) codec"
  c_data_attributes :: "((data_index \<times> data_value) list, 'v) codec"
  c_credential :: "(credential, 'v) codec"
  c_kv_metadata :: "(kv_metadata, 'v) codec"
  c_event_id :: "(event_id, 'v) codec"
  c_recall_phrase :: "(string list, bytes) codec"
  c_response :: "(response, bytes) codec"
  c_block_tx :: "(bytes \<times> response, bytes) codec"
  payload_empty :: "string + bytes"
  payload_create :: "address \<Rightarrow> string + bytes"
  payload_submit :: "bytes \<Rightarrow> string + bytes"
  \<comment> \<open>event numbers and time\<close>
  event_id_from :: "u64 \<Rightarrow> event_id"
  event_id_add :: "event_id \<Rightarrow> nat \<Rightarrow> event_id"
  wall_clock :: timestamp
  timestamp_new :: "u64 \<Rightarrow> many_error + timestamp"
  as_system_time :: "timestamp \<Rightarrow> many_error + systime"
  from_system_time :: "systime \<Rightarrow> many_error + timestamp"
  \<comment> \<open>accounts and features\<close>
  account_create :: "address \<Rightarrow> create_args \<Rightarrow> account"
  with_description :: "account \<Rightarrow> string option \<Rightarrow> account"
  has_role :: "account \<Rightarrow> address \<Rightarrow> role \<Rightarrow> bool"
  needs_role :: "account \<Rightarrow> address \<Rightarrow> role list \<Rightarrow> many_error + unit"
  add_role :: "account \<Rightarrow> address \<Rightarrow> role \<Rightarrow> account"
  remove_role :: "account \<Rightarrow> address \<Rightarrow> role \<Rightarrow> account"
  get_roles :: "account \<Rightarrow> address \<Rightarrow> role list"
  has_feature_id :: "feature list \<Rightarrow> nat \<Rightarrow> bool"
  insert_feature :: "feature \<Rightarrow> feature list \<Rightarrow> bool \<times> feature list"
  multisig_feature_id :: nat
  ledger_feature_id :: nat
  token_feature_id :: nat
  kvstore_feature_id :: nat
  get_multisig_feature :: "feature list \<Rightarrow> many_error + multisig_arg"
  get_ledger_feature :: "feature list \<Rightarrow> many_error + unit"
  get_token_feature :: "feature list \<Rightarrow> many_error + unit"
  get_kvstore_feature :: "feature list \<Rightarrow> many_error + unit"
  multisig_as_feature :: "multisig_arg \<Rightarrow> feature"
  multisig_roles :: "role list"
  ledger_roles :: "role list"
  token_roles :: "role list"
  kvstore_roles :: "role list"
  \<comment> \<open>token extended information, data attributes\<close>
  ext_info_default :: ext_info
  ext_info_new :: ext_info
  ext_info_retain :: "ext_info \<Rightarrow> attr_index list \<Rightarrow> many_error + ext_info"
  ext_info_memo :: "ext_info \<Rightarrow> memo option"
  ext_info_with_memo :: "ext_info \<Rightarrow> memo \<Rightarrow> many_error + ext_info"
  ext_info_logo :: "ext_info \<Rightarrow> bytes option"
  ext_info_with_logo :: "ext_info \<Rightarrow> bytes \<Rightarrow> many_error + ext_info"
  ext_info_contains :: "ext_info \<Rightarrow> attr_index \<Rightarrow> many_error + bool"
  ext_info_remove :: "ext_info \<Rightarrow> attr_index \<Rightarrow> many_error + ext_info"
  index_memo :: attr_index
  index_visual_logo :: attr_index
  data_index_new :: "nat \<Rightarrow> data_index"
  data_index_with :: "data_index \<Rightarrow> nat \<Rightarrow> data_index"
  \<comment> \<open>the migration registry\<close>
  migration_active :: "'g \<Rightarrow> string \<Rightarrow> bool"
  migration_hotfix :: "'g \<Rightarrow> string \<Rightarrow> bytes \<Rightarrow> u64 \<Rightarrow> many_error + bytes option"
  migration_update :: "'g \<Rightarrow> 'm \<Rightarrow> u64 \<Rightarrow> (many_error + unit) \<times> 'g \<times> 'm"
  migration_empty :: "many_error + 'g"
  show_error :: "many_error \<Rightarrow> string"
  \<comment> \<open>legacy memos and data, what an event log says of itself\<close>
  memo_of_string :: "string \<Rightarrow> memo"
  memo_of_data :: "bytes \<Rightarrow> memo"
  memo_push_bytes :: "memo \<Rightarrow> bytes \<Rightarrow> many_error + memo"
  event_is_about :: "event_log \<Rightarrow> address \<Rightarrow> bool"
  event_kind_of :: "event_log \<Rightarrow> event_kind"
  all_event_kinds :: "event_kind list"
  \<comment> \<open>text encodings, keys and phrases\<close>
  hex_encode :: "bytes \<Rightarrow> string"
  base64_encode :: "bytes \<Rightarrow> string"
  base64_decode :: "string \<Rightarrow> bytes option"
  cose_key_from :: "bytes \<Rightarrow> string + unit"
  entropy_from_slice :: "nat \<Rightarrow> bytes \<Rightarrow> bytes option"
  to_mnemonics :: "nat \<Rightarrow> nat \<Rightarrow> nat \<Rightarrow> bytes \<Rightarrow> string option"
  \<comment> \<open>JSON values of a migration's parameters\<close>
  json_string :: "json \<Rightarrow> string + string"
  json_u32 :: "json \<Rightarrow> string + u32"
  json_u64 :: "json \<Rightarrow> string + u64"
  json_amount :: "json \<Rightarrow> string + nat"
  json_amount_opt :: "json \<Rightarrow> string + nat option"
  json_address_opt :: "json \<Rightarrow> string + address option"
  role_from_str :: "string \<Rightarrow> role option"
  address_eq_str :: "address \<Rightarrow> string \<Rightarrow> bool"

end
