(* ===== verification/Store.thy ===== *)
theory Store
  imports External
begin

text \<open>
  The part both servers share: the fields of \<open>LedgerStorage\<close> and \<open>KvStoreStorage\<close> that
  hold the merk store and the block's time and hash, the idioms \<open>persistent_store.get\<close>,
  \<open>apply\<close> and \<open>commit\<close> with their error mapping, the laws of the store and what they make
  of a run.
\<close>

record 'm backend =
  persistent_store :: 'm
  blockchain :: bool
  current_time :: "timestamp option"
  current_hash :: "bytes option"

section \<open>Reading, writing, committing\<close>

definition db_get :: "('m, 'v, 'g) env \<Rightarrow> (string \<Rightarrow> many_error) \<Rightarrow> bytes \<Rightarrow>
    (('m, 'z) backend_scheme, 'v option) op" where
  "db_get E f k = reads (\<lambda>s. map_err f (merk_get E (persistent_store s) k))"

definition db_apply :: "('m, 'v, 'g) env \<Rightarrow> (string \<Rightarrow> many_error) \<Rightarrow>
    (bytes \<times> 'v store_op) list \<Rightarrow> (('m, 'z) backend_scheme, unit) op" where
  "db_apply E f b = (\<lambda>s. case merk_apply E (persistent_store s) b of
     (r, m) \<Rightarrow> (map_err f r, s\<lparr>persistent_store := m\<rparr>))"

definition db_commit :: "('m, 'v, 'g) env \<Rightarrow> (string \<Rightarrow> many_error) \<Rightarrow>
    (('m, 'z) backend_scheme, unit) op" where
  "db_commit E f = (\<lambda>s. case merk_commit E (persistent_store s) of
     (r, m) \<Rightarrow> (map_err f r, s\<lparr>persistent_store := m\<rparr>))"

text \<open>\<open>minicbor::to_vec(x).map_err(ManyError::serialization_error)?\<close> and its inverse.\<close>

definition encode :: "('x, 'v) codec \<Rightarrow> 'x \<Rightarrow> ('s, 'v) op" where
  "encode c x = lift (map_err SerializationError (enc c x))"

definition decode :: "('x, 'v) codec \<Rightarrow> 'v \<Rightarrow> ('s, 'x) op" where
  "decode c v = lift (map_err DeserializationError (dec c v))"

definition panic_on_err :: "string \<Rightarrow> string + 'a \<Rightarrow> 'a res" where
  \<comment> \<open>\<open>unwrap\<close> and \<open>expect\<close>\<close>
  "panic_on_err msg r = (case r of Inl _ \<Rightarrow> Inl (Panic msg) | Inr x \<Rightarrow> Inr x)"

lemma panic_on_err_simps [simp]:
  "panic_on_err msg (Inl e) = Inl (Panic msg)" "panic_on_err msg (Inr x) = Inr x"
  by (simp_all add: panic_on_err_def)

text \<open>
  A stored big-endian counter: \<open>copy_from_slice\<close> into a fixed array panics unless the
  lengths agree.
\<close>

definition u64_of :: "('m, 'v, 'g) env \<Rightarrow> 'v \<Rightarrow> u64 res" where
  "u64_of E v = (if length (to_bytes E v) = 8 then Inr (word_of_nat (be_nat (to_bytes E v)))
     else Inl (Panic ''copy_from_slice''))"

definition u32_of :: "('m, 'v, 'g) env \<Rightarrow> 'v \<Rightarrow> u32 res" where
  "u32_of E v = (if length (to_bytes E v) = 4 then Inr (word_of_nat (be_nat (to_bytes E v)))
     else Inl (Panic ''copy_from_slice''))"

text \<open>\<open>r.expect(msg)\<close>: an error panics.\<close>

definition expecting :: "string \<Rightarrow> ('s, 'a) op \<Rightarrow> ('s, 'a) op" where
  "expecting msg m = (\<lambda>s. case m s of (r, s') \<Rightarrow>
     (case r of Inl (Err _) \<Rightarrow> Inl (Panic msg) | Inl f \<Rightarrow> Inl f | Inr x \<Rightarrow> Inr x, s'))"

lemma expecting_run [run]:
  "expecting msg m s = (case m s of (r, s') \<Rightarrow>
     (case r of Inl (Err _) \<Rightarrow> Inl (Panic msg) | Inl f \<Rightarrow> Inl f | Inr x \<Rightarrow> Inr x, s'))"
  by (simp add: expecting_def)

lemma expecting_ok [okD]: "expecting msg m s = (Inr x, t) \<longleftrightarrow> m s = (Inr x, t)"
  by (auto simp: expecting_def split: prod.split sum.split fault.split)

section \<open>The laws of the store\<close>

definition mview :: "('m, 'v, 'g) env \<Rightarrow> 'm \<Rightarrow> bytes \<rightharpoonup> 'v" where
  "mview E m k = (case merk_get E m k of Inl _ \<Rightarrow> None | Inr x \<Rightarrow> x)"

primrec op_value :: "'v store_op \<Rightarrow> 'v option" where
  "op_value (Put v) = Some v"
| "op_value Delete = None"

primrec apply_batch :: "(bytes \<times> 'v store_op) list \<Rightarrow> (bytes \<rightharpoonup> 'v) \<Rightarrow> (bytes \<rightharpoonup> 'v)" where
  "apply_batch [] f = f"
| "apply_batch (p # b) f = apply_batch b (f(fst p := op_value (snd p)))"

definition batch_ok :: "(bytes \<times> 'v store_op) list \<Rightarrow> bool" where
  "batch_ok b \<longleftrightarrow> sorted_wrt (<) (map fst b)"

text \<open>
  \<open>store_ok\<close>: a read succeeds; a batch with ascending keys is applied, any other refused without a
  trace; a commit keeps what can be read. That a batch may delete a key which is not there is
  assumed too, and matters once: the only \<open>Delete\<close> of the sources is the token migration's, of the
  old counter of subresources, which a ledger without accounts does not have. Where merk refuses
  such a delete, that migration fails on such a ledger, and the lemmas of \<open>Migrations\<close> about it are
  about the others; no other theorem uses a \<open>Delete\<close>.
\<close>

definition store_ok :: "('m, 'v, 'g) env \<Rightarrow> bool" where
  "store_ok E \<longleftrightarrow>
     (\<forall>m k. \<exists>x. merk_get E m k = Inr x) \<and>
     (\<forall>m b. batch_ok b \<longrightarrow> fst (merk_apply E m b) = Inr () \<and>
        mview E (snd (merk_apply E m b)) = apply_batch b (mview E m)) \<and>
     (\<forall>m b. \<not> batch_ok b \<longrightarrow> (\<exists>e. merk_apply E m b = (Inl e, m))) \<and>
     (\<forall>m. fst (merk_commit E m) = Inr () \<and> mview E (snd (merk_commit E m)) = mview E m) \<and>
     (\<forall>b. to_bytes E (of_bytes E b) = b)"

definition codec_ok :: "('x, 'v) codec \<Rightarrow> bool" where
  "codec_ok c \<longleftrightarrow> (\<forall>x. \<exists>v. enc c x = Inr v \<and> dec c v = Inr x)"

definition enc_val :: "('x, 'v) codec \<Rightarrow> 'x \<Rightarrow> 'v" where
  "enc_val c x = (case enc c x of Inr v \<Rightarrow> v | Inl _ \<Rightarrow> undefined)"

lemma enc_codec [simp]:
  assumes "codec_ok c"
  shows "enc c x = Inr (enc_val c x)"
proof -
  obtain v where "enc c x = Inr v" using assms by (auto simp: codec_ok_def)
  then show ?thesis by (simp add: enc_val_def)
qed

lemma dec_codec [simp]:
  assumes "codec_ok c"
  shows "dec c (enc_val c x) = Inr x"
proof -
  obtain v where "enc c x = Inr v" and "dec c v = Inr x"
    using assms by (auto simp: codec_ok_def)
  then show ?thesis by (simp add: enc_val_def)
qed

lemma enc_val_inj: "codec_ok c \<Longrightarrow> enc_val c x = enc_val c y \<Longrightarrow> x = y"
  by (metis dec_codec sum.inject(2))

section \<open>The store as a map\<close>

definition view :: "('m, 'v, 'g) env \<Rightarrow> ('m, 'z) backend_scheme \<Rightarrow> bytes \<rightharpoonup> 'v" where
  "view E s = mview E (persistent_store s)"

definition applied :: "('m, 'v, 'g) env \<Rightarrow> (bytes \<times> 'v store_op) list \<Rightarrow>
    ('m, 'z) backend_scheme \<Rightarrow> ('m, 'z) backend_scheme" where
  "applied E b s = s\<lparr>persistent_store := snd (merk_apply E (persistent_store s) b)\<rparr>"

definition committed :: "('m, 'v, 'g) env \<Rightarrow> ('m, 'z) backend_scheme \<Rightarrow>
    ('m, 'z) backend_scheme" where
  "committed E s = s\<lparr>persistent_store := snd (merk_commit E (persistent_store s))\<rparr>"

lemma merk_get_view:
  assumes "store_ok E"
  shows "merk_get E m k = Inr (mview E m k)"
proof -
  have "\<exists>x. merk_get E m k = Inr x" using assms unfolding store_ok_def by blast
  then show ?thesis by (auto simp: mview_def)
qed

lemma merk_apply_ok:
  assumes "store_ok E" and "batch_ok b"
  shows "fst (merk_apply E m b) = Inr ()"
    and "mview E (snd (merk_apply E m b)) = apply_batch b (mview E m)"
proof -
  have "fst (merk_apply E m b) = Inr () \<and>
      mview E (snd (merk_apply E m b)) = apply_batch b (mview E m)"
    using assms unfolding store_ok_def by blast
  then show "fst (merk_apply E m b) = Inr ()"
    and "mview E (snd (merk_apply E m b)) = apply_batch b (mview E m)"
    by auto
qed

lemma merk_commit_ok:
  assumes "store_ok E"
  shows "fst (merk_commit E m) = Inr ()"
    and "mview E (snd (merk_commit E m)) = mview E m"
proof -
  have "fst (merk_commit E m) = Inr () \<and> mview E (snd (merk_commit E m)) = mview E m"
    using assms unfolding store_ok_def by blast
  then show "fst (merk_commit E m) = Inr ()"
    and "mview E (snd (merk_commit E m)) = mview E m"
    by auto
qed

lemma to_of_bytes [simp]: "store_ok E \<Longrightarrow> to_bytes E (of_bytes E b) = b"
  by (simp add: store_ok_def)

lemma db_get_run [run]: "store_ok E \<Longrightarrow> db_get E f k s = (Inr (view E s k), s)"
  by (simp add: db_get_def run view_def merk_get_view)

lemma db_apply_run [run]:
  "store_ok E \<Longrightarrow> batch_ok b \<Longrightarrow> db_apply E f b s = (Inr (), applied E b s)"
  by (simp add: db_apply_def applied_def merk_apply_ok(1) split_beta)

lemma db_apply_bad:
  assumes "store_ok E" and "\<not> batch_ok b"
  shows "\<exists>e. db_apply E f b s = (Inl (Err (f e)), s)"
proof -
  have "\<exists>e. merk_apply E (persistent_store s) b = (Inl e, persistent_store s)"
    using assms unfolding store_ok_def by blast
  then show ?thesis by (auto simp: db_apply_def)
qed

lemma db_commit_run [run]: "store_ok E \<Longrightarrow> db_commit E f s = (Inr (), committed E s)"
  by (simp add: db_commit_def committed_def merk_commit_ok(1) split_beta)

lemma view_applied [simp]:
  "store_ok E \<Longrightarrow> batch_ok b \<Longrightarrow> view E (applied E b s) = apply_batch b (view E s)"
  by (simp add: view_def applied_def merk_apply_ok(2))

lemma view_committed [simp]: "store_ok E \<Longrightarrow> view E (committed E s) = view E s"
  by (simp add: view_def committed_def merk_commit_ok(2))

lemma applied_fields [simp]:
  "blockchain (applied E b s) = blockchain s"
  "current_time (applied E b s) = current_time s"
  "current_hash (applied E b s) = current_hash s"
  "more (applied E b s) = more s"
  by (simp_all add: applied_def)

lemma committed_fields [simp]:
  "blockchain (committed E s) = blockchain s"
  "current_time (committed E s) = current_time s"
  "current_hash (committed E s) = current_hash s"
  "more (committed E s) = more s"
  by (simp_all add: committed_def)

lemma view_more [simp]: "view E (s\<lparr>more := x\<rparr>) = view E s"
  by (simp add: view_def)

lemma view_time [simp]:
  "view E (s\<lparr>current_time := t\<rparr>) = view E s" "view E (s\<lparr>current_hash := h\<rparr>) = view E s"
  by (simp_all add: view_def)

lemma batch_ok_single [simp]: "batch_ok [x]"
  by (simp add: batch_ok_def)

lemma batch_ok_Nil [simp]: "batch_ok []"
  by (simp add: batch_ok_def)

lemma batch_ok_two [simp]: "batch_ok [(k, x), (l, y)] \<longleftrightarrow> k < l"
  by (simp add: batch_ok_def)

lemma apply_batch_other: "k \<notin> fst ` set b \<Longrightarrow> apply_batch b f k = f k"
  by (induction b arbitrary: f) auto

lemma apply_batch_append: "apply_batch (b @ c) f = apply_batch c (apply_batch b f)"
  by (induction b arbitrary: f) auto

lemma apply_batch_in:
  "distinct (map fst b) \<Longrightarrow> (k, x) \<in> set b \<Longrightarrow> apply_batch b f k = op_value x"
proof (induction b arbitrary: f)
  case Nil
  then show ?case by simp
next
  case (Cons p b)
  show ?case
  proof (cases "p = (k, x)")
    case True
    with Cons.prems have "k \<notin> fst ` set b" by auto
    with True show ?thesis by (simp add: apply_batch_other)
  next
    case False
    with Cons.prems show ?thesis by (auto intro: Cons.IH)
  qed
qed

lemma encode_run [run]: "codec_ok c \<Longrightarrow> encode c x s = (Inr (enc_val c x), s)"
  by (simp add: encode_def run)

lemma decode_run [run]: "codec_ok c \<Longrightarrow> decode c (enc_val c x) s = (Inr x, s)"
  by (simp add: decode_def run)

lemma decode_ok [okD]: "decode c v s = (Inr x, t) \<longleftrightarrow> dec c v = Inr x \<and> t = s"
  by (auto simp: decode_def okD)

lemma encode_ok [okD]: "encode c x s = (Inr v, t) \<longleftrightarrow> enc c x = Inr v \<and> t = s"
  by (auto simp: encode_def okD)

lemma u64_of_be [simp]: "store_ok E \<Longrightarrow> u64_of E (of_bytes E (u64_be w)) = Inr w"
  by (simp add: u64_of_def)

lemma u32_of_be [simp]: "store_ok E \<Longrightarrow> u32_of E (of_bytes E (u32_be w)) = Inr w"
  by (simp add: u32_of_def)

subsection \<open>Frames\<close>

text \<open>What an action leaves alone, whatever the environment does.\<close>

lemma keeps_encode [keepsI]: "keeps I (encode c x)"
  by (simp add: encode_def keepsI)

lemma keeps_decode [keepsI]: "keeps I (decode c x)"
  by (simp add: decode_def keepsI)

lemma keeps_db_get [keepsI]: "keeps I (db_get E f k)"
  by (simp add: db_get_def keepsI)

lemma keeps_db_apply [keepsI]:
  assumes "store_ok E" and "\<And>s. batch_ok b \<Longrightarrow> I s \<Longrightarrow> I (applied E b s)"
  shows "keeps I (db_apply E f b)"
proof (cases "batch_ok b")
  case True
  with assms show ?thesis by (simp add: keeps_def db_apply_run)
next
  case False
  have "I (snd (db_apply E f b s))" if "I s" for s
    using that db_apply_bad [OF assms(1) False, of f s] by auto
  then show ?thesis by (simp add: keeps_def)
qed

lemma keeps_db_commit [keepsI]:
  "store_ok E \<Longrightarrow> (\<And>s. I s \<Longrightarrow> I (committed E s)) \<Longrightarrow> keeps I (db_commit E f)"
  by (simp add: keeps_def db_commit_run)

section \<open>The disk behind the iterators\<close>

text \<open>
  The RocksDB iterators see what was committed, in key order; \<open>D\<close> names that map.
\<close>

definition listing :: "(bytes \<rightharpoonup> 'v) \<Rightarrow> (bytes \<Rightarrow> bool) \<Rightarrow> (bytes \<times> 'v) list \<Rightarrow> bool" where
  "listing d P es \<longleftrightarrow> sorted_wrt (<) (map fst es) \<and>
     (\<forall>k v. (k, v) \<in> set es \<longleftrightarrow> d k = Some v \<and> P k)"

definition disk_ok :: "('m, 'v, 'g) env \<Rightarrow> ('m \<Rightarrow> bytes \<rightharpoonup> 'v) \<Rightarrow> bool" where
  "disk_ok E D \<longleftrightarrow>
     (\<forall>m b. D (snd (merk_apply E m b)) = D m) \<and>
     (\<forall>m. D (snd (merk_commit E m)) = mview E m) \<and>
     (\<forall>m lo hi. \<exists>es. listing (D m) (\<lambda>k. lo \<le> k \<and> k < hi) es \<and>
        merk_iter_range E m lo hi False = map Inr es \<and>
        merk_iter_range E m lo hi True = map Inr (rev es)) \<and>
     (\<forall>m p. \<exists>es. listing (D m) (\<lambda>k. take (length p) k = p) es \<and>
        merk_iter_prefix E m p False = map Inr es \<and>
        merk_iter_prefix E m p True = map Inr (rev es))"

section \<open>Rewriting the entries of a range\<close>

text \<open>
  Loops that walk over an iterator and put a new value for some of its entries, expiry and
  migrations, make the batch \<open>map_filter g es\<close>, where \<open>g\<close> keeps the key.
\<close>

lemma map_filter_rev: "List.map_filter f (rev xs) = rev (List.map_filter f xs)"
  by (simp add: List.map_filter_def rev_filter rev_map)

lemma set_map_filter: "set (List.map_filter f xs) = {y. \<exists>x \<in> set xs. f x = Some y}"
  by (auto simp: List.map_filter_def image_iff) force

lemma sorted_map_filter:
  assumes "sorted_wrt (<) (map fst es)" and "\<And>p q. f p = Some q \<Longrightarrow> fst q = fst p"
  shows "sorted_wrt (<) (map fst (List.map_filter f es))"
  using assms(1)
proof (induction es)
  case Nil
  then show ?case by (simp add: map_filter_simps)
next
  case (Cons p es)
  have sub: "\<exists>a \<in> set es. fst q = fst a" if "q \<in> set (List.map_filter f es)" for q
    using that assms(2) by (force simp: List.map_filter_def image_iff)
  have "fst p < fst q" if "q \<in> set (List.map_filter f es)" for q
    using sub [OF that] Cons.prems by auto
  with Cons assms(2) [of p] show ?case
    by (cases "f p") (auto simp: map_filter_simps)
qed

lemma batch_ok_filtered:
  assumes "listing d P es" and "\<And>p q. g p = Some q \<Longrightarrow> fst q = fst p"
  shows "batch_ok (List.map_filter g es)"
  unfolding batch_ok_def using assms by (intro sorted_map_filter) (auto simp: listing_def)

lemma apply_filtered_disk:
  assumes l: "listing d P es" and key: "\<And>p q. g p = Some q \<Longrightarrow> fst q = fst p"
  shows "apply_batch (List.map_filter g es) f k =
    (case if P k then d k else None of None \<Rightarrow> f k
     | Some v \<Rightarrow> (case g (k, v) of None \<Rightarrow> f k | Some q \<Rightarrow> op_value (snd q)))"
proof (cases "\<exists>v q. P k \<and> d k = Some v \<and> g (k, v) = Some q")
  case True
  then obtain v q where vq: "P k" "d k = Some v" "g (k, v) = Some q" by blast
  then have "(k, v) \<in> set es" using l by (simp add: listing_def)
  with vq have "q \<in> set (List.map_filter g es)" by (auto simp: set_map_filter)
  moreover have "q = (k, snd q)" using key [OF vq(3)] by (simp add: prod_eq_iff)
  ultimately have "(k, snd q) \<in> set (List.map_filter g es)" by simp
  moreover have "distinct (map fst (List.map_filter g es))"
    using batch_ok_filtered [OF l, of g] key by (simp add: batch_ok_def strict_sorted_iff)
  ultimately show ?thesis using apply_batch_in [of _ k "snd q"] vq by simp
next
  case False
  have "k \<notin> fst ` set (List.map_filter g es)"
  proof
    assume "k \<in> fst ` set (List.map_filter g es)"
    then obtain q p where "fst q = k" "p \<in> set es" "g p = Some q" by (auto simp: set_map_filter)
    with key [of p q] False l show False
      by (cases p; cases q) (auto simp: listing_def)
  qed
  with False show ?thesis by (auto simp: apply_batch_other split: option.split)
qed

text \<open>When the disk and the tree agree on the range, every entry of the tree is rewritten.\<close>

lemma apply_filtered:
  assumes "listing d P es" and "\<And>p q. g p = Some q \<Longrightarrow> fst q = fst p"
    and "\<And>k. P k \<Longrightarrow> d k = f k"
  shows "apply_batch (List.map_filter g es) f k =
    (if P k then (case f k of None \<Rightarrow> None
       | Some v \<Rightarrow> (case g (k, v) of None \<Rightarrow> Some v | Some q \<Rightarrow> op_value (snd q))) else f k)"
proof (cases "P k")
  case True
  then have "apply_batch (List.map_filter g es) f k = (case f k of None \<Rightarrow> f k
     | Some v \<Rightarrow> (case g (k, v) of None \<Rightarrow> f k | Some q \<Rightarrow> op_value (snd q)))"
    using apply_filtered_disk [where g = g and f = f and k = k, OF assms(1,2)] assms(3) [OF True] by simp
  with True show ?thesis by (cases "f k") (simp_all cong: option.case_cong)
next
  case False
  with apply_filtered_disk [where g = g and f = f and k = k, OF assms(1,2)] show ?thesis by simp
qed

section \<open>Answers to the block chain\<close>

text \<open>What both servers return to the block chain.\<close>

record commit_info =
  retain_height :: u64
  app_hash :: bytes

record abci_info =
  info_height :: u64
  info_hash :: bytes

end
