(* ===== verification/Keys.thy ===== *)
theory Keys
  imports Store
begin

text \<open>
  The key layout of the two stores: every function that makes a key, the roots, and the
  facts that keep the parts of a store apart. The interface \<open>namespace\<close> says what a family
  of keys under a root promises (distinct indices have distinct keys, all under the root);
  its clients are the lookups of the other theories. It is interpreted on each family.
\<close>

section \<open>Roots and key functions\<close>

definition SYMBOLS_ROOT :: bytes where
  "SYMBOLS_ROOT = ''/config/symbols''"

definition IDENTITY_ROOT :: bytes where
  "IDENTITY_ROOT = ''/config/identity''"

definition HEIGHT_ROOT :: bytes where
  "HEIGHT_ROOT = ''/height''"

definition ACCOUNT_IDENTITY_ROOT :: bytes where
  "ACCOUNT_IDENTITY_ROOT = ''/config/account_identity''"

definition ACCOUNT_SUBRESOURCE_ID_ROOT :: bytes where
  "ACCOUNT_SUBRESOURCE_ID_ROOT = ''/config/account_id''"

definition TOKEN_IDENTITY_ROOT :: bytes where
  "TOKEN_IDENTITY_ROOT = ''/config/token_identity''"

definition SYMBOLS_ROOT_DASH :: bytes where
  "SYMBOLS_ROOT_DASH = SYMBOLS_ROOT @ ''/''"

definition EVENTS_ROOT :: bytes where
  "EVENTS_ROOT = ''/events/''"

definition EVENT_COUNT_ROOT :: bytes where
  "EVENT_COUNT_ROOT = ''/events_count''"

definition MULTISIG_TRANSACTIONS_ROOT :: bytes where
  "MULTISIG_TRANSACTIONS_ROOT = ''/multisig/''"

definition DATA_ATTRIBUTES_KEY :: bytes where
  "DATA_ATTRIBUTES_KEY = ''/data/attributes''"

definition DATA_INFO_KEY :: bytes where
  "DATA_INFO_KEY = ''/data/info''"

definition EVENT_ID_KEY_SIZE_IN_BYTES :: nat where
  "EVENT_ID_KEY_SIZE_IN_BYTES = 32"

definition key_for_account_balance :: "('m, 'v, 'g) env \<Rightarrow> address \<Rightarrow> symbol \<Rightarrow> bytes" where
  "key_for_account_balance E a symb =
     ''/balances/'' @ show_address E a @ ''/'' @ show_address E symb"

definition key_for_subresource_counter :: "('m, 'v, 'g) env \<Rightarrow> address \<Rightarrow> bool \<Rightarrow> bytes" where
  "key_for_subresource_counter E a token_migration_active =
     (if token_migration_active then ''/config/subresource_counter/'' @ show_address E a
      else ACCOUNT_SUBRESOURCE_ID_ROOT)"

definition key_for_symbol :: "('m, 'v, 'g) env \<Rightarrow> symbol \<Rightarrow> bytes" where
  "key_for_symbol E symb = ''/config/symbols/'' @ show_address E symb"

definition key_for_ext_info :: "('m, 'v, 'g) env \<Rightarrow> symbol \<Rightarrow> bytes" where
  "key_for_ext_info E symb = ''/config/ext_info/'' @ show_address E symb"

definition key_for_account :: "('m, 'v, 'g) env \<Rightarrow> address \<Rightarrow> bytes" where
  "key_for_account E a = ''/accounts/'' @ show_address E a"

text \<open>
  Event numbers and multisig tokens in a key: cut to 32 bytes, or padded with zero bytes on
  the left up to 32.
\<close>

definition pad_id :: "bytes \<Rightarrow> bytes" where
  "pad_id t = (let t' = (if length t > EVENT_ID_KEY_SIZE_IN_BYTES
                         then take EVENT_ID_KEY_SIZE_IN_BYTES t else t)
     in replicate (EVENT_ID_KEY_SIZE_IN_BYTES - length t') (char_of (0 :: nat)) @ t')"

definition key_for_event :: "event_id \<Rightarrow> bytes" where
  "key_for_event i = EVENTS_ROOT @ pad_id i"

definition key_for_multisig_transaction :: "bytes \<Rightarrow> bytes" where
  "key_for_multisig_transaction token = MULTISIG_TRANSACTIONS_ROOT @ pad_id token"

lemmas root_defs =
  SYMBOLS_ROOT_def IDENTITY_ROOT_def HEIGHT_ROOT_def ACCOUNT_IDENTITY_ROOT_def
  ACCOUNT_SUBRESOURCE_ID_ROOT_def TOKEN_IDENTITY_ROOT_def SYMBOLS_ROOT_DASH_def
  EVENTS_ROOT_def EVENT_COUNT_ROOT_def MULTISIG_TRANSACTIONS_ROOT_def
  DATA_ATTRIBUTES_KEY_def DATA_INFO_KEY_def

lemmas key_defs = root_defs
  key_for_account_balance_def key_for_subresource_counter_def key_for_symbol_def
  key_for_ext_info_def key_for_account_def key_for_event_def key_for_multisig_transaction_def

section \<open>What the keys rely on\<close>

definition address_ok :: "('m, 'v, 'g) env \<Rightarrow> bool" where
  "address_ok E \<longleftrightarrow>
     (\<forall>a b. show_address E a = show_address E b \<longrightarrow> a = b) \<and>
     (\<forall>a. CHR ''/'' \<notin> set (show_address E a)) \<and>
     (\<forall>a. show_address E a \<noteq> []) \<and>
     (\<forall>a. address_from_str E (show_address E a) = Inr a) \<and>
     (\<forall>a. address_from_bytes E (address_to_vec E a) = Inr a)"

definition amount_ok :: "('m, 'v, 'g) env \<Rightarrow> bool" where
  "amount_ok E \<longleftrightarrow> (\<forall>n. amount_from E (amount_to_vec E n) = n)"

lemma amount_roundtrip [simp]: "amount_ok E \<Longrightarrow> amount_from E (amount_to_vec E n) = n"
  by (simp add: amount_ok_def)

lemma show_address_inj: "address_ok E \<Longrightarrow> show_address E a = show_address E b \<longleftrightarrow> a = b"
  by (auto simp: address_ok_def)

lemma address_from_to [simp]: "address_ok E \<Longrightarrow> address_from_bytes E (address_to_vec E a) = Inr a"
  by (simp add: address_ok_def)

lemma slash_split:
  assumes "CHR ''/'' \<notin> set a" and "CHR ''/'' \<notin> set c"
  shows "a @ CHR ''/'' # b = c @ CHR ''/'' # d \<longleftrightarrow> a = c \<and> b = d"
  using assms by (auto simp: append_eq_append_conv2 append_eq_Cons_conv Cons_eq_append_conv)

lemma balance_key_inj [simp]:
  "address_ok E \<Longrightarrow> key_for_account_balance E a x = key_for_account_balance E b y \<longleftrightarrow> a = b \<and> x = y"
  by (simp add: key_for_account_balance_def slash_split address_ok_def) (metis address_ok_def)

lemma symbol_key_inj [simp]:
  "address_ok E \<Longrightarrow> key_for_symbol E x = key_for_symbol E y \<longleftrightarrow> x = y"
  by (simp add: key_for_symbol_def show_address_inj)

lemma ext_info_key_inj [simp]:
  "address_ok E \<Longrightarrow> key_for_ext_info E x = key_for_ext_info E y \<longleftrightarrow> x = y"
  by (simp add: key_for_ext_info_def show_address_inj)

lemma account_key_inj [simp]:
  "address_ok E \<Longrightarrow> key_for_account E x = key_for_account E y \<longleftrightarrow> x = y"
  by (simp add: key_for_account_def show_address_inj)

lemma counter_key_inj [simp]:
  "address_ok E \<Longrightarrow>
   key_for_subresource_counter E x True = key_for_subresource_counter E y True \<longleftrightarrow> x = y"
  by (simp add: key_for_subresource_counter_def show_address_inj)

section \<open>Padded numbers\<close>

lemma length_pad_id [simp]: "length (pad_id t) = 32"
  by (simp add: pad_id_def EVENT_ID_KEY_SIZE_IN_BYTES_def Let_def)

lemma be_nat_zeros: "be_nat (replicate n (char_of (0 :: nat)) @ t) = be_nat t"
proof (induction n)
  case 0
  then show ?case by simp
next
  case (Suc n)
  then show ?case by (simp add: be_nat_Cons)
qed

lemma be_nat_pad_id: "length t \<le> 32 \<Longrightarrow> be_nat (pad_id t) = be_nat t"
  by (simp add: pad_id_def EVENT_ID_KEY_SIZE_IN_BYTES_def Let_def be_nat_zeros)

lemma pad_id_eq_iff:
  assumes "length t \<le> 32" and "length u \<le> 32"
  shows "pad_id t = pad_id u \<longleftrightarrow> be_nat t = be_nat u"
proof
  assume "pad_id t = pad_id u"
  then have "be_nat (pad_id t) = be_nat (pad_id u)" by simp
  then show "be_nat t = be_nat u" using assms by (simp add: be_nat_pad_id)
next
  assume "be_nat t = be_nat u"
  then have "be_nat (pad_id t) = be_nat (pad_id u)" using assms by (simp add: be_nat_pad_id)
  then show "pad_id t = pad_id u" by (intro be_nat_inj) simp_all
qed

lemma pad_id_less_iff:
  assumes "length t \<le> 32" and "length u \<le> 32"
  shows "pad_id t < pad_id u \<longleftrightarrow> be_nat t < be_nat u"
  using be_nat_less_iff [of "pad_id t" "pad_id u"] assms by (simp add: be_nat_pad_id)

lemma append_less_iff: "(p @ x) < (p @ y) \<longleftrightarrow> x < (y :: bytes)"
  by (induction p) auto

section \<open>Namespaces\<close>

text \<open>
  \<open>ok\<close> is what the family needs of the environment and of an index, \<open>same\<close> when two
  indices name one entry (equality, but for event numbers, which are padded).
\<close>

locale namespace =
  fixes ok :: "'e \<Rightarrow> 'i \<Rightarrow> bool"
    and same :: "'i \<Rightarrow> 'i \<Rightarrow> bool"
    and key :: "'e \<Rightarrow> 'i \<Rightarrow> bytes"
    and root :: bytes
  assumes under_root: "take (length root) (key e i) = root"
    and key_same: "ok e i \<Longrightarrow> ok e j \<Longrightarrow> key e i = key e j \<longleftrightarrow> same i j"
begin

lemma not_under: "take (length root) k \<noteq> root \<Longrightarrow> key e i \<noteq> k"
  using under_root by metis

lemma lookup_same: "ok e i \<Longrightarrow> ok e j \<Longrightarrow> same i j \<Longrightarrow> (f(key e i := x)) (key e j) = x"
  using key_same [of e i j] by simp

lemma lookup_other: "ok e i \<Longrightarrow> ok e j \<Longrightarrow> \<not> same i j \<Longrightarrow> (f(key e i := x)) (key e j) = f (key e j)"
  using key_same [of e i j] by auto

lemma lookup_outside: "take (length root) k \<noteq> root \<Longrightarrow> (f(key e i := x)) k = f k"
  using not_under by auto

end

interpretation balances: namespace "\<lambda>E _. address_ok E" "(=)"
    "\<lambda>E (a, symb). key_for_account_balance E a symb" "''/balances/''"
  by unfold_locales
    (simp add: key_for_account_balance_def split: prod.split, simp split: prod.split)

interpretation token_infos: namespace "\<lambda>E _. address_ok E" "(=)" key_for_symbol "''/config/symbols/''"
  by unfold_locales (simp_all add: key_for_symbol_def, simp_all add: show_address_inj)

interpretation ext_infos: namespace "\<lambda>E _. address_ok E" "(=)" key_for_ext_info "''/config/ext_info/''"
  by unfold_locales (simp_all add: key_for_ext_info_def, simp_all add: show_address_inj)

interpretation accounts: namespace "\<lambda>E _. address_ok E" "(=)" key_for_account "''/accounts/''"
  by unfold_locales (simp_all add: key_for_account_def, simp_all add: show_address_inj)

interpretation events: namespace "\<lambda>_ i. length i \<le> 32" "\<lambda>i j. be_nat i = be_nat j"
    "\<lambda>_. key_for_event" "''/events/''"
  by unfold_locales (simp_all add: key_for_event_def EVENTS_ROOT_def pad_id_eq_iff)

interpretation multisigs: namespace "\<lambda>_ i. length i \<le> 32" "\<lambda>i j. be_nat i = be_nat j"
    "\<lambda>_. key_for_multisig_transaction" "''/multisig/''"
  by unfold_locales
    (simp_all add: key_for_multisig_transaction_def MULTISIG_TRANSACTIONS_ROOT_def pad_id_eq_iff)

text \<open>
  The parts of the store are apart: a key of one family is never a key of another, so a write
  to one leaves the others as they are. \<open>key_apart\<close> collects these facts.
\<close>

named_theorems key_apart \<open>keys of different families differ\<close>

lemma balance_key_apart [key_apart, simp]:
  "key_for_account_balance E a symb \<noteq> key_for_symbol E' x"
  "key_for_account_balance E a symb \<noteq> key_for_ext_info E' x"
  "key_for_account_balance E a symb \<noteq> key_for_account E' x"
  "key_for_account_balance E a symb \<noteq> key_for_event i"
  "key_for_account_balance E a symb \<noteq> key_for_multisig_transaction i"
  "key_for_account_balance E a symb \<noteq> EVENT_COUNT_ROOT"
  "key_for_account_balance E a symb \<noteq> DATA_ATTRIBUTES_KEY"
  "key_for_account_balance E a symb \<noteq> DATA_INFO_KEY"
  "key_for_account_balance E a symb \<noteq> HEIGHT_ROOT"
  "key_for_account_balance E a symb \<noteq> SYMBOLS_ROOT"
  "key_for_account_balance E a symb \<noteq> IDENTITY_ROOT"
  "key_for_account_balance E a symb \<noteq> TOKEN_IDENTITY_ROOT"
  "key_for_account_balance E a symb \<noteq> ACCOUNT_IDENTITY_ROOT"
  "key_for_account_balance E a symb \<noteq> key_for_subresource_counter E' x b"
  by (simp_all add: key_defs)

lemma symbol_key_apart [key_apart, simp]:
  "key_for_symbol E x \<noteq> key_for_ext_info E' y"
  "key_for_symbol E x \<noteq> key_for_account E' y"
  "key_for_symbol E x \<noteq> key_for_event i"
  "key_for_symbol E x \<noteq> key_for_multisig_transaction i"
  "key_for_symbol E x \<noteq> EVENT_COUNT_ROOT"
  "key_for_symbol E x \<noteq> DATA_ATTRIBUTES_KEY"
  "key_for_symbol E x \<noteq> DATA_INFO_KEY"
  "key_for_symbol E x \<noteq> HEIGHT_ROOT"
  "key_for_symbol E x \<noteq> SYMBOLS_ROOT"
  "key_for_symbol E x \<noteq> IDENTITY_ROOT"
  "key_for_symbol E x \<noteq> TOKEN_IDENTITY_ROOT"
  "key_for_symbol E x \<noteq> ACCOUNT_IDENTITY_ROOT"
  "key_for_symbol E x \<noteq> key_for_subresource_counter E' y b"
  by (simp_all add: key_defs)

lemma ext_info_key_apart [key_apart, simp]:
  "key_for_ext_info E x \<noteq> key_for_account E' y"
  "key_for_ext_info E x \<noteq> key_for_event i"
  "key_for_ext_info E x \<noteq> key_for_multisig_transaction i"
  "key_for_ext_info E x \<noteq> EVENT_COUNT_ROOT"
  "key_for_ext_info E x \<noteq> DATA_ATTRIBUTES_KEY"
  "key_for_ext_info E x \<noteq> DATA_INFO_KEY"
  "key_for_ext_info E x \<noteq> HEIGHT_ROOT"
  "key_for_ext_info E x \<noteq> SYMBOLS_ROOT"
  "key_for_ext_info E x \<noteq> IDENTITY_ROOT"
  "key_for_ext_info E x \<noteq> TOKEN_IDENTITY_ROOT"
  "key_for_ext_info E x \<noteq> ACCOUNT_IDENTITY_ROOT"
  "key_for_ext_info E x \<noteq> key_for_subresource_counter E' y b"
  by (simp_all add: key_defs)

lemma account_key_apart [key_apart, simp]:
  "key_for_account E x \<noteq> key_for_event i"
  "key_for_account E x \<noteq> key_for_multisig_transaction i"
  "key_for_account E x \<noteq> EVENT_COUNT_ROOT"
  "key_for_account E x \<noteq> DATA_ATTRIBUTES_KEY"
  "key_for_account E x \<noteq> DATA_INFO_KEY"
  "key_for_account E x \<noteq> HEIGHT_ROOT"
  "key_for_account E x \<noteq> SYMBOLS_ROOT"
  "key_for_account E x \<noteq> IDENTITY_ROOT"
  "key_for_account E x \<noteq> TOKEN_IDENTITY_ROOT"
  "key_for_account E x \<noteq> ACCOUNT_IDENTITY_ROOT"
  "key_for_account E x \<noteq> key_for_subresource_counter E' y b"
  by (simp_all add: key_defs)

lemma event_key_apart [key_apart, simp]:
  "key_for_event i \<noteq> key_for_multisig_transaction j"
  "key_for_event i \<noteq> EVENT_COUNT_ROOT"
  "key_for_event i \<noteq> DATA_ATTRIBUTES_KEY"
  "key_for_event i \<noteq> DATA_INFO_KEY"
  "key_for_event i \<noteq> HEIGHT_ROOT"
  "key_for_event i \<noteq> SYMBOLS_ROOT"
  "key_for_event i \<noteq> IDENTITY_ROOT"
  "key_for_event i \<noteq> TOKEN_IDENTITY_ROOT"
  "key_for_event i \<noteq> ACCOUNT_IDENTITY_ROOT"
  "key_for_event i \<noteq> key_for_subresource_counter E y b"
  by (simp_all add: key_defs)

lemma multisig_key_apart [key_apart, simp]:
  "key_for_multisig_transaction i \<noteq> EVENT_COUNT_ROOT"
  "key_for_multisig_transaction i \<noteq> DATA_ATTRIBUTES_KEY"
  "key_for_multisig_transaction i \<noteq> DATA_INFO_KEY"
  "key_for_multisig_transaction i \<noteq> HEIGHT_ROOT"
  "key_for_multisig_transaction i \<noteq> SYMBOLS_ROOT"
  "key_for_multisig_transaction i \<noteq> IDENTITY_ROOT"
  "key_for_multisig_transaction i \<noteq> TOKEN_IDENTITY_ROOT"
  "key_for_multisig_transaction i \<noteq> ACCOUNT_IDENTITY_ROOT"
  "key_for_multisig_transaction i \<noteq> key_for_subresource_counter E y b"
  by (simp_all add: key_defs)

lemma counter_key_apart [key_apart, simp]:
  "key_for_subresource_counter E x b \<noteq> EVENT_COUNT_ROOT"
  "key_for_subresource_counter E x b \<noteq> DATA_ATTRIBUTES_KEY"
  "key_for_subresource_counter E x b \<noteq> DATA_INFO_KEY"
  "key_for_subresource_counter E x b \<noteq> HEIGHT_ROOT"
  "key_for_subresource_counter E x b \<noteq> SYMBOLS_ROOT"
  "key_for_subresource_counter E x b \<noteq> IDENTITY_ROOT"
  "key_for_subresource_counter E x b \<noteq> TOKEN_IDENTITY_ROOT"
  "key_for_subresource_counter E x b \<noteq> ACCOUNT_IDENTITY_ROOT"
  by (simp_all add: key_defs)

lemma root_apart [key_apart, simp]:
  "EVENT_COUNT_ROOT \<noteq> DATA_ATTRIBUTES_KEY" "EVENT_COUNT_ROOT \<noteq> HEIGHT_ROOT"
  "EVENT_COUNT_ROOT \<noteq> SYMBOLS_ROOT" "EVENT_COUNT_ROOT \<noteq> IDENTITY_ROOT"
  "EVENT_COUNT_ROOT \<noteq> TOKEN_IDENTITY_ROOT" "EVENT_COUNT_ROOT \<noteq> ACCOUNT_IDENTITY_ROOT"
  "DATA_ATTRIBUTES_KEY \<noteq> HEIGHT_ROOT" "DATA_ATTRIBUTES_KEY \<noteq> SYMBOLS_ROOT"
  "DATA_ATTRIBUTES_KEY \<noteq> IDENTITY_ROOT" "DATA_ATTRIBUTES_KEY \<noteq> DATA_INFO_KEY"
  "HEIGHT_ROOT \<noteq> SYMBOLS_ROOT" "HEIGHT_ROOT \<noteq> IDENTITY_ROOT"
  "SYMBOLS_ROOT \<noteq> IDENTITY_ROOT" "SYMBOLS_ROOT \<noteq> TOKEN_IDENTITY_ROOT"
  "SYMBOLS_ROOT \<noteq> ACCOUNT_IDENTITY_ROOT" "IDENTITY_ROOT \<noteq> TOKEN_IDENTITY_ROOT"
  "IDENTITY_ROOT \<noteq> ACCOUNT_IDENTITY_ROOT" "TOKEN_IDENTITY_ROOT \<noteq> ACCOUNT_IDENTITY_ROOT"
  by (simp_all add: root_defs)

lemmas key_apart_sym [simp] = key_apart [symmetric]

end
