(* ===== verification/LedgerStorage.thy ===== *)
theory LedgerStorage
  imports Keys
begin

text \<open>
  \<open>many-ledger/src/storage.rs\<close>, \<open>storage/iterator.rs\<close>, \<open>storage/event.rs\<close>: the state of the
  ledger, its height, hash, symbols and subresource counters, the event log, and the way a
  storage is made (\<open>new\<close>, \<open>load\<close>, \<open>build\<close>).
\<close>

record ('m, 'g) ledger = "'m backend" +
  latest_tid :: event_id
  migrations :: 'g

type_synonym ('m, 'g, 'a) ledger_op = "(('m, 'g) ledger, 'a) op"

definition TOKEN_MIGRATION :: string where
  "TOKEN_MIGRATION = ''Token Migration''"

definition MEMO_MIGRATION :: string where
  "MEMO_MIGRATION = ''Memo Migration''"

definition HEIGHT_EVENTID_SHIFT :: nat where
  "HEIGHT_EVENTID_SHIFT = 32"

abbreviation "get_failed \<equiv> \<lambda>d. StorageError (StorageGetFailed d)"
abbreviation "apply_failed \<equiv> \<lambda>d. StorageError (StorageApplyFailed d)"
abbreviation "commit_failed \<equiv> \<lambda>d. StorageError (StorageCommitFailed d)"

section \<open>Time, height, hash\<close>

definition set_time :: "timestamp \<Rightarrow> ('m, 'g, unit) ledger_op" where
  "set_time t = modify (\<lambda>s. s\<lparr>current_time := Some t\<rparr>)"

definition now :: "('m, 'v, 'g) env \<Rightarrow> ('m, 'z) backend_scheme \<Rightarrow> timestamp" where
  "now E s = (case current_time s of None \<Rightarrow> wall_clock E | Some t \<Rightarrow> t)"

definition token_migration_active :: "('m, 'v, 'g) env \<Rightarrow> ('m, 'g) ledger \<Rightarrow> bool" where
  "token_migration_active E s = migration_active E (migrations s) TOKEN_MIGRATION"

definition commit_storage :: "('m, 'v, 'g) env \<Rightarrow> ('m, 'g, unit) ledger_op" where
  "commit_storage E = db_commit E commit_failed"

definition maybe_commit :: "('m, 'v, 'g) env \<Rightarrow> ('m, 'g, unit) ledger_op" where
  "maybe_commit E = bnd (gets blockchain) (\<lambda>b. whenever (\<not> b) (commit_storage E))"

definition get_height :: "('m, 'v, 'g) env \<Rightarrow> ('m, 'g, u64) ledger_op" where
  "get_height E = bnd (db_get E get_failed HEIGHT_ROOT)
     (\<lambda>x. case x of None \<Rightarrow> ret 0 | Some v \<Rightarrow> lift (u64_of E v))"

definition inc_height :: "('m, 'v, 'g) env \<Rightarrow> ('m, 'g, u64) ledger_op" where
  "inc_height E = bnd (get_height E) (\<lambda>current_height.
     andthen (db_apply E apply_failed [(HEIGHT_ROOT, Put (of_bytes E (u64_be (current_height + 1))))])
       (ret current_height))"

definition hash :: "('m, 'v, 'g) env \<Rightarrow> ('m, 'z) backend_scheme \<Rightarrow> bytes" where
  "hash E s = (case current_hash s of None \<Rightarrow> merk_root_hash E (persistent_store s) | Some h \<Rightarrow> h)"

definition get_identity :: "('m, 'v, 'g) env \<Rightarrow> bytes \<Rightarrow> ('m, 'g, address) ledger_op" where
  "get_identity E identity_root = bnd (db_get E get_failed identity_root)
     (\<lambda>x. bnd (lift (ok_or (LedgerError (StorageKeyNotFound identity_root)) x))
     (\<lambda>b. lift (from_many (address_from_bytes E b))))"

section \<open>Iterators\<close>

datatype sort_order = Indeterminate | Ascending | Descending

datatype 'a bound = Included 'a | Excluded 'a | Unbounded

definition from_end :: "sort_order \<Rightarrow> bool" where
  "from_end ord = (case ord of Indeterminate \<Rightarrow> False | Ascending \<Rightarrow> False | Descending \<Rightarrow> True)"

definition all_multisig :: "('m, 'v, 'g) env \<Rightarrow> 'm \<Rightarrow> sort_order \<Rightarrow> (string + bytes \<times> 'v) list" where
  "all_multisig E m ord = merk_iter_prefix E m MULTISIG_TRANSACTIONS_ROOT (from_end ord)"

definition all_symbols :: "('m, 'v, 'g) env \<Rightarrow> 'm \<Rightarrow> sort_order \<Rightarrow> (string + bytes \<times> 'v) list" where
  "all_symbols E m ord = merk_iter_prefix E m SYMBOLS_ROOT_DASH (from_end ord)"

definition events_lower :: "('m, 'v, 'g) env \<Rightarrow> event_id bound \<Rightarrow> bytes" where
  "events_lower E b = (case b of
     Included x \<Rightarrow> key_for_event x
   | Excluded x \<Rightarrow> key_for_event (event_id_add E x 1)
   | Unbounded \<Rightarrow> EVENTS_ROOT)"

definition events_upper :: "('m, 'v, 'g) env \<Rightarrow> event_id bound \<Rightarrow> bytes" where
  "events_upper E b = (case b of
     Included x \<Rightarrow> key_for_event (event_id_add E x 1)
   | Excluded x \<Rightarrow> key_for_event x
   | Unbounded \<Rightarrow> butlast EVENTS_ROOT @ [char_of (of_char (last EVENTS_ROOT) + (1 :: nat))])"

definition events_scoped_by_id :: "('m, 'v, 'g) env \<Rightarrow> 'm \<Rightarrow> event_id bound \<times> event_id bound \<Rightarrow>
    sort_order \<Rightarrow> (string + bytes \<times> 'v) list" where
  "events_scoped_by_id E m id_range ord =
     merk_iter_range E m (events_lower E (fst id_range)) (events_upper E (snd id_range)) (from_end ord)"

definition all_events :: "('m, 'v, 'g) env \<Rightarrow> 'm \<Rightarrow> (string + bytes \<times> 'v) list" where
  "all_events E m = events_scoped_by_id E m (Unbounded, Unbounded) Indeterminate"

section \<open>Symbols\<close>

definition get_symbols_and_tickers :: "('m, 'v, 'g) env \<Rightarrow> ('m, 'g, symbols) ledger_op" where
  "get_symbols_and_tickers E = bnd (db_get E get_failed SYMBOLS_ROOT)
     (\<lambda>x. bnd (lift (ok_or (LedgerError (StorageKeyNotFound SYMBOLS_ROOT)) x))
     (\<lambda>v. decode (c_symbols E) v))"

definition symbol_of_key :: "('m, 'v, 'g) env \<Rightarrow> bytes \<Rightarrow> symbol res" where
  "symbol_of_key E k = (let t = drop (length SYMBOLS_ROOT_DASH) k in
     if valid_utf8 t then from_many (address_from_str E t)
     else Inl (Err (DeserializationError ''invalid utf-8'')))"

primrec collect_symbols :: "('m, 'v, 'g) env \<Rightarrow> (string + bytes \<times> 'v) list \<Rightarrow> symbol list \<Rightarrow>
    symbol list res" where
  "collect_symbols E [] acc = Inr acc"
| "collect_symbols E (item # its) acc =
     rbind (map_err Unknown item) (\<lambda>(k, _).
     rbind (symbol_of_key E k) (\<lambda>symb. collect_symbols E its (bs_insert symb acc)))"

text \<open>\<open>_get_symbols\<close> reads the symbols off the keys under \<open>/config/symbols/\<close>.\<close>

definition get_symbols_from_keys :: "('m, 'v, 'g) env \<Rightarrow> ('m, 'g, symbol list) ledger_op" where
  "get_symbols_from_keys E =
     reads (\<lambda>s. collect_symbols E (all_symbols E (persistent_store s) Indeterminate) [])"

definition get_symbols :: "('m, 'v, 'g) env \<Rightarrow> ('m, 'g, symbol list) ledger_op" where
  "get_symbols E = bnd (gets (token_migration_active E)) (\<lambda>active.
     if active then get_symbols_from_keys E
     else bnd (get_symbols_and_tickers E) (\<lambda>m. ret (map fst m)))"

section \<open>Subresources\<close>

definition get_subresource_counter :: "('m, 'v, 'g) env \<Rightarrow> address \<Rightarrow> ('m, 'g, u32) ledger_op" where
  "get_subresource_counter E a = bnd (gets (token_migration_active E)) (\<lambda>active.
     bnd (db_get E get_failed (key_for_subresource_counter E a active))
     (\<lambda>x. case x of None \<Rightarrow> ret 0 | Some v \<Rightarrow> lift (u32_of E v)))"

text \<open>
  The search for a free subresource, a loop of the source: \<open>None\<close> if it never returned.
\<close>

partial_function (option) next_free_id :: "('m, 'v, 'g) env \<Rightarrow> address \<Rightarrow> symbol list \<Rightarrow> u32 \<Rightarrow>
    address \<Rightarrow> u32 res option" where
  "next_free_id E ident syms current_id next_subresource =
     (if next_subresource \<in> set syms then
        (if current_id + 1 > max_subresource_id E
         then Some (Inl (Err (TokenError (SubresourceExhausted ident))))
         else (case with_subresource_id E ident (current_id + 1) of
             Inl e \<Rightarrow> Some (Inl (Err e))
           | Inr a \<Rightarrow> next_free_id E ident syms (current_id + 1) a))
      else Some (Inr current_id))"

definition subresource_identity :: "('m, 'v, 'g) env \<Rightarrow> bytes \<Rightarrow> ('m, 'g, address) ledger_op" where
  \<comment> \<open>the identity under \<open>identity_root\<close>, or else the server's\<close>
  "subresource_identity E identity_root = bnd (db_get E get_failed identity_root)
     (\<lambda>x. case x of None \<Rightarrow> get_identity E IDENTITY_ROOT
                  | Some b \<Rightarrow> lift (from_many (address_from_bytes E b)))"

definition get_next_subresource :: "('m, 'v, 'g) env \<Rightarrow> bytes \<Rightarrow> ('m, 'g, address) ledger_op" where
  "get_next_subresource E identity_root =
     bnd (subresource_identity E identity_root) (\<lambda>ident.
     bnd (get_subresource_counter E ident) (\<lambda>first_id.
     if first_id > max_subresource_id E then raise (TokenError (SubresourceExhausted ident))
     else bnd (get_symbols E) (\<lambda>syms.
     bnd (lift (from_many (with_subresource_id E ident first_id))) (\<lambda>first.
     bnd (lift (case next_free_id E ident syms first_id first of None \<Rightarrow> Inl Diverges | Some r \<Rightarrow> r))
       (\<lambda>current_id.
     bnd (gets (token_migration_active E)) (\<lambda>active.
     andthen (db_apply E apply_failed
        [(key_for_subresource_counter E ident active, Put (of_bytes E (u32_be (current_id + 1))))])
     (bnd (subresource_identity E identity_root) (\<lambda>ident'.
        lift (from_many (with_subresource_id E ident' current_id))))))))))"

section \<open>Events\<close>

definition new_event_id :: "('m, 'v, 'g) env \<Rightarrow> ('m, 'g, event_id) ledger_op" where
  "new_event_id E = andthen (modify (\<lambda>s. s\<lparr>latest_tid := event_id_add E (latest_tid s) 1\<rparr>))
     (gets latest_tid)"

definition nb_events :: "('m, 'v, 'g) env \<Rightarrow> ('m, 'g, u64) ledger_op" where
  "nb_events E = bnd (db_get E get_failed EVENT_COUNT_ROOT)
     (\<lambda>x. case x of None \<Rightarrow> ret 0 | Some v \<Rightarrow> lift (u64_of E v))"

definition log_event :: "('m, 'v, 'g) env \<Rightarrow> event_info \<Rightarrow> ('m, 'g, unit) ledger_op" where
  "log_event E content =
     bnd (nb_events E) (\<lambda>current_nb_events.
     bnd (new_event_id E) (\<lambda>i.
     bnd (gets (now E)) (\<lambda>t.
     bnd (encode (c_event E) \<lparr>ev_id = i, ev_time = t, ev_content = content\<rparr>) (\<lambda>v.
     andthen (db_apply E apply_failed
        [(key_for_event i, Put v),
         (EVENT_COUNT_ROOT, Put (of_bytes E (u64_be (current_nb_events + 1))))])
     (maybe_commit E)))))"

section \<open>Making a storage\<close>

text \<open>
  \<open>opened\<close> is what \<open>InnerStorage::open\<close> returned; \<open>load_migrations\<close> is
  \<open>LedgerMigrations::load\<close> on the given configuration, if there is one.
\<close>

definition height_in :: "('m, 'v, 'g) env \<Rightarrow> 'm \<Rightarrow> u64 res" where
  "height_in E m = rbind (map_err get_failed (merk_get E m HEIGHT_ROOT))
     (\<lambda>x. case x of None \<Rightarrow> Inr 0 | Some v \<Rightarrow> u64_of E v)"

definition storage_load :: "('m, 'v, 'g) env \<Rightarrow> string + 'm \<Rightarrow> bool \<Rightarrow>
    (u64 \<Rightarrow> many_error + 'g) option \<Rightarrow> ('m, 'g) ledger res" where
  "storage_load E opened bc load_migrations =
     rbind (map_err (\<lambda>d. StorageError (StorageOpenFailed d)) opened) (\<lambda>m.
     rbind (height_in E m) (\<lambda>height.
     rbind (case (case load_migrations of None \<Rightarrow> migration_empty E | Some f \<Rightarrow> f height) of
              Inl e \<Rightarrow> Inl (Err (StorageError (UnableToLoadMigrations (show_error E e))))
            | Inr g \<Rightarrow> Inr g) (\<lambda>g.
     Inr \<lparr>persistent_store = m, blockchain = bc, current_time = None, current_hash = None,
          latest_tid = event_id_from E
            (push_bit HEIGHT_EVENTID_SHIFT (if height = 0 then 0 else height - 1)),
          migrations = g\<rparr>)))"

definition storage_new :: "('m, 'v, 'g) env \<Rightarrow> string + 'm \<Rightarrow> symbols \<Rightarrow> address \<Rightarrow> bool \<Rightarrow>
    ('m, 'g) ledger res" where
  "storage_new E opened syms identity bc =
     rbind (map_err Unknown opened) (\<lambda>m.
     rbind (map_err SerializationError (enc (c_symbols E) syms)) (\<lambda>v.
     (case andthen (db_apply E apply_failed
             [(IDENTITY_ROOT, Put (address_to_vec E identity)), (SYMBOLS_ROOT, Put v)])
           (db_commit E commit_failed)
           \<lparr>persistent_store = m, blockchain = bc, current_time = None, current_hash = None\<rparr> of
        (Inl e, _) \<Rightarrow> Inl e
      | (Inr _, b) \<Rightarrow>
          (case migration_empty E of
             Inl e \<Rightarrow> Inl (Err (Unknown (show_error E e)))
           | Inr g \<Rightarrow> Inr \<lparr>persistent_store = persistent_store b, blockchain = bc,
               current_time = None, current_hash = None,
               latest_tid = [char_of (0 :: nat)], migrations = g\<rparr>))))"

definition storage_build :: "('m, 'v, 'g) env \<Rightarrow> ('m, 'g, unit) ledger_op" where
  "storage_build E = db_commit E commit_failed"

text \<open>\<open>with_migrations\<close>: the registry is loaded as of height 0.\<close>

definition with_migrations :: "('m, 'v, 'g) env \<Rightarrow> (u64 \<Rightarrow> many_error + 'g) option \<Rightarrow>
    ('m, 'g, unit) ledger_op" where
  "with_migrations E load_migrations =
     (case (case load_migrations of None \<Rightarrow> migration_empty E | Some f \<Rightarrow> f 0) of
        Inl e \<Rightarrow> raise (Unknown (show_error E e))
      | Inr g \<Rightarrow> modify (\<lambda>s. s\<lparr>migrations := g\<rparr>))"

text \<open>A hotfix replaces the response of one transaction, if one is registered and active.\<close>

definition block_hotfix :: "('m, 'v, 'g) env \<Rightarrow> string \<Rightarrow> bytes \<times> response \<Rightarrow>
    ('m, 'g, response option) ledger_op" where
  "block_hotfix E hotfix_name data =
     bnd (encode (c_block_tx E) data) (\<lambda>data_enc.
     bnd (get_height E) (\<lambda>h.
     bnd (reads (\<lambda>s. from_many (migration_hotfix E (migrations s) hotfix_name data_enc (h + 1))))
     (\<lambda>r. case r of None \<Rightarrow> ret None
                  | Some d \<Rightarrow> bnd (decode (c_response E) d) (\<lambda>x. ret (Some x)))))"

section \<open>Runs\<close>

definition maybe_committed :: "('m, 'v, 'g) env \<Rightarrow> ('m, 'g) ledger \<Rightarrow> ('m, 'g) ledger" where
  "maybe_committed E s = (if blockchain s then s else committed E s)"

lemma ledger_fields [simp]:
  "latest_tid (applied E b s) = latest_tid s"
  "migrations (applied E b s) = migrations s"
  "latest_tid (committed E s) = latest_tid s"
  "migrations (committed E s) = migrations s"
  "latest_tid (maybe_committed E s) = latest_tid s"
  "migrations (maybe_committed E s) = migrations s"
  "blockchain (maybe_committed E s) = blockchain s"
  "current_time (maybe_committed E s) = current_time s"
  "current_hash (maybe_committed E s) = current_hash s"
  by (simp_all add: applied_def committed_def maybe_committed_def)

lemma view_maybe_committed [simp]: "store_ok E \<Longrightarrow> view E (maybe_committed E s) = view E s"
  by (simp add: maybe_committed_def)

lemma view_ledger_fields [simp]:
  "view E (s\<lparr>latest_tid := i\<rparr>) = view E s"
  "view E (s\<lparr>migrations := g\<rparr>) = view E s"
  by (simp_all add: view_def)

lemma now_fields [simp]:
  "now E (applied E b s) = now E s"
  "now E (committed E s) = now E s"
  "now E (maybe_committed E s') = now E s'"
  "now E (s'\<lparr>latest_tid := i\<rparr>) = now E s'"
  by (simp_all add: now_def)

lemma token_migration_fields [simp]:
  "token_migration_active E (applied E b s) = token_migration_active E s"
  "token_migration_active E (committed E s) = token_migration_active E s"
  "token_migration_active E (maybe_committed E s) = token_migration_active E s"
  "token_migration_active E (s\<lparr>latest_tid := i\<rparr>) = token_migration_active E s"
  by (simp_all add: token_migration_active_def)

lemma commit_storage_run [run]: "store_ok E \<Longrightarrow> commit_storage E s = (Inr (), committed E s)"
  by (simp add: commit_storage_def run)

lemma maybe_commit_run [run]: "store_ok E \<Longrightarrow> maybe_commit E s = (Inr (), maybe_committed E s)"
  by (simp add: maybe_commit_def maybe_committed_def run)

definition counter_at :: "('m, 'v, 'g) env \<Rightarrow> ('m, 'g) ledger \<Rightarrow> bytes \<Rightarrow> u64 res" where
  "counter_at E s k = (case view E s k of None \<Rightarrow> Inr 0 | Some v \<Rightarrow> u64_of E v)"

lemma get_height_run [run]: "store_ok E \<Longrightarrow> get_height E s = (counter_at E s HEIGHT_ROOT, s)"
  by (simp add: get_height_def counter_at_def run split: option.split)

lemma nb_events_run [run]: "store_ok E \<Longrightarrow> nb_events E s = (counter_at E s EVENT_COUNT_ROOT, s)"
  by (simp add: nb_events_def counter_at_def run split: option.split)

lemma new_event_id_run [run]:
  "new_event_id E s = (Inr (event_id_add E (latest_tid s) 1),
     s\<lparr>latest_tid := event_id_add E (latest_tid s) 1\<rparr>)"
  by (simp add: new_event_id_def run)

lemma event_key_sorted [simp]: "key_for_event i < EVENT_COUNT_ROOT"
  by (simp add: key_for_event_def EVENTS_ROOT_def EVENT_COUNT_ROOT_def less_char_def)

text \<open>The state after an event was logged, given that the count before it was \<open>n\<close>.\<close>

definition logged :: "('m, 'v, 'g) env \<Rightarrow> event_info \<Rightarrow> u64 \<Rightarrow> ('m, 'g) ledger \<Rightarrow>
    ('m, 'g) ledger" where
  "logged E content n s = (let i = event_id_add E (latest_tid s) 1 in
     maybe_committed E (applied E
       [(key_for_event i, Put (enc_val (c_event E) \<lparr>ev_id = i, ev_time = now E s, ev_content = content\<rparr>)),
        (EVENT_COUNT_ROOT, Put (of_bytes E (u64_be (n + 1))))] (s\<lparr>latest_tid := i\<rparr>)))"

lemma log_event_run:
  assumes "store_ok E" and "codec_ok (c_event E)" and "counter_at E s EVENT_COUNT_ROOT = Inr n"
  shows "log_event E content s = (Inr (), logged E content n s)"
  using assms by (simp add: log_event_def logged_def run Let_def now_def)

lemma logged_fields [simp]:
  "blockchain (logged E c n s) = blockchain s"
  "current_time (logged E c n s) = current_time s"
  "current_hash (logged E c n s) = current_hash s"
  "migrations (logged E c n s) = migrations s"
  "latest_tid (logged E c n s) = event_id_add E (latest_tid s) 1"
  by (simp_all add: logged_def Let_def)

lemma view_logged:
  assumes "store_ok E"
  shows "view E (logged E c n s) = (view E s)
    (key_for_event (event_id_add E (latest_tid s) 1) \<mapsto> enc_val (c_event E)
        \<lparr>ev_id = event_id_add E (latest_tid s) 1, ev_time = now E s, ev_content = c\<rparr>,
     EVENT_COUNT_ROOT \<mapsto> of_bytes E (u64_be (n + 1)))"
proof -
  let ?i = "event_id_add E (latest_tid s) 1"
  have "view E (logged E c n s) = apply_batch
      [(key_for_event ?i, Put (enc_val (c_event E) \<lparr>ev_id = ?i, ev_time = now E s, ev_content = c\<rparr>)),
       (EVENT_COUNT_ROOT, Put (of_bytes E (u64_be (n + 1))))] (view E s)"
    unfolding logged_def Let_def using assms by (subst view_maybe_committed) simp_all
  then show ?thesis by simp
qed

text \<open>Away from the log and its counter, logging changes nothing.\<close>

lemma view_logged_other:
  assumes "store_ok E" and "\<And>i. k \<noteq> key_for_event i" and "k \<noteq> EVENT_COUNT_ROOT"
  shows "view E (logged E c n s) k = view E s k"
  using assms by (simp add: view_logged)

lemma counter_logged:
  assumes "store_ok E"
  shows "counter_at E (logged E c n s) EVENT_COUNT_ROOT = Inr (n + 1)"
  using assms by (simp add: counter_at_def view_logged)

section \<open>The log is append-only\<close>

definition event_id_limit :: nat where
  "event_id_limit = 256 ^ 32"

definition event_id_ok :: "('m, 'v, 'g) env \<Rightarrow> bool" where
  "event_id_ok E \<longleftrightarrow>
     (\<forall>i n. be_nat (event_id_add E i n) = be_nat i + n) \<and>
     (\<forall>i n. be_nat i + n < event_id_limit \<longrightarrow> length (event_id_add E i n) \<le> 32) \<and>
     (\<forall>h. be_nat (event_id_from E h) = unat h \<and> length (event_id_from E h) \<le> 32)"

lemma event_id_num [simp]: "event_id_ok E \<Longrightarrow> be_nat (event_id_add E i n) = be_nat i + n"
  by (simp add: event_id_ok_def)

lemma event_id_fits [simp]:
  "event_id_ok E \<Longrightarrow> be_nat i + n < event_id_limit \<Longrightarrow> length (event_id_add E i n) \<le> 32"
  by (simp add: event_id_ok_def)

lemma event_id_of_height [simp]:
  "event_id_ok E \<Longrightarrow> be_nat (event_id_from E h) = unat h"
  "event_id_ok E \<Longrightarrow> length (event_id_from E h) \<le> 32"
  unfolding event_id_ok_def by blast+

definition events_below :: "('m, 'v, 'g) env \<Rightarrow> ('m, 'g) ledger \<Rightarrow> bool" where
  "events_below E s \<longleftrightarrow> length (latest_tid s) \<le> 32 \<and>
     (\<forall>i. length i \<le> 32 \<longrightarrow> view E s (key_for_event i) \<noteq> None \<longrightarrow> be_nat i \<le> be_nat (latest_tid s))"

lemma event_key_eq [simp]:
  "length i \<le> 32 \<Longrightarrow> length j \<le> 32 \<Longrightarrow> key_for_event i = key_for_event j \<longleftrightarrow> be_nat i = be_nat j"
  using events.key_same by simp

lemma next_event_fresh:
  assumes "event_id_ok E" and "events_below E s" and "be_nat (latest_tid s) + 1 < event_id_limit"
  shows "length (event_id_add E (latest_tid s) 1) \<le> 32"
    and "view E s (key_for_event (event_id_add E (latest_tid s) 1)) = None"
proof -
  show len: "length (event_id_add E (latest_tid s) 1) \<le> 32"
    using assms(1,3) by (intro event_id_fits)
  show "view E s (key_for_event (event_id_add E (latest_tid s) 1)) = None"
  proof (rule ccontr)
    assume "view E s (key_for_event (event_id_add E (latest_tid s) 1)) \<noteq> None"
    with assms(2) len have "be_nat (event_id_add E (latest_tid s) 1) \<le> be_nat (latest_tid s)"
      unfolding events_below_def by blast
    with assms(1) show False by simp
  qed
qed

lemma events_below_logged:
  assumes "store_ok E" and "event_id_ok E" and "events_below E s"
    and "be_nat (latest_tid s) + 1 < event_id_limit"
  shows "events_below E (logged E c n s)"
proof -
  let ?j = "event_id_add E (latest_tid s) 1"
  have num: "be_nat ?j = be_nat (latest_tid s) + 1"
    using assms(2) by simp
  have len: "length ?j \<le> 32"
    using next_event_fresh(1) assms by blast
  have "be_nat i \<le> be_nat ?j"
    if i: "length i \<le> 32" and v: "view E (logged E c n s) (key_for_event i) \<noteq> None" for i
  proof (cases "be_nat i = be_nat ?j")
    case False
    with i len have "key_for_event i \<noteq> key_for_event ?j" by simp
    with v have "view E s (key_for_event i) \<noteq> None" by (simp add: view_logged assms(1))
    with assms(3) i show ?thesis unfolding events_below_def num by fastforce
  qed simp
  with len show ?thesis by (simp add: events_below_def)
qed

section \<open>The range of an event iterator\<close>

fun above :: "'a bound \<Rightarrow> ('a \<Rightarrow> nat) \<Rightarrow> nat \<Rightarrow> bool" where
  "above (Included x) f n = (f x \<le> n)"
| "above (Excluded x) f n = (f x < n)"
| "above Unbounded f n = True"

fun below :: "'a bound \<Rightarrow> ('a \<Rightarrow> nat) \<Rightarrow> nat \<Rightarrow> bool" where
  "below (Included x) f n = (n \<le> f x)"
| "below (Excluded x) f n = (n < f x)"
| "below Unbounded f n = True"

fun bound_fits :: "event_id bound \<Rightarrow> bool" where
  "bound_fits (Included x) = (length x \<le> 32 \<and> be_nat x + 1 < event_id_limit)"
| "bound_fits (Excluded x) = (length x \<le> 32 \<and> be_nat x + 1 < event_id_limit)"
| "bound_fits Unbounded = True"

lemma event_key_less: "length i \<le> 32 \<Longrightarrow> length j \<le> 32 \<Longrightarrow>
    key_for_event i < key_for_event j \<longleftrightarrow> be_nat i < be_nat j"
  by (simp add: key_for_event_def append_less_iff pad_id_less_iff)

lemma event_key_le: "length i \<le> 32 \<Longrightarrow> length j \<le> 32 \<Longrightarrow>
    key_for_event i \<le> key_for_event j \<longleftrightarrow> be_nat i \<le> be_nat j"
  by (simp add: order_le_less event_key_less)

lemma root_le_event_key: "EVENTS_ROOT \<le> key_for_event i"
  by (simp add: key_for_event_def EVENTS_ROOT_def)

lemma event_key_less_end: "key_for_event i < events_upper E Unbounded"
  by (simp add: key_for_event_def EVENTS_ROOT_def events_upper_def less_char_def)

lemma events_lower_iff:
  assumes "event_id_ok E" and "bound_fits b" and "length i \<le> 32"
  shows "events_lower E b \<le> key_for_event i \<longleftrightarrow> above b be_nat (be_nat i)"
proof (cases b)
  case (Included x)
  with assms show ?thesis by (simp add: events_lower_def event_key_le)
next
  case (Excluded x)
  with assms have "length (event_id_add E x 1) \<le> 32" by (intro event_id_fits) simp_all
  with Excluded assms show ?thesis by (simp add: events_lower_def event_key_le Suc_le_eq)
next
  case Unbounded
  then show ?thesis by (simp add: events_lower_def root_le_event_key)
qed

lemma events_upper_iff:
  assumes "event_id_ok E" and "bound_fits b" and "length i \<le> 32"
  shows "key_for_event i < events_upper E b \<longleftrightarrow> below b be_nat (be_nat i)"
proof (cases b)
  case (Included x)
  with assms have "length (event_id_add E x 1) \<le> 32" by (intro event_id_fits) simp_all
  with Included assms show ?thesis by (simp add: events_upper_def event_key_less less_Suc_eq_le)
next
  case (Excluded x)
  with assms show ?thesis by (simp add: events_upper_def event_key_less)
next
  case Unbounded
  then show ?thesis by (simp add: event_key_less_end)
qed

section \<open>What the ledger relies on\<close>

text \<open>The laws of the external code that the ledger's proofs use, in one hypothesis.\<close>

definition env_ok :: "('m, 'v, 'g) env \<Rightarrow> bool" where
  "env_ok E \<longleftrightarrow> store_ok E \<and> address_ok E \<and> amount_ok E \<and> event_id_ok E \<and>
     codec_ok (c_symbols E) \<and> codec_ok (c_token_info E) \<and> codec_ok (c_ext_info E) \<and>
     codec_ok (c_event E) \<and> codec_ok (c_multisig E) \<and> codec_ok (c_account E) \<and>
     codec_ok (c_data_attributes E) \<and> codec_ok (c_data_info E)"

lemma env_okD [simp]:
  assumes "env_ok E"
  shows "store_ok E" "address_ok E" "amount_ok E" "event_id_ok E"
    "codec_ok (c_symbols E)" "codec_ok (c_token_info E)" "codec_ok (c_ext_info E)"
    "codec_ok (c_event E)" "codec_ok (c_multisig E)" "codec_ok (c_account E)"
    "codec_ok (c_data_attributes E)" "codec_ok (c_data_info E)"
  using assms by (simp_all add: env_ok_def)

end
