(* ===== verification/Reference.thy ===== *)
theory Reference
  imports LedgerStorage "HOL-Library.AList"
begin

text \<open>
  An environment in which everything the proofs rely on holds, so that no hypothesis about
  the external code is empty: a store of two association lists (the working tree and the
  disk), serialisers that tag a value with its type, addresses as numbers written in unary,
  event numbers as shortest big-endian byte strings. The witnesses of the properties run in
  it. \<open>ref_env_ok\<close> shows that it meets the laws of \<open>env_ok\<close>, \<open>ref_disk_ok\<close> those of the
  iterators.
\<close>

datatype (plugins only: code) ref_value =
    RBytes bytes
  | RAmount nat
  | RAddress address
  | RSymbols symbols
  | RTokenInfo token_info
  | RExtInfo ext_info
  | REvent event_log
  | RMultisig multisig_storage
  | RAccount account
  | RDataInfo "(data_index \<times> data_info) list"
  | RDataAttributes "(data_index \<times> data_value) list"
  | RCredential credential
  | RKvMetadata kv_metadata
  | REventId event_id

record ref_store =
  work :: "(bytes \<times> ref_value) list"
  disk :: "(bytes \<times> ref_value) list"

fun put_op :: "bytes \<times> ref_value store_op \<Rightarrow> (bytes \<times> ref_value) list \<Rightarrow> (bytes \<times> ref_value) list" where
  "put_op (k, Put v) m = AList.update k v m"
| "put_op (k, Delete) m = AList.delete k m"

definition ref_apply :: "ref_store \<Rightarrow> (bytes \<times> ref_value store_op) list \<Rightarrow> (string + unit) \<times> ref_store" where
  "ref_apply m b = (if batch_ok b then (Inr (), m\<lparr>work := fold put_op b (work m)\<rparr>)
     else (Inl ''Keys in batch must be sorted'', m))"

definition ref_entries :: "ref_store \<Rightarrow> (bytes \<times> ref_value) list" where
  "ref_entries m = sort_key fst (AList.clearjunk (disk m))"

definition ref_list :: "(bytes \<Rightarrow> bool) \<Rightarrow> bool \<Rightarrow> ref_store \<Rightarrow> (string + bytes \<times> ref_value) list" where
  "ref_list P backwards m = (let es = filter (\<lambda>(k, _). P k) (ref_entries m)
     in map Inr (if backwards then rev es else es))"

function nat_bytes :: "nat \<Rightarrow> bytes" where
  "nat_bytes n = (if n < 256 then [char_of n] else nat_bytes (n div 256) @ [char_of (n mod 256)])"
  by pat_completeness auto
termination
  by (relation "measure id") auto

declare nat_bytes.simps [simp del]

definition tagged :: "('x \<Rightarrow> ref_value) \<Rightarrow> (ref_value \<Rightarrow> 'x option) \<Rightarrow> ('x, ref_value) codec" where
  "tagged c d = \<lparr>enc = (\<lambda>x. Inr (c x)),
     dec = (\<lambda>v. case d v of None \<Rightarrow> Inl ''unexpected type'' | Some x \<Rightarrow> Inr x)\<rparr>"

definition opaque :: "('x, bytes) codec" where
  "opaque = \<lparr>enc = (\<lambda>_. Inr ''''), dec = (\<lambda>_. Inl ''not decoded'')\<rparr>"

definition multisig_arg_numbers :: "multisig_arg \<Rightarrow> nat list" where
  "multisig_arg_numbers a =
     (case arg_threshold a of None \<Rightarrow> [0, 0] | Some t \<Rightarrow> [1, unat t])
     @ (case arg_timeout_in_secs a of None \<Rightarrow> [0, 0] | Some t \<Rightarrow> [1, unat t])
     @ (case arg_execute_automatically a of None \<Rightarrow> [0, 0] | Some b \<Rightarrow> [1, if b then 1 else 0])"

fun multisig_arg_of :: "nat list \<Rightarrow> multisig_arg option" where
  "multisig_arg_of [a, b, c, d, e, f] = Some
     \<lparr>arg_threshold = (if a = 0 then None else Some (word_of_nat b)),
      arg_timeout_in_secs = (if c = 0 then None else Some (word_of_nat d)),
      arg_execute_automatically = (if e = 0 then None else Some (f \<noteq> 0))\<rparr>"
| "multisig_arg_of _ = None"

definition ref_has_role :: "account \<Rightarrow> address \<Rightarrow> role \<Rightarrow> bool" where
  "ref_has_role a i r = (case map_of (roles a) i of None \<Rightarrow> False | Some rs \<Rightarrow> r \<in> set rs)"

definition phrase_bytes :: "string list \<Rightarrow> bytes" where
  "phrase_bytes ws = concat (map (\<lambda>w. concat (map (\<lambda>c. [CHR ''+'', c]) w) @ [CHR ''.'']) ws)"

definition ref_env :: "(ref_store, ref_value, string list) env" where
  "ref_env = \<lparr>
     merk_get = (\<lambda>m k. Inr (map_of (work m) k)),
     merk_apply = ref_apply,
     merk_commit = (\<lambda>m. (Inr (), m\<lparr>disk := work m\<rparr>)),
     merk_iter_range = (\<lambda>m lo hi bw. ref_list (\<lambda>k. lo \<le> k \<and> k < hi) bw m),
     merk_iter_prefix = (\<lambda>m p bw. ref_list (\<lambda>k. take (length p) k = p) bw m),
     merk_root_hash = (\<lambda>m. concat (map fst (work m))),
     of_bytes = RBytes,
     to_bytes = (\<lambda>v. case v of RBytes b \<Rightarrow> b | RAddress a \<Rightarrow> replicate a (CHR ''a'') | _ \<Rightarrow> []),
     amount_to_vec = RAmount,
     amount_from = (\<lambda>v. case v of RAmount n \<Rightarrow> n | _ \<Rightarrow> 0),
     address_to_vec = RAddress,
     address_from_bytes = (\<lambda>v. case v of RAddress a \<Rightarrow> Inr a | _ \<Rightarrow> Inl InvalidIdentity),
     show_address = (\<lambda>a. replicate (Suc a) (CHR ''m'')),
     address_from_str = (\<lambda>t. Inr (length t - 1)),
     is_anonymous = (\<lambda>a. a = 0),
     is_illegal = (\<lambda>a. a = 1),
     is_public_key = (\<lambda>a. 1 < a \<and> a < 100),
     is_subresource = (\<lambda>a. 100 \<le> a),
     with_subresource_id = (\<lambda>a i. Inr (100 * (a + 1) + unat i)),
     subresource_id = (\<lambda>a. if 100 \<le> a then Some (word_of_nat (a mod 100)) else None),
     max_subresource_id = 90,
     c_symbols = tagged RSymbols (\<lambda>v. case v of RSymbols x \<Rightarrow> Some x | _ \<Rightarrow> None),
     c_token_info = tagged RTokenInfo (\<lambda>v. case v of RTokenInfo x \<Rightarrow> Some x | _ \<Rightarrow> None),
     c_ext_info = tagged RExtInfo (\<lambda>v. case v of RExtInfo x \<Rightarrow> Some x | _ \<Rightarrow> None),
     c_event = tagged REvent (\<lambda>v. case v of REvent x \<Rightarrow> Some x | _ \<Rightarrow> None),
     c_multisig = tagged RMultisig (\<lambda>v. case v of RMultisig x \<Rightarrow> Some x | _ \<Rightarrow> None),
     c_account = tagged RAccount (\<lambda>v. case v of RAccount x \<Rightarrow> Some x | _ \<Rightarrow> None),
     c_data_info = tagged RDataInfo (\<lambda>v. case v of RDataInfo x \<Rightarrow> Some x | _ \<Rightarrow> None),
     c_data_attributes = tagged RDataAttributes
        (\<lambda>v. case v of RDataAttributes x \<Rightarrow> Some x | _ \<Rightarrow> None),
     c_credential = tagged RCredential (\<lambda>v. case v of RCredential x \<Rightarrow> Some x | _ \<Rightarrow> None),
     c_kv_metadata = tagged RKvMetadata (\<lambda>v. case v of RKvMetadata x \<Rightarrow> Some x | _ \<Rightarrow> None),
     c_event_id = tagged REventId (\<lambda>v. case v of REventId x \<Rightarrow> Some x | _ \<Rightarrow> None),
     c_recall_phrase = \<lparr>enc = (\<lambda>ws. Inr (phrase_bytes ws)), dec = (\<lambda>_. Inl '''')\<rparr>,
     c_response = opaque,
     c_block_tx = opaque,
     payload_empty = Inr '''',
     payload_create = (\<lambda>a. Inr (replicate a (CHR ''c''))),
     payload_submit = (\<lambda>t. Inr t),
     event_id_from = (\<lambda>h. nat_bytes (unat h)),
     event_id_add = (\<lambda>i n. nat_bytes (be_nat i + n)),
     wall_clock = 0,
     timestamp_new = (\<lambda>t. Inr (unat t)),
     as_system_time = (\<lambda>t. Inr (int t * 1000000000)),
     from_system_time = (\<lambda>t. Inr (nat (t div 1000000000))),
     account_create = (\<lambda>sender args. \<lparr>description = cr_description args,
        roles = bt_entry_or [] (bs_insert Owner) sender (cr_roles args),
        features = cr_features args, disabled = None\<rparr>),
     with_description = (\<lambda>a d. a\<lparr>description := d\<rparr>),
     has_role = ref_has_role,
     needs_role = (\<lambda>a i rs. if \<exists>r \<in> set rs. ref_has_role a i r then Inr ()
        else Inl (AccountError (UserNeedsRole (case rs of [] \<Rightarrow> Owner | r # _ \<Rightarrow> r)))),
     add_role = (\<lambda>a i r. a\<lparr>roles := AList.update i
        (bs_insert r (case map_of (roles a) i of None \<Rightarrow> [] | Some rs \<Rightarrow> rs)) (roles a)\<rparr>),
     remove_role = (\<lambda>a i r. (case map_of (roles a) i of None \<Rightarrow> a
        | Some rs \<Rightarrow> a\<lparr>roles := AList.update i (filter (\<lambda>r'. r' \<noteq> r) rs) (roles a)\<rparr>)),
     get_roles = (\<lambda>a i. case map_of (roles a) i of None \<Rightarrow> [] | Some rs \<Rightarrow> rs),
     has_feature_id = (\<lambda>fs i. \<exists>f \<in> set fs. feature_id f = i),
     insert_feature = (\<lambda>f fs. (\<exists>g \<in> set fs. feature_id g = feature_id f,
        filter (\<lambda>g. feature_id g \<noteq> feature_id f) fs @ [f])),
     multisig_feature_id = 1,
     ledger_feature_id = 0,
     token_feature_id = 2,
     kvstore_feature_id = 3,
     get_multisig_feature = (\<lambda>fs. case filter (\<lambda>f. feature_id f = 1) fs of
        [] \<Rightarrow> Inl AttributeNotFound
      | f # _ \<Rightarrow> (case multisig_arg_of (feature_args f) of None \<Rightarrow> Inl InvalidIdentity | Some a \<Rightarrow> Inr a)),
     get_ledger_feature = (\<lambda>fs. if \<exists>f \<in> set fs. feature_id f = 0 then Inr () else Inl AttributeNotFound),
     get_token_feature = (\<lambda>fs. if \<exists>f \<in> set fs. feature_id f = 2 then Inr () else Inl AttributeNotFound),
     get_kvstore_feature = (\<lambda>fs. if \<exists>f \<in> set fs. feature_id f = 3 then Inr () else Inl AttributeNotFound),
     multisig_as_feature = (\<lambda>a. Feature 1 (multisig_arg_numbers a)),
     multisig_roles = [CanMultisigApprove, CanMultisigSubmit],
     ledger_roles = [CanLedgerTransact],
     token_roles = [CanTokensCreate, CanTokensUpdate, CanTokensAddExtendedInfo,
        CanTokensRemoveExtendedInfo],
     kvstore_roles = [CanKvStorePut, CanKvStoreDisable, CanKvStoreTransfer],
     ext_info_default = [],
     ext_info_new = [],
     ext_info_retain = (\<lambda>e is. Inr (filter (\<lambda>(i, _). i \<in> set is) e)),
     ext_info_memo = (\<lambda>e. map_option (\<lambda>b. [b]) (map_of e [0])),
     ext_info_with_memo = (\<lambda>e m. Inr (AList.update [0] (concat m) e)),
     ext_info_logo = (\<lambda>e. map_of e [1]),
     ext_info_with_logo = (\<lambda>e b. Inr (AList.update [1] b e)),
     ext_info_contains = (\<lambda>e i. Inr (map_of e i \<noteq> None)),
     ext_info_remove = (\<lambda>e i. Inr (AList.delete i e)),
     index_memo = [0],
     index_visual_logo = [1],
     data_index_new = (\<lambda>n. [n]),
     data_index_with = (\<lambda>i n. i @ [n]),
     migration_active = (\<lambda>g n. n \<in> set g),
     migration_hotfix = (\<lambda>_ _ _ _. Inr None),
     migration_update = (\<lambda>g m _. (Inr (), g, m)),
     migration_empty = Inr [],
     show_error = (\<lambda>_. ''error''),
     memo_of_string = (\<lambda>t. [t]),
     memo_of_data = (\<lambda>b. [b]),
     memo_push_bytes = (\<lambda>m b. Inr (m @ [b])),
     event_is_about = (\<lambda>e a. case ev_content e of EvSend frm to _ _ _ \<Rightarrow> a = frm \<or> a = to
        | EvAccountDisable i \<Rightarrow> a = i | _ \<Rightarrow> False),
     event_kind_of = (\<lambda>e. case ev_content e of EvSend _ _ _ _ _ \<Rightarrow> 0 | EvAccountDisable _ \<Rightarrow> 1 | _ \<Rightarrow> 2),
     all_event_kinds = [0, 1, 2],
     hex_encode = (\<lambda>b. b),
     base64_encode = (\<lambda>b. b),
     base64_decode = Some,
     cose_key_from = (\<lambda>_. Inr ()),
     entropy_from_slice = (\<lambda>n b. if length b = n then Some b else None),
     to_mnemonics = (\<lambda>_ _ _ b. Some (concat (map (\<lambda>c. replicate (Suc (of_char c)) (CHR ''a'') @ '' '') b))),
     json_string = (\<lambda>j. Inr (replicate (Suc j) (CHR ''m''))),
     json_u32 = (\<lambda>j. Inr (word_of_nat j)),
     json_u64 = (\<lambda>j. Inr (word_of_nat j)),
     json_amount = Inr,
     json_amount_opt = (\<lambda>j. Inr (if j = 0 then None else Some j)),
     json_address_opt = (\<lambda>j. Inr (if j = 0 then None else Some j)),
     role_from_str = (\<lambda>t. if t = ''owner'' then Some Owner else None),
     address_eq_str = (\<lambda>a t. t = replicate (Suc a) (CHR ''m''))\<rparr>"

section \<open>Its laws\<close>

lemma map_of_put_op: "map_of (put_op p m) = (map_of m)(fst p := op_value (snd p))"
proof (cases p)
  case (Pair k x)
  then show ?thesis by (cases x) (simp_all add: update_conv' delete_conv')
qed

lemma map_of_put_ops: "map_of (fold put_op b m) = apply_batch b (map_of m)"
  by (induction b arbitrary: m) (simp_all add: map_of_put_op)

lemma ref_mview [simp]: "mview ref_env m = map_of (work m)"
  by (rule ext) (simp add: mview_def ref_env_def)

lemma ref_store_ok: "store_ok ref_env"
  unfolding store_ok_def ref_mview
  by (simp add: ref_env_def ref_apply_def map_of_put_ops)

lemma tagged_ok: "(\<And>x. d (c x) = Some x) \<Longrightarrow> codec_ok (tagged c d)"
  by (simp add: codec_ok_def tagged_def)

lemma be_nat_nat_bytes [simp]: "be_nat (nat_bytes n) = n"
proof (induction n rule: nat_bytes.induct)
  case (1 n)
  show ?case
  proof (cases "n < 256")
    case True
    then show ?thesis by (simp add: nat_bytes.simps be_nat_def)
  next
    case False
    with 1 show ?thesis by (simp add: nat_bytes.simps [of n])
  qed
qed

lemma length_nat_bytes: "n < 256 ^ Suc k \<Longrightarrow> length (nat_bytes n) \<le> Suc k"
proof (induction k arbitrary: n)
  case 0
  then show ?case by (simp add: nat_bytes.simps)
next
  case (Suc k)
  show ?case
  proof (cases "n < 256")
    case True
    then show ?thesis by (simp add: nat_bytes.simps)
  next
    case False
    from Suc.prems have "n div 256 < 256 ^ Suc k"
      by (simp add: less_mult_imp_div_less mult.commute)
    then have "length (nat_bytes (n div 256)) \<le> Suc k" by (rule Suc.IH)
    with False show ?thesis by (simp add: nat_bytes.simps [of n])
  qed
qed

lemma ref_event_id_ok: "event_id_ok ref_env"
proof -
  have len: "length (nat_bytes n) \<le> 32" if "n < event_id_limit" for n
    using length_nat_bytes [of n 31] that by (simp add: event_id_limit_def)
  have small: "unat h < event_id_limit" for h :: u64
  proof -
    have "unat h < 2 ^ 64" using unsigned_less [of h] by simp
    then show ?thesis unfolding event_id_limit_def by (rule order.strict_trans) simp
  qed
  have "event_id_add ref_env = (\<lambda>i n. nat_bytes (be_nat i + n))"
    and "event_id_from ref_env = (\<lambda>h. nat_bytes (unat h))"
    by (simp_all add: ref_env_def)
  then show ?thesis using len [OF small] len by (simp add: event_id_ok_def)
qed

lemma ref_address_ok: "address_ok ref_env"
proof -
  have "show_address ref_env = (\<lambda>a. replicate (Suc a) (CHR ''m''))"
    and "address_from_str ref_env = (\<lambda>t. Inr (length t - 1))"
    and "address_from_bytes ref_env (address_to_vec ref_env a) = Inr a" for a
    by (simp_all add: ref_env_def)
  then show ?thesis by (auto simp: address_ok_def)
qed

lemma ref_codecs:
  "c_symbols ref_env = tagged RSymbols (\<lambda>v. case v of RSymbols x \<Rightarrow> Some x | _ \<Rightarrow> None)"
  "c_token_info ref_env = tagged RTokenInfo (\<lambda>v. case v of RTokenInfo x \<Rightarrow> Some x | _ \<Rightarrow> None)"
  "c_ext_info ref_env = tagged RExtInfo (\<lambda>v. case v of RExtInfo x \<Rightarrow> Some x | _ \<Rightarrow> None)"
  "c_event ref_env = tagged REvent (\<lambda>v. case v of REvent x \<Rightarrow> Some x | _ \<Rightarrow> None)"
  "c_multisig ref_env = tagged RMultisig (\<lambda>v. case v of RMultisig x \<Rightarrow> Some x | _ \<Rightarrow> None)"
  "c_account ref_env = tagged RAccount (\<lambda>v. case v of RAccount x \<Rightarrow> Some x | _ \<Rightarrow> None)"
  "c_data_info ref_env = tagged RDataInfo (\<lambda>v. case v of RDataInfo x \<Rightarrow> Some x | _ \<Rightarrow> None)"
  "c_data_attributes ref_env =
     tagged RDataAttributes (\<lambda>v. case v of RDataAttributes x \<Rightarrow> Some x | _ \<Rightarrow> None)"
  "c_credential ref_env = tagged RCredential (\<lambda>v. case v of RCredential x \<Rightarrow> Some x | _ \<Rightarrow> None)"
  "c_kv_metadata ref_env = tagged RKvMetadata (\<lambda>v. case v of RKvMetadata x \<Rightarrow> Some x | _ \<Rightarrow> None)"
  by (simp_all add: ref_env_def)

lemma ref_amount_ok: "amount_ok ref_env"
  by (simp add: amount_ok_def ref_env_def)

lemma ref_env_ok [simp]: "env_ok ref_env"
  unfolding env_ok_def ref_codecs
  by (intro conjI tagged_ok ref_store_ok ref_address_ok ref_event_id_ok ref_amount_ok) simp_all

lemma ref_entries_listing: "listing (map_of (disk m)) (\<lambda>_. True) (ref_entries m)"
proof -
  have d: "distinct (map fst (ref_entries m))"
    using distinct_clearjunk [of "disk m"] by (simp add: ref_entries_def distinct_map)
  have "sorted (map fst (ref_entries m))" by (simp add: ref_entries_def)
  with d have s: "sorted_wrt (<) (map fst (ref_entries m))" by (simp add: strict_sorted_iff)
  have "(k, v) \<in> set (ref_entries m) \<longleftrightarrow> map_of (disk m) k = Some v" for k v
    using map_of_eq_Some_iff [OF distinct_clearjunk, of "disk m" k v]
    by (simp add: ref_entries_def map_of_clearjunk)
  with s show ?thesis by (simp add: listing_def)
qed

lemma listing_filter:
  assumes "listing d (\<lambda>_. True) es"
  shows "listing d P (filter (\<lambda>(k, _). P k) es)"
proof -
  have "sorted_wrt (<) (map fst (filter (\<lambda>x. P (fst x)) es))"
    using assms by (auto simp: listing_def sorted_wrt_map intro: sorted_wrt_filter)
  with assms show ?thesis by (auto simp: listing_def split_def)
qed

lemma ref_disk_ok: "disk_ok ref_env (\<lambda>m. map_of (disk m))"
proof -
  have it: "merk_iter_range ref_env m lo hi bw = ref_list (\<lambda>k. lo \<le> k \<and> k < hi) bw m"
    "merk_iter_prefix ref_env m p bw = ref_list (\<lambda>k. take (length p) k = p) bw m"
    "disk (snd (merk_apply ref_env m b)) = disk m"
    "disk (snd (merk_commit ref_env m)) = work m" for m lo hi bw p b
    by (simp_all add: ref_env_def ref_apply_def)
  have l: "\<exists>es. listing (map_of (disk m)) P es \<and> ref_list P False m = map Inr es \<and>
      ref_list P True m = map Inr (rev es)" for m P
    using listing_filter [OF ref_entries_listing]
    by (intro exI [of _ "filter (\<lambda>(k, _). P k) (ref_entries m)"]) (simp add: ref_list_def Let_def)
  show ?thesis unfolding disk_ok_def it ref_mview by (intro conjI allI l) simp_all
qed

section \<open>States of the witnesses\<close>

definition ref_ledger :: "(bytes \<times> ref_value) list \<Rightarrow> string list \<Rightarrow> (ref_store, string list) ledger" where
  "ref_ledger w g = \<lparr>persistent_store = \<lparr>work = w, disk = w\<rparr>, blockchain = True,
     current_time = Some 5, current_hash = None, latest_tid = [CHR 0x01], migrations = g\<rparr>"

lemma ref_view [simp]: "view ref_env s = map_of (work (persistent_store s))"
  by (simp add: view_def)

lemma ref_ledger_fields [simp]:
  "persistent_store (ref_ledger w g) = \<lparr>work = w, disk = w\<rparr>"
  "blockchain (ref_ledger w g) = True" "current_time (ref_ledger w g) = Some 5"
  "latest_tid (ref_ledger w g) = [CHR 0x01]" "migrations (ref_ledger w g) = g"
  by (simp_all add: ref_ledger_def)

lemma ref_env_simps [simp]:
  "is_anonymous ref_env a = (a = 0)" "is_illegal ref_env a = (a = 1)"
  "is_public_key ref_env a = (1 < a \<and> a < 100)" "is_subresource ref_env a = (100 \<le> a)"
  "amount_to_vec ref_env n = RAmount n" "amount_from ref_env (RAmount n) = n"
  "address_to_vec ref_env a = RAddress a" "address_from_bytes ref_env (RAddress a) = Inr a"
  "show_address ref_env a = replicate (Suc a) (CHR ''m'')"
  "of_bytes ref_env b = RBytes b" "to_bytes ref_env (RBytes b) = b"
  "with_subresource_id ref_env a i = Inr (100 * (a + 1) + unat i)"
  "max_subresource_id ref_env = 90"
  "migration_active ref_env g nm = (nm \<in> set g)"
  "to_bytes ref_env (RAddress a) = replicate a (CHR ''a'')" "hex_encode ref_env b = b"
  "data_index_new ref_env k = [k]" "data_index_with ref_env ix k = ix @ [k]"
  by (simp_all add: ref_env_def)

end
