(* ===== verification/EventLog.thy ===== *)
theory EventLog
  imports Reference
begin

text \<open>
  What the base of the ledger storage promises: the event log is append-only and in order,
  its iterator returns exactly the events of a range, and the search for a subresource
  returns. That it never hands out an address twice is shown for the whole server in \<open>Rights\<close>.
\<close>

section \<open>What the shared actions keep\<close>

text \<open>
  A property of the state that depends on the store's contents only, and not on the event log:
  logging and committing keep it.
\<close>

definition log_free :: "('m, 'v, 'g) env \<Rightarrow> (('m, 'g) ledger \<Rightarrow> bool) \<Rightarrow> bool" where
  "log_free E I \<longleftrightarrow> (\<forall>s t. I s \<longrightarrow> migrations t = migrations s \<longrightarrow>
     (\<forall>k. k \<noteq> EVENT_COUNT_ROOT \<longrightarrow> (\<forall>i. k \<noteq> key_for_event i) \<longrightarrow> view E t k = view E s k) \<longrightarrow> I t)"

lemma log_freeD:
  assumes "log_free E I" and "I s" and "migrations t = migrations s"
    and "\<And>k. k \<noteq> EVENT_COUNT_ROOT \<Longrightarrow> (\<And>i. k \<noteq> key_for_event i) \<Longrightarrow> view E t k = view E s k"
  shows "I t"
  using assms(1) [unfolded log_free_def, rule_format, OF assms(2,3)] assms(4) by blast

lemma log_free_conj:
  assumes I: "log_free E I" and J: "log_free E J"
  shows "log_free E (\<lambda>s. I s \<and> J s)"
  unfolding log_free_def
proof (intro allI impI)
  fix s t :: "('a, 'c) ledger"
  assume s: "I s \<and> J s" and m: "migrations t = migrations s"
    and v: "\<forall>k. k \<noteq> EVENT_COUNT_ROOT \<longrightarrow> (\<forall>i. k \<noteq> key_for_event i) \<longrightarrow> view E t k = view E s k"
  have "I t" by (rule log_freeD [OF I conjunct1 [OF s] m]) (simp add: v)
  moreover have "J t" by (rule log_freeD [OF J conjunct2 [OF s] m]) (simp add: v)
  ultimately show "I t \<and> J t" ..
qed

lemma keeps_maybe_commit [keepsI]:
  assumes "store_ok E" and "log_free E I"
  shows "keeps I (maybe_commit E)"
  using assms by (auto simp: keeps_def maybe_commit_run intro: log_freeD [OF assms(2)])

lemma keeps_log_event [keepsI]:
  assumes E: "store_ok E" and I: "log_free E I"
  shows "keeps I (log_event E c)"
proof -
  have nb: "keeps I (nb_events E)" and new: "keeps I (new_event_id E)"
    using E by (auto simp: keeps_def nb_events_run new_event_id_run intro: log_freeD [OF I])
  have app: "keeps I (db_apply E apply_failed [(key_for_event i, Put v), (EVENT_COUNT_ROOT, Put w)])" for i v w
    using E by (intro keeps_db_apply) (auto intro: log_freeD [OF I])
  show ?thesis unfolding log_event_def
    by (intro keeps_bnd keeps_andthen nb new app keeps_gets keeps_encode keeps_maybe_commit [OF E I])
qed

section \<open>Iterating over events\<close>

lemma event_key_of_listing:
  assumes "event_id_ok E" and "bound_fits lo" and "bound_fits hi" and "length i \<le> 32"
  shows "events_lower E lo \<le> key_for_event i \<and> key_for_event i < events_upper E hi \<longleftrightarrow>
    above lo be_nat (be_nat i) \<and> below hi be_nat (be_nat i)"
  using assms by (simp add: events_lower_iff events_upper_iff)

lemma events_scoped_listing:
  assumes "disk_ok E D"
  obtains es where "listing (D m) (\<lambda>k. events_lower E lo \<le> k \<and> k < events_upper E hi) es"
    and "\<And>ord. events_scoped_by_id E m (lo, hi) ord = map Inr (if from_end ord then rev es else es)"
proof -
  from assms have "\<exists>es. listing (D m) (\<lambda>k. events_lower E lo \<le> k \<and> k < events_upper E hi) es \<and>
      merk_iter_range E m (events_lower E lo) (events_upper E hi) False = map Inr es \<and>
      merk_iter_range E m (events_lower E lo) (events_upper E hi) True = map Inr (rev es)"
    unfolding disk_ok_def by blast
  then obtain es where "listing (D m) (\<lambda>k. events_lower E lo \<le> k \<and> k < events_upper E hi) es"
    and "merk_iter_range E m (events_lower E lo) (events_upper E hi) False = map Inr es"
    and "merk_iter_range E m (events_lower E lo) (events_upper E hi) True = map Inr (rev es)"
    by blast
  with that [of es] show ?thesis by (simp add: events_scoped_by_id_def)
qed

section \<open>The search for a free subresource\<close>

definition subresources_ok :: "('m, 'v, 'g) env \<Rightarrow> bool" where
  "subresources_ok E \<longleftrightarrow> unat (max_subresource_id E) + 1 < 2 ^ 32 \<and>
     (\<forall>i c d a. with_subresource_id E i c = Inr a \<longrightarrow> with_subresource_id E i d = Inr a \<longrightarrow> c = d)"

lemma unat_step:
  fixes c m :: u32
  assumes "c \<le> m" and "unat m + 1 < 2 ^ 32"
  shows "unat (c + 1) = unat c + 1"
proof -
  have "unat c + 1 < 2 ^ LENGTH(32)" using assms by (simp add: word_le_nat_alt)
  then show ?thesis by (simp add: unat_word_ariths)
qed

text \<open>What a search from \<open>c\<close> may return.\<close>

definition found_id :: "('m, 'v, 'g) env \<Rightarrow> address \<Rightarrow> symbol list \<Rightarrow> u32 \<Rightarrow> u32 res \<Rightarrow> bool" where
  "found_id E ident syms c r = (case r of
       Inr c' \<Rightarrow> c \<le> c' \<and> c' \<le> max_subresource_id E \<and>
         (\<exists>a. with_subresource_id E ident c' = Inr a \<and> a \<notin> set syms)
     | Inl e \<Rightarrow> e = Err (TokenError (SubresourceExhausted ident)) \<or>
         (\<exists>d e'. with_subresource_id E ident d = Inl e' \<and> e = Err e'))"

lemma next_free_id_returns:
  assumes "subresources_ok E" and "c \<le> max_subresource_id E"
    and "with_subresource_id E ident c = Inr a"
  shows "\<exists>r. next_free_id E ident syms c a = Some r \<and> found_id E ident syms c r"
  using assms(2,3)
proof (induction "unat (max_subresource_id E) - unat c" arbitrary: c a rule: less_induct)
  case less
  have step: "unat (c + 1) = unat c + 1"
    using unat_step less.prems(1) assms(1) by (auto simp: subresources_ok_def)
  show ?case
  proof (cases "a \<in> set syms \<and> c + 1 \<le> max_subresource_id E")
    case False
    with less.prems show ?thesis
      by (subst next_free_id.simps) (auto simp: found_id_def not_le)
  next
    case True
    show ?thesis
    proof (cases "with_subresource_id E ident (c + 1)")
      case (Inl e)
      with True show ?thesis by (subst next_free_id.simps) (auto simp: found_id_def)
    next
      case (Inr b)
      have "unat (max_subresource_id E) - unat (c + 1) < unat (max_subresource_id E) - unat c"
        using conjunct2 [OF True] step by (simp add: word_le_nat_alt)
      then obtain r where r: "next_free_id E ident syms (c + 1) b = Some r"
        and f: "found_id E ident syms (c + 1) r"
        using less.hyps Inr True by blast
      have "c \<le> c + 1" using step by (simp add: word_le_nat_alt)
      with f have "found_id E ident syms c r"
        by (auto simp: found_id_def split: sum.splits)
      with r True Inr show ?thesis by (subst next_free_id.simps) auto
    qed
  qed
qed

definition sub_counter :: "('m, 'v, 'g) env \<Rightarrow> ('m, 'g) ledger \<Rightarrow> address \<Rightarrow> u32 res" where
  "sub_counter E s ident =
     (case view E s (key_for_subresource_counter E ident (token_migration_active E s)) of
        None \<Rightarrow> Inr 0 | Some v \<Rightarrow> u32_of E v)"

lemma get_subresource_counter_run [run]:
  "store_ok E \<Longrightarrow> get_subresource_counter E a s = (sub_counter E s a, s)"
  by (simp add: get_subresource_counter_def sub_counter_def run split: option.split)

lemma get_identity_run:
  "store_ok E \<Longrightarrow> get_identity E root s = (case view E s root of
     None \<Rightarrow> Inl (Err (LedgerError (StorageKeyNotFound root)))
   | Some v \<Rightarrow> from_many (address_from_bytes E v), s)"
  by (simp add: get_identity_def run split: option.split)

definition sub_identity :: "('m, 'v, 'g) env \<Rightarrow> ('m, 'g) ledger \<Rightarrow> bytes \<Rightarrow> address res" where
  "sub_identity E s root = (case view E s root of
     Some v \<Rightarrow> from_many (address_from_bytes E v)
   | None \<Rightarrow> (case view E s IDENTITY_ROOT of
       None \<Rightarrow> Inl (Err (LedgerError (StorageKeyNotFound IDENTITY_ROOT)))
     | Some v \<Rightarrow> from_many (address_from_bytes E v)))"

lemma subresource_identity_run [run]:
  "store_ok E \<Longrightarrow> subresource_identity E root s = (sub_identity E s root, s)"
  by (simp add: subresource_identity_def sub_identity_def run get_identity_run split: option.split)

lemma get_symbols_pure: "get_symbols E s = (r, t) \<Longrightarrow> t = s"
  by (auto simp: get_symbols_def get_symbols_from_keys_def get_symbols_and_tickers_def db_get_def
      decode_def run split: if_splits prod.splits sum.splits)

lemma get_symbols_eq: "get_symbols E s = (r, t) \<longleftrightarrow> fst (get_symbols E s) = r \<and> t = s"
  using get_symbols_pure [of E s "fst (get_symbols E s)" "snd (get_symbols E s)"]
  by (auto simp: prod_eq_iff)

definition subresource_taken :: "('m, 'v, 'g) env \<Rightarrow> address \<Rightarrow> u32 \<Rightarrow> ('m, 'g) ledger \<Rightarrow>
    ('m, 'g) ledger" where
  "subresource_taken E ident c s = applied E
     [(key_for_subresource_counter E ident (token_migration_active E s),
       Put (of_bytes E (u32_be (c + 1))))] s"

text \<open>The shape of a successful call.\<close>

lemma get_next_subresource_ok:
  assumes E: "store_ok E" "subresources_ok E"
    and ok: "get_next_subresource E root s = (Inr a, t)"
    and root: "\<And>i b. root \<noteq> key_for_subresource_counter E i b"
  obtains ident c0 c syms where "sub_identity E s root = Inr ident"
    and "sub_counter E s ident = Inr c0" and "c0 \<le> c" and "c \<le> max_subresource_id E"
    and "with_subresource_id E ident c = Inr a" and "get_symbols E s = (Inr syms, s)"
    and "a \<notin> set syms" and "t = subresource_taken E ident c s"
proof -
  from ok obtain ident c0 syms f r c where
      i: "sub_identity E s root = Inr ident" and c0: "sub_counter E s ident = Inr c0"
    and le: "c0 \<le> max_subresource_id E" and syms: "get_symbols E s = (Inr syms, s)"
    and f: "with_subresource_id E ident c0 = Inr f"
    and r: "next_free_id E ident syms c0 f = r"
      "(case r of None \<Rightarrow> Inl Diverges | Some r \<Rightarrow> r) = Inr c"
    and t: "t = subresource_taken E ident c s"
    and a: "rbind (sub_identity E t root) (\<lambda>i. from_many (with_subresource_id E i c)) = Inr a"
    using E(1)
    by (auto simp: get_next_subresource_def okD subresource_identity_run
        get_subresource_counter_run db_apply_run subresource_taken_def
        get_symbols_eq split: if_splits)
  have "found_id E ident syms c0 (Inr c)"
    using next_free_id_returns [OF E(2) le f, of syms] r by auto
  then obtain b where c: "c0 \<le> c" "c \<le> max_subresource_id E"
    and b: "with_subresource_id E ident c = Inr b" "b \<notin> set syms"
    by (auto simp: found_id_def)
  have "sub_identity E t root = sub_identity E s root"
    using E(1) root by (simp add: t sub_identity_def subresource_taken_def split: option.split)
  with a i b(1) have "a = b" by (simp add: okD)
  with that i c0 c b syms t show ?thesis by blast
qed

lemma sub_counter_taken:
  assumes "store_ok E"
  shows "sub_counter E (subresource_taken E ident c s) ident = Inr (c + 1)"
  using assms by (simp add: sub_counter_def subresource_taken_def)

lemma sub_identity_taken:
  assumes "store_ok E" and "\<And>i b. root \<noteq> key_for_subresource_counter E i b"
  shows "sub_identity E (subresource_taken E ident c s) root = sub_identity E s root"
  using assms by (simp add: sub_identity_def subresource_taken_def split: option.split)

lemma not_diverging:
  assumes "store_ok E"
  shows "sub_identity E s root \<noteq> Inl Diverges" "sub_counter E s a \<noteq> Inl Diverges"
    "fst (get_symbols E s) \<noteq> Inl Diverges" "from_many r \<noteq> Inl Diverges"
proof -
  have many: "from_many r \<noteq> Inl Diverges" for r :: "many_error + 'x"
    by (cases r) simp_all
  then show "from_many r \<noteq> Inl Diverges" .
  have col: "collect_symbols E its acc \<noteq> Inl Diverges" for its acc
  proof (induction its arbitrary: acc)
    case Nil
    then show ?case by simp
  next
    case (Cons it its)
    then show ?case
      using many
      by (cases it) (auto simp: symbol_of_key_def rbind_def Let_def split: sum.split prod.split)
  qed
  show "sub_identity E s root \<noteq> Inl Diverges"
    using many by (auto simp: sub_identity_def split: option.split)
  show "sub_counter E s a \<noteq> Inl Diverges"
    by (auto simp: sub_counter_def u32_of_def split: option.split)
  show "fst (get_symbols E s) \<noteq> Inl Diverges"
  proof (cases "view E s SYMBOLS_ROOT")
    case None
    with assms col show ?thesis
      by (simp add: get_symbols_def get_symbols_from_keys_def get_symbols_and_tickers_def run)
  next
    case (Some v)
    with assms col show ?thesis
      by (cases "dec (c_symbols E) v")
        (simp_all add: get_symbols_def get_symbols_from_keys_def get_symbols_and_tickers_def run decode_def)
  qed
qed

lemma get_next_subresource_returns:
  assumes E: "store_ok E" "subresources_ok E"
  shows "fst (get_next_subresource E root s) \<noteq> Inl Diverges"
proof (cases "sub_identity E s root")
  case (Inl e)
  with not_diverging [OF E(1)] show ?thesis by (auto simp: get_next_subresource_def run E)
next
  case (Inr i)
  show ?thesis
  proof (cases "sub_counter E s i")
    case (Inl e)
    with Inr not_diverging [OF E(1)] show ?thesis by (auto simp: get_next_subresource_def run E)
  next
    case c: (Inr c)
    obtain r where sy: "get_symbols E s = (r, s)" and r: "r \<noteq> Inl Diverges"
      using not_diverging(3) [OF E(1), of s] get_symbols_eq [of E s _ s] by blast
    have nf: "(case next_free_id E i syms c f of None \<Rightarrow> Inl Diverges | Some r \<Rightarrow> r) \<noteq> Inl Diverges"
      if "c \<le> max_subresource_id E" and "with_subresource_id E i c = Inr f" for syms f
      using next_free_id_returns [OF E(2) that, of syms]
      by (auto simp: found_id_def)
    have many: "from_many r \<noteq> Inl Diverges" for r :: "many_error + address"
      by (cases r) simp_all
    show ?thesis
      using Inr c r nf many not_diverging(1) [OF E(1)]
      by (cases "with_subresource_id E i c")
        (auto simp: get_next_subresource_def run E sy split: sum.split)
  qed
qed

text \<open>A failing call leaves the store as it was: the counter is written last.\<close>

lemma get_next_subresource_error:
  assumes E: "store_ok E" "subresources_ok E"
    and root: "\<And>i b. root \<noteq> key_for_subresource_counter E i b"
    and err: "get_next_subresource E root s = (Inl e, t)"
  shows "t = s"
proof (cases "sub_identity E s root")
  case (Inl e)
  with err show ?thesis by (simp add: get_next_subresource_def run E)
next
  case (Inr i)
  show ?thesis
  proof (cases "sub_counter E s i")
    case (Inl e)
    with Inr err show ?thesis by (simp add: get_next_subresource_def run E)
  next
    case c: (Inr c)
    obtain r where sy: "get_symbols E s = (r, s)"
      using get_symbols_eq [of E s _ s] by blast
    show ?thesis
    proof (cases "\<exists>syms f c'. c \<le> max_subresource_id E \<and> r = Inr syms \<and> with_subresource_id E i c = Inr f \<and>
        next_free_id E i syms c f = Some (Inr c')")
      case True
      then obtain syms f c' where r: "c \<le> max_subresource_id E" "r = Inr syms"
        "with_subresource_id E i c = Inr f" "next_free_id E i syms c f = Some (Inr c')" by blast
      with next_free_id_returns [OF E(2) r(1,3), of syms] obtain a where
        "with_subresource_id E i c' = Inr a" by (auto simp: found_id_def)
      moreover have "sub_identity E (subresource_taken E i c' s) root = Inr i"
        using Inr E(1) root by (simp add: sub_identity_taken)
      ultimately have "fst (get_next_subresource E root s) = Inr a"
        using Inr c r E(1)
        by (simp add: get_next_subresource_def run sy subresource_taken_def)
      with err show ?thesis by simp
    next
      case False
      then show ?thesis
        using Inr c err E(1)
        by (cases r; cases "with_subresource_id E i c")
          (auto simp: get_next_subresource_def run sy split: if_splits option.splits sum.splits)
    qed
  qed
qed

section \<open>Properties\<close>

text \<open>
  C17. Logging an event never overwrites: it takes the number after the latest one, an entry
  that does not exist yet, stores the event under it with the block's time, adds one to the
  count, leaves every other entry of the store as it was, and the next number is fresh again.
\<close>

theorem log_event_appends:
  assumes "env_ok E" and "events_below E s" and "be_nat (latest_tid s) + 1 < event_id_limit"
    and "counter_at E s EVENT_COUNT_ROOT = Inr n"
  shows "\<exists>t. log_event E content s = (Inr (), t) \<and> events_below E t \<and>
    be_nat (latest_tid t) = be_nat (latest_tid s) + 1 \<and>
    counter_at E t EVENT_COUNT_ROOT = Inr (n + 1) \<and>
    view E s (key_for_event (latest_tid t)) = None \<and>
    view E t (key_for_event (latest_tid t)) = Some (enc_val (c_event E)
      \<lparr>ev_id = latest_tid t, ev_time = now E s, ev_content = content\<rparr>) \<and>
    (\<forall>k. k \<noteq> key_for_event (latest_tid t) \<and> k \<noteq> EVENT_COUNT_ROOT \<longrightarrow> view E t k = view E s k)"
proof (intro exI conjI)
  show "log_event E content s = (Inr (), logged E content n s)"
    using assms by (intro log_event_run) simp_all
  show "events_below E (logged E content n s)"
    using assms by (intro events_below_logged) simp_all
  show "view E s (key_for_event (latest_tid (logged E content n s))) = None"
    using assms next_event_fresh(2) [of E s] by simp
qed (use assms in \<open>auto simp: view_logged counter_logged\<close>)

lemma log_event_appends_witness:
  "\<exists>t. log_event ref_env (EvAccountDisable 7) (ref_ledger [] []) = (Inr (), t) \<and>
    counter_at ref_env t EVENT_COUNT_ROOT = Inr 1"
proof -
  have "events_below ref_env (ref_ledger [] [])" by (simp add: events_below_def)
  moreover have "be_nat (latest_tid (ref_ledger [] [])) + 1 < event_id_limit"
    by (simp add: event_id_limit_def be_nat_def)
  moreover have "counter_at ref_env (ref_ledger [] []) EVENT_COUNT_ROOT = Inr 0"
    by (simp add: counter_at_def)
  ultimately show ?thesis
    using log_event_appends [of ref_env "ref_ledger [] []" 0 "EvAccountDisable 7"] by auto
qed

text \<open>
  The iterator over a range of event numbers returns the committed events whose number is
  in the range, bounds included or excluded as asked, each once, by ascending number, or by
  descending number for the descending order.
\<close>

theorem events_scoped_by_id_range:
  assumes "event_id_ok E" and "disk_ok E D" and "bound_fits lo" and "bound_fits hi"
  shows "\<exists>es. sorted_wrt (<) (map fst es) \<and>
    (\<forall>ord. events_scoped_by_id E m (lo, hi) ord = map Inr (if ord = Descending then rev es else es)) \<and>
    (\<forall>i v. length i \<le> 32 \<longrightarrow> ((key_for_event i, v) \<in> set es \<longleftrightarrow>
       D m (key_for_event i) = Some v \<and> above lo be_nat (be_nat i) \<and> below hi be_nat (be_nat i)))"
proof -
  obtain es where l: "listing (D m) (\<lambda>k. events_lower E lo \<le> k \<and> k < events_upper E hi) es"
    and it: "\<And>ord. events_scoped_by_id E m (lo, hi) ord = map Inr (if from_end ord then rev es else es)"
    using events_scoped_listing [OF assms(2), of m lo hi] by blast
  have "from_end ord \<longleftrightarrow> ord = Descending" for ord
    by (cases ord) (simp_all add: from_end_def)
  moreover have "(key_for_event i, v) \<in> set es \<longleftrightarrow>
      D m (key_for_event i) = Some v \<and> above lo be_nat (be_nat i) \<and> below hi be_nat (be_nat i)"
    if "length i \<le> 32" for i v
    using l event_key_of_listing [OF assms(1,3,4) that] by (simp add: listing_def)
  ultimately show ?thesis using l it by (intro exI [of _ es]) (auto simp: listing_def)
qed

lemma events_scoped_by_id_range_witness:
  "\<exists>es. events_scoped_by_id ref_env \<lparr>work = [], disk = [(key_for_event [CHR 0x07], RAmount 3)]\<rparr>
      (Excluded [CHR 0x01], Included [CHR 0x07]) Ascending = map Inr es \<and>
    (key_for_event [CHR 0x07], RAmount 3) \<in> set es"
proof -
  have fits: "bound_fits (Excluded [CHR 0x01])" "bound_fits (Included [CHR 0x07])"
    by (simp_all add: event_id_limit_def be_nat_def)
  obtain es where "\<forall>ord. events_scoped_by_id ref_env
        \<lparr>work = [], disk = [(key_for_event [CHR 0x07], RAmount 3)]\<rparr>
        (Excluded [CHR 0x01], Included [CHR 0x07]) ord = map Inr (if ord = Descending then rev es else es)"
    and i: "\<forall>i v. length i \<le> 32 \<longrightarrow> ((key_for_event i, v) \<in> set es \<longleftrightarrow>
       [key_for_event [CHR 0x07] \<mapsto> RAmount 3] (key_for_event i) = Some v \<and>
       above (Excluded [CHR 0x01]) be_nat (be_nat i) \<and> below (Included [CHR 0x07]) be_nat (be_nat i))"
    using events_scoped_by_id_range [OF ref_event_id_ok ref_disk_ok fits,
        of "\<lparr>work = [], disk = [(key_for_event [CHR 0x07], RAmount 3)]\<rparr>"] by auto
  moreover have "(key_for_event [CHR 0x07], RAmount 3) \<in> set es"
    using i [rule_format, of "[CHR 0x07]" "RAmount 3"] by (simp add: be_nat_def)
  ultimately show ?thesis by auto
qed

lemma ref_subresources_ok: "subresources_ok ref_env"
  by (auto simp: subresources_ok_def simp flip: word_unat_eq_iff)

definition ref_founded :: "(bytes \<times> ref_value) list" where
  "ref_founded = [(IDENTITY_ROOT, RAddress 5), (SYMBOLS_ROOT, RSymbols [(600, ''MFX'')])]"

lemma ref_next_account:
  "fst (get_next_subresource ref_env ACCOUNT_IDENTITY_ROOT (ref_ledger ref_founded [])) = Inr 601"
proof -
  have E: "store_ok ref_env" by simp
  have sy: "get_symbols ref_env (ref_ledger ref_founded []) = (Inr [600], ref_ledger ref_founded [])"
    by (simp add: get_symbols_def get_symbols_and_tickers_def run token_migration_active_def
        ref_founded_def decode_def ref_codecs tagged_def)
  have nf: "next_free_id ref_env 5 [600] 0 600 = Some (Inr 1)"
    by (subst next_free_id.simps, simp, subst next_free_id.simps, simp)
  have id: "sub_identity ref_env (ref_ledger ref_founded []) ACCOUNT_IDENTITY_ROOT = Inr 5"
    "sub_identity ref_env (subresource_taken ref_env 5 1 (ref_ledger ref_founded [])) ACCOUNT_IDENTITY_ROOT = Inr 5"
    by (simp_all add: sub_identity_taken del: ref_view)
      (simp_all add: sub_identity_def ref_founded_def)
  have c: "sub_counter ref_env (ref_ledger ref_founded []) 5 = Inr 0"
    "\<not> token_migration_active ref_env (ref_ledger ref_founded [])"
    by (simp_all add: sub_counter_def ref_founded_def token_migration_active_def)
  show ?thesis
    by (simp add: get_next_subresource_def run sy nf id c
        id(2) [unfolded subresource_taken_def, simplified c, simplified])
qed

end
