(* ===== verification/Balances.thy ===== *)
theory Balances
  imports Reference
begin

text \<open>
  \<open>storage/ledger.rs\<close>, \<open>storage/ledger_commands.rs\<close> and \<open>storage/data.rs\<close>: balances, the
  transfer between two accounts, the counters of accounts that a transfer keeps up to date.
\<close>

section \<open>Balances\<close>

definition get_balance :: "('m, 'v, 'g) env \<Rightarrow> address \<Rightarrow> symbol \<Rightarrow> ('m, 'g, nat) ledger_op" where
  "get_balance E identity symb =
     (if is_anonymous E identity then ret 0
      else bnd (db_get E get_failed (key_for_account_balance E identity symb))
        (\<lambda>x. case x of None \<Rightarrow> ret 0 | Some v \<Rightarrow> ret (amount_from E v)))"

definition get_all_balances :: "('m, 'v, 'g) env \<Rightarrow> address \<Rightarrow>
    ('m, 'g, (symbol \<times> nat) list) ledger_op" where
  "get_all_balances E identity =
     (if is_anonymous E identity then ret []
      else bnd (get_symbols E) (\<lambda>syms.
        fold_act syms (\<lambda>result symb.
          bnd (db_get E get_failed (key_for_account_balance E identity symb))
          (\<lambda>x. case x of None \<Rightarrow> ret result
                       | Some v \<Rightarrow> ret (bt_insert symb (amount_from E v) result))) []))"

definition get_multiple_balances :: "('m, 'v, 'g) env \<Rightarrow> address \<Rightarrow> symbol list \<Rightarrow>
    ('m, 'g, (symbol \<times> nat) list) ledger_op" where
  "get_multiple_balances E identity syms =
     (if syms = [] then get_all_balances E identity
      else bnd (get_all_balances E identity) (\<lambda>m. ret (filter (\<lambda>(k, _). k \<in> set syms) m)))"

text \<open>\<open>with_balances\<close>: the balances of the initial state, all in one batch.\<close>

primrec balance_batch :: "('m, 'v, 'g) env \<Rightarrow> symbols \<Rightarrow> (address \<times> symbol \<times> nat) list \<Rightarrow>
    (bytes \<times> 'v store_op) list \<Rightarrow> (bytes \<times> 'v store_op) list res" where
  "balance_batch E syms [] batch = Inr batch"
| "balance_batch E syms (x # xs) batch = (case x of (k, symb, tokens) \<Rightarrow>
     if map_of syms symb = None
     then Inl (Err (Unknown (''Unknown symbol '' @ show_address E symb @ '' for identity '' @ show_address E k)))
     else balance_batch E syms xs
       (batch @ [(key_for_account_balance E k symb, Put (amount_to_vec E tokens))]))"

definition with_balances :: "('m, 'v, 'g) env \<Rightarrow> symbols \<Rightarrow>
    (address \<times> (symbol \<times> nat) list) list \<Rightarrow> ('m, 'g, unit) ledger_op" where
  "with_balances E syms initial_balances =
     bnd (lift (balance_batch E syms
        (concat (map (\<lambda>(k, v). map (\<lambda>(symb, t). (k, symb, t)) v) initial_balances)) []))
     (\<lambda>batch. db_apply E apply_failed batch)"

section \<open>Account counters\<close>

definition ACCOUNT_TOTAL_COUNT_INDEX :: "('m, 'v, 'g) env \<Rightarrow> data_index" where
  "ACCOUNT_TOTAL_COUNT_INDEX E = data_index_with E (data_index_with E (data_index_new E 0) 2) 0"

definition NON_ZERO_ACCOUNT_TOTAL_COUNT_INDEX :: "('m, 'v, 'g) env \<Rightarrow> data_index" where
  "NON_ZERO_ACCOUNT_TOTAL_COUNT_INDEX E =
     data_index_with E (data_index_with E (data_index_new E 0) 2) 1"

definition data_info :: "('m, 'v, 'g) env \<Rightarrow>
    ('m, 'g, (data_index \<times> data_info) list option) ledger_op" where
  "data_info E = bnd (db_get E get_failed DATA_INFO_KEY)
     (\<lambda>x. case x of None \<Rightarrow> ret None
        | Some v \<Rightarrow> bnd (lift (panic_on_err ''unwrap'' (dec (c_data_info E) v))) (\<lambda>m. ret (Some m)))"

definition data_attributes :: "('m, 'v, 'g) env \<Rightarrow>
    ('m, 'g, (data_index \<times> data_value) list option) ledger_op" where
  "data_attributes E = bnd (db_get E get_failed DATA_ATTRIBUTES_KEY)
     (\<lambda>x. case x of None \<Rightarrow> ret None
        | Some v \<Rightarrow> bnd (lift (panic_on_err ''unwrap'' (dec (c_data_attributes E) v)))
            (\<lambda>m. ret (Some m)))"

fun count_up :: "data_value \<Rightarrow> data_value" where
  "count_up (Counter c) = Counter (c + 1)"
| "count_up (OtherValue n) = OtherValue n"

fun count_down :: "data_value \<Rightarrow> data_value" where
  "count_down (Counter c) = Counter (c - 1)"
| "count_down (OtherValue n) = OtherValue n"

definition update_account_count :: "('m, 'v, 'g) env \<Rightarrow> address \<Rightarrow> address \<Rightarrow> nat \<Rightarrow> symbol \<Rightarrow>
    ('m, 'g, unit) ledger_op" where
  "update_account_count E frm to amount symb = bnd (data_attributes E) (\<lambda>a. case a of
       None \<Rightarrow> ret ()
     | Some attributes \<Rightarrow>
         bnd (db_get E get_failed (key_for_account_balance E to symb)) (\<lambda>d.
         bnd (get_balance E to symb) (\<lambda>to_balance.
         let destination_is_empty = (d = None);
             destination_is_zero = (to_balance = 0);
             attributes1 = (if destination_is_empty
               then bt_and_modify count_up (ACCOUNT_TOTAL_COUNT_INDEX E) attributes else attributes);
             attributes2 = (if destination_is_zero \<or> destination_is_empty
               then bt_and_modify count_up (NON_ZERO_ACCOUNT_TOTAL_COUNT_INDEX E) attributes1
               else attributes1)
         in bnd (get_balance E frm symb) (\<lambda>origin_balance.
            let attributes3 = (if origin_balance = amount
               then bt_and_modify count_down (NON_ZERO_ACCOUNT_TOTAL_COUNT_INDEX E) attributes2
               else attributes2)
            in bnd (lift (panic_on_err ''unwrap'' (enc (c_data_attributes E) attributes3))) (\<lambda>v.
               db_apply E apply_failed [(DATA_ATTRIBUTES_KEY, Put v)])))))"

section \<open>Transfers\<close>

definition send :: "('m, 'v, 'g) env \<Rightarrow> address \<Rightarrow> address \<Rightarrow> symbol \<Rightarrow> nat \<Rightarrow> memo option \<Rightarrow>
    ('m, 'g, unit) ledger_op" where
  "send E frm to symb amount m =
     (if frm = to then raise (LedgerError DestinationIsSource)
      else if amount = 0 then raise (LedgerError AmountIsZero)
      else if is_anonymous E to \<or> is_anonymous E frm then raise (LedgerError AnonymousCannotHoldFunds)
      else bnd (get_balance E frm symb) (\<lambda>amount_from.
        if amount > amount_from then raise (LedgerError InsufficientFunds)
        else bnd (get_balance E to symb) (\<lambda>amount_to.
          let key_from = key_for_account_balance E frm symb;
              key_to = key_for_account_balance E to symb;
              put_from = (key_from, Put (amount_to_vec E (amount_from - amount)));
              put_to = (key_to, Put (amount_to_vec E (amount_to + amount)));
              batch = (if key_from \<le> key_to then [put_from, put_to] else [put_to, put_from])
          in andthen (update_account_count E frm to amount symb)
             (andthen (db_apply E apply_failed batch)
             (andthen (log_event E (EvSend frm to symb amount m))
                      (maybe_commit E))))))"

section \<open>Runs\<close>

definition balance :: "('m, 'v, 'g) env \<Rightarrow> ('m, 'g) ledger \<Rightarrow> address \<Rightarrow> symbol \<Rightarrow> nat" where
  "balance E s a x = (if is_anonymous E a then 0
     else case view E s (key_for_account_balance E a x) of None \<Rightarrow> 0 | Some v \<Rightarrow> amount_from E v)"

lemma get_balance_run [run]:
  "store_ok E \<Longrightarrow> get_balance E a x s = (Inr (balance E s a x), s)"
  by (simp add: get_balance_def balance_def run split: option.split)

definition attributes :: "('m, 'v, 'g) env \<Rightarrow> ('m, 'g) ledger \<Rightarrow>
    (data_index \<times> data_value) list option" where
  "attributes E s = (case view E s DATA_ATTRIBUTES_KEY of None \<Rightarrow> None
     | Some v \<Rightarrow> (case dec (c_data_attributes E) v of Inl _ \<Rightarrow> None | Inr m \<Rightarrow> Some m))"

text \<open>What every entry of the store that a transfer reads decodes to.\<close>

definition ledger_ok :: "('m, 'v, 'g) env \<Rightarrow> ('m, 'g) ledger \<Rightarrow> bool" where
  "ledger_ok E s \<longleftrightarrow> (\<exists>n. counter_at E s EVENT_COUNT_ROOT = Inr n) \<and>
     (case view E s DATA_ATTRIBUTES_KEY of None \<Rightarrow> True
        | Some v \<Rightarrow> (\<exists>m. dec (c_data_attributes E) v = Inr m \<and> bt_ok m))"

lemma data_attributes_run [run]:
  "store_ok E \<Longrightarrow> ledger_ok E s \<Longrightarrow> data_attributes E s = (Inr (attributes E s), s)"
  by (auto simp: data_attributes_def ledger_ok_def attributes_def run split: option.split)

text \<open>The counters after a transfer, as a function of what it found.\<close>

definition counts_after :: "('m, 'v, 'g) env \<Rightarrow> bool \<Rightarrow> bool \<Rightarrow> bool \<Rightarrow>
    (data_index \<times> data_value) list \<Rightarrow> (data_index \<times> data_value) list" where
  "counts_after E is_empty is_zero drained m =
     (let m1 = (if is_empty then bt_and_modify count_up (ACCOUNT_TOTAL_COUNT_INDEX E) m else m);
          m2 = (if is_zero \<or> is_empty
             then bt_and_modify count_up (NON_ZERO_ACCOUNT_TOTAL_COUNT_INDEX E) m1 else m1)
      in if drained then bt_and_modify count_down (NON_ZERO_ACCOUNT_TOTAL_COUNT_INDEX E) m2 else m2)"

lemma bt_ok_counts_after [simp]: "bt_ok m \<Longrightarrow> bt_ok (counts_after E b c d m)"
  by (simp add: counts_after_def Let_def)

definition counted :: "('m, 'v, 'g) env \<Rightarrow> address \<Rightarrow> address \<Rightarrow> nat \<Rightarrow> symbol \<Rightarrow>
    ('m, 'g) ledger \<Rightarrow> ('m, 'g) ledger" where
  "counted E frm to amount symb s = (case attributes E s of None \<Rightarrow> s
     | Some m \<Rightarrow> applied E [(DATA_ATTRIBUTES_KEY, Put (enc_val (c_data_attributes E)
         (counts_after E (view E s (key_for_account_balance E to symb) = None)
            (balance E s to symb = 0) (balance E s frm symb = amount) m)))] s)"

lemma update_account_count_run [run]:
  "env_ok E \<Longrightarrow> ledger_ok E s \<Longrightarrow>
   update_account_count E frm to amount symb s = (Inr (), counted E frm to amount symb s)"
  by (simp add: update_account_count_def counted_def counts_after_def Let_def run
      split: option.split)

lemma counted_fields [simp]:
  "blockchain (counted E f t a x s) = blockchain s"
  "current_time (counted E f t a x s) = current_time s"
  "latest_tid (counted E f t a x s) = latest_tid s"
  "migrations (counted E f t a x s) = migrations s"
  by (simp_all add: counted_def split: option.split)

lemma view_counted:
  "store_ok E \<Longrightarrow> k \<noteq> DATA_ATTRIBUTES_KEY \<Longrightarrow> view E (counted E f t a x s) k = view E s k"
  by (simp add: counted_def split: option.split)

section \<open>What a transfer does\<close>

definition transfer_batch :: "('m, 'v, 'g) env \<Rightarrow> address \<Rightarrow> address \<Rightarrow> symbol \<Rightarrow> nat \<Rightarrow> nat \<Rightarrow>
    (bytes \<times> 'v store_op) list" where
  "transfer_batch E frm to symb new_from new_to =
     (let key_from = key_for_account_balance E frm symb;
          key_to = key_for_account_balance E to symb;
          put_from = (key_from, Put (amount_to_vec E new_from));
          put_to = (key_to, Put (amount_to_vec E new_to))
      in if key_from \<le> key_to then [put_from, put_to] else [put_to, put_from])"

lemma transfer_batch_ok:
  assumes "address_ok E" and "frm \<noteq> to"
  shows "batch_ok (transfer_batch E frm to x m n)"
    and "apply_batch (transfer_batch E frm to x m n) f = f
      (key_for_account_balance E frm x \<mapsto> amount_to_vec E m,
       key_for_account_balance E to x \<mapsto> amount_to_vec E n)"
proof -
  have "key_for_account_balance E frm x \<noteq> key_for_account_balance E to x"
    using assms by simp
  then show "batch_ok (transfer_batch E frm to x m n)"
    and "apply_batch (transfer_batch E frm to x m n) f = f
      (key_for_account_balance E frm x \<mapsto> amount_to_vec E m,
       key_for_account_balance E to x \<mapsto> amount_to_vec E n)"
    by (auto simp: transfer_batch_def Let_def fun_upd_twist)
qed

lemma counter_at_cong: "view E s k = view E t k \<Longrightarrow> counter_at E s k = counter_at E t k"
  by (simp add: counter_at_def)

definition transferred :: "('m, 'v, 'g) env \<Rightarrow> address \<Rightarrow> address \<Rightarrow> symbol \<Rightarrow> nat \<Rightarrow>
    ('m, 'g) ledger \<Rightarrow> ('m, 'g) ledger" where
  "transferred E frm to x amount s =
     applied E (transfer_batch E frm to x (balance E s frm x - amount) (balance E s to x + amount))
       (counted E frm to amount x s)"

lemma view_transferred:
  assumes "env_ok E" and "frm \<noteq> to" and "k \<noteq> DATA_ATTRIBUTES_KEY"
  shows "view E (transferred E frm to x amount s) k = ((view E s)
      (key_for_account_balance E frm x \<mapsto> amount_to_vec E (balance E s frm x - amount),
       key_for_account_balance E to x \<mapsto> amount_to_vec E (balance E s to x + amount))) k"
  using assms by (simp add: transferred_def transfer_batch_ok view_counted)

lemma send_run:
  assumes "env_ok E" and "ledger_ok E s" and "frm \<noteq> to" and "0 < amount"
    and "\<not> is_anonymous E to" and "\<not> is_anonymous E frm" and "amount \<le> balance E s frm x"
    and "counter_at E s EVENT_COUNT_ROOT = Inr n"
  shows "send E frm to x amount m s = (Inr (), maybe_committed E
    (logged E (EvSend frm to x amount m) n (transferred E frm to x amount s)))"
proof -
  have upd: "update_account_count E frm to amount x s = (Inr (), counted E frm to amount x s)"
    using assms by (simp add: run)
  have app: "db_apply E apply_failed (transfer_batch E frm to x (balance E s frm x - amount)
      (balance E s to x + amount)) (counted E frm to amount x s) =
      (Inr (), transferred E frm to x amount s)"
    using assms by (simp add: run transfer_batch_ok transferred_def)
  have "counter_at E (transferred E frm to x amount s) EVENT_COUNT_ROOT = Inr n"
    using assms(8) by (simp add: counter_at_def view_transferred assms)
  then have log: "log_event E (EvSend frm to x amount m) (transferred E frm to x amount s) =
      (Inr (), logged E (EvSend frm to x amount m) n (transferred E frm to x amount s))"
    using assms by (intro log_event_run) simp_all
  show ?thesis
    using assms(1-7) upd app log
    by (simp add: send_def run Let_def transfer_batch_def [symmetric, unfolded Let_def])
qed

definition sent :: "('m, 'v, 'g) env \<Rightarrow> address \<Rightarrow> address \<Rightarrow> symbol \<Rightarrow> nat \<Rightarrow> memo option \<Rightarrow> u64 \<Rightarrow>
    ('m, 'g) ledger \<Rightarrow> ('m, 'g) ledger" where
  "sent E frm to x amount m n s = maybe_committed E
    (logged E (EvSend frm to x amount m) n (transferred E frm to x amount s))"

lemma balance_sent:
  assumes "env_ok E" and "frm \<noteq> to" and "\<not> is_anonymous E to" and "\<not> is_anonymous E frm"
  shows "balance E (sent E frm to x amount m n s) a y =
    (if y = x \<and> a = frm then balance E s frm x - amount
     else if y = x \<and> a = to then balance E s to x + amount
     else balance E s a y)"
proof -
  have v: "view E (sent E frm to x amount m n s) (key_for_account_balance E a y) = ((view E s)
      (key_for_account_balance E frm x \<mapsto> amount_to_vec E (balance E s frm x - amount),
       key_for_account_balance E to x \<mapsto> amount_to_vec E (balance E s to x + amount)))
      (key_for_account_balance E a y)"
    using assms by (simp add: sent_def view_logged_other view_transferred)
  show ?thesis
    unfolding balance_def [of E "sent E frm to x amount m n s"] v
    using assms by (auto simp: balance_def [of E s a y])
qed

lemma latest_tid_transferred [simp]: "latest_tid (transferred E frm to x a s) = latest_tid s"
  by (simp add: transferred_def)

lemma ledger_ok_cong:
  assumes "view E s DATA_ATTRIBUTES_KEY = view E t DATA_ATTRIBUTES_KEY"
    and "counter_at E t EVENT_COUNT_ROOT = Inr n"
  shows "ledger_ok E s \<Longrightarrow> ledger_ok E t"
  using assms by (simp add: ledger_ok_def)

lemma ledger_ok_counted:
  assumes "env_ok E" and "ledger_ok E s"
  shows "ledger_ok E (counted E frm to amount x s)"
  using assms
  by (auto simp: ledger_ok_def counted_def attributes_def counter_at_def
      split: option.splits sum.splits)

lemma ledger_ok_transferred:
  assumes "env_ok E" and "ledger_ok E s" and "frm \<noteq> to"
  shows "ledger_ok E (transferred E frm to x amount s)"
proof -
  have "ledger_ok E (counted E frm to amount x s)"
    using assms by (simp add: ledger_ok_counted)
  then show ?thesis
    using assms(1,3) by (auto simp: ledger_ok_def transferred_def transfer_batch_ok counter_at_def)
qed

lemma ledger_ok_logged:
  assumes "store_ok E" and "ledger_ok E s"
  shows "ledger_ok E (logged E c n s)"
  using assms by (simp add: ledger_ok_def view_logged_other counter_logged)

lemma ledger_ok_maybe_committed:
  "store_ok E \<Longrightarrow> ledger_ok E (maybe_committed E s) = ledger_ok E s"
  by (simp add: ledger_ok_def counter_at_def)

lemma ledger_ok_sent:
  "env_ok E \<Longrightarrow> ledger_ok E s \<Longrightarrow> frm \<noteq> to \<Longrightarrow> ledger_ok E (sent E frm to x amount m n s)"
  by (simp add: sent_def ledger_ok_maybe_committed ledger_ok_logged ledger_ok_transferred)

section \<open>The contract of a transfer\<close>

text \<open>What a transfer promises: the first check that fails, in the order of the code.\<close>

definition send_refusal :: "('m, 'v, 'g) env \<Rightarrow> ('m, 'g) ledger \<Rightarrow> address \<Rightarrow> address \<Rightarrow> symbol \<Rightarrow>
    nat \<Rightarrow> ledger_error option" where
  "send_refusal E s frm to x amount =
     (if frm = to then Some DestinationIsSource
      else if amount = 0 then Some AmountIsZero
      else if is_anonymous E to \<or> is_anonymous E frm then Some AnonymousCannotHoldFunds
      else if balance E s frm x < amount then Some InsufficientFunds
      else None)"

lemma send_refused:
  assumes "store_ok E" and "send_refusal E s frm to x amount = Some e"
  shows "send E frm to x amount m s = (Inl (Err (LedgerError e)), s)"
  using assms by (auto simp: send_def send_refusal_def run split: if_splits)

lemma send_accepted:
  assumes "env_ok E" and "ledger_ok E s" and "send_refusal E s frm to x amount = None"
  obtains n where "send E frm to x amount m s = (Inr (), sent E frm to x amount m n s)"
    and "frm \<noteq> to" and "\<not> is_anonymous E to" and "\<not> is_anonymous E frm"
    and "amount \<le> balance E s frm x" and "0 < amount"
    and "counter_at E s EVENT_COUNT_ROOT = Inr n"
proof -
  obtain n where n: "counter_at E s EVENT_COUNT_ROOT = Inr n"
    using assms(2) by (auto simp: ledger_ok_def)
  have g: "frm \<noteq> to" "\<not> is_anonymous E to" "\<not> is_anonymous E frm"
    "amount \<le> balance E s frm x" "0 < amount"
    using assms(3) by (auto simp: send_refusal_def split: if_splits)
  then have "send E frm to x amount m s = (Inr (), sent E frm to x amount m n s)"
    unfolding sent_def using assms(1,2) n by (intro send_run)
  with g n that show ?thesis by blast
qed

text \<open>Over any accounts that include both parties the sum of the balances stays.\<close>

lemma sum_two:
  fixes f :: "'a \<Rightarrow> nat"
  assumes "finite A" and "u \<in> A" and "v \<in> A" and "u \<noteq> v" and "d \<le> f u"
  shows "(\<Sum>a \<in> A. if a = u then f u - d else if a = v then f v + d else f a) = sum f A"
proof -
  let ?g = "\<lambda>a. if a = u then f u - d else if a = v then f v + d else f a"
  have split: "sum h A = h u + (h v + sum h (A - {u} - {v}))" for h :: "'a \<Rightarrow> nat"
    using assms(1-4) by (simp add: sum.remove [of A u] sum.remove [of "A - {u}" v])
  have "sum ?g (A - {u} - {v}) = sum f (A - {u} - {v})"
    by (intro sum.cong) auto
  with assms(4,5) show ?thesis by (simp add: split [of ?g] split [of f])
qed

section \<open>The counters are exact\<close>

text \<open>
  \<open>holdings\<close> are the balance entries of the store, \<open>funded\<close> those above zero. The data
  attributes promise their numbers (modulo the width of a counter).
\<close>

definition holdings :: "('m, 'v, 'g) env \<Rightarrow> ('m, 'g) ledger \<Rightarrow> (address \<times> symbol) set" where
  "holdings E s = {(a, x). view E s (key_for_account_balance E a x) \<noteq> None}"

definition funded :: "('m, 'v, 'g) env \<Rightarrow> ('m, 'g) ledger \<Rightarrow> (address \<times> symbol) set" where
  "funded E s = {(a, x). \<exists>v. view E s (key_for_account_balance E a x) = Some v \<and> amount_from E v \<noteq> 0}"

definition counts_exact :: "('m, 'v, 'g) env \<Rightarrow> ('m, 'g) ledger \<Rightarrow> bool" where
  "counts_exact E s \<longleftrightarrow> finite (holdings E s) \<and> (case attributes E s of None \<Rightarrow> True
     | Some m \<Rightarrow>
         map_of m (ACCOUNT_TOTAL_COUNT_INDEX E) = Some (Counter (of_nat (card (holdings E s)))) \<and>
         map_of m (NON_ZERO_ACCOUNT_TOTAL_COUNT_INDEX E) = Some (Counter (of_nat (card (funded E s)))))"

lemma funded_sub: "funded E s \<subseteq> holdings E s"
  by (auto simp: funded_def holdings_def)

definition account_indices_ok :: "('m, 'v, 'g) env \<Rightarrow> bool" where
  "account_indices_ok E \<longleftrightarrow> ACCOUNT_TOTAL_COUNT_INDEX E \<noteq> NON_ZERO_ACCOUNT_TOTAL_COUNT_INDEX E"

lemma map_of_counts_after:
  assumes "bt_ok m" and "account_indices_ok E"
    and "map_of m (ACCOUNT_TOTAL_COUNT_INDEX E) = Some (Counter t)"
    and "map_of m (NON_ZERO_ACCOUNT_TOTAL_COUNT_INDEX E) = Some (Counter n)"
  shows "map_of (counts_after E e z d m) (ACCOUNT_TOTAL_COUNT_INDEX E) =
      Some (Counter (if e then t + 1 else t))"
    and "map_of (counts_after E e z d m) (NON_ZERO_ACCOUNT_TOTAL_COUNT_INDEX E) =
      Some (Counter ((if z \<or> e then n + 1 else n) - (if d then 1 else 0)))"
  using assms by (simp_all add: counts_after_def Let_def account_indices_ok_def)

text \<open>What a transfer makes of the two sets.\<close>

lemma holdings_sent:
  assumes "env_ok E" and "frm \<noteq> to"
  shows "holdings E (sent E frm to x amount m n s) = insert (frm, x) (insert (to, x) (holdings E s))"
  using assms by (auto simp: holdings_def sent_def view_logged_other view_transferred)

lemma funded_sent:
  assumes "env_ok E" and "frm \<noteq> to" and "0 < amount"
  shows "funded E (sent E frm to x amount m n s) =
    (if balance E s frm x - amount = 0 then insert (to, x) (funded E s) - {(frm, x)}
     else insert (frm, x) (insert (to, x) (funded E s)))"
  using assms by (auto simp: funded_def sent_def view_logged_other view_transferred)

lemma attributes_sent:
  assumes "env_ok E" and "frm \<noteq> to"
  shows "attributes E (sent E frm to x amount m n s) = map_option
     (counts_after E (view E s (key_for_account_balance E to x) = None)
        (balance E s to x = 0) (balance E s frm x = amount)) (attributes E s)"
proof -
  have "view E (sent E frm to x amount m n s) DATA_ATTRIBUTES_KEY =
      view E (counted E frm to amount x s) DATA_ATTRIBUTES_KEY"
    using assms by (simp add: sent_def view_logged_other transferred_def transfer_batch_ok)
  then have "attributes E (sent E frm to x amount m n s) = attributes E (counted E frm to amount x s)"
    by (simp add: attributes_def)
  also have "\<dots> = map_option
     (counts_after E (view E s (key_for_account_balance E to x) = None)
        (balance E s to x = 0) (balance E s frm x = amount)) (attributes E s)"
    using assms(1) by (cases "attributes E s") (auto simp: counted_def attributes_def)
  finally show ?thesis .
qed

lemma balance_pos_held:
  "0 < balance E s a x \<Longrightarrow> (a, x) \<in> holdings E s \<and> (a, x) \<in> funded E s"
  by (auto simp: balance_def holdings_def funded_def split: if_splits option.splits)

lemma balance_zero_funded:
  "\<not> is_anonymous E a \<Longrightarrow> balance E s a x = 0 \<longleftrightarrow> (a, x) \<notin> funded E s"
  by (auto simp: balance_def funded_def split: option.splits)

lemma counts_exact_sent:
  assumes E: "env_ok E" "account_indices_ok E" and s: "ledger_ok E s" "counts_exact E s"
    and g: "frm \<noteq> to" "\<not> is_anonymous E to" "amount \<le> balance E s frm x" "0 < amount"
  shows "counts_exact E (sent E frm to x amount m n s)"
proof -
  let ?t = "sent E frm to x amount m n s"
  have frm: "(frm, x) \<in> holdings E s" "(frm, x) \<in> funded E s"
    using balance_pos_held [of E s frm x] g by simp_all
  have fin: "finite (holdings E s)" "finite (funded E s)"
    using s(2) funded_sub [of E s] finite_subset by (auto simp: counts_exact_def)
  have H: "holdings E ?t = insert (to, x) (holdings E s)"
    using frm(1) by (simp add: holdings_sent [OF E(1) g(1)] insert_absorb)
  have F: "funded E ?t = (if balance E s frm x = amount then insert (to, x) (funded E s) - {(frm, x)}
      else insert (to, x) (funded E s))"
    using frm(2) g by (auto simp: funded_sent [OF E(1) g(1,4)] insert_absorb)
  have to_empty: "view E s (key_for_account_balance E to x) = None \<longleftrightarrow> (to, x) \<notin> holdings E s"
    by (simp add: holdings_def)
  have to_zero: "balance E s to x = 0 \<longleftrightarrow> (to, x) \<notin> funded E s"
    using g(2) by (rule balance_zero_funded)
  show ?thesis
  proof (cases "attributes E s")
    case None
    then show ?thesis using fin by (simp add: counts_exact_def attributes_sent E(1) g(1) H)
  next
    case (Some b)
    then have "bt_ok b"
      using s(1) by (auto simp: ledger_ok_def attributes_def split: option.splits sum.splits)
    then have b: "map_of (counts_after E e z d b) (ACCOUNT_TOTAL_COUNT_INDEX E) =
        Some (Counter (if e then of_nat (card (holdings E s)) + 1 else of_nat (card (holdings E s))))"
      "map_of (counts_after E e z d b) (NON_ZERO_ACCOUNT_TOTAL_COUNT_INDEX E) =
        Some (Counter ((if z \<or> e then of_nat (card (funded E s)) + 1 else of_nat (card (funded E s)))
           - (if d then 1 else 0)))" for e z d
      using map_of_counts_after [OF _ E(2)] s(2) Some by (auto simp: counts_exact_def)
    have cH: "of_nat (card (holdings E ?t)) = (if (to, x) \<notin> holdings E s
        then of_nat (card (holdings E s)) + 1 else (of_nat (card (holdings E s)) :: u64))"
      using fin(1) by (auto simp: H insert_absorb)
    have sub: "(to, x) \<notin> holdings E s \<Longrightarrow> (to, x) \<notin> funded E s"
      using funded_sub [of E s] by blast
    have "card (insert (to, x) (funded E s) - {(frm, x)}) + 1 = card (insert (to, x) (funded E s))"
      using fin(2) frm(2) by (subst card_Diff_singleton) (auto simp: card_gt_0_iff Suc_le_eq)
    then have drop: "of_nat (card (insert (to, x) (funded E s) - {(frm, x)})) =
        (of_nat (card (insert (to, x) (funded E s))) - 1 :: u64)"
      by (metis add_diff_cancel_right' of_nat_1 of_nat_add)
    have cF: "of_nat (card (funded E ?t)) = ((if (to, x) \<notin> funded E s \<or> (to, x) \<notin> holdings E s
        then of_nat (card (funded E s)) + 1 else of_nat (card (funded E s)))
        - (if balance E s frm x = amount then 1 else 0) :: u64)"
      using fin(2) sub by (auto simp: F drop insert_absorb)
    show ?thesis
      using fin(1) by (simp add: counts_exact_def attributes_sent E(1) g(1) Some b to_empty to_zero cH cF)
        (simp add: H)
  qed
qed

section \<open>Properties\<close>

text \<open>
  C1. A transfer does what its contract says. It is refused with the first failing check
  (same account, zero amount, an anonymous party, insufficient funds) and then changes
  nothing; otherwise it succeeds, takes the amount from the sender, adds it to the receiver
  and leaves every other balance, of every symbol, as it was.
\<close>

theorem send_contract:
  assumes "env_ok E" and "ledger_ok E s"
  shows "case send_refusal E s frm to x amount of
      Some e \<Rightarrow> send E frm to x amount m s = (Inl (Err (LedgerError e)), s)
    | None \<Rightarrow> (\<exists>t. send E frm to x amount m s = (Inr (), t) \<and> ledger_ok E t \<and>
        (\<forall>a y. balance E t a y =
          (if y = x \<and> a = frm then balance E s frm x - amount
           else if y = x \<and> a = to then balance E s to x + amount
           else balance E s a y)))"
proof (cases "send_refusal E s frm to x amount")
  case None
  then obtain n where "send E frm to x amount m s = (Inr (), sent E frm to x amount m n s)"
    and "frm \<noteq> to" "\<not> is_anonymous E to" "\<not> is_anonymous E frm"
    using assms by (elim send_accepted [where m = m])
  with None assms show ?thesis by (simp add: balance_sent ledger_ok_sent)
next
  case (Some e)
  with assms show ?thesis by (simp add: send_refused)
qed

definition ref_funds :: "(bytes \<times> ref_value) list" where
  "ref_funds = [(key_for_account_balance ref_env 2 7, RAmount 10),
     (DATA_ATTRIBUTES_KEY, RDataAttributes [([0, 2, 0], Counter 1), ([0, 2, 1], Counter 1)])]"

lemma ref_funds_ok: "ledger_ok ref_env (ref_ledger ref_funds g)"
  by (simp add: ledger_ok_def ref_funds_def counter_at_def ref_codecs tagged_def bt_ok_def)

lemma ref_funds_accepted: "send_refusal ref_env (ref_ledger ref_funds []) 2 3 7 4 = None"
  by (simp add: send_refusal_def balance_def ref_funds_def)

lemma send_contract_witness:
  "\<exists>t. send ref_env 2 3 7 4 None (ref_ledger ref_funds []) = (Inr (), t) \<and>
    balance ref_env t 2 7 = 6 \<and> balance ref_env t 3 7 = 4"
proof -
  have "balance ref_env (ref_ledger ref_funds []) 2 7 = 10"
    "balance ref_env (ref_ledger ref_funds []) 3 7 = 0"
    by (simp_all add: balance_def ref_funds_def)
  then show ?thesis
    using send_contract [OF ref_env_ok ref_funds_ok [of "[]"], of 2 3 7 4 None]
    by (auto simp: ref_funds_accepted)
qed

text \<open>
  Transfers conserve every symbol: whatever the outcome, the balances of any accounts that
  include both parties have the same sum after it.
\<close>

lemma send_conserves:
  assumes "env_ok E" and "ledger_ok E s" and "finite A" and "frm \<in> A" and "to \<in> A"
  shows "(\<Sum>a \<in> A. balance E (snd (send E frm to x amount m s)) a y) = (\<Sum>a \<in> A. balance E s a y)"
proof (cases "send_refusal E s frm to x amount")
  case None
  then obtain n where sent: "send E frm to x amount m s = (Inr (), sent E frm to x amount m n s)"
    and g: "frm \<noteq> to" "\<not> is_anonymous E to" "\<not> is_anonymous E frm" "amount \<le> balance E s frm x"
    using assms(1,2) by (elim send_accepted [where m = m])
  then show ?thesis
    using sum_two [OF assms(3-5) g(1), of amount "\<lambda>a. balance E s a x"] assms(1)
    by (cases "y = x") (simp_all add: balance_sent cong: if_cong)
next
  case (Some e)
  with assms show ?thesis by (simp add: send_refused)
qed

lemma send_conserves_witness:
  "(\<Sum>a \<in> {2, 3}. balance ref_env (snd (send ref_env 2 3 7 4 None (ref_ledger ref_funds []))) a 7) = 10"
proof -
  have "(\<Sum>a \<in> {2, 3}. balance ref_env (ref_ledger ref_funds []) a 7) = 10"
    by (simp add: balance_def ref_funds_def)
  then show ?thesis
    using send_conserves [OF ref_env_ok ref_funds_ok [of "[]"], of "{2, 3}" 2 3 7 4 None 7] by simp
qed

text \<open>
  C2. The data attributes that count accounts stay exact under transfers: if the total counter is
  the number of balance entries and the non-zero counter the number of those above zero
  before a transfer, they are after it, whatever its outcome.
\<close>

theorem send_counts_exact:
  assumes "env_ok E" and "account_indices_ok E" and "ledger_ok E s" and "counts_exact E s"
  shows "counts_exact E (snd (send E frm to x amount m s))"
proof (cases "send_refusal E s frm to x amount")
  case None
  then obtain n where "send E frm to x amount m s = (Inr (), sent E frm to x amount m n s)"
    and "frm \<noteq> to" "\<not> is_anonymous E to" "amount \<le> balance E s frm x" "0 < amount"
    using assms(1,3) by (elim send_accepted [where m = m])
  with assms show ?thesis by (simp add: counts_exact_sent)
next
  case (Some e)
  with assms show ?thesis by (simp add: send_refused)
qed

lemma ref_holdings: "holdings ref_env (ref_ledger ref_funds g) = {(2, 7)}"
    "funded ref_env (ref_ledger ref_funds g) = {(2, 7)}"
  by (auto simp: holdings_def funded_def ref_funds_def simp del: ref_env_simps(9) split: if_splits)

lemma ref_account_indices_ok: "account_indices_ok ref_env"
  by (simp add: account_indices_ok_def ACCOUNT_TOTAL_COUNT_INDEX_def NON_ZERO_ACCOUNT_TOTAL_COUNT_INDEX_def)

lemma ref_funds_attributes: "attributes ref_env (ref_ledger ref_funds g) =
    Some [([0, 2, 0], Counter 1), ([0, 2, 1], Counter 1)]"
  by (simp add: attributes_def ref_funds_def ref_codecs tagged_def)

lemma ref_funds_exact: "counts_exact ref_env (ref_ledger ref_funds g)"
  by (simp add: counts_exact_def ref_holdings ref_funds_attributes
      ACCOUNT_TOTAL_COUNT_INDEX_def NON_ZERO_ACCOUNT_TOTAL_COUNT_INDEX_def)

lemma send_counts_exact_witness:
  "counts_exact ref_env (snd (send ref_env 2 3 7 10 None (ref_ledger ref_funds [])))"
  by (rule send_counts_exact [OF ref_env_ok ref_account_indices_ok ref_funds_ok ref_funds_exact])

end
