(* ===== verification/Accounts.thy ===== *)
theory Accounts
  imports EventLog Balances
begin

text \<open>
  \<open>storage/account.rs\<close>, \<open>module/account.rs\<close> and the access check of
  \<open>module/ledger_commands.rs\<close>: accounts with roles and features, kept in the store under
  their address. An account owns itself from its creation on, only its owners change it, and
  once disabled it stays disabled.
\<close>

section \<open>Validation and access\<close>

definition bs_append :: "'a::linorder list \<Rightarrow> 'a list \<Rightarrow> 'a list" where
  "bs_append xs ys = fold bs_insert ys xs"

definition get_roles_for_account :: "('m, 'v, 'g) env \<Rightarrow> account \<Rightarrow> role list" where
  "get_roles_for_account E a =
     (let r1 = (if has_feature_id E (features a) (multisig_feature_id E)
            then bs_append [] (multisig_roles E) else []);
          r2 = (if has_feature_id E (features a) (ledger_feature_id E)
            then bs_append r1 (ledger_roles E) else r1)
      in if has_feature_id E (features a) (token_feature_id E)
         then bs_append r2 (token_roles E) else r2)"

definition not_missing :: "many_error + 'a \<Rightarrow> unit res" where
  \<comment> \<open>\<open>if let Err(e) = r { if e.code() != AttributeNotFound { return Err(e) } }\<close>\<close>
  "not_missing r = (case r of Inl AttributeNotFound \<Rightarrow> Inr () | Inl e \<Rightarrow> Inl (Err e) | Inr _ \<Rightarrow> Inr ())"

definition validate_features_for_account :: "('m, 'v, 'g) env \<Rightarrow> account \<Rightarrow> unit res" where
  "validate_features_for_account E a =
     rbind (not_missing (get_multisig_feature E (features a))) (\<lambda>_.
     rbind (not_missing (get_ledger_feature E (features a))) (\<lambda>_.
     not_missing (get_token_feature E (features a))))"

definition is_ok :: "'e + 'a \<Rightarrow> bool" where
  "is_ok r = (case r of Inl _ \<Rightarrow> False | Inr _ \<Rightarrow> True)"

definition allowed_roles :: "('m, 'v, 'g) env \<Rightarrow> account \<Rightarrow> role list" where
  "allowed_roles E a =
     (let r0 = [Owner];
          r1 = (if is_ok (get_multisig_feature E (features a)) then bs_append r0 (multisig_roles E) else r0);
          r2 = (if is_ok (get_ledger_feature E (features a)) then bs_append r1 (ledger_roles E) else r1)
      in if is_ok (get_token_feature E (features a)) then bs_append r2 (token_roles E) else r2)"

definition account_roles :: "account \<Rightarrow> role list" where
  "account_roles a = fold (\<lambda>(_, rs) acc. bs_append acc rs) (roles a) []"

definition validate_roles_for_account :: "('m, 'v, 'g) env \<Rightarrow> account \<Rightarrow> unit res" where
  "validate_roles_for_account E a =
     (case filter (\<lambda>r. r \<notin> set (allowed_roles E a)) (account_roles a) of
        [] \<Rightarrow> Inr ()
      | r # _ \<Rightarrow> Inl (Err (AccountError (UnknownRole r))))"

definition validate_account :: "('m, 'v, 'g) env \<Rightarrow> account \<Rightarrow> unit res" where
  "validate_account E a = rbind (validate_features_for_account E a)
     (\<lambda>_. validate_roles_for_account E a)"

definition verify_account_role :: "('m, 'v, 'g) env \<Rightarrow> account \<Rightarrow> address \<Rightarrow> nat \<Rightarrow> role list \<Rightarrow>
    unit res" where
  "verify_account_role E a sender feature rs =
     (if \<not> has_role E a sender Owner then
        if has_feature_id E (features a) feature then from_many (needs_role E a sender rs)
        else Inl (Err unauthorized)
      else Inr ())"

section \<open>Storage\<close>

definition get_account_even_disabled :: "('m, 'v, 'g) env \<Rightarrow> address \<Rightarrow>
    ('m, 'g, account option) ledger_op" where
  \<comment> \<open>a failing read counts as absent (\<open>unwrap_or_default\<close>)\<close>
  "get_account_even_disabled E i =
     bnd (gets (\<lambda>s. case merk_get E (persistent_store s) (key_for_account E i) of
            Inl _ \<Rightarrow> None | Inr x \<Rightarrow> x))
       (\<lambda>x. case x of None \<Rightarrow> ret None | Some v \<Rightarrow> bnd (decode (c_account E) v) (\<lambda>a. ret (Some a)))"

definition enabled :: "account \<Rightarrow> bool" where
  "enabled a \<longleftrightarrow> disabled a = None \<or> disabled a = Some (Inl False)"

definition get_account :: "('m, 'v, 'g) env \<Rightarrow> address \<Rightarrow> ('m, 'g, account option) ledger_op" where
  "get_account E i = bnd (get_account_even_disabled E i)
     (\<lambda>x. ret (case x of None \<Rightarrow> None | Some a \<Rightarrow> if enabled a then Some a else None))"

definition verify_acl :: "('m, 'v, 'g) env \<Rightarrow> address \<Rightarrow> address \<Rightarrow> role list \<Rightarrow> nat \<Rightarrow>
    ('m, 'g, unit) ledger_op" where
  "verify_acl E sender addr rs feature =
     whenever (addr \<noteq> sender) (bnd (get_account E addr) (\<lambda>x. case x of
        None \<Rightarrow> raise unauthorized
      | Some a \<Rightarrow> lift (verify_account_role E a sender feature rs)))"

definition commit_account :: "('m, 'v, 'g) env \<Rightarrow> address \<Rightarrow> account \<Rightarrow> ('m, 'g, unit) ledger_op" where
  "commit_account E i a = bnd (encode (c_account E) a) (\<lambda>v.
     andthen (db_apply E Unknown [(key_for_account E i, Put v)]) (maybe_commit E))"

definition MULTISIG_DEFAULT_THRESHOLD :: u64 where
  "MULTISIG_DEFAULT_THRESHOLD = 1"

definition MULTISIG_DEFAULT_TIMEOUT_IN_SECS :: u64 where
  "MULTISIG_DEFAULT_TIMEOUT_IN_SECS = 60 * 60 * 24"

definition MULTISIG_DEFAULT_EXECUTE_AUTOMATICALLY :: bool where
  "MULTISIG_DEFAULT_EXECUTE_AUTOMATICALLY = False"

definition MULTISIG_MAXIMUM_TIMEOUT_IN_SECS :: u64 where
  "MULTISIG_MAXIMUM_TIMEOUT_IN_SECS = 185 * 60 * 60 * 24"

definition approver_count :: "account \<Rightarrow> nat" where
  "approver_count a = length (filter (\<lambda>(_, rs). Owner \<in> set rs \<or> CanMultisigApprove \<in> set rs
     \<or> CanMultisigSubmit \<in> set rs) (roles a))"

definition with_multisig_defaults :: "account \<Rightarrow> multisig_arg \<Rightarrow> multisig_arg" where
  "with_multisig_defaults a m =
     \<lparr>arg_threshold = Some (case arg_threshold m of Some t \<Rightarrow> t
         | None \<Rightarrow> of_nat (approver_count a) - 1),
      arg_timeout_in_secs = Some (case arg_timeout_in_secs m of
           None \<Rightarrow> MULTISIG_DEFAULT_TIMEOUT_IN_SECS
         | Some v \<Rightarrow> min MULTISIG_MAXIMUM_TIMEOUT_IN_SECS v),
      arg_execute_automatically = Some (case arg_execute_automatically m of
           Some b \<Rightarrow> b | None \<Rightarrow> MULTISIG_DEFAULT_EXECUTE_AUTOMATICALLY)\<rparr>"

definition set_multisig_feature :: "('m, 'v, 'g) env \<Rightarrow> account \<Rightarrow> account" where
  "set_multisig_feature E a = (case get_multisig_feature E (features a) of
     Inl _ \<Rightarrow> a
   | Inr m \<Rightarrow> a\<lparr>features := snd (insert_feature E
       (multisig_as_feature E (with_multisig_defaults a m)) (features a))\<rparr>)"

definition add_account_raw :: "('m, 'v, 'g) env \<Rightarrow> account \<Rightarrow> bool \<Rightarrow> ('m, 'g, address) ledger_op" where
  \<comment> \<open>\<open>_add_account\<close>\<close>
  "add_account_raw E acc add_event =
     bnd (get_next_subresource E ACCOUNT_IDENTITY_ROOT) (\<lambda>i.
     let a = set_multisig_feature E (add_role E acc i Owner) in
     andthen (whenever add_event (log_event E (EvAccountCreate i (description a) (roles a) (features a))))
     (andthen (commit_account E i a) (ret i)))"

definition add_account :: "('m, 'v, 'g) env \<Rightarrow> account \<Rightarrow> ('m, 'g, address) ledger_op" where
  "add_account E acc = add_account_raw E acc True"

text \<open>The accounts of the initial state (\<open>AccountMeta\<close>, \<open>with_account\<close>).\<close>

record account_meta =
  meta_id :: "address option"
  meta_subresource_id :: "u32 option"
  meta_description :: "string option"
  meta_roles :: role_map
  meta_features :: "feature list"

definition account_of_meta :: "account_meta \<Rightarrow> account" where
  "account_of_meta m = \<lparr>description = meta_description m, roles = meta_roles m,
     features = meta_features m, disabled = None\<rparr>"

definition add_meta :: "('m, 'v, 'g) env \<Rightarrow> account_meta \<Rightarrow> ('m, 'g, unit) ledger_op" where
  "add_meta E m = bnd (add_account_raw E (account_of_meta m) False) (\<lambda>i.
     andthen (case (meta_subresource_id m, subresource_id E i) of
         (Some want, Some got) \<Rightarrow>
           unless (got = want) (Err (LedgerError (UnexpectedSubresourceId got want)))
       | _ \<Rightarrow> ret ())
     (case meta_id m of
         Some self_id \<Rightarrow> unless (i = self_id) (Err (LedgerError (UnexpectedAccountId i self_id)))
       | None \<Rightarrow> ret ()))"

definition with_account :: "('m, 'v, 'g) env \<Rightarrow> address option \<Rightarrow> account_meta list option \<Rightarrow>
    ('m, 'g, unit) ledger_op" where
  "with_account E identity metas = bnd (gets (token_migration_active E)) (\<lambda>active.
     andthen (whenever active (bnd (get_identity E IDENTITY_ROOT) (\<lambda>server.
         db_apply E apply_failed [(ACCOUNT_IDENTITY_ROOT,
           Put (address_to_vec E (case identity of None \<Rightarrow> server | Some i \<Rightarrow> i)))])))
     (case metas of None \<Rightarrow> ret () | Some ms \<Rightarrow> for_each ms (add_meta E)))"

definition disable_account :: "('m, 'v, 'g) env \<Rightarrow> address \<Rightarrow> ('m, 'g, unit) ledger_op" where
  "disable_account E i = bnd (get_account_even_disabled E i) (\<lambda>x.
     bnd (lift (ok_or (unknown_account i) x)) (\<lambda>a.
     if enabled a then
       andthen (commit_account E i (a\<lparr>disabled := Some (Inl True)\<rparr>))
       (andthen (log_event E (EvAccountDisable i)) (maybe_commit E))
     else raise (unknown_account i)))"

definition store_description :: "('m, 'v, 'g) env \<Rightarrow> account \<Rightarrow> description_args \<Rightarrow>
    ('m, 'g, unit) ledger_op" where
  "store_description E a args =
     andthen (log_event E (EvAccountSetDescription (de_account args) (de_description args)))
       (commit_account E (de_account args) (with_description E a (Some (de_description args))))"

definition each_role :: "(account \<Rightarrow> address \<Rightarrow> role \<Rightarrow> account) \<Rightarrow> role_map \<Rightarrow> account \<Rightarrow> account" where
  "each_role f rm a = fold (\<lambda>(i, rs) a. fold (\<lambda>r a. f a i r) rs a) rm a"

definition store_add_roles :: "('m, 'v, 'g) env \<Rightarrow> account \<Rightarrow> roles_args \<Rightarrow> ('m, 'g, unit) ledger_op" where
  "store_add_roles E a args =
     andthen (log_event E (EvAccountAddRoles (ro_account args) (ro_roles args)))
       (commit_account E (ro_account args) (each_role (add_role E) (ro_roles args) a))"

definition store_remove_roles :: "('m, 'v, 'g) env \<Rightarrow> account \<Rightarrow> roles_args \<Rightarrow> ('m, 'g, unit) ledger_op" where
  "store_remove_roles E a args =
     (if (case map_of (ro_roles args) (ro_account args) of None \<Rightarrow> False | Some rs \<Rightarrow> Owner \<in> set rs)
      then raise (AccountError AccountMustOwnItself)
      else andthen (log_event E (EvAccountRemoveRoles (ro_account args) (ro_roles args)))
        (commit_account E (ro_account args) (each_role (remove_role E) (ro_roles args) a)))"

primrec insert_features :: "('m, 'v, 'g) env \<Rightarrow> feature list \<Rightarrow> account \<Rightarrow> account res" where
  "insert_features E [] a = Inr a"
| "insert_features E (f # fs) a = (case insert_feature E f (features a) of (present, fs') \<Rightarrow>
     if present then Inl (Err (Unknown ''Feature already part of the account.''))
     else insert_features E fs (a\<lparr>features := fs'\<rparr>))"

definition entry_role :: "account \<Rightarrow> address \<Rightarrow> role \<Rightarrow> account" where
  "entry_role a i r = a\<lparr>roles := bt_entry_or [] (bs_insert r) i (roles a)\<rparr>"

definition entry_roles :: "address \<Rightarrow> role list \<Rightarrow> account \<Rightarrow> account" where
  \<comment> \<open>one pass of \<open>for role in new_r\<close>: nothing happens for an empty set\<close>
  "entry_roles i rs a = fold (\<lambda>r a. entry_role a i r) rs a"

definition store_add_features :: "('m, 'v, 'g) env \<Rightarrow> account \<Rightarrow> features_args \<Rightarrow>
    ('m, 'g, unit) ledger_op" where
  "store_add_features E acc args = bnd (lift (insert_features E (fe_features args) acc)) (\<lambda>a1.
     let a2 = (case fe_roles args of None \<Rightarrow> a1
               | Some rm \<Rightarrow> fold (\<lambda>(i, rs) a. entry_roles i rs a) rm a1) in
     andthen (lift (validate_account E a2))
     (andthen (log_event E (EvAccountAddFeatures (fe_account args)
          (case fe_roles args of None \<Rightarrow> [] | Some rm \<Rightarrow> rm) (fe_features args)))
       (commit_account E (fe_account args) a2)))"

section \<open>The account module\<close>

definition existing_account :: "('m, 'v, 'g) env \<Rightarrow> address \<Rightarrow> ('m, 'g, account) ledger_op" where
  "existing_account E i = bnd (get_account E i) (\<lambda>x. lift (ok_or (unknown_account i) x))"

abbreviation "needs_owner \<equiv> Err (AccountError (UserNeedsRole Owner))"

definition account_create_op :: "('m, 'v, 'g) env \<Rightarrow> address \<Rightarrow> create_args \<Rightarrow>
    ('m, 'g, address) ledger_op" where
  "account_create_op E sender args =
     (if cr_features args = [] then raise (AccountError EmptyFeature)
      else let a = account_create E sender args in
        andthen (lift (validate_account E a)) (add_account E a))"

definition set_description :: "('m, 'v, 'g) env \<Rightarrow> address \<Rightarrow> description_args \<Rightarrow>
    ('m, 'g, unit) ledger_op" where
  "set_description E sender args = bnd (existing_account E (de_account args)) (\<lambda>a.
     andthen (unless (has_role E a sender Owner) needs_owner) (store_description E a args))"

definition list_roles :: "('m, 'v, 'g) env \<Rightarrow> address \<Rightarrow> ('m, 'g, role list) ledger_op" where
  "list_roles E i = bnd (existing_account E i) (\<lambda>a. ret (get_roles_for_account E a))"

definition get_roles_of :: "('m, 'v, 'g) env \<Rightarrow> address \<Rightarrow> address list \<Rightarrow>
    ('m, 'g, role_map) ledger_op" where
  "get_roles_of E i identities = bnd (existing_account E i) (\<lambda>a.
     ret (fold (\<lambda>j m. bt_insert j (get_roles E a j) m) identities []))"

definition add_roles :: "('m, 'v, 'g) env \<Rightarrow> address \<Rightarrow> roles_args \<Rightarrow> ('m, 'g, unit) ledger_op" where
  "add_roles E sender args = bnd (existing_account E (ro_account args)) (\<lambda>a.
     andthen (unless (has_role E a sender Owner) needs_owner) (store_add_roles E a args))"

definition remove_roles :: "('m, 'v, 'g) env \<Rightarrow> address \<Rightarrow> roles_args \<Rightarrow> ('m, 'g, unit) ledger_op" where
  "remove_roles E sender args = bnd (existing_account E (ro_account args)) (\<lambda>a.
     andthen (unless (has_role E a sender Owner) needs_owner) (store_remove_roles E a args))"

definition account_info :: "('m, 'v, 'g) env \<Rightarrow> address \<Rightarrow> ('m, 'g, account) ledger_op" where
  "account_info E i = bnd (get_account_even_disabled E i) (\<lambda>x. lift (ok_or (unknown_account i) x))"

definition disable :: "('m, 'v, 'g) env \<Rightarrow> address \<Rightarrow> address \<Rightarrow> ('m, 'g, unit) ledger_op" where
  "disable E sender i = bnd (existing_account E i) (\<lambda>a.
     andthen (unless (has_role E a sender Owner) needs_owner) (disable_account E i))"

definition add_features :: "('m, 'v, 'g) env \<Rightarrow> address \<Rightarrow> features_args \<Rightarrow> ('m, 'g, unit) ledger_op" where
  "add_features E sender args =
     (if fe_features args = [] then raise (AccountError EmptyFeature)
      else bnd (existing_account E (fe_account args)) (\<lambda>a.
        andthen (lift (from_many (needs_role E a sender [Owner]))) (store_add_features E a args)))"

text \<open>\<open>module/ledger_commands.rs\<close>: who may send from an address.\<close>

definition ledger_send :: "('m, 'v, 'g) env \<Rightarrow> address \<Rightarrow> send_args \<Rightarrow> ('m, 'g, unit) ledger_op" where
  "ledger_send E sender args =
     (let frm = (case send_from args of None \<Rightarrow> sender | Some f \<Rightarrow> f) in
      if is_illegal E frm then raise unauthorized
      else andthen (whenever (frm \<noteq> sender) (bnd (get_account E frm) (\<lambda>x. case x of
             None \<Rightarrow> raise unauthorized
           | Some a \<Rightarrow> lift (verify_account_role E a sender (ledger_feature_id E) [CanLedgerTransact]))))
        (send E frm (send_to args) (send_symbol args) (send_amount args) (send_memo args)))"

section \<open>What accounts rely on\<close>

definition account_ok :: "('m, 'v, 'g) env \<Rightarrow> bool" where
  "account_ok E \<longleftrightarrow>
     (\<forall>a i r. has_role E a i r \<longleftrightarrow> (case map_of (roles a) i of None \<Rightarrow> False | Some rs \<Rightarrow> r \<in> set rs)) \<and>
     (\<forall>a i r j q. has_role E (add_role E a i r) j q \<longleftrightarrow> j = i \<and> q = r \<or> has_role E a j q) \<and>
     (\<forall>a i r j q. has_role E (remove_role E a i r) j q \<longleftrightarrow> has_role E a j q \<and> \<not> (j = i \<and> q = r)) \<and>
     (\<forall>a d. with_description E a d = a\<lparr>description := d\<rparr>) \<and>
     (\<forall>a i rs. if \<exists>r \<in> set rs. has_role E a i r then needs_role E a i rs = Inr ()
        else \<exists>e. needs_role E a i rs = Inl e) \<and>
     (\<forall>s c. has_role E (account_create E s c) s Owner)"

lemma account_okD [simp]:
  assumes "account_ok E"
  shows "has_role E (add_role E a i r) j q \<longleftrightarrow> j = i \<and> q = r \<or> has_role E a j q"
    and "has_role E (remove_role E a i r) j q \<longleftrightarrow> has_role E a j q \<and> \<not> (j = i \<and> q = r)"
    and "with_description E a d = a\<lparr>description := d\<rparr>"
proof -
  have "\<forall>a i r j q. has_role E (add_role E a i r) j q \<longleftrightarrow> j = i \<and> q = r \<or> has_role E a j q"
    using assms unfolding account_ok_def by (elim conjE)
  then show "has_role E (add_role E a i r) j q \<longleftrightarrow> j = i \<and> q = r \<or> has_role E a j q" by blast
  have "\<forall>a i r j q. has_role E (remove_role E a i r) j q \<longleftrightarrow> has_role E a j q \<and> \<not> (j = i \<and> q = r)"
    using assms unfolding account_ok_def by (elim conjE)
  then show "has_role E (remove_role E a i r) j q \<longleftrightarrow> has_role E a j q \<and> \<not> (j = i \<and> q = r)" by blast
  have "\<forall>a d. with_description E a d = a\<lparr>description := d\<rparr>"
    using assms unfolding account_ok_def by (elim conjE)
  then show "with_description E a d = a\<lparr>description := d\<rparr>" by blast
qed

lemma has_role_map_of:
  "account_ok E \<Longrightarrow>
   has_role E a i r \<longleftrightarrow> (case map_of (roles a) i of None \<Rightarrow> False | Some rs \<Rightarrow> r \<in> set rs)"
  unfolding account_ok_def by (drule conjunct1) simp

lemma created_owner [simp]: "account_ok E \<Longrightarrow> has_role E (account_create E s c) s Owner"
  unfolding account_ok_def by (elim conjE) simp

lemma has_role_roles:
  "account_ok E \<Longrightarrow> roles a = roles b \<Longrightarrow> has_role E a i r = has_role E b i r"
  by (simp add: has_role_map_of)

lemma has_role_more [simp]:
  "account_ok E \<Longrightarrow> has_role E (a\<lparr>disabled := d\<rparr>) i r = has_role E a i r"
  "account_ok E \<Longrightarrow> has_role E (a\<lparr>description := d'\<rparr>) i r = has_role E a i r"
  "account_ok E \<Longrightarrow> has_role E (a\<lparr>features := f\<rparr>) i r = has_role E a i r"
  by (simp_all add: has_role_map_of)

lemma needs_role_ok:
  "account_ok E \<Longrightarrow> needs_role E a i rs = Inr u \<longleftrightarrow> (\<exists>r \<in> set rs. has_role E a i r)"
proof -
  assume "account_ok E"
  then have "\<forall>a i rs. if \<exists>r \<in> set rs. has_role E a i r then needs_role E a i rs = Inr ()
      else \<exists>e. needs_role E a i rs = Inl e"
    unfolding account_ok_def by (elim conjE)
  then have "if \<exists>r \<in> set rs. has_role E a i r then needs_role E a i rs = Inr ()
      else \<exists>e. needs_role E a i rs = Inl e" by blast
  then show ?thesis by (cases "\<exists>r \<in> set rs. has_role E a i r") auto
qed

section \<open>Runs\<close>

definition stored_account :: "('m, 'v, 'g) env \<Rightarrow> ('m, 'g) ledger \<Rightarrow> address \<Rightarrow> account option" where
  "stored_account E s i = (case view E s (key_for_account E i) of None \<Rightarrow> None
     | Some v \<Rightarrow> (case dec (c_account E) v of Inl _ \<Rightarrow> None | Inr a \<Rightarrow> Some a))"

lemma get_account_even_disabled_ok:
  assumes "store_ok E"
  shows "get_account_even_disabled E i s = (Inr x, t) \<longleftrightarrow> t = s \<and>
    (case view E s (key_for_account E i) of None \<Rightarrow> x = None
     | Some v \<Rightarrow> (\<exists>a. dec (c_account E) v = Inr a \<and> x = Some a))"
  using merk_get_view [OF assms]
  by (auto simp: get_account_even_disabled_def view_def okD split: option.split)

lemma get_account_even_disabled_pure: "snd (get_account_even_disabled E i s) = s"
  by (simp add: get_account_even_disabled_def run decode_def split: option.split sum.split)

lemma get_account_pure: "snd (get_account E i s) = s"
  using get_account_even_disabled_pure [of E i s]
  by (auto simp: get_account_def run split: prod.split sum.split)

lemma existing_account_pure: "snd (existing_account E i s) = s"
  using get_account_pure [of E i s]
  by (auto simp: existing_account_def run split: prod.split sum.split)

lemma existing_account_ok:
  assumes "store_ok E"
  shows "existing_account E i s = (Inr a, t) \<longleftrightarrow> t = s \<and> stored_account E s i = Some a \<and> enabled a"
  using assms by (auto simp: existing_account_def get_account_def okD get_account_even_disabled_ok
      stored_account_def split: option.splits if_splits sum.splits)

text \<open>An action that starts by looking an account up, and an action behind a check.\<close>

lemma keeps_existing:
  assumes "store_ok E"
    and "\<And>a s. I s \<Longrightarrow> stored_account E s i = Some a \<Longrightarrow> enabled a \<Longrightarrow> I (snd (f a s))"
  shows "keeps I (bnd (existing_account E i) f)"
  unfolding keeps_def
proof (intro allI impI)
  fix s assume I: "I s"
  obtain r where r: "existing_account E i s = (r, s)"
    using existing_account_pure [of E i s] by (cases "existing_account E i s") auto
  show "I (snd (bnd (existing_account E i) f s))"
  proof (cases r)
    case (Inl e)
    with I r show ?thesis by (simp add: run)
  next
    case (Inr a)
    with r have ok: "existing_account E i s = (Inr a, s)" by simp
    then have "stored_account E s i = Some a" "enabled a"
      by (simp_all add: existing_account_ok [OF assms(1)])
    with I ok show ?thesis by (simp add: bnd_run assms(2))
  qed
qed

lemma keeps_snd: "keeps I m \<Longrightarrow> I s \<Longrightarrow> I (snd (m s))"
  by (simp add: keeps_def)

lemma keeps_commit_account:
  assumes "store_ok E" and "log_free E I"
    and "\<And>v s. enc (c_account E) a = Inr v \<Longrightarrow> I s \<Longrightarrow> I (applied E [(key_for_account E i, Put v)] s)"
  shows "keeps I (commit_account E i a)"
proof (cases "enc (c_account E) a")
  case (Inl e)
  then show ?thesis by (simp add: commit_account_def keeps_def run encode_def)
next
  case (Inr v)
  have "keeps I (db_apply E Unknown [(key_for_account E i, Put v)])"
    using assms(1) by (rule keeps_db_apply) (rule assms(3) [OF Inr])
  then have "keeps I (andthen (db_apply E Unknown [(key_for_account E i, Put v)]) (maybe_commit E))"
    by (rule keeps_andthen) (rule keeps_maybe_commit [OF assms(1,2)])
  with Inr show ?thesis by (simp add: commit_account_def keeps_def run encode_def)
qed

lemma keeps_get_next_subresource:
  assumes "store_ok E"
    and "\<And>s i b v. I s \<Longrightarrow> I (applied E [(key_for_subresource_counter E i b, v)] s)"
  shows "keeps I (get_next_subresource E root)"
proof -
  have app: "keeps I (db_apply E apply_failed [(key_for_subresource_counter E i b, v)])" for i b v
    using assms by (intro keeps_db_apply) auto
  have pure: "keeps I (subresource_identity E root)" "keeps I (get_subresource_counter E i)"
      "keeps I (get_symbols E)" for i
    using get_symbols_pure [of E] by (auto simp: keeps_def run assms(1)) (metis prod.collapse)
  show ?thesis unfolding get_next_subresource_def
    by (intro keeps_bnd keeps_if keeps_throw keeps_lift keeps_gets keeps_andthen app pure)
qed

section \<open>Every account owns itself\<close>

definition self_owned :: "('m, 'v, 'g) env \<Rightarrow> ('m, 'g) ledger \<Rightarrow> bool" where
  "self_owned E s \<longleftrightarrow> (\<forall>i v. view E s (key_for_account E i) = Some v \<longrightarrow>
     (\<exists>a. dec (c_account E) v = Inr a \<and> has_role E a i Owner))"

lemma self_owned_log_free: "log_free E (self_owned E)"
  by (simp add: log_free_def self_owned_def)

lemma self_owned_stored: "self_owned E s \<Longrightarrow> stored_account E s i = Some a \<Longrightarrow> has_role E a i Owner"
  unfolding self_owned_def stored_account_def by (force split: option.splits sum.splits)

lemma self_owned_commit:
  assumes "env_ok E" and "has_role E a i Owner"
  shows "keeps (self_owned E) (commit_account E i a)"
  using assms by (intro keeps_commit_account self_owned_log_free) (auto simp: self_owned_def)

lemma self_owned_log [simp]: "store_ok E \<Longrightarrow> keeps (self_owned E) (log_event E c)"
  by (rule keeps_log_event [OF _ self_owned_log_free])

lemma self_owned_maybe [simp]: "store_ok E \<Longrightarrow> keeps (self_owned E) (maybe_commit E)"
  by (rule keeps_maybe_commit [OF _ self_owned_log_free])

lemma self_owned_next [simp]: "store_ok E \<Longrightarrow> keeps (self_owned E) (get_next_subresource E root)"
  by (rule keeps_get_next_subresource) (simp_all add: self_owned_def)

text \<open>The role lists of the operations.\<close>

lemma has_role_each_add:
  assumes "account_ok E" and "has_role E a i q"
  shows "has_role E (each_role (add_role E) rm a) i q"
proof -
  have one: "has_role E (fold (\<lambda>r a. add_role E a j r) rs a) i q"
    if "has_role E a i q" for a j rs
    using that by (induction rs arbitrary: a) (simp_all add: assms(1))
  show ?thesis
    using assms(2) unfolding each_role_def
    by (induction rm arbitrary: a) (auto simp: one)
qed

lemma has_role_each_remove:
  assumes "account_ok E" and "has_role E a i q" and "distinct (map fst rm)"
    and "\<And>rs. map_of rm i = Some rs \<Longrightarrow> q \<notin> set rs"
  shows "has_role E (each_role (remove_role E) rm a) i q"
proof -
  have one: "has_role E (fold (\<lambda>r a. remove_role E a j r) rs a) i q"
    if "has_role E a i q" "j = i \<Longrightarrow> q \<notin> set rs" for a j rs
    using that by (induction rs arbitrary: a) (auto simp: assms(1))
  show ?thesis
    using assms(2-4) unfolding each_role_def
  proof (induction rm arbitrary: a)
    case Nil
    then show ?case by simp
  next
    case (Cons p rm)
    obtain j rs where p: "p = (j, rs)" by (cases p)
    have "has_role E (fold (\<lambda>r a. remove_role E a j r) rs a) i q"
      using Cons.prems p by (intro one) auto
    moreover have "distinct (map fst rm)" "\<And>rs. map_of rm i = Some rs \<Longrightarrow> q \<notin> set rs"
      using Cons.prems p by (auto split: if_splits dest!: map_of_SomeD simp: image_iff)
    ultimately show ?case using Cons.IH p by simp
  qed
qed

lemma has_role_entry_roles:
  assumes "account_ok E" and "has_role E a i q"
  shows "has_role E (entry_roles j rs a) i q"
proof -
  have "has_role E (entry_role a j r) i q" if "has_role E a i q" for a r
    using that by (auto simp: has_role_map_of [OF assms(1)] entry_role_def split: option.splits)
  with assms(2) show ?thesis
    unfolding entry_roles_def by (induction rs arbitrary: a) simp_all
qed

lemma has_role_insert_features:
  assumes "account_ok E"
  shows "insert_features E fs a = Inr b \<Longrightarrow> has_role E b i q = has_role E a i q"
  by (induction fs arbitrary: a) (auto simp: assms split: prod.splits if_splits)

lemma has_role_entries:
  assumes "account_ok E" and "has_role E a i q"
  shows "has_role E (fold (\<lambda>(j, rs) a. entry_roles j rs a) rm a) i q"
  using assms(2) by (induction rm arbitrary: a) (auto simp: has_role_entry_roles assms(1))

lemma has_role_multisig [simp]:
  "account_ok E \<Longrightarrow> has_role E (set_multisig_feature E a) i q = has_role E a i q"
  by (simp add: set_multisig_feature_def split: sum.split)

section \<open>The account module as a transition system\<close>

datatype account_request =
    AccountCreate create_args
  | AccountSetDescription description_args
  | AccountAddRoles roles_args
  | AccountRemoveRoles roles_args
  | AccountDisable address
  | AccountAddFeatures features_args

fun run_account :: "('m, 'v, 'g) env \<Rightarrow> address \<Rightarrow> account_request \<Rightarrow> ('m, 'g, unit) ledger_op" where
  "run_account E sender (AccountCreate args) = bnd (account_create_op E sender args) (\<lambda>_. ret ())"
| "run_account E sender (AccountSetDescription args) = set_description E sender args"
| "run_account E sender (AccountAddRoles args) = add_roles E sender args"
| "run_account E sender (AccountRemoveRoles args) = remove_roles E sender args"
| "run_account E sender (AccountDisable i) = disable E sender i"
| "run_account E sender (AccountAddFeatures args) = add_features E sender args"

text \<open>A role map is a \<open>BTreeMap\<close>: its keys are distinct.\<close>

fun request_ok :: "account_request \<Rightarrow> bool" where
  "request_ok (AccountRemoveRoles args) = bt_ok (ro_roles args)"
| "request_ok _ = True"

inductive account_steps :: "('m, 'v, 'g) env \<Rightarrow> ('m, 'g) ledger \<Rightarrow> ('m, 'g) ledger \<Rightarrow> bool" for E where
  start: "account_steps E s s"
| step: "account_steps E s t \<Longrightarrow> request_ok req \<Longrightarrow> run_account E sender req t = (r, u) \<Longrightarrow>
    account_steps E s u"

inductive_cases account_steps_cases: "account_steps E s t"

subsection \<open>What a request keeps\<close>

text \<open>What the operations on one account, found enabled, leave true.\<close>

definition stores_keep :: "('m, 'v, 'g) env \<Rightarrow> (('m, 'g) ledger \<Rightarrow> bool) \<Rightarrow> address \<Rightarrow> account \<Rightarrow>
    ('m, 'g) ledger \<Rightarrow> bool" where
  "stores_keep E I i a s \<longleftrightarrow>
     (\<forall>d. de_account d = i \<longrightarrow> I (snd (store_description E a d s))) \<and>
     (\<forall>r. ro_account r = i \<longrightarrow> I (snd (store_add_roles E a r s))) \<and>
     (\<forall>r. ro_account r = i \<longrightarrow> bt_ok (ro_roles r) \<longrightarrow> I (snd (store_remove_roles E a r s))) \<and>
     (\<forall>f. fe_account f = i \<longrightarrow> I (snd (store_add_features E a f s))) \<and>
     I (snd (disable_account E i s))"

lemma stores_keepI:
  assumes "\<And>d. de_account d = i \<Longrightarrow> keeps I (store_description E a d)"
    and "\<And>r. ro_account r = i \<Longrightarrow> keeps I (store_add_roles E a r)"
    and "\<And>r. ro_account r = i \<Longrightarrow> bt_ok (ro_roles r) \<Longrightarrow> keeps I (store_remove_roles E a r)"
    and "\<And>f. fe_account f = i \<Longrightarrow> keeps I (store_add_features E a f)"
    and "I (snd (disable_account E i s))" and "I s"
  shows "stores_keep E I i a s"
  using assms unfolding stores_keep_def by (simp add: keeps_def)

lemma unless_then: "I s \<Longrightarrow> I (snd (m s)) \<Longrightarrow> I (snd (andthen (unless b e) m s))"
  by (simp add: run)

lemma lift_then: "I s \<Longrightarrow> I (snd (m s)) \<Longrightarrow> I (snd (andthen (lift r) m s))"
  by (cases r) (simp_all add: run)

text \<open>A request of the module creates an account, or operates on one it found enabled.\<close>

lemma keeps_account_request:
  assumes st: "store_ok E" and cr: "\<And>a. keeps I (add_account E a)"
    and ac: "\<And>s i a. I s \<Longrightarrow> stored_account E s i = Some a \<Longrightarrow> enabled a \<Longrightarrow> stores_keep E I i a s"
    and req: "request_ok req"
  shows "keeps I (run_account E sender req)"
proof (cases req)
  case (AccountCreate args)
  then show ?thesis
    by (auto simp: account_create_op_def Let_def
        intro!: keeps_bnd keeps_if keeps_andthen keeps_throw keeps_lift keeps_ret cr)
next
  case (AccountSetDescription args)
  then show ?thesis
    using ac unfolding stores_keep_def
    by (auto simp: set_description_def intro!: keeps_existing [OF st] unless_then [where I = I])
next
  case (AccountAddRoles args)
  then show ?thesis
    using ac unfolding stores_keep_def
    by (auto simp: add_roles_def intro!: keeps_existing [OF st] unless_then [where I = I])
next
  case (AccountRemoveRoles args)
  with req have "bt_ok (ro_roles args)" by simp
  with AccountRemoveRoles show ?thesis
    using ac unfolding stores_keep_def
    by (auto simp: remove_roles_def intro!: keeps_existing [OF st] unless_then [where I = I])
next
  case (AccountDisable i)
  then show ?thesis
    using ac unfolding stores_keep_def
    by (auto simp: disable_def intro!: keeps_existing [OF st] unless_then [where I = I])
next
  case (AccountAddFeatures args)
  then show ?thesis
    using ac unfolding stores_keep_def
    by (auto simp: add_features_def intro!: keeps_if keeps_throw keeps_existing [OF st] lift_then [where I = I])
qed

subsection \<open>Self-ownership\<close>

lemma self_owned_create:
  assumes "env_ok E" and "account_ok E"
  shows "keeps (self_owned E) (add_account_raw E acc b)"
  unfolding add_account_raw_def Let_def
  using assms by (intro keeps_bnd keeps_andthen keeps_whenever keeps_ret self_owned_commit) simp_all

lemma self_owned_disabling:
  assumes E: "env_ok E" "account_ok E"
  shows "keeps (self_owned E) (disable_account E i)"
  unfolding keeps_def
proof (intro allI impI)
  fix s assume s: "self_owned E s"
  have k: "keeps (self_owned E) (andthen (commit_account E i (a\<lparr>disabled := Some (Inl True)\<rparr>))
     (andthen (log_event E (EvAccountDisable i)) (maybe_commit E)))"
    if "has_role E a i Owner" for a
    using E that by (intro keeps_andthen self_owned_commit) simp_all
  obtain r where r: "get_account_even_disabled E i s = (r, s)"
    using get_account_even_disabled_pure [of E i s] by (cases "get_account_even_disabled E i s") auto
  show "self_owned E (snd (disable_account E i s))"
  proof (cases "\<exists>a. r = Inr (Some a) \<and> enabled a")
    case False
    with r s show ?thesis
      by (cases r) (auto simp: disable_account_def run ok_or_ok split: option.split sum.split)
  next
    case True
    then obtain a where a: "r = Inr (Some a)" "enabled a" by blast
    have "stored_account E s i = Some a"
      using r a E get_account_even_disabled_ok [of E i s "Some a" s]
      by (auto simp: stored_account_def split: option.splits)
    then have "has_role E a i Owner" using s by (rule self_owned_stored [rotated])
    from keeps_snd [OF k [OF this] s] r a show ?thesis
      by (simp add: disable_account_def run)
  qed
qed

lemma self_owned_features:
  assumes E: "env_ok E" "account_ok E" and a: "has_role E a (fe_account args) Owner"
  shows "keeps (self_owned E) (store_add_features E a args)"
proof (cases "insert_features E (fe_features args) a")
  case (Inl e)
  then show ?thesis by (simp add: store_add_features_def keeps_def run)
next
  case (Inr b)
  let ?c = "case fe_roles args of None \<Rightarrow> b
             | Some rm \<Rightarrow> fold (\<lambda>(i, rs) a. entry_roles i rs a) rm b"
  have "has_role E ?c (fe_account args) Owner"
    using a E Inr by (auto simp: has_role_entries has_role_insert_features split: option.split)
  then have "keeps (self_owned E) (andthen (lift (validate_account E ?c))
     (andthen (log_event E (EvAccountAddFeatures (fe_account args)
        (case fe_roles args of None \<Rightarrow> [] | Some rm \<Rightarrow> rm) (fe_features args)))
     (commit_account E (fe_account args) ?c)))"
    using E by (intro keeps_andthen keeps_lift self_owned_commit) simp_all
  with Inr show ?thesis by (simp add: store_add_features_def keeps_def run Let_def)
qed

lemma self_owned_stores:
  assumes E: "env_ok E" "account_ok E" and s: "self_owned E s" and i: "stored_account E s i = Some a"
  shows "stores_keep E (self_owned E) i a s"
proof (rule stores_keepI)
  have own: "has_role E a i Owner" using s i by (rule self_owned_stored)
  show "keeps (self_owned E) (store_description E a d)" if "de_account d = i" for d
    using E own that by (auto simp: store_description_def intro!: keeps_andthen self_owned_commit)
  show "keeps (self_owned E) (store_add_roles E a r)" if "ro_account r = i" for r
    using E own that
    by (auto simp: store_add_roles_def has_role_each_add intro!: keeps_andthen self_owned_commit)
  show "keeps (self_owned E) (store_remove_roles E a r)" if "ro_account r = i" and "bt_ok (ro_roles r)" for r
    using E own that bt_ok_distinct [OF that(2)]
    by (auto simp: store_remove_roles_def split: option.split
        intro!: keeps_if keeps_throw keeps_andthen self_owned_commit has_role_each_remove)
  show "keeps (self_owned E) (store_add_features E a f)" if "fe_account f = i" for f
    using own that by (intro self_owned_features [OF E]) simp
  show "self_owned E (snd (disable_account E i s))"
    by (rule keeps_snd [OF self_owned_disabling [OF E] s])
qed (rule s)

lemma self_owned_request:
  assumes E: "env_ok E" "account_ok E" and req: "request_ok req"
  shows "keeps (self_owned E) (run_account E sender req)"
proof (rule keeps_account_request [OF _ _ _ req])
  show "store_ok E" using E by simp
  show "keeps (self_owned E) (add_account E a)" for a
    unfolding add_account_def using E by (rule self_owned_create)
qed (rule self_owned_stores [OF E])

lemma self_owned_steps:
  assumes "account_steps E s t" and "env_ok E" and "account_ok E" and "self_owned E s"
  shows "self_owned E t"
  using assms
proof (induction rule: account_steps.induct)
  case (start s)
  then show ?case by simp
next
  case (step s t req sender r u)
  then show ?case using keepsD [OF self_owned_request] by blast
qed

subsection \<open>Who changes an account\<close>

definition accounts_issued :: "('m, 'v, 'g) env \<Rightarrow> ('m, 'g) ledger \<Rightarrow> bool" where
  \<comment> \<open>every account's address was handed out for a number below the counter\<close>
  "accounts_issued E s \<longleftrightarrow> (\<exists>ident n. sub_identity E s ACCOUNT_IDENTITY_ROOT = Inr ident \<and>
     sub_counter E s ident = Inr n \<and>
     (\<forall>i. view E s (key_for_account E i) \<noteq> None \<longrightarrow> (\<exists>c < n. with_subresource_id E ident c = Inr i)))"

lemma accounts_issued_cong:
  assumes "migrations t = migrations s"
    and "\<And>k. (\<And>i. k \<noteq> key_for_account E i) \<Longrightarrow> k \<noteq> EVENT_COUNT_ROOT \<Longrightarrow> (\<And>i. k \<noteq> key_for_event i) \<Longrightarrow>
      view E t k = view E s k"
    and "\<And>i. view E t (key_for_account E i) \<noteq> None \<Longrightarrow> view E s (key_for_account E i) \<noteq> None"
    and "accounts_issued E s"
  shows "accounts_issued E t"
proof -
  have "sub_identity E t ACCOUNT_IDENTITY_ROOT = sub_identity E s ACCOUNT_IDENTITY_ROOT"
    using assms(2) by (simp add: sub_identity_def split: option.split)
  moreover have "sub_counter E t i = sub_counter E s i" for i
    using assms(1,2) by (simp add: sub_counter_def token_migration_active_def)
  ultimately show ?thesis using assms(3,4) unfolding accounts_issued_def by metis
qed

lemma issued_log_free: "log_free E (accounts_issued E)"
  unfolding log_free_def
proof (intro allI impI)
  fix s t :: "('a, 'c) ledger"
  assume s: "accounts_issued E s" and "migrations t = migrations s"
    and v: "\<forall>k. k \<noteq> EVENT_COUNT_ROOT \<longrightarrow> (\<forall>i. k \<noteq> key_for_event i) \<longrightarrow> view E t k = view E s k"
  show "accounts_issued E t"
    by (rule accounts_issued_cong [OF _ _ _ s]) (use v \<open>migrations t = migrations s\<close> in auto)
qed

lemma entry_log_free: "log_free E (\<lambda>s. view E s (key_for_account E i) = v)"
  by (simp add: log_free_def)

text \<open>A property that survives a write of the account \<open>j\<close> survives every operation on \<open>j\<close>.\<close>

definition account_writes :: "('m, 'v, 'g) env \<Rightarrow> address \<Rightarrow> (('m, 'g) ledger \<Rightarrow> bool) \<Rightarrow> bool" where
  "account_writes E j I \<longleftrightarrow> store_ok E \<and> log_free E I \<and>
     (\<forall>v s. I s \<longrightarrow> I (applied E [(key_for_account E j, Put v)] s))"

lemma writes_commit: "account_writes E j I \<Longrightarrow> keeps I (commit_account E j a)"
  by (rule keeps_commit_account) (auto simp: account_writes_def)

lemma writes_log: "account_writes E j I \<Longrightarrow> keeps I (log_event E c)"
  by (rule keeps_log_event) (auto simp: account_writes_def)

lemma writes_maybe: "account_writes E j I \<Longrightarrow> keeps I (maybe_commit E)"
  by (rule keeps_maybe_commit) (auto simp: account_writes_def)

lemma writes_stores:
  "account_writes E (de_account d) I \<Longrightarrow> keeps I (store_description E a d)"
  "account_writes E (ro_account r) I \<Longrightarrow> keeps I (store_add_roles E a r)"
  "account_writes E (ro_account r) I \<Longrightarrow> keeps I (store_remove_roles E a r)"
  "account_writes E (fe_account f) I \<Longrightarrow> keeps I (store_add_features E a f)"
  "account_writes E j I \<Longrightarrow> keeps I (disable_account E j)"
proof -
  show "account_writes E (de_account d) I \<Longrightarrow> keeps I (store_description E a d)"
    unfolding store_description_def by (intro keeps_andthen writes_log writes_commit)
  show "account_writes E (ro_account r) I \<Longrightarrow> keeps I (store_add_roles E a r)"
    unfolding store_add_roles_def by (intro keeps_andthen writes_log writes_commit)
  show "account_writes E (ro_account r) I \<Longrightarrow> keeps I (store_remove_roles E a r)"
    unfolding store_remove_roles_def
    by (intro keeps_if keeps_throw keeps_andthen writes_log writes_commit)
  show "account_writes E (fe_account f) I \<Longrightarrow> keeps I (store_add_features E a f)"
    unfolding store_add_features_def Let_def
    by (intro keeps_bnd keeps_lift keeps_andthen writes_log writes_commit)
  have "keeps I (get_account_even_disabled E j)"
    by (simp add: keeps_def get_account_even_disabled_pure)
  then show "account_writes E j I \<Longrightarrow> keeps I (disable_account E j)"
    unfolding disable_account_def
    by (intro keeps_bnd keeps_lift keeps_if keeps_throw keeps_andthen writes_log writes_commit writes_maybe)
qed

lemma writes_entry: "env_ok E \<Longrightarrow> j \<noteq> i \<Longrightarrow> account_writes E j (\<lambda>s. view E s (key_for_account E i) = v)"
  by (simp add: account_writes_def entry_log_free)

lemma writes_issued:
  assumes "env_ok E"
  shows "account_writes E j (\<lambda>s. accounts_issued E s \<and> view E s (key_for_account E j) \<noteq> None)"
  unfolding account_writes_def
proof (intro conjI allI impI)
  show "store_ok E" using assms by simp
  show "log_free E (\<lambda>s. accounts_issued E s \<and> view E s (key_for_account E j) \<noteq> None)"
    by (rule log_free_conj [OF issued_log_free]) (simp add: log_free_def)
  fix v and s :: "('a, 'c) ledger"
  assume s: "accounts_issued E s \<and> view E s (key_for_account E j) \<noteq> None"
  have v: "view E (applied E [(key_for_account E j, Put v)] s) k =
      (if k = key_for_account E j then Some v else view E s k)" for k
    using assms by simp
  show "accounts_issued E (applied E [(key_for_account E j, Put v)] s)"
  proof (rule accounts_issued_cong [OF _ _ _ conjunct1 [OF s]])
    fix i
    assume "view E (applied E [(key_for_account E j, Put v)] s) (key_for_account E i) \<noteq> None"
    then show "view E s (key_for_account E i) \<noteq> None"
      using s by (cases "key_for_account E i = key_for_account E j") (simp_all add: v)
  qed (simp_all add: v)
  show "view E (applied E [(key_for_account E j, Put v)] s) (key_for_account E j) \<noteq> None"
    by (simp add: v)
qed

text \<open>Every request on an existing account checks the account and the sender's ownership first.\<close>

fun target :: "account_request \<Rightarrow> address option" where
  "target (AccountCreate _) = None"
| "target (AccountSetDescription args) = Some (de_account args)"
| "target (AccountAddRoles args) = Some (ro_account args)"
| "target (AccountRemoveRoles args) = Some (ro_account args)"
| "target (AccountDisable i) = Some i"
| "target (AccountAddFeatures args) = Some (fe_account args)"

lemma guarded_existing:
  assumes "store_ok E" and "m = bnd (existing_account E j) (\<lambda>a. andthen (lift (chk a)) (st a))"
    and "\<And>a. chk a = Inr () \<Longrightarrow> has_role E a sender Owner"
    and "\<And>a I. account_writes E j I \<Longrightarrow> keeps I (st a)"
  shows "snd (m s) = s \<or> (\<exists>a. stored_account E s j = Some a \<and> enabled a \<and> has_role E a sender Owner \<and>
    (\<forall>I. account_writes E j I \<longrightarrow> I s \<longrightarrow> I (snd (m s))))"
proof -
  obtain r where r: "existing_account E j s = (r, s)"
    using existing_account_pure [of E j s] by (cases "existing_account E j s") auto
  show ?thesis
  proof (cases r)
    case (Inl e)
    with r show ?thesis by (simp add: assms(2) run)
  next
    case (Inr a)
    with r have a: "stored_account E s j = Some a" "enabled a"
      using existing_account_ok [OF assms(1), of j s a s] by simp_all
    show ?thesis
    proof (cases "chk a")
      case (Inl e)
      with r Inr show ?thesis by (simp add: assms(2) run)
    next
      case (Inr u)
      then have "chk a = Inr ()" by simp
      then have "has_role E a sender Owner" "snd (m s) = snd (st a s)"
        using assms(3) r \<open>r = Inr a\<close> by (simp_all add: assms(2) run)
      with a keeps_snd [OF assms(4)] show ?thesis by metis
    qed
  qed
qed

lemma unless_lift: "unless b e = lift (if b then Inr () else Inl e)"
  by (rule ext) (simp add: run)

lemma request_guarded:
  assumes "env_ok E" and "account_ok E" and "target req = Some j"
  shows "snd (run_account E sender req s) = s \<or>
    (\<exists>a. stored_account E s j = Some a \<and> enabled a \<and> has_role E a sender Owner \<and>
      (\<forall>I. account_writes E j I \<longrightarrow> I s \<longrightarrow> I (snd (run_account E sender req s))))"
proof (cases req)
  case (AccountCreate args)
  with assms(3) show ?thesis by simp
next
  case (AccountSetDescription args)
  with assms show ?thesis
    by (intro guarded_existing) (auto simp: set_description_def unless_lift writes_stores split: if_splits)
next
  case (AccountAddRoles args)
  with assms show ?thesis
    by (intro guarded_existing) (auto simp: add_roles_def unless_lift writes_stores split: if_splits)
next
  case (AccountRemoveRoles args)
  with assms show ?thesis
    by (intro guarded_existing) (auto simp: remove_roles_def unless_lift writes_stores split: if_splits)
next
  case (AccountDisable i)
  with assms show ?thesis
    by (intro guarded_existing) (auto simp: disable_def unless_lift writes_stores split: if_splits)
next
  case (AccountAddFeatures args)
  show ?thesis
  proof (cases "fe_features args = []")
    case True
    with AccountAddFeatures show ?thesis by (simp add: add_features_def run)
  next
    case False
    with AccountAddFeatures assms show ?thesis
      by (intro guarded_existing) (auto simp: add_features_def writes_stores needs_role_ok okD)
  qed
qed

lemma entry_log [simp]: "store_ok E \<Longrightarrow> keeps (\<lambda>s. view E s (key_for_account E i) = v) (log_event E c)"
  by (rule keeps_log_event [OF _ entry_log_free])

lemma entry_maybe [simp]: "store_ok E \<Longrightarrow> keeps (\<lambda>s. view E s (key_for_account E i) = v) (maybe_commit E)"
  by (rule keeps_maybe_commit [OF _ entry_log_free])

lemma entry_next: "store_ok E \<Longrightarrow>
    keeps (\<lambda>s. view E s (key_for_account E i) = v) (get_next_subresource E root)"
  by (rule keeps_get_next_subresource) simp_all

text \<open>The address for a new account is not that of an existing one.\<close>

lemma issued_next:
  assumes E: "env_ok E" "subresources_ok E" and s: "accounts_issued E s"
    and ok: "get_next_subresource E ACCOUNT_IDENTITY_ROOT s = (Inr j, t)"
  shows "view E s (key_for_account E j) = None" and "accounts_issued E t"
    and "\<And>v. accounts_issued E (applied E [(key_for_account E j, Put v)] t)"
proof -
  obtain ident n where i: "sub_identity E s ACCOUNT_IDENTITY_ROOT = Inr ident"
    and n: "sub_counter E s ident = Inr n"
    and iss: "\<And>i. view E s (key_for_account E i) \<noteq> None \<Longrightarrow> \<exists>c < n. with_subresource_id E ident c = Inr i"
    using s unfolding accounts_issued_def by blast
  have root: "ACCOUNT_IDENTITY_ROOT \<noteq> key_for_subresource_counter E x b" for x b by simp
  have st: "store_ok E" using E(1) by simp
  from get_next_subresource_ok [OF st E(2) ok root] i n obtain c where
      c: "n \<le> c" "c \<le> max_subresource_id E" and j: "with_subresource_id E ident c = Inr j"
    and t: "t = subresource_taken E ident c s" by (metis sum.inject(2))
  show "view E s (key_for_account E j) = None"
  proof (rule ccontr)
    assume "view E s (key_for_account E j) \<noteq> None"
    then obtain c' where "c' < n" "with_subresource_id E ident c' = Inr j" using iss by blast
    with j E(2) have "c' = c" unfolding subresources_ok_def by blast
    with \<open>c' < n\<close> c(1) show False by simp
  qed
  have lt: "c < c + 1"
    using unat_step [OF c(2)] E(2) by (simp add: subresources_ok_def word_less_nat_alt)
  have keep: "view E t (key_for_account E x) = view E s (key_for_account E x)" for x
    using st by (simp add: t subresource_taken_def)
  have i': "sub_identity E t ACCOUNT_IDENTITY_ROOT = Inr ident" and n': "sub_counter E t ident = Inr (c + 1)"
    using st i by (simp_all add: t sub_identity_taken sub_counter_taken root)
  have below: "\<exists>d < c + 1. with_subresource_id E ident d = Inr x"
    if "view E s (key_for_account E x) \<noteq> None \<or> x = j" for x
  proof (cases "x = j")
    case True
    with j lt show ?thesis by blast
  next
    case False
    with that iss obtain d where "d < n" "with_subresource_id E ident d = Inr x" by blast
    moreover from \<open>d < n\<close> c(1) lt have "d < c + 1" by simp
    ultimately show ?thesis by blast
  qed
  show "accounts_issued E t"
    unfolding accounts_issued_def using i' n' below keep by metis
  fix v
  let ?u = "applied E [(key_for_account E j, Put v)] t"
  have "sub_identity E ?u ACCOUNT_IDENTITY_ROOT = Inr ident" "sub_counter E ?u ident = Inr (c + 1)"
    using st i' n' by (simp_all add: sub_identity_def sub_counter_def split: option.splits)
  moreover have "view E ?u (key_for_account E x) \<noteq> None \<Longrightarrow>
      view E s (key_for_account E x) \<noteq> None \<or> x = j" for x
    using E(1) keep by (auto split: if_splits)
  ultimately show "accounts_issued E ?u"
    unfolding accounts_issued_def using below by blast
qed

lemma create_effect:
  assumes E: "env_ok E" "subresources_ok E" and s: "accounts_issued E s"
  shows "accounts_issued E (snd (add_account_raw E acc b s))"
    and "view E s (key_for_account E i) \<noteq> None \<Longrightarrow>
      view E (snd (add_account_raw E acc b s)) (key_for_account E i) = view E s (key_for_account E i)"
proof -
  have st: "store_ok E" using E(1) by simp
  have root: "ACCOUNT_IDENTITY_ROOT \<noteq> key_for_subresource_counter E x b" for x b by simp
  obtain r t where run: "get_next_subresource E ACCOUNT_IDENTITY_ROOT s = (r, t)"
    by (cases "get_next_subresource E ACCOUNT_IDENTITY_ROOT s")
  let ?m = "\<lambda>j. andthen (whenever b (log_event E
        (let a = set_multisig_feature E (add_role E acc j Owner) in
          EvAccountCreate j (description a) (roles a) (features a))))
      (andthen (commit_account E j (set_multisig_feature E (add_role E acc j Owner))) (ret j))"
  have m: "add_account_raw E acc b s = (case r of Inl e \<Rightarrow> (Inl e, t) | Inr j \<Rightarrow> ?m j t)"
    using run by (simp add: add_account_raw_def Let_def bnd_run split: sum.split)
  have K: "I (snd (?m j t))" if "account_writes E j I" "I t" for j I
    using that by (intro keeps_snd [where I = I] keeps_andthen keeps_whenever keeps_ret
        writes_log [OF that(1)] writes_commit [OF that(1)])
  define J where "J = (\<lambda>j u. accounts_issued E u \<and> (\<forall>v. accounts_issued E (applied E [(key_for_account E j, Put v)] u)))"
  show "accounts_issued E (snd (add_account_raw E acc b s))"
  proof (cases r)
    case (Inl e)
    with run get_next_subresource_error [OF st E(2) root] s m show ?thesis by auto
  next
    case (Inr j)
    have J0: "J j t"
      using issued_next [OF E s run [unfolded Inr]] by (simp add: J_def)
    have free: "log_free E (J j)"
      unfolding J_def
    proof (rule log_free_conj [OF issued_log_free])
      show "log_free E (\<lambda>u. \<forall>v. accounts_issued E (applied E [(key_for_account E j, Put v)] u))"
        unfolding log_free_def
      proof (intro allI impI)
        fix u w :: "('a, 'c) ledger" and v
        assume i: "\<forall>v. accounts_issued E (applied E [(key_for_account E j, Put v)] u)"
          and g: "migrations w = migrations u"
          and v: "\<forall>k. k \<noteq> EVENT_COUNT_ROOT \<longrightarrow> (\<forall>i. k \<noteq> key_for_event i) \<longrightarrow> view E w k = view E u k"
        show "accounts_issued E (applied E [(key_for_account E j, Put v)] w)"
          by (rule accounts_issued_cong [OF _ _ _ spec [OF i, of v]]) (use g v st in auto)
      qed
    qed
    have twice: "accounts_issued E (applied E [(key_for_account E j, Put w)] (applied E [(key_for_account E j, Put v)] u))"
      if "\<forall>v. accounts_issued E (applied E [(key_for_account E j, Put v)] u)" for u :: "('a, 'c) ledger" and v w
      by (rule accounts_issued_cong [OF _ _ _ spec [OF that, of v]]) (use st in auto)
    have "account_writes E j (J j)"
      unfolding account_writes_def using st free twice by (auto simp: J_def)
    from K [OF this J0] show ?thesis using m Inr by (simp add: J_def)
  qed
  assume v: "view E s (key_for_account E i) \<noteq> None"
  show "view E (snd (add_account_raw E acc b s)) (key_for_account E i) = view E s (key_for_account E i)"
  proof (cases r)
    case (Inl e)
    with run get_next_subresource_error [OF st E(2) root] m show ?thesis by auto
  next
    case (Inr j)
    have t: "view E t (key_for_account E i) = view E s (key_for_account E i)"
      using keepsD [OF entry_next [OF st] _ run] by metis
    from issued_next(1) [OF E s run [unfolded Inr]] v have "j \<noteq> i" by auto
    from K [OF writes_entry [OF E(1) this, of "view E s (key_for_account E i)"] t] m Inr
    show ?thesis by simp
  qed
qed

lemma create_op_cases:
  "snd (run_account E sender (AccountCreate args) s) = s \<or>
   snd (run_account E sender (AccountCreate args) s) =
     snd (add_account_raw E (account_create E sender args) True s)"
  by (cases "validate_account E (account_create E sender args)")
    (auto simp: account_create_op_def Let_def run add_account_def split: prod.split sum.split)

lemma issued_request:
  assumes E: "env_ok E" "account_ok E" "subresources_ok E" and s: "accounts_issued E s"
  shows "accounts_issued E (snd (run_account E sender req s))"
proof (cases "target req")
  case None
  then obtain args where "req = AccountCreate args" by (cases req) auto
  with create_op_cases [of E sender args s] s create_effect(1) [OF E(1,3) s] show ?thesis by auto
next
  case (Some j)
  from request_guarded [OF E(1,2) Some, of sender s] show ?thesis
  proof
    assume "snd (run_account E sender req s) = s"
    with s show ?thesis by simp
  next
    assume "\<exists>a. stored_account E s j = Some a \<and> enabled a \<and> has_role E a sender Owner \<and>
      (\<forall>I. account_writes E j I \<longrightarrow> I s \<longrightarrow> I (snd (run_account E sender req s)))"
    then obtain a where "stored_account E s j = Some a"
      and I: "\<And>I. account_writes E j I \<Longrightarrow> I s \<Longrightarrow> I (snd (run_account E sender req s))" by blast
    then have "view E s (key_for_account E j) \<noteq> None"
      by (auto simp: stored_account_def split: option.splits)
    with I [OF writes_issued [OF E(1)]] s show ?thesis by blast
  qed
qed

lemma entry_request:
  assumes E: "env_ok E" "account_ok E" "subresources_ok E" and s: "accounts_issued E s"
    and v: "view E s (key_for_account E i) \<noteq> None"
    and no: "\<And>a. stored_account E s i = Some a \<Longrightarrow> enabled a \<Longrightarrow> \<not> has_role E a sender Owner"
  shows "view E (snd (run_account E sender req s)) (key_for_account E i) = view E s (key_for_account E i)"
proof (cases "target req")
  case None
  then obtain args where "req = AccountCreate args" by (cases req) auto
  with create_op_cases [of E sender args s] create_effect(2) [OF E(1,3) s v] show ?thesis by auto
next
  case (Some j)
  from request_guarded [OF E(1,2) Some, of sender s] show ?thesis
  proof (elim disjE exE conjE)
    assume "snd (run_account E sender req s) = s"
    then show ?thesis by simp
  next
    fix a
    assume a: "stored_account E s j = Some a" "enabled a" "has_role E a sender Owner"
      and I: "\<forall>I. account_writes E j I \<longrightarrow> I s \<longrightarrow> I (snd (run_account E sender req s))"
    with no have "j \<noteq> i" by auto
    from I [rule_format, OF writes_entry [OF E(1) this, of "view E s (key_for_account E i)"]]
    show ?thesis by simp
  qed
qed

lemma issued_steps:
  assumes "account_steps E s t" and "env_ok E" and "account_ok E" and "subresources_ok E"
    and "accounts_issued E s"
  shows "accounts_issued E t"
  using assms
proof (induction rule: account_steps.induct)
  case (start s)
  then show ?case by simp
next
  case (step s t req sender r u)
  then show ?case using issued_request [of E t sender req] by simp
qed

lemma disabled_steps:
  assumes "account_steps E s t" and E: "env_ok E" "account_ok E" "subresources_ok E"
    and "accounts_issued E s" and "stored_account E s i = Some a" and "\<not> enabled a"
  shows "stored_account E t i = Some a"
  using assms(1,5,6)
proof (induction rule: account_steps.induct)
  case (start s)
  then show ?case by simp
next
  case (step s t req sender r u)
  then have t: "stored_account E t i = Some a" and iss: "accounts_issued E t"
    using issued_steps E by blast+
  have "view E t (key_for_account E i) \<noteq> None"
    using t by (auto simp: stored_account_def split: option.splits)
  then have "view E (snd (run_account E sender req t)) (key_for_account E i) = view E t (key_for_account E i)"
    by (rule entry_request [OF E iss]) (use t assms(7) in auto)
  with step.hyps(3) t show ?case by (simp add: stored_account_def)
qed

section \<open>Properties\<close>

text \<open>
  Every account owns itself: whatever requests are made, by whomever and with whatever
  outcome, each account in the store decodes and holds the owner role on itself.
\<close>

lemma accounts_own_themselves:
  assumes "env_ok E" and "account_ok E" and "self_owned E s" and "account_steps E s t"
  shows "self_owned E t"
  using assms(4,1-3) by (rule self_owned_steps)

text \<open>
  C4. An account is changed by its owners only: when a request changes the entry of an existing
  account, then that account was enabled and the sender held its owner role.
\<close>

theorem account_changed_by_owner:
  assumes "env_ok E" and "account_ok E" and "subresources_ok E" and "accounts_issued E s"
    and "view E s (key_for_account E i) \<noteq> None"
    and "view E (snd (run_account E sender req s)) (key_for_account E i) \<noteq> view E s (key_for_account E i)"
  shows "\<exists>a. stored_account E s i = Some a \<and> enabled a \<and> has_role E a sender Owner"
  using entry_request [OF assms(1-5), of sender req] assms(6) by blast

text \<open>
  A disabled account stays as it is: no sequence of requests enables it again or changes
  anything in it.
\<close>

lemma disabled_account_stays:
  assumes "env_ok E" and "account_ok E" and "subresources_ok E" and "accounts_issued E s"
    and "stored_account E s i = Some a" and "\<not> enabled a" and "account_steps E s t"
  shows "stored_account E t i = Some a"
  using assms(7,1-6) by (rule disabled_steps)

text \<open>
  C6. Funds leave an address only with its holder's authority: when a send request changes
  anything, the source address is legal and is the sender's own, or that of an enabled
  account on which the sender is owner, or may transact through the ledger feature.
\<close>

lemma verify_account_role_ok:
  assumes "account_ok E"
  shows "verify_account_role E a sender f rs = Inr () \<longleftrightarrow> has_role E a sender Owner \<or>
    (has_feature_id E (features a) f \<and> (\<exists>r \<in> set rs. has_role E a sender r))"
  using needs_role_ok [OF assms] by (simp add: verify_account_role_def okD)

lemma get_account_run:
  assumes "store_ok E"
  shows "get_account E i s = (Inr (Some a), t) \<longleftrightarrow> t = s \<and> stored_account E s i = Some a \<and> enabled a"
  using assms by (auto simp: get_account_def okD get_account_even_disabled_ok
      stored_account_def split: option.splits if_splits sum.splits)

theorem send_authorised:
  assumes "env_ok E" and "account_ok E" and "snd (ledger_send E sender args s) \<noteq> s"
  shows "let frm = (case send_from args of None \<Rightarrow> sender | Some f \<Rightarrow> f) in
    \<not> is_illegal E frm \<and> (frm = sender \<or> (\<exists>a. stored_account E s frm = Some a \<and> enabled a \<and>
      (has_role E a sender Owner \<or>
       has_feature_id E (features a) (ledger_feature_id E) \<and> has_role E a sender CanLedgerTransact)))"
proof -
  let ?f = "case send_from args of None \<Rightarrow> sender | Some f \<Rightarrow> f"
  obtain x where x: "get_account E ?f s = (x, s)"
    using get_account_pure [of E ?f s] by (cases "get_account E ?f s") auto
  have legal: "\<not> is_illegal E ?f"
    using assms(3) by (auto simp: ledger_send_def run)
  show ?thesis
  proof (cases "?f = sender")
    case True
    with legal show ?thesis by simp
  next
    case False
    with assms(3) legal x obtain a where a: "x = Inr (Some a)"
      and ok: "verify_account_role E a sender (ledger_feature_id E) [CanLedgerTransact] = Inr ()"
      by (cases x) (auto simp: ledger_send_def Let_def run split: option.splits sum.splits)
    with x have "stored_account E s ?f = Some a" "enabled a"
      using get_account_run [of E ?f s a s] assms(1) by simp_all
    with ok legal show ?thesis
      using verify_account_role_ok [OF assms(2)] by auto
  qed
qed

text \<open>
  The defaults of a new multisig account: without a threshold it is the number of those who
  may approve, less one for the account, which owns itself, and never wraps; the timeout
  never exceeds the maximum.
\<close>

lemma approver_count_pos:
  assumes "account_ok E" and "has_role E a i Owner"
  shows "0 < approver_count a"
proof -
  from assms obtain rs where "map_of (roles a) i = Some rs" "Owner \<in> set rs"
    by (auto simp: has_role_map_of split: option.splits)
  then have "(i, rs) \<in> set (filter (\<lambda>(_, rs). Owner \<in> set rs \<or> CanMultisigApprove \<in> set rs
     \<or> CanMultisigSubmit \<in> set rs) (roles a))"
    by (auto dest: map_of_SomeD)
  then show ?thesis unfolding approver_count_def by (metis length_pos_if_in_set)
qed

lemma multisig_defaults_bounds:
  assumes "account_ok E" and "approver_count (add_role E acc i Owner) < 2 ^ 64"
    and "m = with_multisig_defaults (add_role E acc i Owner) arg"
  shows "\<exists>t e. arg_threshold m = Some t \<and> arg_timeout_in_secs m = Some e \<and>
    e \<le> MULTISIG_MAXIMUM_TIMEOUT_IN_SECS \<and>
    (arg_threshold arg = None \<longrightarrow> unat t + 1 = approver_count (add_role E acc i Owner))"
proof -
  let ?n = "approver_count (add_role E acc i Owner)"
  have pos: "0 < ?n" using approver_count_pos [of E _ i] assms(1) by simp
  have "unat (of_nat ?n - 1 :: u64) = ?n - 1"
  proof -
    have "(of_nat ?n - 1 :: u64) = of_nat (?n - 1)" using pos by (simp add: of_nat_diff)
    moreover have "take_bit 64 (?n - 1) = ?n - 1"
      using assms(2) by (intro take_bit_nat_eq_self) simp
    ultimately show ?thesis by (simp only: unsigned_of_nat) simp
  qed
  with pos show ?thesis
    by (auto simp: assms(3) with_multisig_defaults_def MULTISIG_DEFAULT_TIMEOUT_IN_SECS_def
        MULTISIG_MAXIMUM_TIMEOUT_IN_SECS_def split: option.split)
qed

section \<open>Witnesses\<close>

lemma ref_account_fields [simp]:
  "has_role ref_env = ref_has_role" "with_description ref_env = (\<lambda>a d. a\<lparr>description := d\<rparr>)"
  "ledger_feature_id ref_env = 0" "has_feature_id ref_env fs i = (\<exists>f \<in> set fs. feature_id f = i)"
  by (simp_all add: ref_env_def)

lemma ref_account_ok: "account_ok ref_env"
  unfolding account_ok_def
proof (intro conjI allI)
  fix a i r j q rs s c
  show "has_role ref_env a i r \<longleftrightarrow> (case map_of (roles a) i of None \<Rightarrow> False | Some rs \<Rightarrow> r \<in> set rs)"
    by (simp add: ref_has_role_def)
  show "has_role ref_env (add_role ref_env a i r) j q \<longleftrightarrow> j = i \<and> q = r \<or> has_role ref_env a j q"
    by (simp add: ref_env_def ref_has_role_def update_conv' split: option.split)
  show "has_role ref_env (remove_role ref_env a i r) j q \<longleftrightarrow> has_role ref_env a j q \<and> \<not> (j = i \<and> q = r)"
    by (auto simp: ref_env_def ref_has_role_def update_conv' split: option.split)
  show "if \<exists>r \<in> set rs. has_role ref_env a i r then needs_role ref_env a i rs = Inr ()
        else \<exists>e. needs_role ref_env a i rs = Inl e"
    by (simp add: ref_env_def)
  show "has_role ref_env (account_create ref_env s c) s Owner"
    by (simp add: ref_env_def ref_has_role_def)
qed simp

lemma account_key_counter [simp]:
  "key_for_account E i \<noteq> ACCOUNT_SUBRESOURCE_ID_ROOT" "ACCOUNT_SUBRESOURCE_ID_ROOT \<noteq> key_for_account E i"
  "IDENTITY_ROOT \<noteq> ACCOUNT_SUBRESOURCE_ID_ROOT" "ACCOUNT_SUBRESOURCE_ID_ROOT \<noteq> IDENTITY_ROOT"
  "ACCOUNT_IDENTITY_ROOT \<noteq> ACCOUNT_SUBRESOURCE_ID_ROOT" "ACCOUNT_SUBRESOURCE_ID_ROOT \<noteq> ACCOUNT_IDENTITY_ROOT"
  by (simp_all add: key_defs)

definition ref_account :: "(bool + reason) option \<Rightarrow> account" where
  "ref_account d = \<lparr>description = None, roles = [(2, [Owner]), (600, [Owner])],
     features = [Feature 0 []], disabled = d\<rparr>"

definition ref_accounts :: "(bool + reason) option \<Rightarrow> (ref_store, string list) ledger" where
  "ref_accounts d = ref_ledger [(IDENTITY_ROOT, RAddress 5), (ACCOUNT_SUBRESOURCE_ID_ROOT, RBytes (u32_be 1)),
     (key_for_account ref_env 600, RAccount (ref_account d))] []"

lemma ref_dec_account [simp]:
  "dec (c_account ref_env) v = (case v of RAccount a \<Rightarrow> Inr a | _ \<Rightarrow> Inl ''unexpected type'')"
  by (simp add: ref_codecs tagged_def split: ref_value.split)

lemma ref_stored_account: "stored_account ref_env (ref_accounts d) 600 = Some (ref_account d)"
  by (simp add: stored_account_def ref_accounts_def)

lemma ref_self_owned: "self_owned ref_env (ref_accounts d)"
  using symbol_key_inj [of ref_env]
  by (auto simp: self_owned_def ref_accounts_def ref_account_def ref_has_role_def
      simp del: ref_env_simps(9) split: if_splits)

lemma ref_accounts_issued: "accounts_issued ref_env (ref_accounts d)"
proof -
  have "sub_identity ref_env (ref_accounts d) ACCOUNT_IDENTITY_ROOT = Inr 5"
    by (simp add: sub_identity_def ref_accounts_def)
  moreover have "sub_counter ref_env (ref_accounts d) 5 = Inr 1"
    by (simp add: sub_counter_def ref_accounts_def token_migration_active_def
        key_for_subresource_counter_def u32_of_def)
  moreover have "\<exists>c < 1. with_subresource_id ref_env 5 c = Inr i"
    if "view ref_env (ref_accounts d) (key_for_account ref_env i) \<noteq> None" for i
  proof -
    have "i = 600"
      using that by (auto simp: ref_accounts_def simp del: ref_env_simps(9) split: if_splits)
    then show ?thesis by (intro exI [of _ 0]) simp
  qed
  ultimately show ?thesis unfolding accounts_issued_def by blast
qed

lemma accounts_own_themselves_witness:
  "self_owned ref_env (snd (run_account ref_env 2 (AccountDisable 600) (ref_accounts None)))"
proof (rule accounts_own_themselves [OF ref_env_ok ref_account_ok ref_self_owned])
  show "account_steps ref_env (ref_accounts None)
      (snd (run_account ref_env 2 (AccountDisable 600) (ref_accounts None)))"
    by (rule account_steps.step [OF account_steps.start _ surjective_pairing]) simp
qed

lemma ref_disable: "run_account ref_env 2 (AccountDisable 600) (ref_accounts None) =
    (Inr (), snd (run_account ref_env 2 (AccountDisable 600) (ref_accounts None)))"
  and ref_disable_stored: "view ref_env (snd (run_account ref_env 2 (AccountDisable 600) (ref_accounts None)))
    (key_for_account ref_env 600) = Some (RAccount (ref_account (Some (Inl True))))"
proof -
  have ex: "existing_account ref_env 600 (ref_accounts None) = (Inr (ref_account None), ref_accounts None)"
    by (simp add: existing_account_ok ref_stored_account enabled_def ref_account_def)
  have own: "ref_has_role (ref_account None) 2 Owner"
    by (simp add: ref_has_role_def ref_account_def)
  have even: "get_account_even_disabled ref_env 600 (ref_accounts None) =
      (Inr (Some (ref_account None)), ref_accounts None)"
    by (simp add: get_account_even_disabled_ok ref_accounts_def)
  let ?s = "applied ref_env [(key_for_account ref_env 600, Put (RAccount (ref_account (Some (Inl True)))))]
    (ref_accounts None)"
  have enc: "enc (c_account ref_env) a = Inr (RAccount a)" for a
    by (simp add: ref_codecs tagged_def)
  have acc: "ref_account None\<lparr>disabled := Some (Inl True)\<rparr> = ref_account (Some (Inl True))"
    "enabled (ref_account None)"
    by (simp_all add: ref_account_def enabled_def)
  have bc: "maybe_committed ref_env ?s = ?s"
    by (simp add: maybe_committed_def ref_accounts_def)
  have com: "commit_account ref_env 600 (ref_account (Some (Inl True))) (ref_accounts None) = (Inr (), ?s)"
    by (simp add: commit_account_def run encode_def enc bc)
  have "counter_at ref_env ?s EVENT_COUNT_ROOT = Inr 0"
    by (simp add: counter_at_def ref_accounts_def del: ref_view) (simp add: key_defs)
  then have "run_account ref_env 2 (AccountDisable 600) (ref_accounts None) =
      (Inr (), maybe_committed ref_env (logged ref_env (EvAccountDisable 600) 0 ?s))"
    by (simp add: disable_def disable_account_def run ex own even acc com log_event_run)
  then show "run_account ref_env 2 (AccountDisable 600) (ref_accounts None) =
    (Inr (), snd (run_account ref_env 2 (AccountDisable 600) (ref_accounts None)))"
    and "view ref_env (snd (run_account ref_env 2 (AccountDisable 600) (ref_accounts None)))
    (key_for_account ref_env 600) = Some (RAccount (ref_account (Some (Inl True))))"
    by (simp_all add: view_logged del: ref_view)
qed

lemma account_changed_by_owner_witness:
  "\<exists>a. stored_account ref_env (ref_accounts None) 600 = Some a \<and> ref_has_role a 2 Owner"
proof -
  have v: "view ref_env (ref_accounts None) (key_for_account ref_env 600) = Some (RAccount (ref_account None))"
    by (simp add: ref_accounts_def)
  have "ref_account (Some (Inl True)) \<noteq> ref_account None" by (simp add: ref_account_def)
  then show ?thesis
    using account_changed_by_owner [OF ref_env_ok ref_account_ok ref_subresources_ok ref_accounts_issued [of None],
        of 600 2 "AccountDisable 600"] ref_disable_stored v by auto
qed

lemma disabled_account_stays_witness:
  "stored_account ref_env (snd (run_account ref_env 2 (AccountAddRoles \<lparr>ro_account = 600,
      ro_roles = [(3, [Owner])]\<rparr>) (ref_accounts (Some (Inl True))))) 600 =
    Some (ref_account (Some (Inl True)))"
proof (rule disabled_account_stays [OF ref_env_ok ref_account_ok ref_subresources_ok ref_accounts_issued
      ref_stored_account])
  show "\<not> enabled (ref_account (Some (Inl True)))" by (simp add: ref_account_def enabled_def)
  show "account_steps ref_env (ref_accounts (Some (Inl True)))
      (snd (run_account ref_env 2 (AccountAddRoles \<lparr>ro_account = 600, ro_roles = [(3, [Owner])]\<rparr>)
        (ref_accounts (Some (Inl True)))))"
    by (rule account_steps.step [OF account_steps.start _ surjective_pairing]) simp
qed

lemma send_authorised_witness:
  "\<not> is_illegal ref_env 2 \<and> snd (ledger_send ref_env 2 \<lparr>send_from = None, send_to = 3, send_symbol = 7,
      send_amount = 4, send_memo = None\<rparr> (ref_ledger ref_funds [])) \<noteq> ref_ledger ref_funds []"
proof -
  let ?args = "\<lparr>send_from = None, send_to = 3, send_symbol = 7, send_amount = 4, send_memo = None\<rparr>"
  have run: "ledger_send ref_env 2 ?args (ref_ledger ref_funds []) =
      send ref_env 2 3 7 4 None (ref_ledger ref_funds [])"
    by (simp add: ledger_send_def run)
  obtain n where "send ref_env 2 3 7 4 None (ref_ledger ref_funds []) =
      (Inr (), sent ref_env 2 3 7 4 None n (ref_ledger ref_funds []))"
    using send_accepted [OF ref_env_ok ref_funds_ok ref_funds_accepted] by metis
  moreover have "balance ref_env (sent ref_env 2 3 7 4 None n (ref_ledger ref_funds [])) 3 7 \<noteq>
      balance ref_env (ref_ledger ref_funds []) 3 7"
    by (simp add: balance_sent)
  ultimately have "snd (ledger_send ref_env 2 ?args (ref_ledger ref_funds [])) \<noteq> ref_ledger ref_funds []"
    using run by auto
  with send_authorised [OF ref_env_ok ref_account_ok, of 2 ?args "ref_ledger ref_funds []"]
  show ?thesis by simp
qed

lemma multisig_defaults_bounds_witness:
  "\<exists>t. arg_threshold (with_multisig_defaults (add_role ref_env (ref_account None) 700 Owner)
      \<lparr>arg_threshold = None, arg_timeout_in_secs = None, arg_execute_automatically = None\<rparr>) = Some t \<and>
    unat t = 2"
proof -
  have n: "approver_count (add_role ref_env (ref_account None) 700 Owner) = 3"
    by (simp add: ref_env_def approver_count_def ref_account_def)
  then show ?thesis
    using multisig_defaults_bounds [OF ref_account_ok, of "ref_account None" 700 _
        "\<lparr>arg_threshold = None, arg_timeout_in_secs = None, arg_execute_automatically = None\<rparr>"]
    by auto
qed

end
