(* ===== verification/Tokens.thy ===== *)
theory Tokens
  imports Accounts
begin

text \<open>
  \<open>storage/ledger_tokens.rs\<close>, \<open>module/ledger_tokens.rs\<close> and \<open>module/ledger.rs\<close>: tokens with
  their information and extended information, the map of symbols and tickers. No two symbols
  share a ticker, and updates of a token and of its extended information need a right from its
  owner; what it takes in general to change a token is shown for the whole server in \<open>Rights\<close>.
\<close>

record symbol_meta =
  sm_name :: string
  sm_decimals :: u64
  sm_owner :: "address option"
  sm_maximum :: "nat option"

record token_create_args =
  tc_summary :: token_summary
  tc_owner :: "(address + unit) option"
  tc_distribution :: "distribution option"
  tc_maximum :: "nat option"
  tc_extended_info :: "ext_info option"
  tc_memo :: "memo option"

record token_update_args =
  tu_symbol :: symbol
  tu_name :: "string option"
  tu_ticker :: "string option"
  tu_decimals :: "u64 option"
  tu_owner :: "(address + unit) option"
  tu_memo :: "memo option"

record token_info_args =
  tia_symbol :: symbol
  tia_extended_info :: "attr_index list option"

record token_add_ext_args =
  ta_symbol :: symbol
  ta_extended_info :: ext_info
  ta_memo :: "memo option"

record token_remove_ext_args =
  tr_symbol :: symbol
  tr_extended_info :: "attr_index list"
  tr_memo :: "memo option"

section \<open>Storage\<close>

definition verify_tokens_sender :: "address \<Rightarrow> address \<Rightarrow> unit res" where
  "verify_tokens_sender sender token_identity =
     (if sender \<noteq> token_identity then Inl (Err (TokenError InvalidSender)) else Inr ())"

definition total_supply :: "(address \<times> (symbol \<times> nat) list) list \<Rightarrow> (symbol \<times> nat) list" where
  "total_supply initial_balance =
     fold (\<lambda>(symb, t) m. bt_entry_or 0 (\<lambda>n. n + t) symb m) (concat (map snd initial_balance)) []"

definition token_info_of :: "symbol \<Rightarrow> string \<Rightarrow> symbol_meta \<Rightarrow> nat \<Rightarrow> token_info" where
  "token_info_of symb tick meta tot = \<lparr>ti_symbol = symb,
     ti_summary = \<lparr>name = sm_name meta, ticker = tick, decimals = sm_decimals meta\<rparr>,
     ti_supply = \<lparr>total = tot, circulating = tot, maximum = sm_maximum meta\<rparr>,
     ti_owner = sm_owner meta\<rparr>"

primrec check_metas :: "(symbol \<times> symbol_meta) list \<Rightarrow> (symbol \<times> nat) list \<Rightarrow> symbol list \<Rightarrow>
    unit res" where
  "check_metas metas supply_of [] = Inr ()"
| "check_metas metas supply_of (x # xs) =
     (if map_of metas x = None then Inl (Err (Unknown ''Symbol missing metadata''))
      else if map_of supply_of x = None then Inl (Err (Unknown ''Symbol missing total supply''))
      else check_metas metas supply_of xs)"

definition token_entries :: "('m, 'v, 'g) env \<Rightarrow> symbol \<Rightarrow> token_info \<Rightarrow>
    (('m, 'g) ledger, (bytes \<times> 'v store_op) list) op" where
  "token_entries E x info = bnd (encode (c_ext_info E) (ext_info_default E)) (\<lambda>e.
     bnd (encode (c_token_info E) info) (\<lambda>i.
     ret [(key_for_ext_info E x, Put e), (key_for_symbol E x, Put i)]))"

definition with_tokens :: "('m, 'v, 'g) env \<Rightarrow> symbols \<Rightarrow> (symbol \<times> symbol_meta) list option \<Rightarrow>
    address option \<Rightarrow> u32 option \<Rightarrow> (address \<times> (symbol \<times> nat) list) list \<Rightarrow> ('m, 'g, unit) ledger_op" where
  "with_tokens E syms symbols_meta token_identity next_subresource initial_balances =
     bnd (gets (token_migration_active E)) (\<lambda>active. whenever active (
     bnd (lift (ok_or (Unknown ''Symbols metadata needs to be provided'') symbols_meta)) (\<lambda>metas.
     let supplies = total_supply initial_balances in
     andthen (lift (check_metas metas supplies (map fst syms)))
     (bnd (fold_act metas (\<lambda>batch (k, meta).
        (case (map_of supplies k, map_of syms k) of
           (Some tot, Some tick) \<Rightarrow>
             bnd (token_entries E k (token_info_of k tick meta tot)) (\<lambda>b. ret (batch @ b))
         | _ \<Rightarrow> throw (Panic ''no entry found for key''))) []) (\<lambda>batch.
      andthen (db_apply E apply_failed batch)
      (bnd (get_identity E IDENTITY_ROOT) (\<lambda>server.
      let ident = (case token_identity of None \<Rightarrow> server | Some i \<Rightarrow> i) in
      andthen (db_apply E apply_failed
        [(key_for_subresource_counter E ident active,
          Put (of_bytes E (u32_be (case next_subresource of None \<Rightarrow> 0 | Some n \<Rightarrow> n)))),
         (TOKEN_IDENTITY_ROOT, Put (address_to_vec E ident))])
      (commit_storage E))))))))"

definition get_owner :: "('m, 'v, 'g) env \<Rightarrow> symbol \<Rightarrow> ('m, 'g, address option) ledger_op" where
  "get_owner E x = bnd (db_get E get_failed (key_for_symbol E x)) (\<lambda>d.
     bnd (lift (ok_or (TokenError (TokenInfoNotFound x)) d)) (\<lambda>v.
     bnd (decode (c_token_info E) v) (\<lambda>info. ret (ti_owner info))))"

primrec collect_summaries :: "('m, 'v, 'g) env \<Rightarrow> (string + bytes \<times> 'v) list \<Rightarrow>
    (symbol \<times> token_summary) list \<Rightarrow> (symbol \<times> token_summary) list res" where
  "collect_summaries E [] acc = Inr acc"
| "collect_summaries E (item # its) acc =
     rbind (map_err Unknown item) (\<lambda>(k, v).
     rbind (map_err DeserializationError (dec (c_token_info E) v)) (\<lambda>info.
     rbind (symbol_of_key E k) (\<lambda>x. collect_summaries E its (bt_insert x (ti_summary info) acc))))"

definition get_token_info_summary :: "('m, 'v, 'g) env \<Rightarrow>
    ('m, 'g, (symbol \<times> token_summary) list) ledger_op" where
  "get_token_info_summary E = bnd (gets (token_migration_active E)) (\<lambda>active.
     if active then reads (\<lambda>s. collect_summaries E (all_symbols E (persistent_store s) Indeterminate) [])
     else ret [])"

definition update_symbols :: "('m, 'v, 'g) env \<Rightarrow> symbol \<Rightarrow> string \<Rightarrow> ('m, 'g, unit) ledger_op" where
  "update_symbols E x tick = bnd (get_symbols_and_tickers E) (\<lambda>m.
     bnd (encode (c_symbols E) (bt_insert x tick m)) (\<lambda>v.
     db_apply E apply_failed [(''/config/symbols'', Put v)]))"

definition distribution_batch :: "('m, 'v, 'g) env \<Rightarrow> symbol \<Rightarrow> distribution \<Rightarrow>
    (bytes \<times> 'v store_op) list" where
  "distribution_batch E x d = map (\<lambda>(k, v). (key_for_account_balance E k x, Put (amount_to_vec E v))) d"

definition created_info :: "address \<Rightarrow> token_create_args \<Rightarrow> symbol \<Rightarrow> token_info" where
  "created_info sender args x =
     (let tot = sum_list (map snd (case tc_distribution args of None \<Rightarrow> [] | Some d \<Rightarrow> d)) in
      \<lparr>ti_symbol = x, ti_summary = tc_summary args,
       ti_supply = \<lparr>total = tot, circulating = tot, maximum = tc_maximum args\<rparr>,
       ti_owner = (case tc_owner args of None \<Rightarrow> Some sender | Some (Inl a) \<Rightarrow> Some a | Some (Inr _) \<Rightarrow> None)\<rparr>)"

definition create_token :: "('m, 'v, 'g) env \<Rightarrow> address \<Rightarrow> token_create_args \<Rightarrow>
    ('m, 'g, token_info) ledger_op" where
  "create_token E sender args =
     bnd (get_next_subresource E TOKEN_IDENTITY_ROOT) (\<lambda>x.
     andthen (update_symbols E x (ticker (tc_summary args)))
     (let info = created_info sender args x;
          d = (case tc_distribution args of None \<Rightarrow> [] | Some d \<Rightarrow> d) in
      bnd (encode (c_token_info E) info) (\<lambda>i.
      bnd (encode (c_ext_info E) (case tc_extended_info args of None \<Rightarrow> ext_info_default E | Some e \<Rightarrow> e)) (\<lambda>e.
      andthen (log_event E (EvTokenCreate (tc_summary args) x (tc_owner args) (tc_distribution args)
         (tc_maximum args) (tc_extended_info args) (tc_memo args)))
      (andthen (db_apply E apply_failed (sort_key fst (distribution_batch E x d
          @ [(key_for_symbol E x, Put i), (key_for_ext_info E x, Put e)])))
      (andthen (maybe_commit E) (ret info)))))))"

definition info_token :: "('m, 'v, 'g) env \<Rightarrow> token_info_args \<Rightarrow>
    ('m, 'g, token_info \<times> ext_info) ledger_op" where
  "info_token E args =
     bnd (db_get E Unknown (key_for_symbol E (tia_symbol args))) (\<lambda>d.
     bnd (lift (ok_or (TokenError (TokenInfoNotFound (tia_symbol args))) d)) (\<lambda>info_enc.
     bnd (db_get E get_failed (key_for_ext_info E (tia_symbol args))) (\<lambda>d.
     bnd (lift (ok_or (TokenError (ExtInfoNotFound (tia_symbol args))) d)) (\<lambda>ext_enc.
     bnd (decode (c_ext_info E) ext_enc) (\<lambda>ext.
     bnd (case tia_extended_info args of None \<Rightarrow> ret ext
          | Some is \<Rightarrow> lift (from_many (ext_info_retain E ext is))) (\<lambda>ext'.
     bnd (decode (c_token_info E) info_enc) (\<lambda>info. ret (info, ext'))))))))"

definition updated_info :: "token_update_args \<Rightarrow> token_info \<Rightarrow> token_info" where
  "updated_info args info =
     (let su = ti_summary info;
          su1 = (case tu_name args of None \<Rightarrow> su | Some n \<Rightarrow> su\<lparr>name := n\<rparr>);
          su2 = (case tu_ticker args of None \<Rightarrow> su1 | Some t \<Rightarrow> su1\<lparr>ticker := t\<rparr>);
          su3 = (case tu_decimals args of None \<Rightarrow> su2 | Some d \<Rightarrow> su2\<lparr>decimals := d\<rparr>);
          i1 = info\<lparr>ti_summary := su3\<rparr>
      in case tu_owner args of None \<Rightarrow> i1 | Some (Inl a) \<Rightarrow> i1\<lparr>ti_owner := Some a\<rparr>
           | Some (Inr _) \<Rightarrow> i1\<lparr>ti_owner := None\<rparr>)"

definition update_ticker :: "('m, 'v, 'g) env \<Rightarrow> symbol \<Rightarrow> string \<Rightarrow> ('m, 'g, unit) ledger_op" where
  "update_ticker E x tick = bnd (get_symbols_and_tickers E) (\<lambda>m.
     if tick \<in> set (map snd m) then raise (TokenError (TickerExists tick))
     else update_symbols E x tick)"

definition update_token :: "('m, 'v, 'g) env \<Rightarrow> token_update_args \<Rightarrow> ('m, 'g, unit) ledger_op" where
  "update_token E args = bnd (db_get E Unknown (key_for_symbol E (tu_symbol args))) (\<lambda>d.
     case d of
       None \<Rightarrow> raise (Unknown ''Symbol not found in persistent storage'')
     | Some v \<Rightarrow> bnd (lift (panic_on_err ''unwrap'' (dec (c_token_info E) v))) (\<lambda>info.
         andthen (case tu_ticker args of None \<Rightarrow> ret () | Some t \<Rightarrow> update_ticker E (tu_symbol args) t)
         (bnd (encode (c_token_info E) (updated_info args info)) (\<lambda>i.
         andthen (db_apply E apply_failed [(key_for_symbol E (tu_symbol args), Put i)])
         (andthen (log_event E (EvTokenUpdate (tu_symbol args) (tu_name args) (tu_ticker args)
             (tu_decimals args) (tu_owner args) (tu_memo args)))
           (maybe_commit E))))))"

definition store_add_extended_info :: "('m, 'v, 'g) env \<Rightarrow> token_add_ext_args \<Rightarrow>
    ('m, 'g, unit) ledger_op" where
  "store_add_extended_info E args =
     bnd (db_get E get_failed (key_for_ext_info E (ta_symbol args))) (\<lambda>d.
     bnd (case d of None \<Rightarrow> ret (ext_info_new E) | Some v \<Rightarrow> decode (c_ext_info E) v) (\<lambda>e0.
     bnd (case ext_info_memo E (ta_extended_info args) of None \<Rightarrow> ret (e0, [])
          | Some m \<Rightarrow> bnd (lift (from_many (ext_info_with_memo E e0 m))) (\<lambda>e. ret (e, [index_memo E])))
       (\<lambda>(e1, is1).
     bnd (case ext_info_logo E (ta_extended_info args) of None \<Rightarrow> ret (e1, is1)
          | Some l \<Rightarrow> bnd (lift (from_many (ext_info_with_logo E e1 l)))
              (\<lambda>e. ret (e, is1 @ [index_visual_logo E])))
       (\<lambda>(e2, is2).
     bnd (encode (c_ext_info E) e2) (\<lambda>v.
     andthen (db_apply E apply_failed [(key_for_ext_info E (ta_symbol args), Put v)])
     (andthen (log_event E (EvTokenAddExtendedInfo (ta_symbol args) is2 (ta_memo args)))
       (maybe_commit E)))))))"

definition remove_index :: "('m, 'v, 'g) env \<Rightarrow> ext_info \<Rightarrow> attr_index \<Rightarrow> ('m, 'g, ext_info) ledger_op" where
  "remove_index E e i = bnd (lift (from_many (ext_info_contains E e i))) (\<lambda>b.
     if b then lift (from_many (ext_info_remove E e i)) else ret e)"

definition store_remove_extended_info :: "('m, 'v, 'g) env \<Rightarrow> token_remove_ext_args \<Rightarrow>
    ('m, 'g, unit) ledger_op" where
  "store_remove_extended_info E args =
     bnd (db_get E get_failed (key_for_ext_info E (tr_symbol args))) (\<lambda>d.
     bnd (lift (ok_or (TokenError (ExtInfoNotFound (tr_symbol args))) d)) (\<lambda>v.
     bnd (decode (c_ext_info E) v) (\<lambda>e.
     bnd (fold_act (tr_extended_info args) (remove_index E) e) (\<lambda>e'.
     bnd (encode (c_ext_info E) e') (\<lambda>v'.
     andthen (db_apply E apply_failed [(key_for_ext_info E (tr_symbol args), Put v')])
     (andthen (log_event E (EvTokenRemoveExtendedInfo (tr_symbol args) (tr_extended_info args) (tr_memo args)))
       (maybe_commit E)))))))"

section \<open>The modules\<close>

definition needs_migration :: "('m, 'v, 'g) env \<Rightarrow> string \<Rightarrow> ('m, 'g, unit) ledger_op" where
  "needs_migration E method = bnd (gets (token_migration_active E))
     (\<lambda>active. unless active (Err (InvalidMethodName method)))"

text \<open>\<open>get_identity(TOKEN_IDENTITY_ROOT).or_else(|_| get_identity(IDENTITY_ROOT))?\<close>\<close>

definition token_identity :: "('m, 'v, 'g) env \<Rightarrow> ('m, 'g, address) ledger_op" where
  "token_identity E = bnd (attempt (get_identity E TOKEN_IDENTITY_ROOT)) (\<lambda>r. case r of
     Inl _ \<Rightarrow> get_identity E IDENTITY_ROOT | Inr a \<Rightarrow> ret a)"

definition tokens_create :: "('m, 'v, 'g) env \<Rightarrow> address \<Rightarrow> token_create_args \<Rightarrow>
    ('m, 'g, token_info) ledger_op" where
  "tokens_create E sender args =
     andthen (needs_migration E ''tokens.create'')
     (andthen (bnd (token_identity E) (\<lambda>i. lift (verify_tokens_sender sender i)))
     (andthen (case tc_owner args of
          Some (Inl addr) \<Rightarrow> verify_acl E sender addr [CanTokensCreate] (token_feature_id E)
        | _ \<Rightarrow> ret ())
     (bnd (get_symbols_and_tickers E) (\<lambda>m.
       if ticker (tc_summary args) \<in> set (map snd m)
       then raise (Unknown ''The ticker already exists on this network'')
       else create_token E sender args))))"

definition tokens_info :: "('m, 'v, 'g) env \<Rightarrow> token_info_args \<Rightarrow>
    ('m, 'g, token_info \<times> ext_info) ledger_op" where
  "tokens_info E args = andthen (needs_migration E ''tokens.info'')
     (bnd (get_symbols E) (\<lambda>syms.
       if tia_symbol args \<notin> set syms then raise (Unknown ''The symbol was not found'')
       else info_token E args))"

definition verify_token_owner :: "('m, 'v, 'g) env \<Rightarrow> address \<Rightarrow> symbol \<Rightarrow> role \<Rightarrow>
    ('m, 'g, unit) ledger_op" where
  "verify_token_owner E sender x r = bnd (get_owner E x) (\<lambda>current_owner. case current_owner of
       Some addr \<Rightarrow> verify_acl E sender addr [r] (token_feature_id E)
     | None \<Rightarrow> raise (Unknown ''Unable to update, this token is immutable''))"

definition tokens_update :: "('m, 'v, 'g) env \<Rightarrow> address \<Rightarrow> token_update_args \<Rightarrow>
    ('m, 'g, unit) ledger_op" where
  "tokens_update E sender args =
     andthen (needs_migration E ''tokens.update'')
     (andthen (verify_token_owner E sender (tu_symbol args) CanTokensUpdate)
     (bnd (get_symbols E) (\<lambda>syms.
       if tu_symbol args \<notin> set syms then raise (Unknown ''The symbol was not found'')
       else update_token E args)))"

definition tokens_add_extended_info :: "('m, 'v, 'g) env \<Rightarrow> address \<Rightarrow> token_add_ext_args \<Rightarrow>
    ('m, 'g, unit) ledger_op" where
  "tokens_add_extended_info E sender args =
     andthen (needs_migration E ''tokens.addExtendedInfo'')
     (andthen (verify_token_owner E sender (ta_symbol args) CanTokensAddExtendedInfo)
       (store_add_extended_info E args))"

definition tokens_remove_extended_info :: "('m, 'v, 'g) env \<Rightarrow> address \<Rightarrow> token_remove_ext_args \<Rightarrow>
    ('m, 'g, unit) ledger_op" where
  "tokens_remove_extended_info E sender args =
     andthen (needs_migration E ''tokens.removeExtendedInfo'')
     (andthen (verify_token_owner E sender (tr_symbol args) CanTokensRemoveExtendedInfo)
       (store_remove_extended_info E args))"

text \<open>\<open>module/ledger.rs\<close>\<close>

record ledger_info =
  li_symbols :: "symbol list"
  li_hash :: bytes
  li_local_names :: symbols
  li_tokens :: "(symbol \<times> token_summary) list"

definition ledger_info_op :: "('m, 'v, 'g) env \<Rightarrow> ('m, 'g, ledger_info) ledger_op" where
  "ledger_info_op E = bnd (gets (hash E)) (\<lambda>h.
     bnd (get_symbols_and_tickers E) (\<lambda>m.
     bnd (get_token_info_summary E) (\<lambda>ts.
     ret \<lparr>li_symbols = map fst m, li_hash = h, li_local_names = m, li_tokens = ts\<rparr>)))"

definition ledger_balance :: "('m, 'v, 'g) env \<Rightarrow> address \<Rightarrow> address option \<Rightarrow> symbol list option \<Rightarrow>
    ('m, 'g, (symbol \<times> nat) list) ledger_op" where
  "ledger_balance E sender acc syms =
     get_multiple_balances E (case acc of None \<Rightarrow> sender | Some a \<Rightarrow> a)
       (case syms of None \<Rightarrow> [] | Some xs \<Rightarrow> xs)"

section \<open>Frames\<close>

lemma symbols_key: "''/config/symbols'' = SYMBOLS_ROOT"
  by (simp add: SYMBOLS_ROOT_def)

lemma off_log_free:
  "k \<noteq> EVENT_COUNT_ROOT \<Longrightarrow> (\<And>i. k \<noteq> key_for_event i) \<Longrightarrow> log_free E (\<lambda>s. view E s k = v)"
  by (simp add: log_free_def)

lemma log_event_frame:
  assumes "store_ok E" and "log_event E c s = (r, t)"
    and "k \<noteq> EVENT_COUNT_ROOT" and "\<And>i. k \<noteq> key_for_event i"
  shows "view E t k = view E s k"
  using keepsD [OF keeps_log_event [OF assms(1) off_log_free [OF assms(3,4)]] refl assms(2)] .

lemma apply_batch_cong:
  assumes "f k = g k"
  shows "apply_batch b f k = apply_batch b g k"
  using assms
proof (induction b arbitrary: f g)
  case Nil
  then show ?case by simp
next
  case (Cons p b)
  then have "(f(fst p := op_value (snd p))) k = (g(fst p := op_value (snd p))) k" by simp
  then show ?case unfolding apply_batch.simps by (rule Cons.IH)
qed

lemma maybe_commit_ok:
  "store_ok E \<Longrightarrow> maybe_commit E s = (r, t) \<longleftrightarrow> r = Inr () \<and> t = maybe_committed E s"
  by (auto simp: run)

lemma db_apply_ok:
  assumes "store_ok E"
  shows "db_apply E f b s = (Inr (), t) \<longleftrightarrow> batch_ok b \<and> t = applied E b s"
proof (cases "batch_ok b")
  case True
  with assms show ?thesis by (auto simp: run)
next
  case False
  with db_apply_bad [OF assms False, of f s] show ?thesis by auto
qed

section \<open>Tickers are unique\<close>

definition symbols_at :: "('m, 'v, 'g) env \<Rightarrow> ('m, 'g) ledger \<Rightarrow> symbols option" where
  "symbols_at E s = (case view E s SYMBOLS_ROOT of None \<Rightarrow> None
     | Some v \<Rightarrow> (case dec (c_symbols E) v of Inl _ \<Rightarrow> None | Inr m \<Rightarrow> Some m))"

definition tickers_unique :: "('m, 'v, 'g) env \<Rightarrow> ('m, 'g) ledger \<Rightarrow> bool" where
  "tickers_unique E s \<longleftrightarrow> (\<forall>m. symbols_at E s = Some m \<longrightarrow> distinct (map snd m))"

lemma set_snd_bt_insert: "set (map snd (bt_insert k v m)) \<subseteq> insert v (set (map snd m))"
  by (induction k v m rule: bt_insert.induct) auto

lemma distinct_bt_insert:
  "distinct (map snd m) \<Longrightarrow> v \<notin> set (map snd m) \<Longrightarrow> distinct (map snd (bt_insert k v m))"
proof (induction k v m rule: bt_insert.induct)
  case (1 k v)
  then show ?case by simp
next
  case (2 k v k' v' m)
  then show ?case using set_snd_bt_insert [of k v m] by auto
qed

lemma get_symbols_and_tickers_ok:
  assumes "store_ok E"
  shows "get_symbols_and_tickers E s = (Inr m, t) \<longleftrightarrow> t = s \<and> symbols_at E s = Some m"
  using assms by (auto simp: get_symbols_and_tickers_def okD db_get_run symbols_at_def
      split: option.splits sum.splits)

lemma symbols_and_tickers_pure: "snd (get_symbols_and_tickers E s) = s"
  by (simp add: get_symbols_and_tickers_def run db_get_def decode_def split: sum.split prod.split)

lemma tickers_log_free: "log_free E (tickers_unique E)"
  by (simp add: log_free_def tickers_unique_def symbols_at_def)

lemma keeps_view_apply:
  assumes "store_ok E" and "k \<notin> fst ` set b"
  shows "keeps (\<lambda>s. view E s k = v) (db_apply E f b)"
  using assms by (intro keeps_db_apply) (simp_all add: apply_batch_other)

lemma tickers_apply:
  assumes "store_ok E" and "SYMBOLS_ROOT \<notin> fst ` set b"
  shows "keeps (tickers_unique E) (db_apply E f b)"
  using assms
  by (intro keeps_db_apply) (simp_all add: tickers_unique_def symbols_at_def apply_batch_other)

lemma update_symbols_keeps:
  assumes "env_ok E" and "\<And>m. symbols_at E s = Some m \<Longrightarrow> distinct (map snd m) \<and> tick \<notin> set (map snd m)"
  shows "tickers_unique E (snd (update_symbols E x tick s))"
proof (cases "symbols_at E s")
  case None
  obtain r where r: "get_symbols_and_tickers E s = (r, s)"
    using symbols_and_tickers_pure [of E s] by (cases "get_symbols_and_tickers E s") auto
  with None have "r \<noteq> Inr m" for m
    using get_symbols_and_tickers_ok [of E s m s] assms(1) by auto
  then obtain e where "r = Inl e" by (cases r) auto
  with r None show ?thesis by (simp add: update_symbols_def run tickers_unique_def)
next
  case (Some m)
  with assms have "get_symbols_and_tickers E s = (Inr m, s)"
    by (simp add: get_symbols_and_tickers_ok)
  with assms(1) assms(2) [OF Some] show ?thesis
    by (simp add: update_symbols_def run symbols_key tickers_unique_def symbols_at_def
        distinct_bt_insert del: map_map)
qed

datatype token_request =
    TokenCreate token_create_args
  | TokenUpdate token_update_args
  | TokenAddExtendedInfo token_add_ext_args
  | TokenRemoveExtendedInfo token_remove_ext_args

fun run_token :: "('m, 'v, 'g) env \<Rightarrow> address \<Rightarrow> token_request \<Rightarrow> ('m, 'g, unit) ledger_op" where
  "run_token E sender (TokenCreate args) = bnd (tokens_create E sender args) (\<lambda>_. ret ())"
| "run_token E sender (TokenUpdate args) = tokens_update E sender args"
| "run_token E sender (TokenAddExtendedInfo args) = tokens_add_extended_info E sender args"
| "run_token E sender (TokenRemoveExtendedInfo args) = tokens_remove_extended_info E sender args"

lemma symbols_next:
  assumes "store_ok E"
  shows "symbols_at E (snd (get_next_subresource E root s)) = symbols_at E s"
proof -
  have "keeps (\<lambda>t. symbols_at E t = symbols_at E s) (get_next_subresource E root)"
    by (rule keeps_get_next_subresource [OF assms]) (use assms in \<open>simp_all add: symbols_at_def\<close>)
  from keeps_snd [OF this] show ?thesis by simp
qed

lemma tickers_create_token:
  assumes E: "env_ok E" and s: "tickers_unique E s"
    and fresh: "\<And>m. symbols_at E s = Some m \<Longrightarrow> ticker (tc_summary args) \<notin> set (map snd m)"
  shows "tickers_unique E (snd (create_token E sender args s))"
proof -
  obtain r t where nx: "get_next_subresource E TOKEN_IDENTITY_ROOT s = (r, t)"
    by (cases "get_next_subresource E TOKEN_IDENTITY_ROOT s")
  have t: "symbols_at E t = symbols_at E s"
    using symbols_next [of E TOKEN_IDENTITY_ROOT s] E nx by simp
  show ?thesis
  proof (cases r)
    case (Inl e)
    with nx t s show ?thesis by (simp add: create_token_def run tickers_unique_def)
  next
    case (Inr x)
    obtain q u where upd: "update_symbols E x (ticker (tc_summary args)) t = (q, u)"
      by (cases "update_symbols E x (ticker (tc_summary args)) t")
    have u: "tickers_unique E u"
      using update_symbols_keeps [OF E, of t "ticker (tc_summary args)" x] t s fresh upd
      by (auto simp: tickers_unique_def)
    show ?thesis
    proof (cases q)
      case (Inl e)
      with Inr nx upd u show ?thesis by (simp add: create_token_def run)
    next
      case (Inr q')
      let ?d = "case tc_distribution args of None \<Rightarrow> [] | Some d \<Rightarrow> d"
      have "keeps (tickers_unique E) (let info = created_info sender args x; d = ?d in
        bnd (encode (c_token_info E) info) (\<lambda>i.
        bnd (encode (c_ext_info E) (case tc_extended_info args of None \<Rightarrow> ext_info_default E | Some e \<Rightarrow> e)) (\<lambda>e.
        andthen (log_event E (EvTokenCreate (tc_summary args) x (tc_owner args) (tc_distribution args)
           (tc_maximum args) (tc_extended_info args) (tc_memo args)))
        (andthen (db_apply E apply_failed (sort_key fst (distribution_batch E x d
            @ [(key_for_symbol E x, Put i), (key_for_ext_info E x, Put e)])))
        (andthen (maybe_commit E) (ret info))))))"
        unfolding Let_def using E
        by (intro keeps_bnd keeps_andthen keeps_encode keeps_ret keeps_maybe_commit tickers_log_free
            keeps_log_event tickers_apply) (auto simp: distribution_batch_def)
      from keeps_snd [OF this u] show ?thesis
        using \<open>r = Inr x\<close> Inr nx upd by (simp add: create_token_def run)
    qed
  qed
qed

text \<open>Checks that only look: the rest of a request runs in the same state or not at all.\<close>

lemma pure_needs_migration: "pure_act (needs_migration E m)"
  by (simp add: pure_act_def needs_migration_def run)

lemma pure_token_identity: "pure_act (token_identity E)"
  unfolding pure_act_def token_identity_def get_identity_def
  by (auto simp: run db_get_def split: prod.split sum.split)

lemma pure_get_owner: "pure_act (get_owner E x)"
  by (auto simp: pure_act_def get_owner_def db_get_def decode_def run split: prod.split sum.split)

lemma pure_get_symbols: "pure_act (get_symbols E)"
  unfolding pure_act_def using get_symbols_pure [OF surjective_pairing] by blast

lemma pure_get_account: "pure_act (get_account E i)"
  by (simp add: pure_act_def get_account_pure)

lemma pure_bnd: "pure_act m \<Longrightarrow> (\<And>x. pure_act (f x)) \<Longrightarrow> pure_act (bnd m f)"
  unfolding pure_act_def
proof
  fix s
  assume m: "\<forall>s. snd (m s) = s" and f: "\<And>x. \<forall>s. snd (f x s) = s"
  obtain r where "m s = (r, s)" using m [rule_format, of s] by (cases "m s") auto
  then show "snd (bnd m f s) = s" using f by (cases r) (simp_all add: run)
qed

lemma pure_lift: "pure_act (lift r)"
  by (simp add: pure_act_def run)

lemma pure_ret: "pure_act (ret r)"
  by (simp add: pure_act_def run)

lemma pure_throw: "pure_act (throw e)"
  by (simp add: pure_act_def run)

lemma pure_whenever: "pure_act m \<Longrightarrow> pure_act (whenever b m)"
  by (simp add: pure_act_def run)

lemma pure_verify_acl: "pure_act (verify_acl E sender a rs f)"
  unfolding verify_acl_def
  by (intro pure_whenever pure_bnd pure_get_account)
    (auto intro: pure_throw pure_lift split: option.split)

lemma pure_symbols_and_tickers: "pure_act (get_symbols_and_tickers E)"
  by (simp add: pure_act_def symbols_and_tickers_pure)

lemma pure_verify_token_owner: "pure_act (verify_token_owner E sender x r)"
  unfolding verify_token_owner_def
  by (intro pure_bnd pure_get_owner) (auto intro: pure_verify_acl pure_throw split: option.split)

lemma keeps_guarded:
  assumes "pure_act m" and "\<And>s x. m s = (Inr x, s) \<Longrightarrow> I s \<Longrightarrow> I (snd (f x s))"
  shows "keeps I (bnd m f)"
  unfolding keeps_def
proof (intro allI impI)
  fix s assume I: "I s"
  have "snd (m s) = s" using assms(1) by (simp add: pure_act_def)
  then obtain r where r: "m s = (r, s)" by (cases "m s") auto
  with I assms(2) show "I (snd (bnd m f s))" by (cases r) (auto simp: run)
qed

lemma keeps_andthen_guarded: "pure_act m \<Longrightarrow> keeps I n \<Longrightarrow> keeps I (andthen m n)"
  by (rule keeps_andthen [OF pure_act_keeps])

lemma tickers_update_ticker:
  assumes "env_ok E"
  shows "keeps (tickers_unique E) (update_ticker E x t)"
  unfolding update_ticker_def
proof (rule keeps_guarded [OF pure_symbols_and_tickers])
  fix s m
  assume m: "get_symbols_and_tickers E s = (Inr m, s)" and s: "tickers_unique E s"
  then have "symbols_at E s = Some m" using assms by (simp add: get_symbols_and_tickers_ok)
  with s assms show "tickers_unique E (snd ((if t \<in> set (map snd m) then raise (TokenError (TickerExists t))
     else update_symbols E x t) s))"
    using update_symbols_keeps [OF assms, of s t x] by (auto simp: run tickers_unique_def)
qed

lemma tickers_update_token:
  assumes "env_ok E"
  shows "keeps (tickers_unique E) (update_token E args)"
  unfolding update_token_def using assms
  by (intro keeps_bnd keeps_db_get keeps_option keeps_throw keeps_lift keeps_andthen keeps_encode
      keeps_ret tickers_update_ticker tickers_apply keeps_log_event keeps_maybe_commit tickers_log_free)
    simp_all

lemma tickers_add_extended_info:
  assumes "env_ok E"
  shows "keeps (tickers_unique E) (store_add_extended_info E args)"
  unfolding store_add_extended_info_def split_def using assms
  by (intro keeps_bnd keeps_db_get keeps_option keeps_throw keeps_lift keeps_andthen keeps_encode keeps_decode
      keeps_ret tickers_apply keeps_log_event keeps_maybe_commit tickers_log_free)
    simp_all

lemma tickers_remove_extended_info:
  assumes "env_ok E"
  shows "keeps (tickers_unique E) (store_remove_extended_info E args)"
  unfolding store_remove_extended_info_def remove_index_def using assms
  by (intro keeps_bnd keeps_db_get keeps_option keeps_throw keeps_lift keeps_andthen keeps_encode keeps_decode
      keeps_fold_act keeps_if keeps_ret tickers_apply keeps_log_event keeps_maybe_commit tickers_log_free)
    simp_all

lemma tickers_request:
  assumes E: "env_ok E"
  shows "keeps (tickers_unique E) (run_token E sender req)"
proof (cases req)
  case (TokenCreate args)
  have "keeps (tickers_unique E) (bnd (get_symbols_and_tickers E) (\<lambda>m.
       if ticker (tc_summary args) \<in> set (map snd m)
       then raise (Unknown ''The ticker already exists on this network'')
       else create_token E sender args))"
  proof (rule keeps_guarded [OF pure_symbols_and_tickers])
    fix s m
    assume m: "get_symbols_and_tickers E s = (Inr m, s)" and s: "tickers_unique E s"
    then have "symbols_at E s = Some m" using E by (simp add: get_symbols_and_tickers_ok)
    with s E show "tickers_unique E (snd ((if ticker (tc_summary args) \<in> set (map snd m)
       then raise (Unknown ''The ticker already exists on this network'')
       else create_token E sender args) s))"
      using tickers_create_token [OF E s, of args sender] by (auto simp: run)
  qed
  with TokenCreate show ?thesis
    unfolding TokenCreate run_token.simps tokens_create_def
    by (intro keeps_bnd [where m = "andthen a b" for a b] keeps_andthen_guarded pure_needs_migration
        pure_bnd pure_token_identity pure_lift keeps_ret)
      (auto intro: pure_verify_acl pure_ret split: option.split sum.split)
next
  case (TokenUpdate args)
  show ?thesis unfolding TokenUpdate run_token.simps tokens_update_def
    by (intro keeps_andthen_guarded keeps_bnd keeps_if keeps_throw pure_needs_migration
        pure_verify_token_owner pure_act_keeps [OF pure_get_symbols] tickers_update_token E)
next
  case (TokenAddExtendedInfo args)
  show ?thesis unfolding TokenAddExtendedInfo run_token.simps tokens_add_extended_info_def
    by (intro keeps_andthen_guarded pure_needs_migration pure_verify_token_owner
        tickers_add_extended_info E)
next
  case (TokenRemoveExtendedInfo args)
  show ?thesis unfolding TokenRemoveExtendedInfo run_token.simps tokens_remove_extended_info_def
    by (intro keeps_andthen_guarded pure_needs_migration pure_verify_token_owner
        tickers_remove_extended_info E)
qed

section \<open>Who changes a token\<close>

definition token_info_at :: "('m, 'v, 'g) env \<Rightarrow> ('m, 'g) ledger \<Rightarrow> symbol \<Rightarrow> token_info option" where
  "token_info_at E s x = (case view E s (key_for_symbol E x) of None \<Rightarrow> None
     | Some v \<Rightarrow> (case dec (c_token_info E) v of Inl _ \<Rightarrow> None | Inr i \<Rightarrow> Some i))"

lemma get_owner_ok:
  assumes "store_ok E"
  shows "get_owner E x s = (Inr ow, t) \<longleftrightarrow>
    t = s \<and> (\<exists>info. token_info_at E s x = Some info \<and> ow = ti_owner info)"
  using assms by (auto simp: get_owner_def okD db_get_run token_info_at_def split: option.splits sum.splits)

definition acts_for :: "('m, 'v, 'g) env \<Rightarrow> ('m, 'g) ledger \<Rightarrow> address \<Rightarrow> address \<Rightarrow> role \<Rightarrow> bool" where
  \<comment> \<open>\<open>sender\<close> may use the token role \<open>r\<close> of the address \<open>ow\<close>\<close>
  "acts_for E s sender ow r \<longleftrightarrow> sender = ow \<or> (\<exists>a. stored_account E s ow = Some a \<and> enabled a \<and>
     (has_role E a sender Owner \<or> has_feature_id E (features a) (token_feature_id E) \<and> has_role E a sender r))"

lemma verify_acl_ok:
  assumes "store_ok E" and "account_ok E"
  shows "verify_acl E sender ow [r] (token_feature_id E) s = (Inr (), t) \<longleftrightarrow>
    t = s \<and> acts_for E s sender ow r"
proof (cases "ow = sender")
  case True
  then show ?thesis by (auto simp: verify_acl_def acts_for_def run)
next
  case False
  have "get_account E ow s = (Inr x, u) \<Longrightarrow> u = s" for x u
    using get_account_pure [of E ow s] by simp
  with False show ?thesis
    using get_account_run [OF assms(1)] verify_account_role_ok [OF assms(2)]
    by (auto simp: verify_acl_def acts_for_def okD split: option.splits)
qed

fun token_target :: "token_request \<Rightarrow> (symbol \<times> role) option" where
  "token_target (TokenCreate _) = None"
| "token_target (TokenUpdate args) = Some (tu_symbol args, CanTokensUpdate)"
| "token_target (TokenAddExtendedInfo args) = Some (ta_symbol args, CanTokensAddExtendedInfo)"
| "token_target (TokenRemoveExtendedInfo args) = Some (tr_symbol args, CanTokensRemoveExtendedInfo)"

definition token_keys :: "('m, 'v, 'g) env \<Rightarrow> symbol \<Rightarrow> bytes set" where
  "token_keys E x = {key_for_symbol E x, key_for_ext_info E x}"

lemma token_keys_log_free: "k \<in> token_keys E x \<Longrightarrow> log_free E (\<lambda>s. view E s k = v)"
  by (rule off_log_free) (auto simp: token_keys_def)

lemma token_stores_other:
  assumes E: "env_ok E" and k: "k \<in> token_keys E x"
  shows "tu_symbol u \<noteq> x \<Longrightarrow> keeps (\<lambda>s. view E s k = v) (update_token E u)"
    and "ta_symbol a \<noteq> x \<Longrightarrow> keeps (\<lambda>s. view E s k = v) (store_add_extended_info E a)"
    and "tr_symbol r \<noteq> x \<Longrightarrow> keeps (\<lambda>s. view E s k = v) (store_remove_extended_info E r)"
proof -
  note lf = token_keys_log_free [OF k, of v]
  have st: "store_ok E" using E by simp
  have ks: "k \<noteq> SYMBOLS_ROOT" "k \<noteq> ''/config/symbols''"
    using k by (auto simp: token_keys_def symbols_key)
  have other: "k \<noteq> key_for_symbol E y" "k \<noteq> key_for_ext_info E y" if "y \<noteq> x" for y
    using k that E by (auto simp: token_keys_def)
  show "tu_symbol u \<noteq> x \<Longrightarrow> keeps (\<lambda>s. view E s k = v) (update_token E u)"
    unfolding update_token_def update_ticker_def update_symbols_def
    by (intro keeps_bnd keeps_db_get keeps_option keeps_throw keeps_lift keeps_andthen keeps_encode keeps_if
        keeps_ret keeps_view_apply st keeps_log_event keeps_maybe_commit lf
        pure_act_keeps [OF pure_symbols_and_tickers]) (use ks other in auto)
  show "ta_symbol a \<noteq> x \<Longrightarrow> keeps (\<lambda>s. view E s k = v) (store_add_extended_info E a)"
    unfolding store_add_extended_info_def split_def
    by (intro keeps_bnd keeps_db_get keeps_option keeps_throw keeps_lift keeps_andthen keeps_encode
        keeps_decode keeps_ret keeps_view_apply st keeps_log_event keeps_maybe_commit lf)
      (use other in auto)
  show "tr_symbol r \<noteq> x \<Longrightarrow> keeps (\<lambda>s. view E s k = v) (store_remove_extended_info E r)"
    unfolding store_remove_extended_info_def remove_index_def
    by (intro keeps_bnd keeps_db_get keeps_option keeps_throw keeps_lift keeps_andthen keeps_encode keeps_if
        keeps_fold_act keeps_decode keeps_ret keeps_view_apply st keeps_log_event keeps_maybe_commit lf)
      (use other in auto)
qed

text \<open>Every change of an existing token checks the token's owner first.\<close>

lemma verify_token_owner_ok:
  assumes "store_ok E" and "account_ok E"
    and "verify_token_owner E sender x r s = (Inr (), t)"
  shows "t = s \<and> (\<exists>info ow. token_info_at E s x = Some info \<and> ti_owner info = Some ow \<and>
    acts_for E s sender ow r)"
  using assms(3)
  by (auto simp: verify_token_owner_def okD get_owner_ok [OF assms(1)] verify_acl_ok [OF assms(1,2)]
      split: option.splits) (metis option.sel)

lemma andthen_pure_cases:
  assumes "pure_act m"
  shows "snd (andthen m n s) = s \<or> ((\<exists>x. m s = (Inr x, s)) \<and> andthen m n s = n s)"
proof -
  obtain r where "m s = (r, s)" using assms unfolding pure_act_def by (cases "m s") (metis snd_conv)
  then show ?thesis by (cases r) (simp_all add: run)
qed

lemma token_change_checked:
  assumes E: "env_ok E" "account_ok E" and t: "token_target req = Some (x, r)"
    and ch: "snd (run_token E sender req s) \<noteq> s"
  shows "\<exists>info ow. token_info_at E s x = Some info \<and> ti_owner info = Some ow \<and> acts_for E s sender ow r"
proof -
  have st: "store_ok E" using E by simp
  obtain meth rest where "run_token E sender req = andthen (needs_migration E meth)
      (andthen (verify_token_owner E sender x r) rest)"
    using t by (cases req) (auto simp: tokens_update_def tokens_add_extended_info_def
        tokens_remove_extended_info_def)
  with ch andthen_pure_cases [OF pure_needs_migration, of E meth
      "andthen (verify_token_owner E sender x r) rest" s]
    andthen_pure_cases [OF pure_verify_token_owner, of E sender x r rest s]
  obtain u where "verify_token_owner E sender x r s = (Inr u, s)" by auto
  with verify_token_owner_ok [OF st E(2), of sender x r s s] show ?thesis by simp
qed

lemma token_change_other:
  assumes E: "env_ok E" and t: "token_target req = Some (y, r)" and x: "y \<noteq> x" and k: "k \<in> token_keys E x"
  shows "view E (snd (run_token E sender req s)) k = view E s k"
proof -
  have "keeps (\<lambda>t. view E t k = view E s k) (run_token E sender req)"
  proof (cases req)
    case (TokenCreate args)
    with t show ?thesis by simp
  next
    case (TokenUpdate args)
    with t x have "tu_symbol args \<noteq> x" by simp
    with token_stores_other(1) [OF E k] show ?thesis
      unfolding TokenUpdate run_token.simps tokens_update_def
      by (intro keeps_andthen_guarded keeps_bnd keeps_if keeps_throw pure_needs_migration
          pure_verify_token_owner pure_act_keeps [OF pure_get_symbols])
  next
    case (TokenAddExtendedInfo args)
    with t x have "ta_symbol args \<noteq> x" by simp
    with token_stores_other(2) [OF E k] show ?thesis
      unfolding TokenAddExtendedInfo run_token.simps tokens_add_extended_info_def
      by (intro keeps_andthen_guarded pure_needs_migration pure_verify_token_owner)
  next
    case (TokenRemoveExtendedInfo args)
    with t x have "tr_symbol args \<noteq> x" by simp
    with token_stores_other(3) [OF E k] show ?thesis
      unfolding TokenRemoveExtendedInfo run_token.simps tokens_remove_extended_info_def
      by (intro keeps_andthen_guarded pure_needs_migration pure_verify_token_owner)
  qed
  from keeps_snd [OF this] show ?thesis by simp
qed

section \<open>Creating a token\<close>

lemma update_symbols_ok:
  assumes "env_ok E" and "update_symbols E x tick s = (Inr (), t)"
  shows "\<exists>m. symbols_at E s = Some m \<and>
    t = applied E [(SYMBOLS_ROOT, Put (enc_val (c_symbols E) (bt_insert x tick m)))] s"
  using assms by (auto simp: update_symbols_def okD get_symbols_and_tickers_ok db_apply_ok symbols_key)

lemma sort_batch_ok:
  assumes "distinct (map fst b)"
  shows "batch_ok (sort_key fst b)"
proof -
  have "distinct (map fst (sort_key fst b))"
    using assms by (simp add: distinct_map)
  then show ?thesis by (simp add: batch_ok_def strict_sorted_iff)
qed

definition create_batch :: "('m, 'v, 'g) env \<Rightarrow> symbol \<Rightarrow> token_info \<Rightarrow> ext_info \<Rightarrow> distribution \<Rightarrow>
    (bytes \<times> 'v store_op) list" where
  "create_batch E x info e d = distribution_batch E x d
     @ [(key_for_symbol E x, Put (enc_val (c_token_info E) info)),
        (key_for_ext_info E x, Put (enc_val (c_ext_info E) e))]"

lemma distinct_create_batch:
  assumes "address_ok E" and "distinct (map fst d)"
  shows "distinct (map fst (create_batch E x info e d))"
proof -
  have "distinct (map (\<lambda>k. key_for_account_balance E k x) (map fst d))"
    using assms by (subst distinct_map) (auto intro: inj_onI)
  then show ?thesis by (auto simp: create_batch_def distribution_batch_def o_def split_def)
qed

lemma create_token_ok:
  assumes E: "env_ok E" and ok: "create_token E sender args s = (Inr info, t)"
    and d: "d = (case tc_distribution args of None \<Rightarrow> [] | Some d \<Rightarrow> d)" "distinct (map fst d)"
  obtains x s1 m e where "get_next_subresource E TOKEN_IDENTITY_ROOT s = (Inr x, s1)"
    and "info = created_info sender args x"
    and "e = (case tc_extended_info args of None \<Rightarrow> ext_info_default E | Some e \<Rightarrow> e)"
    and "symbols_at E s1 = Some m"
    and "\<And>k. k \<noteq> EVENT_COUNT_ROOT \<Longrightarrow> (\<And>i. k \<noteq> key_for_event i) \<Longrightarrow> view E t k =
      apply_batch (sort_key fst (create_batch E x info e d))
        ((view E s1)(SYMBOLS_ROOT \<mapsto> enc_val (c_symbols E) (bt_insert x (ticker (tc_summary args)) m))) k"
proof -
  have st: "store_ok E" using E by simp
  let ?e = "case tc_extended_info args of None \<Rightarrow> ext_info_default E | Some e \<Rightarrow> e"
  from ok [unfolded create_token_def bnd_ok] obtain x s1 where
      nx: "get_next_subresource E TOKEN_IDENTITY_ROOT s = (Inr x, s1)"
    and rest: "andthen (update_symbols E x (ticker (tc_summary args)))
     (let info = created_info sender args x; d = d in
      bnd (encode (c_token_info E) info) (\<lambda>i.
      bnd (encode (c_ext_info E) ?e) (\<lambda>e.
      andthen (log_event E (EvTokenCreate (tc_summary args) x (tc_owner args) (tc_distribution args)
         (tc_maximum args) (tc_extended_info args) (tc_memo args)))
      (andthen (db_apply E apply_failed (sort_key fst (distribution_batch E x d
          @ [(key_for_symbol E x, Put i), (key_for_ext_info E x, Put e)])))
      (andthen (maybe_commit E) (ret info)))))) s1 = (Inr info, t)"
    unfolding d(1) by blast
  from rest [unfolded andthen_ok Let_def] obtain u s2 where
      up: "update_symbols E x (ticker (tc_summary args)) s1 = (Inr u, s2)"
    and rest2: "bnd (encode (c_token_info E) (created_info sender args x)) (\<lambda>i.
      bnd (encode (c_ext_info E) ?e) (\<lambda>e.
      andthen (log_event E (EvTokenCreate (tc_summary args) x (tc_owner args) (tc_distribution args)
         (tc_maximum args) (tc_extended_info args) (tc_memo args)))
      (andthen (db_apply E apply_failed (sort_key fst (distribution_batch E x d
          @ [(key_for_symbol E x, Put i), (key_for_ext_info E x, Put e)])))
      (andthen (maybe_commit E) (ret (created_info sender args x)))))) s2 = (Inr info, t)" by blast
  from rest2 obtain v s3 where
      lg: "log_event E (EvTokenCreate (tc_summary args) x (tc_owner args) (tc_distribution args)
         (tc_maximum args) (tc_extended_info args) (tc_memo args)) s2 = (Inr v, s3)"
    and rest3: "andthen (db_apply E apply_failed
        (sort_key fst (create_batch E x (created_info sender args x) ?e d)))
      (andthen (maybe_commit E) (ret (created_info sender args x))) s3 = (Inr info, t)"
    using E by (simp add: bnd_run encode_run create_batch_def [symmetric] andthen_run
        split: prod.splits sum.splits)
  from rest3 have t: "t = maybe_committed E (applied E (sort_key fst (create_batch E x info ?e d)) s3)"
    and i: "info = created_info sender args x"
    and b: "batch_ok (sort_key fst (create_batch E x info ?e d))"
    by (auto simp: andthen_ok ret_ok db_apply_ok [OF st] maybe_commit_ok [OF st])
  from update_symbols_ok [OF E, of x "ticker (tc_summary args)" s1 s2] up obtain m where m: "symbols_at E s1 = Some m"
    and s2: "s2 = applied E [(SYMBOLS_ROOT,
      Put (enc_val (c_symbols E) (bt_insert x (ticker (tc_summary args)) m)))] s1" by auto
  have "view E t k = apply_batch (sort_key fst (create_batch E x info ?e d))
        ((view E s1)(SYMBOLS_ROOT \<mapsto> enc_val (c_symbols E) (bt_insert x (ticker (tc_summary args)) m))) k"
    if k: "k \<noteq> EVENT_COUNT_ROOT" "\<And>i. k \<noteq> key_for_event i" for k
  proof -
    have "view E s3 k = view E s2 k" by (rule log_event_frame [OF st lg]) (use k in auto)
    then have v: "view E s3 k = ((view E s1)(SYMBOLS_ROOT \<mapsto>
        enc_val (c_symbols E) (bt_insert x (ticker (tc_summary args)) m))) k"
      by (simp add: s2 st)
    have "apply_batch bt (view E s3) k = apply_batch bt ((view E s1)(SYMBOLS_ROOT \<mapsto>
        enc_val (c_symbols E) (bt_insert x (ticker (tc_summary args)) m))) k" for bt
      by (rule apply_batch_cong) (rule v)
    then show ?thesis by (simp add: t st b)
  qed
  then show ?thesis by (rule that [OF nx i refl m])
qed

lemma apply_sorted_in:
  "distinct (map fst b) \<Longrightarrow> (k, y) \<in> set b \<Longrightarrow> apply_batch (sort_key fst b) f k = op_value y"
  by (rule apply_batch_in) (simp_all add: distinct_map)

lemma create_token_view:
  assumes E: "env_ok E" and ok: "create_token E sender args s = (Inr info, t)"
    and d: "d = (case tc_distribution args of None \<Rightarrow> [] | Some d \<Rightarrow> d)" "distinct (map fst d)"
  obtains x m where "info = created_info sender args x" and "ti_symbol info = x"
    and "symbols_at E s = Some m" and "token_info_at E t x = Some info"
    and "symbols_at E t = Some (bt_insert x (ticker (tc_summary args)) m)"
    and "view E t (key_for_ext_info E x) = Some (enc_val (c_ext_info E)
      (case tc_extended_info args of None \<Rightarrow> ext_info_default E | Some e \<Rightarrow> e))"
    and "\<And>a v. (a, v) \<in> set d \<Longrightarrow> view E t (key_for_account_balance E a x) = Some (amount_to_vec E v)"
proof -
  from create_token_ok [OF E ok d] obtain x s1 m e where
      nx: "get_next_subresource E TOKEN_IDENTITY_ROOT s = (Inr x, s1)"
    and i: "info = created_info sender args x"
    and e: "e = (case tc_extended_info args of None \<Rightarrow> ext_info_default E | Some e \<Rightarrow> e)"
    and m: "symbols_at E s1 = Some m"
    and v: "\<And>k. k \<noteq> EVENT_COUNT_ROOT \<Longrightarrow> (\<And>i. k \<noteq> key_for_event i) \<Longrightarrow> view E t k =
      apply_batch (sort_key fst (create_batch E x info e d))
        ((view E s1)(SYMBOLS_ROOT \<mapsto> enc_val (c_symbols E) (bt_insert x (ticker (tc_summary args)) m))) k"
    by metis
  have dist: "distinct (map fst (create_batch E x info e d))"
    using E d(2) by (simp add: distinct_create_batch)
  have sy: "symbols_at E s = Some m"
    using symbols_next [of E TOKEN_IDENTITY_ROOT s] nx m E by simp
  have "view E t (key_for_symbol E x) = Some (enc_val (c_token_info E) info)"
    using v [of "key_for_symbol E x"]
      apply_sorted_in [OF dist, of "key_for_symbol E x" "Put (enc_val (c_token_info E) info)"]
    by (simp add: create_batch_def)
  then have info: "token_info_at E t x = Some info"
    using E by (simp add: token_info_at_def)
  have ext: "view E t (key_for_ext_info E x) = Some (enc_val (c_ext_info E) e)"
    using v [of "key_for_ext_info E x"]
      apply_sorted_in [OF dist, of "key_for_ext_info E x" "Put (enc_val (c_ext_info E) e)"]
    by (simp add: create_batch_def)
  have bal: "view E t (key_for_account_balance E a x) = Some (amount_to_vec E w)" if "(a, w) \<in> set d" for a w
  proof -
    have "(key_for_account_balance E a x, Put (amount_to_vec E w)) \<in> set (create_batch E x info e d)"
      using that by (force simp: create_batch_def distribution_batch_def)
    from apply_sorted_in [OF dist this] v [of "key_for_account_balance E a x"] show ?thesis by simp
  qed
  have "SYMBOLS_ROOT \<notin> fst ` set (sort_key fst (create_batch E x info e d))"
    by (auto simp: create_batch_def distribution_batch_def)
  then have "view E t SYMBOLS_ROOT = Some (enc_val (c_symbols E) (bt_insert x (ticker (tc_summary args)) m))"
    using v [of SYMBOLS_ROOT] by (simp add: apply_batch_other)
  then have sy': "symbols_at E t = Some (bt_insert x (ticker (tc_summary args)) m)"
    using E by (simp add: symbols_at_def)
  have "ti_symbol info = x" by (simp add: i created_info_def Let_def)
  from that [OF i this sy info sy' ext [unfolded e] bal] show ?thesis .
qed

section \<open>An initial state with two symbols\<close>

text \<open>
  The first batch of \<open>with_tokens\<close> has the extended information of a symbol, then the symbol, then
  the extended information of the next: with two symbols it does not ascend, and merk refuses it.
\<close>

lemma token_entries_prefix:
  assumes "fold_act metas (\<lambda>batch (k, meta).
      (case (map_of supplies k, map_of syms k) of
         (Some tot, Some tick) \<Rightarrow>
           bnd (token_entries E k (token_info_of k tick meta tot)) (\<lambda>b. ret (batch @ b))
       | _ \<Rightarrow> throw (Panic msg))) acc s = (Inr batch, t)"
  shows "map fst batch = map fst acc @ concat (map (\<lambda>(k, _). [key_for_ext_info E k, key_for_symbol E k]) metas)"
  using assms
proof (induction metas arbitrary: acc s)
  case Nil
  then show ?case by (simp add: okD)
next
  case (Cons p metas)
  obtain k meta where p: "p = (k, meta)" by (cases p)
  with Cons.prems obtain e i s' where
      "fold_act metas (\<lambda>batch (k, meta).
        (case (map_of supplies k, map_of syms k) of
           (Some tot, Some tick) \<Rightarrow>
             bnd (token_entries E k (token_info_of k tick meta tot)) (\<lambda>b. ret (batch @ b))
         | _ \<Rightarrow> throw (Panic msg))) (acc @ [(key_for_ext_info E k, Put e), (key_for_symbol E k, Put i)]) s' = (Inr batch, t)"
    by (auto simp: okD token_entries_def split: option.splits)
  from Cons.IH [OF this] show ?case by (simp add: p)
qed

lemma with_tokens_batch:
  fixes E :: "('m, 'v, 'g) env"
  assumes "token_migration_active E s"
    and "with_tokens E syms (Some metas) ident nxt bals s = (Inr (), t)"
  shows "\<exists>batch (s1 :: ('m, 'g) ledger) s2. map fst batch = concat (map (\<lambda>(k, _). [key_for_ext_info E k, key_for_symbol E k]) metas) \<and>
    db_apply E apply_failed batch s1 = (Inr (), s2)"
proof -
  from assms obtain batch s1 s2 where "fold_act metas (\<lambda>batch (k, meta).
        (case (map_of (total_supply bals) k, map_of syms k) of
           (Some tot, Some tick) \<Rightarrow>
             bnd (token_entries E k (token_info_of k tick meta tot)) (\<lambda>b. ret (batch @ b))
         | _ \<Rightarrow> throw (Panic ''no entry found for key''))) [] s = (Inr batch, s1)"
      and app: "db_apply E apply_failed batch s1 = (Inr (), s2)"
    by (auto simp: with_tokens_def Let_def okD)
  from token_entries_prefix [OF this(1)] app show ?thesis by (intro exI [of _ batch] exI [of _ s1] exI [of _ s2]) auto
qed

lemma two_symbols_refused:
  assumes "store_ok E" and "token_migration_active E s"
  shows "with_tokens E syms (Some ((k, a) # (l, b) # metas)) ident nxt bals s \<noteq> (Inr (), t)"
proof
  assume "with_tokens E syms (Some ((k, a) # (l, b) # metas)) ident nxt bals s = (Inr (), t)"
  note made = with_tokens_batch [OF assms(2) this]
  have "\<not> key_for_symbol E k < key_for_ext_info E l"
    by (simp add: key_for_symbol_def key_for_ext_info_def less_char_iff)
  then have bad: "\<not> batch_ok batch" if "map fst batch =
      concat (map (\<lambda>(k, _). [key_for_ext_info E k, key_for_symbol E k]) ((k, a) # (l, b) # metas))" for batch
    using that by (auto simp: batch_ok_def)
  show False using made bad db_apply_bad [OF assms(1)] by (metis Inl_Inr_False prod.inject)
qed

section \<open>Properties\<close>

text \<open>
  Tickers are unique: if no two symbols of the ledger share a ticker, that is so after any
  token request, successful or not.
\<close>

lemma tickers_stay_unique:
  assumes "env_ok E" and "tickers_unique E s"
  shows "tickers_unique E (snd (run_token E sender req s))"
  using keeps_snd [OF tickers_request] assms by blast

text \<open>
  C15. A token that is created starts consistent: its information is stored under its symbol
  with total and circulating supply equal to the sum of the initial distribution, each
  address of the distribution gets its share, and the ticker is registered.
\<close>

lemma token_info_run:
  assumes "env_ok E" and "token_info_at E s x = Some info"
    and "view E s (key_for_ext_info E x) = Some (enc_val (c_ext_info E) e)"
  shows "info_token E \<lparr>tia_symbol = x, tia_extended_info = None\<rparr> s = (Inr (info, e), s)"
  using assms by (simp add: info_token_def run token_info_at_def decode_def split: option.splits sum.splits)

theorem created_token_consistent:
  assumes "env_ok E" and "create_token E sender args s = (Inr info, t)"
    and "bt_ok (case tc_distribution args of None \<Rightarrow> [] | Some d \<Rightarrow> d)"
  shows "\<exists>e m. info_token E \<lparr>tia_symbol = ti_symbol info, tia_extended_info = None\<rparr> t = (Inr (info, e), t) \<and>
    total (ti_supply info) = sum_list (map snd (case tc_distribution args of None \<Rightarrow> [] | Some d \<Rightarrow> d)) \<and>
    circulating (ti_supply info) = total (ti_supply info) \<and> ti_summary info = tc_summary args \<and>
    symbols_at E t = Some m \<and> map_of m (ti_symbol info) = Some (ticker (tc_summary args)) \<and>
    (\<forall>(a, v) \<in> set (case tc_distribution args of None \<Rightarrow> [] | Some d \<Rightarrow> d).
       view E t (key_for_account_balance E a (ti_symbol info)) = Some (amount_to_vec E v))"
proof -
  let ?d = "case tc_distribution args of None \<Rightarrow> [] | Some d \<Rightarrow> d"
  from create_token_view [OF assms(1,2) refl bt_ok_distinct [OF assms(3)]] obtain x m where
      i: "info = created_info sender args x" "ti_symbol info = x"
    and info: "token_info_at E t x = Some info"
    and sy: "symbols_at E t = Some (bt_insert x (ticker (tc_summary args)) m)"
    and ext: "view E t (key_for_ext_info E x) = Some (enc_val (c_ext_info E)
      (case tc_extended_info args of None \<Rightarrow> ext_info_default E | Some e \<Rightarrow> e))"
    and bal: "\<And>a v. (a, v) \<in> set ?d \<Longrightarrow> view E t (key_for_account_balance E a x) = Some (amount_to_vec E v)"
    by metis
  show ?thesis
    by (intro exI [of _ "case tc_extended_info args of None \<Rightarrow> ext_info_default E | Some e \<Rightarrow> e"]
        exI [of _ "bt_insert x (ticker (tc_summary args)) m"])
      (use token_info_run [OF assms(1) info ext] sy bal i in \<open>auto simp: created_info_def Let_def\<close>)
qed

section \<open>Witnesses\<close>

definition ref_info :: token_info where
  "ref_info = \<lparr>ti_symbol = 7, ti_summary = \<lparr>name = ''Manifest'', ticker = ''MFX'', decimals = 9\<rparr>,
     ti_supply = \<lparr>total = 10, circulating = 10, maximum = Some 20\<rparr>, ti_owner = Some 5\<rparr>"

definition ref_tokens :: "(ref_store, string list) ledger" where
  "ref_tokens = ref_ledger [(IDENTITY_ROOT, RAddress 5), (SYMBOLS_ROOT, RSymbols [(7, ''MFX'')]),
     (key_for_symbol ref_env 7, RTokenInfo ref_info), (key_for_ext_info ref_env 7, RExtInfo [([0], ''memo'')])]
     [TOKEN_MIGRATION]"

lemma ref_tokens_unique: "tickers_unique ref_env ref_tokens"
  by (simp add: tickers_unique_def symbols_at_def ref_tokens_def ref_codecs tagged_def)

lemma tickers_stay_unique_witness:
  "tickers_unique ref_env (snd (run_token ref_env 5 (TokenUpdate \<lparr>tu_symbol = 7, tu_name = None,
     tu_ticker = Some ''NEW'', tu_decimals = None, tu_owner = None, tu_memo = None\<rparr>) ref_tokens))"
  by (rule tickers_stay_unique [OF ref_env_ok ref_tokens_unique])

lemma ref_ext_keys [simp]: "SYMBOLS_ROOT \<noteq> key_for_ext_info E x" "IDENTITY_ROOT \<noteq> key_for_ext_info E x"
  "EVENT_COUNT_ROOT \<noteq> key_for_ext_info E x"
  by simp_all

lemma ref_remove_ext:
  "view ref_env (snd (run_token ref_env 5 (TokenRemoveExtendedInfo \<lparr>tr_symbol = 7,
      tr_extended_info = [[0]], tr_memo = None\<rparr>) ref_tokens)) (key_for_ext_info ref_env 7) = Some (RExtInfo [])"
proof -
  have v: "view ref_env ref_tokens (key_for_ext_info ref_env 7) = Some (RExtInfo [([0], ''memo'')])"
    "token_info_at ref_env ref_tokens 7 = Some ref_info" "token_migration_active ref_env ref_tokens"
    "maybe_committed ref_env (applied ref_env b ref_tokens) = applied ref_env b ref_tokens" for b
    by (simp_all add: ref_tokens_def token_info_at_def ref_codecs tagged_def token_migration_active_def
        maybe_committed_def)
  have c: "dec (c_ext_info ref_env) (RExtInfo e) = Inr e" "enc (c_ext_info ref_env) e = Inr (RExtInfo e)" for e
    by (simp_all add: ref_codecs tagged_def)
  have "verify_token_owner ref_env 5 7 CanTokensRemoveExtendedInfo ref_tokens = (Inr (), ref_tokens)"
    using get_owner_ok [of ref_env 7 ref_tokens "Some 5" ref_tokens] v(2)
    by (simp add: verify_token_owner_def run verify_acl_def ref_info_def)
  moreover have "remove_index ref_env [([0], ''memo'')] [0] ref_tokens = (Inr [], ref_tokens)"
    by (simp add: remove_index_def run ref_env_def)
  moreover have "counter_at ref_env (applied ref_env [(key_for_ext_info ref_env 7, Put (RExtInfo []))] ref_tokens)
      EVENT_COUNT_ROOT = Inr 0"
    by (simp add: counter_at_def ref_tokens_def del: ref_view) (simp add: key_defs)
  ultimately show ?thesis
    by (simp add: tokens_remove_extended_info_def needs_migration_def store_remove_extended_info_def run
        v c decode_def encode_def log_event_run view_logged del: ref_view)
qed

definition ref_create :: token_create_args where
  "ref_create = \<lparr>tc_summary = \<lparr>name = ''New'', ticker = ''NEW'', decimals = 0\<rparr>, tc_owner = None,
     tc_distribution = Some [(2, 3), (4, 5)], tc_maximum = None, tc_extended_info = None, tc_memo = None\<rparr>"

lemma ref_next: "get_next_subresource ref_env TOKEN_IDENTITY_ROOT (ref_ledger ref_founded []) =
    (Inr 601, subresource_taken ref_env 5 1 (ref_ledger ref_founded []))"
proof -
  have sy: "get_symbols ref_env (ref_ledger ref_founded []) = (Inr [600], ref_ledger ref_founded [])"
    by (simp add: get_symbols_def get_symbols_and_tickers_def run token_migration_active_def
        ref_founded_def decode_def ref_codecs tagged_def)
  have nf: "next_free_id ref_env 5 [600] 0 600 = Some (Inr 1)"
    by (subst next_free_id.simps, simp, subst next_free_id.simps, simp)
  have id: "sub_identity ref_env (ref_ledger ref_founded []) TOKEN_IDENTITY_ROOT = Inr 5"
    "sub_identity ref_env (subresource_taken ref_env 5 1 (ref_ledger ref_founded [])) TOKEN_IDENTITY_ROOT = Inr 5"
    by (simp_all add: sub_identity_taken del: ref_view)
      (simp_all add: sub_identity_def ref_founded_def)
  have c: "sub_counter ref_env (ref_ledger ref_founded []) 5 = Inr 0"
    "\<not> token_migration_active ref_env (ref_ledger ref_founded [])"
    by (simp_all add: sub_counter_def ref_founded_def token_migration_active_def)
  show ?thesis
    by (simp add: get_next_subresource_def run sy nf id c subresource_taken_def
        id(2) [unfolded subresource_taken_def, simplified c, simplified])
qed

lemma ref_create_runs: "\<exists>t. create_token ref_env 5 ref_create (ref_ledger ref_founded []) =
    (Inr (created_info 5 ref_create 601), t)"
proof -
  let ?s1 = "subresource_taken ref_env 5 1 (ref_ledger ref_founded [])"
  let ?s2 = "applied ref_env [(SYMBOLS_ROOT, Put (RSymbols (bt_insert 601 ''NEW'' [(600, ''MFX'')])))] ?s1"
  have v1: "view ref_env ?s1 SYMBOLS_ROOT = Some (RSymbols [(600, ''MFX'')])"
    "view ref_env ?s1 EVENT_COUNT_ROOT = None"
    by (simp_all add: subresource_taken_def del: ref_view) (simp_all add: ref_founded_def)
  have c: "dec (c_symbols ref_env) (RSymbols m) = Inr m" "enc (c_symbols ref_env) m = Inr (RSymbols m)" for m
    by (simp_all add: ref_codecs tagged_def)
  have up: "update_symbols ref_env 601 ''NEW'' ?s1 = (Inr (), ?s2)"
    by (simp add: update_symbols_def get_symbols_and_tickers_def run v1 c decode_def encode_def symbols_key
        del: ref_view)
  have cnt: "counter_at ref_env ?s2 EVENT_COUNT_ROOT = Inr 0"
    using v1(2) by (simp add: counter_at_def del: ref_view)
  have b: "batch_ok (sort_key fst (distribution_batch ref_env 601 [(2, 3), (4, 5)]
      @ [(key_for_symbol ref_env 601, Put (enc_val (c_token_info ref_env) i)),
         (key_for_ext_info ref_env 601, Put (enc_val (c_ext_info ref_env) e))]))" for i e
    unfolding create_batch_def [symmetric]
    by (intro sort_batch_ok distinct_create_batch) simp_all
  from up cnt obtain s2 where s2: "update_symbols ref_env 601 ''NEW'' ?s1 = (Inr (), s2)"
    "counter_at ref_env s2 EVENT_COUNT_ROOT = Inr 0" by blast
  have f: "ticker (tc_summary ref_create) = ''NEW''" "tc_distribution ref_create = Some [(2, 3), (4, 5)]"
    by (simp_all add: ref_create_def)
  show ?thesis
    unfolding create_token_def Let_def
    by (simp add: run ref_next s2 f log_event_run b del: ref_view sort_key_simps)
qed

lemma created_token_consistent_witness:
  "\<exists>t e. info_token ref_env \<lparr>tia_symbol = 601, tia_extended_info = None\<rparr> t =
      (Inr (created_info 5 ref_create 601, e), t) \<and>
    view ref_env t (key_for_account_balance ref_env 4 601) = Some (RAmount 5)"
proof -
  obtain t where t: "create_token ref_env 5 ref_create (ref_ledger ref_founded []) =
      (Inr (created_info 5 ref_create 601), t)"
    using ref_create_runs by blast
  have "bt_ok (case tc_distribution ref_create of None \<Rightarrow> [] | Some d \<Rightarrow> d)"
    by (simp add: ref_create_def bt_ok_def)
  from created_token_consistent [OF ref_env_ok t this] show ?thesis
    by (auto simp: created_info_def Let_def ref_create_def simp del: ref_view)
qed

end
