(* ===== verification/Multisig.thy ===== *)
theory Multisig
  imports Tokens
begin

text \<open>
  \<open>storage/multisig.rs\<close> and \<open>module/multisig.rs\<close>: transactions of an account that need a
  number of approvals. Executing one may submit, approve or execute others, so the bodies
  recurse through \<open>_execute_multisig_tx\<close>; \<open>execute_tx\<close> is that recursion cut at a depth \<open>n\<close>,
  where \<open>Diverges\<close> says that the depth was not enough. \<open>execute_tx_mono\<close> shows that a
  result found at some depth is the result at every greater one.
\<close>

section \<open>Entries\<close>

definition disable_storage :: "multisig_state \<Rightarrow> multisig_storage \<Rightarrow> multisig_storage" where
  "disable_storage st x = x\<lparr>ms_disabled := True, ms_info := (ms_info x)\<lparr>state := st\<rparr>\<rparr>"

definition should_execute :: "multisig_storage \<Rightarrow> bool" where
  "should_execute x \<longleftrightarrow>
     unat (threshold (ms_info x)) \<le> length (filter snd (approvers (ms_info x)))"

definition set_approval :: "address \<Rightarrow> bool \<Rightarrow> multisig_storage \<Rightarrow> multisig_storage" where
  "set_approval a b x = x\<lparr>ms_info := (ms_info x)
     \<lparr>approvers := bt_insert a b (approvers (ms_info x))\<rparr>\<rparr>"

definition get_multisig_info :: "('m, 'v, 'g) env \<Rightarrow> bytes \<Rightarrow> ('m, 'g, multisig_storage) ledger_op" where
  "get_multisig_info E tx_id =
     bnd (gets (\<lambda>s. case merk_get E (persistent_store s) (key_for_multisig_transaction tx_id) of
            Inl _ \<Rightarrow> None | Inr x \<Rightarrow> x))
     (\<lambda>x. bnd (lift (ok_or (MultisigError TransactionCannotBeFound) x)) (\<lambda>v. decode (c_multisig E) v))"

definition commit_multisig_transaction :: "('m, 'v, 'g) env \<Rightarrow> bytes \<Rightarrow> multisig_storage \<Rightarrow>
    ('m, 'g, unit) ledger_op" where
  "commit_multisig_transaction E tx_id tx = bnd (encode (c_multisig E) tx) (\<lambda>v.
     andthen (db_apply E apply_failed [(key_for_multisig_transaction tx_id, Put v)]) (maybe_commit E))"

definition disable_multisig_transaction :: "('m, 'v, 'g) env \<Rightarrow> bytes \<Rightarrow> multisig_state \<Rightarrow>
    ('m, 'g, unit) ledger_op" where
  "disable_multisig_transaction E tx_id st = bnd (get_multisig_info E tx_id) (\<lambda>x.
     if ms_disabled x then raise (MultisigError TransactionExpiredOrWithdrawn)
     else commit_multisig_transaction E tx_id (disable_storage st x))"

text \<open>An entry that is still open, and its account.\<close>

definition open_multisig :: "('m, 'v, 'g) env \<Rightarrow> bytes \<Rightarrow>
    ('m, 'g, multisig_storage \<times> account) ledger_op" where
  "open_multisig E tx_id = bnd (get_multisig_info E tx_id) (\<lambda>x.
     if ms_disabled x then raise (MultisigError TransactionExpiredOrWithdrawn)
     else bnd (existing_account E (ms_account x)) (\<lambda>a. ret (x, a)))"

section \<open>Defaults and submission\<close>

definition merge_defaults :: "defaults_args \<Rightarrow> multisig_arg \<Rightarrow> multisig_arg" where
  "merge_defaults args m =
     \<lparr>arg_threshold = (case df_threshold args of None \<Rightarrow> arg_threshold m | Some t \<Rightarrow> Some t),
      arg_timeout_in_secs = (case df_timeout_in_secs args of None \<Rightarrow> arg_timeout_in_secs m
         | Some t \<Rightarrow> Some (min t MULTISIG_MAXIMUM_TIMEOUT_IN_SECS)),
      arg_execute_automatically = (case df_execute_automatically args of
           None \<Rightarrow> arg_execute_automatically m | Some b \<Rightarrow> Some b)\<rparr>"

definition set_multisig_defaults :: "('m, 'v, 'g) env \<Rightarrow> address \<Rightarrow> defaults_args \<Rightarrow>
    ('m, 'g, unit) ledger_op" where
  "set_multisig_defaults E sender args = bnd (existing_account E (df_account args)) (\<lambda>a.
     andthen (lift (from_many (needs_role E a sender [Owner])))
     (case get_multisig_feature E (features a) of
        Inl _ \<Rightarrow> ret ()
      | Inr m \<Rightarrow>
          andthen (log_event E (EvMultisigSetDefaults sender (df_account args) (df_threshold args)
             (map_option (\<lambda>t. min t MULTISIG_MAXIMUM_TIMEOUT_IN_SECS) (df_timeout_in_secs args))
             (df_execute_automatically args)))
          (commit_account E (df_account args) (a\<lparr>features := snd (insert_feature E
             (multisig_as_feature E (merge_defaults args m)) (features a))\<rparr>))))"

text \<open>A setting of a submission: only an owner may give it, otherwise the account's, or a default.\<close>

definition submit_setting :: "bool \<Rightarrow> 'x option \<Rightarrow> 'x option \<Rightarrow> 'x \<Rightarrow> 'x res" where
  "submit_setting is_owner given of_account dflt = (case given of
       Some t \<Rightarrow> if is_owner then Inr t else Inl (Err (AccountError (UserNeedsRole Owner)))
     | None \<Rightarrow> Inr (case of_account of Some t \<Rightarrow> t | None \<Rightarrow> dflt))"

text \<open>\<open>SystemTime::checked_add(Duration::from_secs(d))\<close>: seconds are an \<open>i64\<close>.\<close>

definition checked_add_secs :: "systime \<Rightarrow> u64 \<Rightarrow> systime option" where
  "checked_add_secs t d = (let r = t + int (unat d) * 1000000000 in
     if r div 1000000000 < 2 ^ 63 then Some r else None)"

text \<open>What follows the new event number in \<open>create_multisig_transaction\<close>.\<close>

definition submitted_with :: "('m, 'v, 'g) env \<Rightarrow> address \<Rightarrow> submit_args \<Rightarrow> event_id \<Rightarrow> ('m, 'g, bytes) ledger_op" where
  "submitted_with E sender arg event_id =
     bnd (existing_account E (su_account arg)) (\<lambda>a.
     let is_owner = has_role E a sender Owner in
     andthen (lift (from_many (needs_role E a sender [CanMultisigSubmit, Owner])))
     (bnd (lift (from_many (get_multisig_feature E (features a)))) (\<lambda>m.
     bnd (lift (submit_setting is_owner (su_threshold arg) (arg_threshold m) MULTISIG_DEFAULT_THRESHOLD)) (\<lambda>thr.
     bnd (lift (submit_setting is_owner (su_timeout_in_secs arg) (arg_timeout_in_secs m)
        MULTISIG_DEFAULT_TIMEOUT_IN_SECS)) (\<lambda>tmo.
     bnd (lift (submit_setting is_owner (su_execute_automatically arg) (arg_execute_automatically m)
        MULTISIG_DEFAULT_EXECUTE_AUTOMATICALLY)) (\<lambda>auto.
     bnd (gets (now E)) (\<lambda>time.
     bnd (lift (from_many (as_system_time E time))) (\<lambda>sys.
     bnd (lift (ok_or (Unknown ''Invalid time.'')
        (checked_add_secs sys (min tmo MULTISIG_MAXIMUM_TIMEOUT_IN_SECS)))) (\<lambda>end.
     bnd (lift (from_many (from_system_time E end))) (\<lambda>timeout_at.
     bnd (gets (\<lambda>s. migration_active E (migrations s) MEMO_MIGRATION)) (\<lambda>memo_active.
     let memo0 = (if memo_active then None else su_old_memo arg);
         data0 = (if memo_active then None else su_old_data arg);
         memo1 = (if memo_active then su_memo arg else None);
         x = \<lparr>ms_account = su_account arg,
              ms_info = \<lparr>old_memo = memo0, memo = memo1, transaction = su_transaction arg,
                submitter = sender, approvers = [(sender, True)], threshold = thr,
                execute_automatically = auto, timeout = timeout_at, old_data = data0, state = Pending\<rparr>,
              ms_creation = sys, ms_disabled = False\<rparr>
     in andthen (commit_multisig_transaction E event_id x)
        (andthen (log_event E (EvMultisigSubmit sender (su_account arg) memo0 (su_transaction arg)
            (Some event_id) thr timeout_at auto data0 memo1))
          (ret event_id)))))))))))))"

definition create_multisig_transaction :: "('m, 'v, 'g) env \<Rightarrow> address \<Rightarrow> submit_args \<Rightarrow>
    ('m, 'g, bytes) ledger_op" where
  "create_multisig_transaction E sender arg = bnd (new_event_id E) (submitted_with E sender arg)"

section \<open>Approval, revocation, execution, withdrawal\<close>

text \<open>
  \<open>exec\<close> is what runs the transaction of an entry; \<open>execute_internal\<close> records the outcome,
  an error too, in the response, and closes the entry.
\<close>

definition execute_internal :: "('m, 'v, 'g) env \<Rightarrow> (multisig_storage \<Rightarrow> ('m, 'g, bytes) ledger_op) \<Rightarrow>
    bytes \<Rightarrow> multisig_storage \<Rightarrow> bool \<Rightarrow> ('m, 'g, response) ledger_op" where
  "execute_internal E exec tx_id x automatic =
     bnd (attempt (exec x)) (\<lambda>result.
     andthen (disable_multisig_transaction E tx_id
        (if automatic then ExecutedAutomatically else ExecutedManually))
     (bnd (gets (now E)) (\<lambda>t.
     let response = \<lparr>rsp_from = ms_account x, rsp_to = None, rsp_data = result, rsp_timestamp = Some t\<rparr> in
     bnd (block_hotfix E ''Block 9400'' (tx_id, response)) (\<lambda>fix.
     ret (case fix of None \<Rightarrow> response | Some r \<Rightarrow> r)))))"

definition approve_with :: "('m, 'v, 'g) env \<Rightarrow> (multisig_storage \<Rightarrow> ('m, 'g, bytes) ledger_op) \<Rightarrow>
    address \<Rightarrow> bytes \<Rightarrow> ('m, 'g, bool) ledger_op" where
  "approve_with E exec sender tx_id = bnd (open_multisig E tx_id) (\<lambda>(x, a).
     if \<not> has_role E a sender CanMultisigApprove \<and> \<not> has_role E a sender CanMultisigSubmit
        \<and> \<not> has_role E a sender Owner
     then raise (MultisigError UserCannotApproveTransaction)
     else let x' = set_approval sender True x in
       andthen (commit_multisig_transaction E tx_id x')
       (andthen (log_event E (EvMultisigApprove (ms_account x') tx_id sender))
       (if execute_automatically (ms_info x') \<and> should_execute x'
        then bnd (execute_internal E exec tx_id x' True) (\<lambda>response.
          andthen (log_event E (EvMultisigExecute (ms_account x') tx_id None response)) (ret True))
        else ret False)))"

definition revoke_multisig :: "('m, 'v, 'g) env \<Rightarrow> address \<Rightarrow> bytes \<Rightarrow> ('m, 'g, bool) ledger_op" where
  "revoke_multisig E sender tx_id = bnd (open_multisig E tx_id) (\<lambda>(x, a).
     if map_of (approvers (ms_info x)) sender \<noteq> None
        \<or> has_role E a sender CanMultisigSubmit \<or> has_role E a sender CanMultisigApprove
        \<or> has_role E a sender Owner
     then andthen (commit_multisig_transaction E tx_id (set_approval sender False x))
       (andthen (log_event E (EvMultisigRevoke (ms_account x) tx_id sender)) (ret False))
     else raise (MultisigError UserCannotApproveTransaction))"

definition execute_with :: "('m, 'v, 'g) env \<Rightarrow> (multisig_storage \<Rightarrow> ('m, 'g, bytes) ledger_op) \<Rightarrow>
    address \<Rightarrow> bytes \<Rightarrow> ('m, 'g, response) ledger_op" where
  "execute_with E exec sender tx_id = bnd (open_multisig E tx_id) (\<lambda>(x, a).
     if \<not> (has_role E a sender Owner \<or> submitter (ms_info x) = sender)
     then raise (MultisigError CannotExecuteTransaction)
     else if should_execute x then
       bnd (execute_internal E exec tx_id x False) (\<lambda>response.
       andthen (log_event E (EvMultisigExecute (ms_account x) tx_id (Some sender) response))
         (ret response))
     else raise (MultisigError CannotExecuteTransaction))"

definition withdraw_multisig :: "('m, 'v, 'g) env \<Rightarrow> address \<Rightarrow> bytes \<Rightarrow> ('m, 'g, unit) ledger_op" where
  "withdraw_multisig E sender tx_id = bnd (open_multisig E tx_id) (\<lambda>(x, a).
     if \<not> (has_role E a sender Owner \<or> submitter (ms_info x) = sender)
     then raise (MultisigError CannotExecuteTransaction)
     else andthen (disable_multisig_transaction E tx_id Withdrawn)
       (log_event E (EvMultisigWithdraw (ms_account x) tx_id sender)))"

section \<open>The transactions\<close>

definition with_owned :: "('m, 'v, 'g) env \<Rightarrow> address \<Rightarrow> address \<Rightarrow> (account \<Rightarrow> ('m, 'g, unit) ledger_op) \<Rightarrow>
    ('m, 'g, unit) ledger_op" where
  "with_owned E sender i f = bnd (existing_account E i) (\<lambda>a.
     andthen (lift (from_many (needs_role E a sender [Owner]))) (f a))"

definition returning :: "('m, 'g, 'a) ledger_op \<Rightarrow> ('a \<Rightarrow> string + bytes) \<Rightarrow> ('m, 'g, bytes) ledger_op" where
  "returning m f = bnd m (\<lambda>x. lift (map_err SerializationError (f x)))"

fun execute_body :: "('m, 'v, 'g) env \<Rightarrow> (multisig_storage \<Rightarrow> ('m, 'g, bytes) ledger_op) \<Rightarrow>
    address \<Rightarrow> multisig_tx \<Rightarrow> ('m, 'g, bytes) ledger_op" where
  "execute_body E exec sender (TxSend args) =
     returning (bnd (lift (ok_or InvalidFromIdentity (send_from args))) (\<lambda>frm.
       bnd (existing_account E frm) (\<lambda>a.
       andthen (lift (from_many (needs_role E a sender [CanLedgerTransact, Owner])))
         (send E frm (send_to args) (send_symbol args) (send_amount args) (send_memo args)))))
       (\<lambda>_. payload_empty E)"
| "execute_body E exec sender (TxAccountCreate args) =
     returning (let a = account_create E sender args in
         andthen (lift (validate_account E a)) (add_account E a))
       (payload_create E)"
| "execute_body E exec sender (TxAccountDisable i) =
     returning (with_owned E sender i (\<lambda>_. disable_account E i)) (\<lambda>_. payload_empty E)"
| "execute_body E exec sender (TxAccountSetDescription args) =
     returning (with_owned E sender (de_account args) (\<lambda>a. store_description E a args))
       (\<lambda>_. payload_empty E)"
| "execute_body E exec sender (TxAccountAddRoles args) =
     returning (with_owned E sender (ro_account args) (\<lambda>a. store_add_roles E a args))
       (\<lambda>_. payload_empty E)"
| "execute_body E exec sender (TxAccountRemoveRoles args) =
     returning (with_owned E sender (ro_account args) (\<lambda>a. store_remove_roles E a args))
       (\<lambda>_. payload_empty E)"
| "execute_body E exec sender (TxAccountAddFeatures args) =
     returning (with_owned E sender (fe_account args) (\<lambda>a. store_add_features E a args))
       (\<lambda>_. payload_empty E)"
| "execute_body E exec sender (TxMultisigSubmit arg) =
     returning (create_multisig_transaction E sender arg) (payload_submit E)"
| "execute_body E exec sender (TxMultisigSetDefaults arg) =
     returning (set_multisig_defaults E sender arg) (\<lambda>_. payload_empty E)"
| "execute_body E exec sender (TxMultisigApprove tok) =
     returning (approve_with E exec sender tok) (\<lambda>_. payload_empty E)"
| "execute_body E exec sender (TxMultisigRevoke tok) =
     returning (revoke_multisig E sender tok) (\<lambda>_. payload_empty E)"
| "execute_body E exec sender (TxMultisigExecute tok) =
     returning (execute_with E exec sender tok) (\<lambda>_. payload_empty E)"
| "execute_body E exec sender (TxMultisigWithdraw tok) =
     returning (withdraw_multisig E sender tok) (\<lambda>_. payload_empty E)"
| "execute_body E exec sender (TxOther _) = raise (MultisigError TransactionTypeUnsupported)"

primrec execute_tx :: "('m, 'v, 'g) env \<Rightarrow> nat \<Rightarrow> multisig_storage \<Rightarrow> ('m, 'g, bytes) ledger_op" where
  "execute_tx E 0 x = throw Diverges"
| "execute_tx E (Suc n) x = execute_body E (execute_tx E n) (ms_account x) (transaction (ms_info x))"

definition approve_multisig :: "('m, 'v, 'g) env \<Rightarrow> nat \<Rightarrow> address \<Rightarrow> bytes \<Rightarrow> ('m, 'g, bool) ledger_op" where
  "approve_multisig E n = approve_with E (execute_tx E n)"

definition execute_multisig :: "('m, 'v, 'g) env \<Rightarrow> nat \<Rightarrow> address \<Rightarrow> bytes \<Rightarrow> ('m, 'g, response) ledger_op" where
  "execute_multisig E n = execute_with E (execute_tx E n)"

section \<open>Expiry\<close>

text \<open>
  The loop over the committed entries, latest first: \<open>None\<close> ends it (\<open>break\<close>).
\<close>

definition expire_step :: "('m, 'v, 'g) env \<Rightarrow> timestamp \<Rightarrow> bytes \<times> 'v \<Rightarrow>
    (bytes \<times> 'v store_op) option option res" where
  "expire_step E t kv =
     rbind (map_err DeserializationError (dec (c_multisig E) (snd kv))) (\<lambda>x.
     if t \<ge> timeout (ms_info x) then
       Inr (Some (if \<not> ms_disabled x then
          (case enc (c_multisig E) (disable_storage Expired x) of
             Inr v \<Rightarrow> Some (fst kv, Put v) | Inl _ \<Rightarrow> None) else None))
     else rbind (from_many (as_system_time E t)) (\<lambda>sys.
       if ms_creation x \<le> sys \<and>
          (sys - ms_creation x) div 1000000000 > int (unat MULTISIG_MAXIMUM_TIMEOUT_IN_SECS)
       then Inr None else Inr (Some None)))"

primrec expire_loop :: "('m, 'v, 'g) env \<Rightarrow> timestamp \<Rightarrow> (string + bytes \<times> 'v) list \<Rightarrow>
    (bytes \<times> 'v store_op) list res" where
  "expire_loop E t [] = Inr []"
| "expire_loop E t (item # items) =
     rbind (map_err Unknown item) (\<lambda>kv.
     rbind (expire_step E t kv) (\<lambda>r. case r of
         None \<Rightarrow> Inr []
       | Some None \<Rightarrow> expire_loop E t items
       | Some (Some p) \<Rightarrow> rbind (expire_loop E t items) (\<lambda>ps. Inr (p # ps))))"

definition check_timed_out_multisig_transactions :: "('m, 'v, 'g) env \<Rightarrow> ('m, 'g, unit) ledger_op" where
  "check_timed_out_multisig_transactions E =
     bnd (reads (\<lambda>s. expire_loop E (now E s) (all_multisig E (persistent_store s) Descending))) (\<lambda>batch.
     andthen (whenever (batch \<noteq> []) (db_apply E apply_failed (rev batch)))
       (maybe_commit E))"

section \<open>The module\<close>

definition multisig_submit_transaction :: "('m, 'v, 'g) env \<Rightarrow> address \<Rightarrow> submit_args \<Rightarrow>
    ('m, 'g, bytes) ledger_op" where
  "multisig_submit_transaction E sender arg = create_multisig_transaction E sender arg"

definition multisig_info_op :: "('m, 'v, 'g) env \<Rightarrow> bytes \<Rightarrow> ('m, 'g, multisig_info) ledger_op" where
  "multisig_info_op E tok = bnd (get_multisig_info E tok) (\<lambda>x. ret (ms_info x))"

datatype multisig_request =
    MultisigSubmit submit_args
  | MultisigSetDefaults defaults_args
  | MultisigApprove bytes
  | MultisigRevoke bytes
  | MultisigExecute bytes
  | MultisigWithdraw bytes

fun run_multisig :: "('m, 'v, 'g) env \<Rightarrow> nat \<Rightarrow> address \<Rightarrow> multisig_request \<Rightarrow> ('m, 'g, unit) ledger_op" where
  "run_multisig E n sender (MultisigSubmit arg) = bnd (multisig_submit_transaction E sender arg) (\<lambda>_. ret ())"
| "run_multisig E n sender (MultisigSetDefaults args) = set_multisig_defaults E sender args"
| "run_multisig E n sender (MultisigApprove tok) = bnd (approve_multisig E n sender tok) (\<lambda>_. ret ())"
| "run_multisig E n sender (MultisigRevoke tok) = bnd (revoke_multisig E sender tok) (\<lambda>_. ret ())"
| "run_multisig E n sender (MultisigExecute tok) = bnd (execute_multisig E n sender tok) (\<lambda>_. ret ())"
| "run_multisig E n sender (MultisigWithdraw tok) = withdraw_multisig E sender tok"

section \<open>Depth\<close>

text \<open>\<open>m'\<close> does what \<open>m\<close> does wherever \<open>m\<close> had depth enough.\<close>

definition refines :: "('s, 'a) op \<Rightarrow> ('s, 'a) op \<Rightarrow> bool" where
  "refines m m' \<longleftrightarrow> (\<forall>s. fst (m s) \<noteq> Inl Diverges \<longrightarrow> m' s = m s)"

lemma refines_refl [intro]: "refines m m"
  by (simp add: refines_def)

lemma refines_diverges [intro]: "refines (throw Diverges) m"
  by (simp add: refines_def run)

lemma refinesD: "refines m m' \<Longrightarrow> m s = (r, t) \<Longrightarrow> r \<noteq> Inl Diverges \<Longrightarrow> m' s = (r, t)"
  by (simp add: refines_def)

lemma refines_bnd [intro]:
  assumes "refines m m'" and "\<And>x. refines (f x) (f' x)"
  shows "refines (bnd m f) (bnd m' f')"
  unfolding refines_def
proof (intro allI impI)
  fix s
  assume d: "fst (bnd m f s) \<noteq> Inl Diverges"
  obtain r t where r: "m s = (r, t)" by (cases "m s")
  show "bnd m' f' s = bnd m f s"
  proof (cases r)
    case (Inl e)
    with d r have "r \<noteq> Inl Diverges" by (auto simp: run)
    with refinesD [OF assms(1) r] r Inl show ?thesis by (simp add: run)
  next
    case (Inr x)
    with refinesD [OF assms(1) r] have "m' s = (Inr x, t)" by simp
    moreover have "f' x t = f x t"
      using assms(2) [of x] d r Inr by (simp add: refines_def run)
    ultimately show ?thesis using r Inr by (simp add: run)
  qed
qed

lemma refines_andthen [intro]: "refines m m' \<Longrightarrow> refines n n' \<Longrightarrow> refines (andthen m n) (andthen m' n')"
  unfolding andthen_def by blast

lemma refines_if [intro]:
  "(b \<Longrightarrow> refines m m') \<Longrightarrow> (\<not> b \<Longrightarrow> refines n n') \<Longrightarrow> refines (if b then m else n) (if b then m' else n')"
  by simp

lemma refines_attempt [intro]:
  assumes "refines m m'"
  shows "refines (attempt m) (attempt m')"
  unfolding refines_def
proof (intro allI impI)
  fix s
  assume d: "fst (attempt m s) \<noteq> Inl Diverges"
  obtain r t where r: "m s = (r, t)" by (cases "m s")
  then have "r \<noteq> Inl Diverges" using d by (auto simp: run)
  with refinesD [OF assms r] r show "attempt m' s = attempt m s" by (simp add: run)
qed

lemma refines_execute_internal:
  "refines (exec x) (exec' x) \<Longrightarrow> refines (execute_internal E exec tok x b) (execute_internal E exec' tok x b)"
  unfolding execute_internal_def by blast

lemma refines_approve_with:
  "(\<And>x. refines (exec x) (exec' x)) \<Longrightarrow> refines (approve_with E exec sender tok) (approve_with E exec' sender tok)"
  unfolding approve_with_def split_def Let_def
  by (intro refines_bnd refines_if refines_andthen refines_execute_internal refines_refl)

lemma refines_execute_with:
  "(\<And>x. refines (exec x) (exec' x)) \<Longrightarrow> refines (execute_with E exec sender tok) (execute_with E exec' sender tok)"
  unfolding execute_with_def split_def
  by (intro refines_bnd refines_if refines_andthen refines_execute_internal refines_refl)

lemma refines_execute_body:
  "(\<And>x. refines (exec x) (exec' x)) \<Longrightarrow> refines (execute_body E exec sender tx) (execute_body E exec' sender tx)"
  by (cases "(E, exec, sender, tx)" rule: execute_body.cases)
    (auto simp: returning_def intro!: refines_bnd refines_approve_with refines_execute_with)

lemma execute_tx_Suc: "refines (execute_tx E n x) (execute_tx E (Suc n) x)"
proof (induction n arbitrary: x)
  case 0
  then show ?case by (simp add: refines_diverges)
next
  case (Suc n)
  then show ?case
    unfolding execute_tx.simps(2) [of E "Suc n"] execute_tx.simps(2) [of E n]
    by (rule refines_execute_body)
qed

lemma execute_tx_mono: "n \<le> k \<Longrightarrow> refines (execute_tx E n x) (execute_tx E k x)"
proof (induction rule: dec_induct)
  case base
  then show ?case by blast
next
  case (step k)
  then show ?case using execute_tx_Suc [of E k x] by (simp add: refines_def)
qed

text \<open>Transactions that are not approvals or executions need one level only.\<close>

fun flat_tx :: "multisig_tx \<Rightarrow> bool" where
  "flat_tx (TxMultisigApprove _) = False"
| "flat_tx (TxMultisigExecute _) = False"
| "flat_tx _ = True"

lemma execute_body_flat: "flat_tx tx \<Longrightarrow> execute_body E exec sender tx = execute_body E exec' sender tx"
  by (cases "(E, exec, sender, tx)" rule: execute_body.cases) simp_all

section \<open>Reading an entry\<close>

definition stored_multisig :: "('m, 'v, 'g) env \<Rightarrow> ('m, 'g) ledger \<Rightarrow> bytes \<Rightarrow> multisig_storage option" where
  "stored_multisig E s tok = (case view E s (key_for_multisig_transaction tok) of None \<Rightarrow> None
     | Some v \<Rightarrow> (case dec (c_multisig E) v of Inl _ \<Rightarrow> None | Inr x \<Rightarrow> Some x))"

lemma pure_get_multisig_info: "pure_act (get_multisig_info E tok)"
  unfolding get_multisig_info_def decode_def
  by (intro pure_bnd pure_lift) (simp add: pure_act_def run)

lemma pure_existing_account: "pure_act (existing_account E i)"
  by (simp add: pure_act_def existing_account_pure)

lemma pure_open_multisig: "pure_act (open_multisig E tok)"
  unfolding open_multisig_def
  by (auto intro!: pure_bnd pure_get_multisig_info pure_existing_account pure_ret pure_throw)

lemma get_multisig_info_ok:
  assumes "store_ok E"
  shows "get_multisig_info E tok s = (Inr x, t) \<longleftrightarrow> t = s \<and> stored_multisig E s tok = Some x"
  using merk_get_view [OF assms]
  by (auto simp: get_multisig_info_def stored_multisig_def view_def okD split: option.splits sum.splits)

lemma open_multisig_ok:
  assumes "store_ok E"
  shows "open_multisig E tok s = (Inr (x, a), t) \<longleftrightarrow> t = s \<and> stored_multisig E s tok = Some x \<and>
    \<not> ms_disabled x \<and> stored_account E s (ms_account x) = Some a \<and> enabled a"
  using assms by (auto simp: open_multisig_def okD get_multisig_info_ok existing_account_ok split: if_splits)

section \<open>Properties of the recursion\<close>

text \<open>
  Execution does not depend on the depth allowed: when some depth is enough for an execution
  or an approval, every greater depth gives the same result and the same state, and a
  transaction that neither approves nor executes another needs one level only.
\<close>

lemma multisig_depth:
  assumes "n \<le> k"
  shows "(fst (execute_multisig E n sender tok s) \<noteq> Inl Diverges \<longrightarrow>
      execute_multisig E k sender tok s = execute_multisig E n sender tok s) \<and>
    (fst (approve_multisig E n sender tok s) \<noteq> Inl Diverges \<longrightarrow>
      approve_multisig E k sender tok s = approve_multisig E n sender tok s) \<and>
    (flat_tx (transaction (ms_info x)) \<and> 0 < n \<longrightarrow> execute_tx E k x = execute_tx E n x)"
proof (intro conjI impI)
  have mono: "refines (execute_tx E n x) (execute_tx E k x)" for x
    using assms by (rule execute_tx_mono)
  show "execute_multisig E k sender tok s = execute_multisig E n sender tok s"
    if "fst (execute_multisig E n sender tok s) \<noteq> Inl Diverges"
    using refines_execute_with [where exec = "execute_tx E n" and exec' = "execute_tx E k", OF mono] that
    unfolding execute_multisig_def refines_def by blast
  show "approve_multisig E k sender tok s = approve_multisig E n sender tok s"
    if "fst (approve_multisig E n sender tok s) \<noteq> Inl Diverges"
    using refines_approve_with [where exec = "execute_tx E n" and exec' = "execute_tx E k", OF mono] that
    unfolding approve_multisig_def refines_def by blast
  assume "flat_tx (transaction (ms_info x)) \<and> 0 < n"
  then obtain n' k' where "n = Suc n'" "k = Suc k'" "flat_tx (transaction (ms_info x))"
    using assms by (cases n; cases k) auto
  then show "execute_tx E k x = execute_tx E n x"
    by (simp add: execute_body_flat [of _ E "execute_tx E k'" _ "execute_tx E n'"])
qed

text \<open>
  C12. An entry whose transaction is its own execution can never be executed: with the quorum
  reached and the account owning itself, the recursion exceeds every depth.
\<close>

theorem self_execution_diverges:
  assumes "store_ok E" and "stored_multisig E s tok = Some x" and "\<not> ms_disabled x"
    and "transaction (ms_info x) = TxMultisigExecute tok" and "should_execute x"
    and "stored_account E s (ms_account x) = Some a" and "enabled a"
    and "has_role E a (ms_account x) Owner"
    and "has_role E a sender Owner \<or> submitter (ms_info x) = sender"
  shows "execute_multisig E n sender tok s = (Inl Diverges, s)"
proof -
  have op: "open_multisig E tok s = (Inr (x, a), s)"
    using assms by (simp add: open_multisig_ok)
  have one: "execute_with E exec i tok s = (Inl Diverges, s)"
    if "exec x s = (Inl Diverges, s)" and "has_role E a i Owner \<or> submitter (ms_info x) = i" for exec i
    using that op assms(5) by (auto simp: execute_with_def execute_internal_def run)
  have "execute_tx E n x s = (Inl Diverges, s)" for n
  proof (induction n)
    case 0
    then show ?case by (simp add: run)
  next
    case (Suc n)
    then show ?case using one [where exec = "execute_tx E n", OF Suc] assms(4,8) by (simp add: returning_def run)
  qed
  then show ?thesis
    unfolding execute_multisig_def using assms(9) by (rule one)
qed

definition ref_entry :: "multisig_tx \<Rightarrow> multisig_storage" where
  "ref_entry tx = \<lparr>ms_account = 600, ms_info = \<lparr>old_memo = None, memo = None, transaction = tx,
     submitter = 2, approvers = [(2, True)], threshold = 1, execute_automatically = False,
     timeout = 100, old_data = None, state = Pending\<rparr>, ms_creation = 0, ms_disabled = False\<rparr>"

definition ref_multisig :: "multisig_tx \<Rightarrow> (ref_store, string list) ledger" where
  "ref_multisig tx = ref_ledger [(key_for_account ref_env 600, RAccount (ref_account None)),
     (key_for_multisig_transaction [CHR 0x01], RMultisig (ref_entry tx))] []"

lemma ref_multisig_stored:
  "stored_multisig ref_env (ref_multisig tx) [CHR 0x01] = Some (ref_entry tx)"
  "stored_account ref_env (ref_multisig tx) 600 = Some (ref_account None)"
  by (simp_all add: stored_multisig_def stored_account_def ref_multisig_def ref_codecs tagged_def)

lemma multisig_depth_witness:
  "execute_tx ref_env 5 (ref_entry (TxAccountDisable 600)) = execute_tx ref_env 1 (ref_entry (TxAccountDisable 600))"
  using multisig_depth [of 1 5 ref_env 2 "[]" "ref_multisig (TxAccountDisable 600)" "ref_entry (TxAccountDisable 600)"]
  by (simp add: ref_entry_def)

lemma self_execution_diverges_witness:
  "execute_multisig ref_env 1000 2 [CHR 0x01] (ref_multisig (TxMultisigExecute [CHR 0x01])) =
    (Inl Diverges, ref_multisig (TxMultisigExecute [CHR 0x01]))"
  by (rule self_execution_diverges [where x = "ref_entry (TxMultisigExecute [CHR 0x01])" and a = "ref_account None"])
    (simp_all add: ref_multisig_stored, simp_all add: ref_entry_def ref_account_def ref_has_role_def
      should_execute_def enabled_def ref_multisig_stored(2) [unfolded ref_account_def])

end
