(* ===== verification/MultisigSafety.thy ===== *)
theory MultisigSafety
  imports Multisig
begin

text \<open>
  What multisig entries promise: an entry is executed only with its quorum, and an approval that
  completes the quorum executes it; expiry goes by the last commit: it writes the entries that were
  open and overdue there back as they were there, marked expired. That closed entries stay closed
  is shown for the whole server in \<open>Promises\<close>.
\<close>

section \<open>Actions that only look\<close>

lemma pure_get_balance: "pure_act (get_balance E a x)"
  by (auto simp: pure_act_def get_balance_def db_get_def run split: option.split sum.split)

lemma keeps_existing_pure: "keeps I (existing_account E i)"
  by (rule pure_act_keeps [OF pure_existing_account])

lemma commit_multisig_state:
  assumes "env_ok E"
  shows "commit_multisig_transaction E tok x s = (Inr (),
    maybe_committed E (applied E [(key_for_multisig_transaction tok, Put (enc_val (c_multisig E) x))] s))"
  using assms by (simp add: commit_multisig_transaction_def run)

lemma keeps_block_hotfix:
  assumes "store_ok E"
  shows "keeps I (block_hotfix E nm d)"
  unfolding block_hotfix_def using assms
  by (intro keeps_bnd keeps_encode keeps_reads keeps_option keeps_ret keeps_decode)
    (simp add: keeps_def get_height_run)

text \<open>Checks in a state where \<open>P\<close> holds, then an action that leads from \<open>P\<close> to \<open>I\<close>.\<close>

definition leads :: "('s \<Rightarrow> bool) \<Rightarrow> ('s, 'f, 'a) act \<Rightarrow> ('s \<Rightarrow> bool) \<Rightarrow> bool" where
  "leads P m I \<longleftrightarrow> (\<forall>s. P s \<longrightarrow> I (snd (m s)))"

lemma leads_bnd:
  assumes "\<And>s. P s \<Longrightarrow> I s" and "pure_act m" and "\<And>x. leads P (f x) I"
  shows "leads P (bnd m f) I"
  unfolding leads_def
proof (intro allI impI)
  fix s assume P: "P s"
  obtain r where r: "m s = (r, s)"
    using assms(2) [unfolded pure_act_def, rule_format, of s] by (cases "m s") auto
  with P assms(1,3) show "I (snd (bnd m f s))"
    by (cases r) (auto simp: run leads_def)
qed

lemma leads_andthen:
  "(\<And>s. P s \<Longrightarrow> I s) \<Longrightarrow> pure_act m \<Longrightarrow> leads P n I \<Longrightarrow> leads P (andthen m n) I"
  unfolding andthen_def by (rule leads_bnd)

lemma pure_gets: "pure_act (gets f)"
  by (simp add: pure_act_def run)

lemma keeps_returning: "keeps I m \<Longrightarrow> keeps I (returning m f)"
  unfolding returning_def by (intro keeps_bnd keeps_lift)

lemma multisig_key_pad: "key_for_multisig_transaction i = key_for_multisig_transaction j \<longleftrightarrow> pad_id i = pad_id j"
  by (simp add: key_for_multisig_transaction_def)

section \<open>Execution and quorum\<close>

definition may_execute :: "('m, 'v, 'g) env \<Rightarrow> ('m, 'g) ledger \<Rightarrow> address \<Rightarrow> bytes \<Rightarrow> bool" where
  "may_execute E s sender tok \<longleftrightarrow> (\<exists>x a. stored_multisig E s tok = Some x \<and> \<not> ms_disabled x \<and>
     should_execute x \<and> stored_account E s (ms_account x) = Some a \<and> enabled a \<and>
     (has_role E a sender Owner \<or> submitter (ms_info x) = sender))"

definition closed_as :: "('m, 'v, 'g) env \<Rightarrow> bytes \<Rightarrow> multisig_state \<Rightarrow> ('m, 'g) ledger \<Rightarrow> bool" where
  "closed_as E tok st s \<longleftrightarrow> (\<exists>x. stored_multisig E s tok = Some x \<and> ms_disabled x \<and> state (ms_info x) = st)"

lemma disable_multisig_ok:
  assumes E: "env_ok E" and "disable_multisig_transaction E tok st s = (Inr (), t)"
  shows "closed_as E tok st t"
proof -
  from assms obtain x where "stored_multisig E s tok = Some x"
    and t: "t = maybe_committed E (applied E [(key_for_multisig_transaction tok,
      Put (enc_val (c_multisig E) (disable_storage st x)))] s)"
    by (auto simp: disable_multisig_transaction_def bnd_ok get_multisig_info_ok commit_multisig_state
        throw_ok split: if_splits)
  then show ?thesis using E
    by (simp add: closed_as_def stored_multisig_def disable_storage_def)
qed

lemma execute_internal_ok:
  assumes E: "env_ok E" and ok: "execute_internal E exec tok x b s = (Inr r, t)"
  shows "closed_as E tok (if b then ExecutedAutomatically else ExecutedManually) t"
proof -
  from ok obtain q s1 s2 where d: "disable_multisig_transaction E tok
      (if b then ExecutedAutomatically else ExecutedManually) s1 = (Inr (), s2)"
    and rest: "bnd (gets (now E)) (\<lambda>t.
     let response = \<lparr>rsp_from = ms_account x, rsp_to = None, rsp_data = q, rsp_timestamp = Some t\<rparr> in
     bnd (block_hotfix E ''Block 9400'' (tok, response)) (\<lambda>fix.
     ret (case fix of None \<Rightarrow> response | Some r \<Rightarrow> r))) s2 = (Inr r, t)"
    unfolding execute_internal_def bnd_ok andthen_ok by auto
  have "keeps (\<lambda>u. u = s2) (block_hotfix E nm d)" for nm d
    using keeps_block_hotfix [of E "\<lambda>u. u = s2"] E by simp
  then have "keeps (\<lambda>u. u = s2) (bnd (gets (now E)) (\<lambda>t.
     let response = \<lparr>rsp_from = ms_account x, rsp_to = None, rsp_data = q, rsp_timestamp = Some t\<rparr> in
     bnd (block_hotfix E ''Block 9400'' (tok, response)) (\<lambda>fix.
     ret (case fix of None \<Rightarrow> response | Some r \<Rightarrow> r))))"
    unfolding Let_def by (intro keeps_bnd keeps_gets keeps_ret)
  from keepsD [OF this refl rest] have "t = s2" .
  with disable_multisig_ok [OF E d] show ?thesis by simp
qed

lemma closed_log:
  assumes "env_ok E" and "closed_as E tok st s" and "log_event E c s = (r, t)"
  shows "closed_as E tok st t"
proof -
  have "view E t (key_for_multisig_transaction tok) = view E s (key_for_multisig_transaction tok)"
    by (rule log_event_frame [OF _ assms(3)]) (use assms(1) in auto)
  with assms(2) show ?thesis by (simp add: closed_as_def stored_multisig_def)
qed

section \<open>Expiry\<close>

definition overdue :: "timestamp \<Rightarrow> multisig_storage \<Rightarrow> bool" where
  "overdue t x \<longleftrightarrow> timeout (ms_info x) \<le> t \<and> \<not> ms_disabled x"

definition expire_entry :: "('m, 'v, 'g) env \<Rightarrow> timestamp \<Rightarrow> bytes \<times> 'v \<Rightarrow> (bytes \<times> 'v store_op) option" where
  "expire_entry E t p = (case dec (c_multisig E) (snd p) of Inl _ \<Rightarrow> None | Inr x \<Rightarrow>
     if overdue t x then Some (fst p, Put (enc_val (c_multisig E) (disable_storage Expired x))) else None)"

text \<open>
  An entry that does not stop the loop (it decodes, and is overdue or not older than the
  maximum), and one that makes it fail.
\<close>

definition loop_passes :: "('m, 'v, 'g) env \<Rightarrow> timestamp \<Rightarrow> 'v \<Rightarrow> bool" where
  "loop_passes E t v \<longleftrightarrow> (\<exists>x. dec (c_multisig E) v = Inr x \<and> (timeout (ms_info x) \<le> t \<or>
     (\<exists>sys. as_system_time E t = Inr sys \<and>
        (sys - ms_creation x) div 1000000000 \<le> int (unat MULTISIG_MAXIMUM_TIMEOUT_IN_SECS))))"

definition loop_fails :: "('m, 'v, 'g) env \<Rightarrow> timestamp \<Rightarrow> 'v \<Rightarrow> bool" where
  "loop_fails E t v \<longleftrightarrow> (case dec (c_multisig E) v of Inl _ \<Rightarrow> True
     | Inr x \<Rightarrow> t < timeout (ms_info x) \<and> (\<exists>e. as_system_time E t = Inl e))"

lemma expire_step_passes:
  assumes "env_ok E" and "loop_passes E t (snd p)"
  shows "expire_step E t p = Inr (Some (expire_entry E t p))"
  using assms by (auto simp: loop_passes_def expire_step_def expire_entry_def overdue_def not_le)

lemma expire_step_fails: "loop_fails E t (snd p) \<Longrightarrow> \<exists>e. expire_step E t p = Inl e"
  by (cases "dec (c_multisig E) (snd p)")
    (auto simp: loop_fails_def expire_step_def map_err_def from_many_def rbind_def)

lemma expire_step_stops:
  assumes "\<not> loop_passes E t (snd p)" and "\<not> loop_fails E t (snd p)"
  shows "expire_step E t p = Inr None"
proof -
  from assms(2) obtain x where x: "dec (c_multisig E) (snd p) = Inr x"
    by (auto simp: loop_fails_def split: sum.splits)
  with assms obtain sys where late: "t < timeout (ms_info x)" and sys: "as_system_time E t = Inr sys"
    by (cases "as_system_time E t") (auto simp: loop_fails_def loop_passes_def not_le)
  with x assms(1) have d: "(sys - ms_creation x) div 1000000000 > int (unat MULTISIG_MAXIMUM_TIMEOUT_IN_SECS)"
    by (auto simp: loop_passes_def not_le)
  then have "0 \<le> sys - ms_creation x"
    using pos_imp_zdiv_neg_iff [of 1000000000 "sys - ms_creation x"] by linarith
  with x late sys d show ?thesis by (simp add: expire_step_def not_le)
qed

lemma loop_fails_not: "loop_fails E t v \<Longrightarrow> \<not> loop_passes E t v"
  by (auto simp: loop_fails_def loop_passes_def split: sum.splits)

text \<open>The loop goes on while entries pass; what stops it decides between success and failure.\<close>

lemma expire_loop_fails:
  assumes "env_ok E"
  shows "dropWhile (\<lambda>p. loop_passes E t (snd p)) ps = p # r \<Longrightarrow> loop_fails E t (snd p) \<Longrightarrow>
    \<exists>e. expire_loop E t (map Inr ps) = Inl e"
proof (induction ps)
  case (Cons q ps)
  show ?case
  proof (cases "loop_passes E t (snd q)")
    case True
    with Cons obtain e where "expire_loop E t (map Inr ps) = Inl e" by auto
    then show ?thesis
      by (cases "expire_entry E t q") (simp_all add: expire_step_passes [OF assms True])
  next
    case False
    with Cons.prems expire_step_fails [of E t q] show ?thesis by auto
  qed
qed simp

lemma expire_loop_done:
  assumes "env_ok E"
  shows "(\<And>p r. dropWhile (\<lambda>p. loop_passes E t (snd p)) ps = p # r \<Longrightarrow> \<not> loop_fails E t (snd p)) \<Longrightarrow>
    expire_loop E t (map Inr ps) =
      Inr (List.map_filter (expire_entry E t) (takeWhile (\<lambda>p. loop_passes E t (snd p)) ps))"
proof (induction ps)
  case Nil
  then show ?case by (simp add: map_filter_simps)
next
  case (Cons q ps)
  show ?case
  proof (cases "loop_passes E t (snd q)")
    case True
    have "expire_loop E t (map Inr ps) =
        Inr (List.map_filter (expire_entry E t) (takeWhile (\<lambda>p. loop_passes E t (snd p)) ps))"
      by (rule Cons.IH) (use Cons.prems True in simp)
    then show ?thesis
      by (cases "expire_entry E t q") (simp_all add: expire_step_passes [OF assms True] True map_filter_simps)
  next
    case False
    then have "\<not> loop_fails E t (snd q)" using Cons.prems by simp
    from expire_step_stops [OF False this] False show ?thesis by (simp add: map_filter_simps)
  qed
qed

text \<open>
  What the loop passes, and what it meets first, in terms of the sorted list it walks from its end.
\<close>

lemma listing_passed:
  assumes l: "listing d P es"
  shows "listing d (\<lambda>k. P k \<and> (\<forall>k' v. P k' \<longrightarrow> d k' = Some v \<longrightarrow> k \<le> k' \<longrightarrow> Q v))
    (rev (takeWhile (\<lambda>p. Q (snd p)) (rev es)))"
    (is "listing _ ?P' ?es'")
proof -
  let ?rest = "rev (dropWhile (\<lambda>p. Q (snd p)) (rev es))"
  have split: "es = ?rest @ ?es'"
    by (metis rev_append rev_rev_ident takeWhile_dropWhile_id)
  have sorted: "sorted_wrt (<) (map fst (?rest @ ?es'))" using l split by (simp add: listing_def)
  have mem: "(k, v) \<in> set es \<longleftrightarrow> d k = Some v \<and> P k" for k v using l by (simp add: listing_def)
  have passed: "Q (snd p)" if "p \<in> set ?es'" for p using that by (auto dest: set_takeWhileD)
  have "(k, v) \<in> set ?es' \<longleftrightarrow> d k = Some v \<and> ?P' k" for k v
  proof
    assume in': "(k, v) \<in> set ?es'"
    then have "(k, v) \<in> set es" by (subst split) simp
    moreover have "Q w" if "P k'" "d k' = Some w" "k \<le> k'" for k' w
    proof -
      have "(k', w) \<in> set es" using that mem by blast
      then have "(k', w) \<in> set ?rest \<or> (k', w) \<in> set ?es'" by (subst (asm) split) simp
      moreover have "(k', w) \<notin> set ?rest"
        using sorted in' that(3) by (fastforce simp: sorted_wrt_append)
      ultimately show ?thesis using passed by fastforce
    qed
    ultimately show "d k = Some v \<and> ?P' k" using mem by blast
  next
    assume a: "d k = Some v \<and> ?P' k"
    then have "(k, v) \<in> set es" using mem by blast
    then have "(k, v) \<in> set ?rest \<or> (k, v) \<in> set ?es'" by (subst (asm) split) simp
    moreover have False if r: "(k, v) \<in> set ?rest"
    proof -
      from r obtain p ps where p: "dropWhile (\<lambda>p. Q (snd p)) (rev es) = p # ps"
        by (cases "dropWhile (\<lambda>p. Q (snd p)) (rev es)") auto
      then have "\<not> Q (snd p)" by (metis hd_dropWhile list.distinct(1) list.sel(1))
      moreover have "p \<in> set es" by (metis p in_set_conv_decomp set_dropWhileD set_rev list.set_intros(1))
      moreover have "k \<le> fst p" using sorted r p by (auto simp: sorted_wrt_append)
      ultimately show False using a mem [of "fst p" "snd p"] by auto
    qed
    ultimately show "(k, v) \<in> set ?es'" by blast
  qed
  then show ?thesis using sorted by (simp add: listing_def sorted_wrt_append)
qed

lemma listing_stopped:
  assumes l: "listing d P es"
  shows "(\<exists>p ps. dropWhile (\<lambda>p. Q (snd p)) (rev es) = p # ps \<and> X (snd p)) \<longleftrightarrow>
    (\<exists>k v. P k \<and> d k = Some v \<and> \<not> Q v \<and> X v \<and> (\<forall>k' w. P k' \<longrightarrow> d k' = Some w \<longrightarrow> k < k' \<longrightarrow> Q w))"
    (is "?l \<longleftrightarrow> ?r")
proof
  have mem: "(k, v) \<in> set es \<longleftrightarrow> d k = Some v \<and> P k" for k v using l by (simp add: listing_def)
  have sorted: "sorted_wrt (<) (map fst es)" using l by (simp add: listing_def)
  {
    assume ?l
    then obtain p ps where p: "dropWhile (\<lambda>p. Q (snd p)) (rev es) = p # ps" "X (snd p)" by blast
    then have n: "\<not> Q (snd p)" by (metis hd_dropWhile list.distinct(1) list.sel(1))
    have rev: "rev es = takeWhile (\<lambda>p. Q (snd p)) (rev es) @ p # ps" by (metis p(1) takeWhile_dropWhile_id)
    then have es: "es = rev ps @ p # rev (takeWhile (\<lambda>p. Q (snd p)) (rev es))"
      by (metis append.assoc append_Cons append_Nil rev.simps(2) rev_append rev_rev_ident)
    have "Q w" if "P k'" "d k' = Some w" "fst p < k'" for k' w
    proof -
      have "(k', w) \<in> set es" using that mem by blast
      then have "(k', w) \<in> set (rev ps) \<or> (k', w) = p \<or> (k', w) \<in> set (takeWhile (\<lambda>p. Q (snd p)) (rev es))"
        by (subst (asm) es) auto
      moreover have "(k', w) \<notin> set (rev ps)"
        using sorted that(3) by (subst (asm) es) (fastforce simp: sorted_wrt_append)
      ultimately show ?thesis using that(3) by (auto dest: set_takeWhileD)
    qed
    moreover have "p \<in> set es" by (subst es) simp
    ultimately show ?r using n p(2) mem [of "fst p" "snd p"] by auto
  next
    assume ?r
    then obtain k v where kv: "(k, v) \<in> set es" "\<not> Q v" "X v"
      and above: "\<And>k' w. (k', w) \<in> set es \<Longrightarrow> k < k' \<Longrightarrow> Q w" using mem by blast
    from kv(1) obtain xs ys where es: "es = xs @ (k, v) # ys" by (auto simp: in_set_conv_decomp)
    have "Q (snd p)" if "p \<in> set ys" for p
      using above [of "fst p" "snd p"] that sorted by (auto simp: es sorted_wrt_append)
    then have "dropWhile (\<lambda>p. Q (snd p)) (rev ys @ (k, v) # rev xs) = dropWhile (\<lambda>p. Q (snd p)) ((k, v) # rev xs)"
      by (intro dropWhile_append2) simp
    then have "dropWhile (\<lambda>p. Q (snd p)) (rev es) = (k, v) # rev xs"
      using kv(2) by (simp add: es)
    with kv(3) show ?l by auto
  }
qed

text \<open>The entries as the iterator of the loop sees them: those of the last commit.\<close>

definition multisig_key :: "bytes \<Rightarrow> bool" where
  "multisig_key k \<longleftrightarrow> take (length MULTISIG_TRANSACTIONS_ROOT) k = MULTISIG_TRANSACTIONS_ROOT"

lemma multisig_key_listed:
  assumes "disk_ok E D"
  obtains es where "listing (D m) multisig_key es"
    and "merk_iter_prefix E m MULTISIG_TRANSACTIONS_ROOT True = map Inr (rev es)"
  using assms unfolding disk_ok_def multisig_key_def [abs_def] by blast

definition committed_multisig :: "('m, 'v, 'g) env \<Rightarrow> ('m \<Rightarrow> bytes \<rightharpoonup> 'v) \<Rightarrow> ('m, 'g) ledger \<Rightarrow> bytes \<Rightarrow>
    multisig_storage option" where
  "committed_multisig E D s tok = (case D (persistent_store s) (key_for_multisig_transaction tok) of
     None \<Rightarrow> None | Some v \<Rightarrow> (case dec (c_multisig E) v of Inl _ \<Rightarrow> None | Inr x \<Rightarrow> Some x))"

text \<open>The loop gets to an entry when that one and all committed ones after it let it pass.\<close>

definition loop_reaches :: "('m, 'v, 'g) env \<Rightarrow> ('m \<Rightarrow> bytes \<rightharpoonup> 'v) \<Rightarrow> ('m, 'g) ledger \<Rightarrow> bytes \<Rightarrow> bool" where
  "loop_reaches E D s k \<longleftrightarrow> (\<forall>k' v. multisig_key k' \<longrightarrow> D (persistent_store s) k' = Some v \<longrightarrow> k \<le> k' \<longrightarrow>
     loop_passes E (now E s) v)"

definition expiry_fails :: "('m, 'v, 'g) env \<Rightarrow> ('m \<Rightarrow> bytes \<rightharpoonup> 'v) \<Rightarrow> ('m, 'g) ledger \<Rightarrow> bool" where
  \<comment> \<open>the first committed entry that does not pass is one that fails\<close>
  "expiry_fails E D s \<longleftrightarrow> (\<exists>k v. multisig_key k \<and> D (persistent_store s) k = Some v \<and>
     loop_fails E (now E s) v \<and> (\<forall>k' w. multisig_key k' \<longrightarrow> D (persistent_store s) k' = Some w \<longrightarrow> k < k' \<longrightarrow>
     loop_passes E (now E s) w))"

definition after_expiry :: "timestamp \<Rightarrow> multisig_storage option \<Rightarrow> multisig_storage option \<Rightarrow> multisig_storage option" where
  \<comment> \<open>an entry of the tree, given what the disk has for it\<close>
  "after_expiry t on_disk in_tree = (case on_disk of None \<Rightarrow> in_tree
     | Some x \<Rightarrow> if overdue t x then Some (disable_storage Expired x) else in_tree)"

lemma expiry_failing:
  assumes E: "env_ok E" "disk_ok E D" and f: "expiry_fails E D s"
  shows "\<exists>e. check_timed_out_multisig_transactions E s = (Inl e, s)"
proof -
  let ?Q = "\<lambda>p. loop_passes E (now E s) (snd p)"
  from E(2) obtain es where l: "listing (D (persistent_store s)) multisig_key es"
    and it: "merk_iter_prefix E (persistent_store s) MULTISIG_TRANSACTIONS_ROOT True = map Inr (rev es)"
    by (rule multisig_key_listed)
  from f obtain k v where kv: "multisig_key k" "D (persistent_store s) k = Some v" "loop_fails E (now E s) v"
    and above: "\<forall>k' w. multisig_key k' \<longrightarrow> D (persistent_store s) k' = Some w \<longrightarrow> k < k' \<longrightarrow>
      loop_passes E (now E s) w"
    unfolding expiry_fails_def by (elim exE conjE)
  have "\<exists>p ps. dropWhile ?Q (rev es) = p # ps \<and> loop_fails E (now E s) (snd p)"
    unfolding listing_stopped [OF l, of "loop_passes E (now E s)"]
    by (rule exI [where x = k], rule exI [where x = v]) (intro conjI kv above loop_fails_not [OF kv(3)])
  then obtain e where "expire_loop E (now E s) (map Inr (rev es)) = Inl e"
    using expire_loop_fails [OF E(1), of "now E s" "rev es"] by blast
  then show ?thesis
    by (simp add: check_timed_out_multisig_transactions_def run all_multisig_def from_end_def it)
qed

lemma expiry_run:
  assumes E: "env_ok E" "disk_ok E D" and f: "\<not> expiry_fails E D s"
  obtains t where "check_timed_out_multisig_transactions E s = (Inr (), t)"
    and "\<And>tok. stored_multisig E t tok = (if loop_reaches E D s (key_for_multisig_transaction tok)
      then after_expiry (now E s) (committed_multisig E D s tok) (stored_multisig E s tok)
      else stored_multisig E s tok)"
    and "\<And>k. \<not> multisig_key k \<Longrightarrow> view E t k = view E s k"
proof -
  let ?d = "D (persistent_store s)"
  let ?Q = "\<lambda>p. loop_passes E (now E s) (snd p)"
  have st: "store_ok E" using E(1) by simp
  from E(2) obtain es where l: "listing ?d multisig_key es"
    and it: "merk_iter_prefix E (persistent_store s) MULTISIG_TRANSACTIONS_ROOT True = map Inr (rev es)"
    by (rule multisig_key_listed)
  let ?es = "rev (takeWhile ?Q (rev es))"
  let ?P = "\<lambda>k. multisig_key k \<and> loop_reaches E D s k"
  have l': "listing ?d ?P ?es"
    using listing_passed [OF l, of "loop_passes E (now E s)"] by (simp add: loop_reaches_def)
  let ?b = "List.map_filter (expire_entry E (now E s)) ?es"
  have nf: "\<nexists>p ps. dropWhile ?Q (rev es) = p # ps \<and> loop_fails E (now E s) (snd p)"
    unfolding listing_stopped [OF l, of "loop_passes E (now E s)"]
    using f unfolding expiry_fails_def by blast
  have "expire_loop E (now E s) (map Inr (rev es)) =
      Inr (List.map_filter (expire_entry E (now E s)) (takeWhile ?Q (rev es)))"
    using expire_loop_done [OF E(1), of "now E s" "rev es"] nf by blast
  then have loop: "expire_loop E (now E s) (all_multisig E (persistent_store s) Descending) = Inr (rev ?b)"
    by (simp add: all_multisig_def from_end_def it map_filter_rev)
  have key: "expire_entry E (now E s) p = Some q \<Longrightarrow> fst q = fst p" for p q
    by (auto simp: expire_entry_def split: sum.splits if_splits)
  have ok: "batch_ok ?b" using l' key by (rule batch_ok_filtered)
  let ?t = "maybe_committed E (if ?b = [] then s else applied E ?b s)"
  have run: "check_timed_out_multisig_transactions E s = (Inr (), ?t)"
    using st ok by (simp add: check_timed_out_multisig_transactions_def run loop)
  have "view E ?t k = apply_batch ?b (view E s) k" for k
    using st ok by simp
  then have at: "view E ?t k = (case if ?P k then ?d k else None of None \<Rightarrow> view E s k
      | Some v \<Rightarrow> (case expire_entry E (now E s) (k, v) of None \<Rightarrow> view E s k | Some q \<Rightarrow> op_value (snd q)))" for k
    using apply_filtered_disk [OF l' key] by simp
  have "stored_multisig E ?t tok = (if loop_reaches E D s (key_for_multisig_transaction tok)
      then after_expiry (now E s) (committed_multisig E D s tok) (stored_multisig E s tok)
      else stored_multisig E s tok)" for tok
  proof -
    have "multisig_key (key_for_multisig_transaction tok)"
      by (simp add: multisig_key_def key_for_multisig_transaction_def)
    with at [of "key_for_multisig_transaction tok"] show ?thesis using E(1)
      by (auto simp: stored_multisig_def committed_multisig_def after_expiry_def expire_entry_def
          split: option.splits sum.splits)
  qed
  moreover have "view E ?t k = view E s k" if "\<not> multisig_key k" for k
    using at [of k] that by simp
  ultimately show ?thesis using that run by blast
qed

section \<open>Properties\<close>

text \<open>
  C9. Executing an entry needs its quorum: when an execution succeeds, the entry was open, at least as
  many of its approvers had approved as its threshold asks, and the sender owned the account
  or had submitted the entry; afterwards the entry is closed as executed.
\<close>

theorem executed_with_quorum:
  assumes "env_ok E" and "execute_multisig E n sender tok s = (Inr rsp, t)"
  shows "may_execute E s sender tok \<and> closed_as E tok ExecutedManually t"
proof -
  from assms(2) obtain x a s1 where op: "open_multisig E tok s = (Inr (x, a), s)"
    and w: "has_role E a sender Owner \<or> submitter (ms_info x) = sender" "should_execute x"
    and run: "execute_internal E (execute_tx E n) tok x False s = (Inr rsp, s1)"
    and log: "log_event E (EvMultisigExecute (ms_account x) tok (Some sender) rsp) s1 = (Inr (), t)"
    by (auto simp: execute_multisig_def execute_with_def okD dest: pure_actD [OF pure_open_multisig]
        split: if_splits)
  from op w assms(1) have "may_execute E s sender tok"
    by (auto simp: may_execute_def open_multisig_ok)
  moreover have "closed_as E tok ExecutedManually t"
    using closed_log [OF assms(1) _ log] execute_internal_ok [OF assms(1) run] by simp
  ultimately show ?thesis by blast
qed

text \<open>
  C10. Approving never executes early: an approval that reports an execution was made by a member who
  may approve, on an open entry set to execute by itself, with the quorum reached by this
  approval; afterwards the entry is closed as executed automatically.
\<close>

theorem approval_executes_at_quorum:
  assumes "env_ok E" and "approve_multisig E n sender tok s = (Inr True, t)"
  shows "closed_as E tok ExecutedAutomatically t \<and>
    (\<exists>x a. stored_multisig E s tok = Some x \<and> \<not> ms_disabled x \<and> execute_automatically (ms_info x) \<and>
       should_execute (set_approval sender True x) \<and> stored_account E s (ms_account x) = Some a \<and>
       enabled a \<and> (has_role E a sender CanMultisigApprove \<or> has_role E a sender CanMultisigSubmit \<or>
         has_role E a sender Owner))"
proof -
  let ?A = "\<lambda>x. set_approval sender True x"
  from assms(2) obtain x a where op: "open_multisig E tok s = (Inr (x, a), s)"
    and rest: "(if \<not> has_role E a sender CanMultisigApprove \<and> \<not> has_role E a sender CanMultisigSubmit
        \<and> \<not> has_role E a sender Owner
     then raise (MultisigError UserCannotApproveTransaction)
     else let x' = ?A x in
       andthen (commit_multisig_transaction E tok x')
       (andthen (log_event E (EvMultisigApprove (ms_account x') tok sender))
       (if execute_automatically (ms_info x') \<and> should_execute x'
        then bnd (execute_internal E (execute_tx E n) tok x' True) (\<lambda>response.
          andthen (log_event E (EvMultisigExecute (ms_account x') tok None response)) (ret True))
        else ret False))) s = (Inr True, t)"
    by (auto simp: approve_multisig_def approve_with_def bnd_ok dest: pure_actD [OF pure_open_multisig])
  from rest obtain s1 s2 rsp where role: "has_role E a sender CanMultisigApprove \<or>
      has_role E a sender CanMultisigSubmit \<or> has_role E a sender Owner"
    and q: "execute_automatically (ms_info (?A x))" "should_execute (?A x)"
    and run: "execute_internal E (execute_tx E n) tok (?A x) True s1 = (Inr rsp, s2)"
    and log: "log_event E (EvMultisigExecute (ms_account (?A x)) tok None rsp) s2 = (Inr (), t)"
    by (auto simp: okD Let_def split: if_splits)
  have "closed_as E tok ExecutedAutomatically t"
    using closed_log [OF assms(1) _ log] execute_internal_ok [OF assms(1) run] by simp
  moreover have "execute_automatically (ms_info x)" using q(1) by (simp add: set_approval_def)
  ultimately show ?thesis using op q role assms(1) by (auto simp: open_multisig_ok)
qed

text \<open>
  C11. Expiry at the end of a block goes by the last commit, not by the block. It walks over the entries
  of the last commit, latest first, until one that is not due and older than the maximum ends
  the walk. An entry met that does not decode (or one not due, when the clock cannot be read) makes
  it fail, and nothing changes. Otherwise exactly the entries met that were open and overdue in
  the last commit are written, as they were there and marked \<open>Expired\<close>, whatever the block did to them
  since (an approval is lost, one executed in the block is now called expired); every other
  entry is as it was, and nothing else in the store changes.
\<close>

theorem expiry_exact:
  assumes "env_ok E" and "disk_ok E D"
  shows "if expiry_fails E D s then \<exists>e. check_timed_out_multisig_transactions E s = (Inl e, s)
    else \<exists>t. check_timed_out_multisig_transactions E s = (Inr (), t) \<and>
      (\<forall>tok. stored_multisig E t tok = (if loop_reaches E D s (key_for_multisig_transaction tok)
         then after_expiry (now E s) (committed_multisig E D s tok) (stored_multisig E s tok)
         else stored_multisig E s tok)) \<and>
      (\<forall>k. \<not> multisig_key k \<longrightarrow> view E t k = view E s k)"
proof (cases "expiry_fails E D s")
  case True
  with expiry_failing [OF assms] show ?thesis by simp
next
  case False
  show ?thesis
    unfolding if_not_P [OF False]
    by (rule expiry_run [OF assms False]) (intro exI conjI allI impI; assumption | simp)
qed

section \<open>Witnesses\<close>

lemma ref_block_hotfix:
  assumes "counter_at ref_env s HEIGHT_ROOT = Inr h"
  shows "block_hotfix ref_env nm d s = (Inr None, s)"
proof -
  have e: "enc (c_block_tx ref_env) d = Inr []" "migration_hotfix ref_env g nm b h = Inr None" for g b h
    by (simp_all add: ref_env_def opaque_def)
  have "store_ok ref_env" by simp
  then show ?thesis using assms by (simp add: block_hotfix_def encode_def e run)
qed

definition ref_ready :: "bool \<Rightarrow> multisig_storage" where
  "ref_ready auto = (ref_entry (TxOther 7))\<lparr>ms_info := (ms_info (ref_entry (TxOther 7)))
     \<lparr>execute_automatically := auto, approvers := (if auto then [] else [(2, True)])\<rparr>\<rparr>"

definition ref_pending :: "bool \<Rightarrow> (ref_store, string list) ledger" where
  "ref_pending auto = ref_ledger [(key_for_account ref_env 600, RAccount (ref_account None)),
     (key_for_multisig_transaction [CHR 0x01], RMultisig (ref_ready auto))] []"

lemma ref_pending_stored:
  "stored_multisig ref_env (ref_pending auto) [CHR 0x01] = Some (ref_ready auto)"
  "stored_account ref_env (ref_pending auto) 600 = Some (ref_account None)"
  by (simp_all add: stored_multisig_def stored_account_def ref_pending_def ref_codecs tagged_def)

text \<open>Closing an open entry whose transaction fails, in a state whose counters are still unset.\<close>

lemma ref_execute_internal:
  assumes "stored_multisig ref_env s tok = Some x" and "\<not> ms_disabled x"
    and "view ref_env s HEIGHT_ROOT = None" and "exec y s = (Inl (Err e), s)"
  shows "execute_internal ref_env exec tok y b s = (Inr \<lparr>rsp_from = ms_account y, rsp_to = None, rsp_data = Inl e,
      rsp_timestamp = Some (now ref_env s)\<rparr>,
    maybe_committed ref_env (applied ref_env [(key_for_multisig_transaction tok, Put (enc_val (c_multisig ref_env)
      (disable_storage (if b then ExecutedAutomatically else ExecutedManually) x)))] s))"
proof -
  have ok: "store_ok ref_env" "env_ok ref_env" by simp_all
  define t where "t = maybe_committed ref_env (applied ref_env [(key_for_multisig_transaction tok,
    Put (enc_val (c_multisig ref_env)
      (disable_storage (if b then ExecutedAutomatically else ExecutedManually) x)))] s)"
  have "view ref_env t HEIGHT_ROOT = None"
    unfolding t_def using ok(1) assms(3) by (simp del: ref_view)
  then have hf: "block_hotfix ref_env nm d t = (Inr None, t)" for nm d
    by (intro ref_block_hotfix [of t 0]) (simp add: counter_at_def)
  have info: "get_multisig_info ref_env tok s = (Inr x, s)"
    using assms(1) get_multisig_info_ok [OF ok(1)] by blast
  have dis: "disable_multisig_transaction ref_env tok (if b then ExecutedAutomatically else ExecutedManually) s
      = (Inr (), t)"
    using info assms(2) ok(2) by (simp add: disable_multisig_transaction_def run commit_multisig_state t_def)
  have "now ref_env t = now ref_env s" by (simp add: t_def)
  then show ?thesis unfolding t_def [symmetric]
    by (simp add: execute_internal_def run assms(4) dis hf Let_def)
qed

lemma ref_log_event:
  assumes "counter_at ref_env s EVENT_COUNT_ROOT = Inr n"
  shows "log_event ref_env c s = (Inr (), logged ref_env c n s)"
  by (rule log_event_run) (simp_all add: assms)

lemma executed_with_quorum_witness:
  "may_execute ref_env (ref_pending False) 2 [CHR 0x01] \<and>
   closed_as ref_env [CHR 0x01] ExecutedManually
     (snd (execute_multisig ref_env 1 2 [CHR 0x01] (ref_pending False)))"
proof -
  let ?s = "ref_pending False" and ?x = "ref_ready False"
  let ?e = "Err (MultisigError TransactionTypeUnsupported)"
  have x: "\<not> ms_disabled ?x" "should_execute ?x" "submitter (ms_info ?x) = 2" "ms_account ?x = 600"
    "transaction (ms_info ?x) = TxOther 7"
    by (simp_all add: ref_ready_def ref_entry_def should_execute_def)
  have ex: "execute_tx ref_env 1 ?x ?s = (Inl ?e, ?s)" using x by (simp add: run)
  have h: "view ref_env ?s HEIGHT_ROOT = None" by (simp add: ref_pending_def)
  define t where "t = maybe_committed ref_env (applied ref_env [(key_for_multisig_transaction [CHR 0x01],
    Put (enc_val (c_multisig ref_env) (disable_storage ExecutedManually ?x)))] ?s)"
  obtain rsp where int: "execute_internal ref_env (execute_tx ref_env 1) [CHR 0x01] ?x False ?s = (Inr rsp, t)"
    using ref_execute_internal [where b = False and exec = "execute_tx ref_env 1" and s = ?s and y = ?x,
        OF ref_pending_stored(1) x(1) h ex] by (simp add: t_def)
  have "counter_at ref_env t EVENT_COUNT_ROOT = Inr 0"
  proof -
    have "view ref_env ?s EVENT_COUNT_ROOT = None" by (simp add: ref_pending_def)
    then show ?thesis
      using env_okD(1) [OF ref_env_ok] by (simp add: counter_at_def t_def del: ref_view)
  qed
  then have log: "log_event ref_env c t = (Inr (), logged ref_env c 0 t)" for c by (rule ref_log_event)
  have op: "open_multisig ref_env [CHR 0x01] ?s = (Inr (?x, ref_account None), ?s)"
    using ref_pending_stored [of False] x
    by (simp add: open_multisig_ok [OF env_okD(1) [OF ref_env_ok]] enabled_def ref_account_def)
  have "execute_multisig ref_env 1 2 [CHR 0x01] ?s = (Inr rsp,
      logged ref_env (EvMultisigExecute 600 [CHR 0x01] (Some 2) rsp) 0 t)"
    using x op int log by (simp add: execute_multisig_def execute_with_def run)
  with executed_with_quorum [OF ref_env_ok this] show ?thesis by simp
qed

lemma approval_executes_at_quorum_witness:
  "closed_as ref_env [CHR 0x01] ExecutedAutomatically
     (snd (approve_multisig ref_env 1 2 [CHR 0x01] (ref_pending True)))"
proof -
  let ?s = "ref_pending True" and ?x = "ref_ready True" and ?k = "key_for_multisig_transaction [CHR 0x01]"
  let ?e = "Err (MultisigError TransactionTypeUnsupported)"
  let ?y = "set_approval 2 True ?x"
  have ok: "store_ok ref_env" by simp
  have x: "\<not> ms_disabled ?x" "\<not> ms_disabled ?y" "execute_automatically (ms_info ?y)" "should_execute ?y"
    "ms_account ?x = 600" "ms_account ?y = 600" "transaction (ms_info ?y) = TxOther 7"
    by (simp_all add: ref_ready_def ref_entry_def should_execute_def set_approval_def)
  define t1 where "t1 = maybe_committed ref_env (applied ref_env [(?k, Put (enc_val (c_multisig ref_env) ?y))] ?s)"
  have c1: "commit_multisig_transaction ref_env [CHR 0x01] ?y ?s = (Inr (), t1)"
    by (simp add: commit_multisig_state t1_def)
  have e1: "counter_at ref_env t1 EVENT_COUNT_ROOT = Inr 0" and h1: "view ref_env t1 HEIGHT_ROOT = None"
    and m1: "stored_multisig ref_env t1 [CHR 0x01] = Some ?y"
  proof -
    have "view ref_env ?s EVENT_COUNT_ROOT = None" "view ref_env ?s HEIGHT_ROOT = None"
      by (simp_all add: ref_pending_def)
    then show "counter_at ref_env t1 EVENT_COUNT_ROOT = Inr 0" "view ref_env t1 HEIGHT_ROOT = None"
      "stored_multisig ref_env t1 [CHR 0x01] = Some ?y"
      using ok by (simp_all add: counter_at_def t1_def stored_multisig_def del: ref_view)
  qed
  define t2 where "t2 = logged ref_env (EvMultisigApprove 600 [CHR 0x01] 2) 0 t1"
  have l1: "log_event ref_env (EvMultisigApprove 600 [CHR 0x01] 2) t1 = (Inr (), t2)"
    unfolding t2_def using e1 by (rule ref_log_event)
  have h2: "view ref_env t2 HEIGHT_ROOT = None" and e2: "counter_at ref_env t2 EVENT_COUNT_ROOT = Inr (0 + 1)"
    and m2: "stored_multisig ref_env t2 [CHR 0x01] = Some ?y"
    using ok h1 m1 by (simp_all add: t2_def counter_logged view_logged_other stored_multisig_def del: ref_view)
  have ex: "execute_tx ref_env 1 ?y t2 = (Inl ?e, t2)" using x by (simp add: run)
  define t3 where "t3 = maybe_committed ref_env (applied ref_env [(?k,
    Put (enc_val (c_multisig ref_env) (disable_storage ExecutedAutomatically ?y)))] t2)"
  obtain rsp where int: "execute_internal ref_env (execute_tx ref_env 1) [CHR 0x01] ?y True t2 = (Inr rsp, t3)"
    using ref_execute_internal [where b = True and exec = "execute_tx ref_env 1" and s = t2 and y = ?y,
        OF m2 x(2) h2 ex] by (simp add: t3_def)
  have e3: "counter_at ref_env t3 EVENT_COUNT_ROOT = Inr (0 + 1)"
    using e2 ok by (simp add: counter_at_def t3_def del: ref_view)
  have op: "open_multisig ref_env [CHR 0x01] ?s = (Inr (?x, ref_account None), ?s)"
    using ref_pending_stored [of True] x
    by (simp add: open_multisig_ok [OF ok] enabled_def ref_account_def)
  have role: "has_role ref_env (ref_account None) 2 Owner"
    by (simp add: ref_has_role_def ref_account_def)
  have "approve_multisig ref_env 1 2 [CHR 0x01] ?s = (Inr True,
      logged ref_env (EvMultisigExecute 600 [CHR 0x01] None rsp) (0 + 1) t3)"
    using x op c1 l1 int ref_log_event [OF e3] role
    by (simp add: approve_multisig_def approve_with_def run Let_def)
  with approval_executes_at_quorum [OF ref_env_ok this] show ?thesis by simp
qed

text \<open>
  At time 5, an entry due at 3 expires, although the block executed it after the last commit; an
  entry due at 100 stays.
\<close>

definition ref_due_entry :: "timestamp \<Rightarrow> multisig_storage" where
  "ref_due_entry t = (ref_ready False)\<lparr>ms_info := (ms_info (ref_ready False))\<lparr>timeout := t\<rparr>\<rparr>"

definition ref_due :: "timestamp \<Rightarrow> (ref_store, string list) ledger" where
  "ref_due t = (ref_ledger [] [])\<lparr>persistent_store :=
     \<lparr>work = [(key_for_multisig_transaction [CHR 0x01],
         RMultisig (disable_storage ExecutedManually (ref_due_entry t)))],
      disk = [(key_for_multisig_transaction [CHR 0x01], RMultisig (ref_due_entry t))]\<rparr>\<rparr>"

lemma expiry_exact_witness:
  "closed_as ref_env [CHR 0x01] ExecutedManually (ref_due 3) \<and>
   closed_as ref_env [CHR 0x01] Expired (snd (check_timed_out_multisig_transactions ref_env (ref_due 3))) \<and>
   closed_as ref_env [CHR 0x01] ExecutedManually (snd (check_timed_out_multisig_transactions ref_env (ref_due 100)))"
proof -
  let ?D = "\<lambda>m. map_of (disk m)"
  have now: "now ref_env (ref_due t) = 5" for t by (simp add: now_def ref_due_def ref_ledger_def)
  have st: "stored_multisig ref_env (ref_due t) [CHR 0x01] =
      Some (disable_storage ExecutedManually (ref_due_entry t))"
    and dk: "committed_multisig ref_env ?D (ref_due t) [CHR 0x01] = Some (ref_due_entry t)" for t
    by (simp_all add: stored_multisig_def committed_multisig_def ref_due_def ref_codecs tagged_def)
  have pass: "loop_passes ref_env (now ref_env (ref_due t)) v"
    if "map_of (disk (persistent_store (ref_due t))) k = Some v" for t k v
  proof -
    have "v = RMultisig (ref_due_entry t)"
      using that by (simp add: ref_due_def split: if_splits)
    moreover have "as_system_time ref_env 5 = Inr 5000000000" by (simp add: ref_env_def)
    moreover have "ms_creation (ref_due_entry t) = 0" by (simp add: ref_due_entry_def ref_ready_def ref_entry_def)
    ultimately show ?thesis
      by (simp add: now loop_passes_def ref_codecs tagged_def MULTISIG_MAXIMUM_TIMEOUT_IN_SECS_def)
  qed
  have nf: "\<not> expiry_fails ref_env ?D (ref_due t)" for t
  proof
    assume "expiry_fails ref_env ?D (ref_due t)"
    then obtain k v where "?D (persistent_store (ref_due t)) k = Some v"
      "loop_fails ref_env (now ref_env (ref_due t)) v" unfolding expiry_fails_def by metis
    with pass loop_fails_not show False by metis
  qed
  have re: "loop_reaches ref_env ?D (ref_due t) k" for t k
    unfolding loop_reaches_def by (intro allI impI) (rule pass)
  have ex: "\<exists>u. check_timed_out_multisig_transactions ref_env (ref_due t) = (Inr (), u) \<and>
    stored_multisig ref_env u [CHR 0x01] = after_expiry 5 (Some (ref_due_entry t))
      (Some (disable_storage ExecutedManually (ref_due_entry t)))" for t
    using expiry_exact [OF ref_env_ok ref_disk_ok, of "ref_due t"] nf re by (auto simp: now st dk)
  obtain u where u: "snd (check_timed_out_multisig_transactions ref_env (ref_due 3)) = u"
    "stored_multisig ref_env u [CHR 0x01] = after_expiry 5 (Some (ref_due_entry 3))
      (Some (disable_storage ExecutedManually (ref_due_entry 3)))"
    using ex [of 3] by auto
  obtain w where w: "snd (check_timed_out_multisig_transactions ref_env (ref_due 100)) = w"
    "stored_multisig ref_env w [CHR 0x01] = after_expiry 5 (Some (ref_due_entry 100))
      (Some (disable_storage ExecutedManually (ref_due_entry 100)))"
    using ex [of 100] by auto
  show ?thesis
    unfolding closed_as_def u w st
    by (simp add: after_expiry_def overdue_def ref_due_entry_def ref_ready_def ref_entry_def disable_storage_def)
qed

end
