(* ===== verification/Abci.thy ===== *)
theory Abci
  imports MultisigSafety
begin

text \<open>
  \<open>storage/abci.rs\<close> and the handlers of \<open>module/abci.rs\<close>: the end of a block. A commit closes
  the overdue multisig entries, increments the height, commits, runs the migrations of the next
  height, commits again and restarts the event numbers. The lemmas show that a restart from the
  committed store continues where the running server would, and that event numbers are not
  used twice, but for those of the very first block.
\<close>

section \<open>Committing a block\<close>

text \<open>\<open>self.migrations.update_at_height(&mut self.persistent_store, height)\<close>.\<close>

definition update_migrations :: "('m, 'v, 'g) env \<Rightarrow> u64 \<Rightarrow> ('m, 'g, unit) ledger_op" where
  "update_migrations E height = (\<lambda>s.
     case migration_update E (migrations s) (persistent_store s) height of (r, g, m) \<Rightarrow>
       (from_many r, s\<lparr>migrations := g, persistent_store := m\<rparr>))"

definition commit_block :: "('m, 'v, 'g) env \<Rightarrow> ('m, 'g, commit_info) ledger_op" where
  "commit_block E =
     andthen (attempt (check_timed_out_multisig_transactions E))
     (bnd (expecting ''Unable to increment height.'' (inc_height E)) (\<lambda>height.
     andthen (expecting ''Unable to commit to storage.'' (commit_storage E))
     (andthen (expecting ''Unable to run migrations'' (update_migrations E (height + 1)))
     (andthen (expecting ''Unable to commit to storage.'' (commit_storage E))
     (bnd (gets (\<lambda>s. merk_root_hash E (persistent_store s))) (\<lambda>h.
     andthen (modify (\<lambda>s. s\<lparr>current_hash := Some h\<rparr>))
     (andthen (modify (\<lambda>s. s\<lparr>latest_tid := event_id_from E (push_bit HEIGHT_EVENTID_SHIFT height)\<rparr>))
       (ret \<lparr>retain_height = 0, app_hash = h\<rparr>))))))))"

section \<open>The handlers\<close>

definition begin_block :: "('m, 'v, 'g) env \<Rightarrow> u64 option \<Rightarrow> ('m, 'g, unit) ledger_op" where
  "begin_block E time =
     bnd (get_height E) (\<lambda>_.
     (case time of None \<Rightarrow> ret ()
      | Some t \<Rightarrow> bnd (lift (from_many (timestamp_new E t))) set_time))"

definition abci_info_op :: "('m, 'v, 'g) env \<Rightarrow> ('m, 'g, abci_info) ledger_op" where
  "abci_info_op E = bnd (get_height E) (\<lambda>height.
     bnd (gets (hash E)) (\<lambda>h. ret \<lparr>info_height = height, info_hash = h\<rparr>))"

definition abci_commit :: "('m, 'v, 'g) env \<Rightarrow> ('m, 'g, commit_info) ledger_op" where
  "abci_commit E = commit_block E"

text \<open>What a migration may do: it never writes the height, and it adds or removes no event.\<close>

definition migrations_ok :: "('m, 'v, 'g) env \<Rightarrow> bool" where
  "migrations_ok E \<longleftrightarrow> (\<forall>g m h.
     mview E (snd (snd (migration_update E g m h))) HEIGHT_ROOT = mview E m HEIGHT_ROOT \<and>
     (\<forall>i. mview E (snd (snd (migration_update E g m h))) (key_for_event i) = None \<longleftrightarrow>
        mview E m (key_for_event i) = None))"

lemma update_migrations_view:
  assumes "migrations_ok E"
  shows "view E (snd (update_migrations E h s)) HEIGHT_ROOT = view E s HEIGHT_ROOT"
    and "view E (snd (update_migrations E h s)) (key_for_event i) = None \<longleftrightarrow> view E s (key_for_event i) = None"
  using assms by (simp_all add: migrations_ok_def update_migrations_def view_def split_def)

section \<open>What expiry leaves alone\<close>

lemma expire_step_key:
  "expire_step E t p = Inr (Some (Some q)) \<Longrightarrow> fst q = fst p"
  by (auto simp: expire_step_def okD split: if_splits sum.splits)

lemma expire_loop_Cons:
  assumes "expire_loop E t (Inr p # items) = Inr b"
  obtains "b = []" | "expire_loop E t items = Inr b"
    | q b' where "fst q = fst p" "expire_loop E t items = Inr b'" "b = q # b'"
proof -
  from assms obtain r where r: "expire_step E t p = Inr r" by (auto simp: okD)
  show ?thesis
  proof (cases r)
    case None
    with assms r that(1) show ?thesis by simp
  next
    case (Some x)
    show ?thesis
    proof (cases x)
      case None
      with assms r Some that(2) show ?thesis by simp
    next
      case (Some q)
      with assms r \<open>r = Some x\<close> that(3) [of q] expire_step_key [of E t p q] show ?thesis
        by (auto simp: okD)
    qed
  qed
qed

lemma expire_loop_keys:
  assumes "expire_loop E t (map Inr ps) = Inr b" and "sorted_wrt (>) (map fst ps)"
  shows "fst ` set b \<subseteq> fst ` set ps \<and> sorted_wrt (>) (map fst b)"
  using assms
proof (induction ps arbitrary: b)
  case Nil
  then show ?case by simp
next
  case (Cons p ps)
  from Cons.prems(1) have "expire_loop E t (Inr p # map Inr ps) = Inr b" by simp
  then show ?case
  proof (cases rule: expire_loop_Cons)
    case 1
    then show ?thesis by simp
  next
    case 2
    with Cons show ?thesis by auto
  next
    case (3 q b')
    with Cons have IH: "fst ` set b' \<subseteq> fst ` set ps" "sorted_wrt (>) (map fst b')" by auto
    moreover have "k < fst p" if "k \<in> fst ` set b'" for k
      using subsetD [OF IH(1) that] Cons.prems(2) by auto
    ultimately show ?thesis using 3 by auto
  qed
qed

lemma expiry_frame:
  fixes E :: "('m, 'v, 'g) env" and s :: "('m, 'g) ledger"
  assumes E: "store_ok E" "disk_ok E D"
  defines "t \<equiv> snd (check_timed_out_multisig_transactions E s)"
  shows "take (length MULTISIG_TRANSACTIONS_ROOT) k \<noteq> MULTISIG_TRANSACTIONS_ROOT \<Longrightarrow> view E t k = view E s k"
    and "latest_tid t = latest_tid s" and "migrations t = migrations s"
    and "blockchain t = blockchain s" and "current_time t = current_time s" and "current_hash t = current_hash s"
proof -
  from E(2) obtain es where
      l: "listing (D (persistent_store s)) (\<lambda>k. take (length MULTISIG_TRANSACTIONS_ROOT) k = MULTISIG_TRANSACTIONS_ROOT) es"
    and it: "merk_iter_prefix E (persistent_store s) MULTISIG_TRANSACTIONS_ROOT True = map Inr (rev es)"
    unfolding disk_ok_def by blast
  let ?l = "expire_loop E (now E s) (map Inr (rev es))"
  have desc: "sorted_wrt (>) (map fst (rev es))"
    using l by (simp add: listing_def rev_map [symmetric] sorted_wrt_rev)
  have all: "t = (case ?l of Inl _ \<Rightarrow> s | Inr b \<Rightarrow>
      maybe_committed E (if b = [] then s else applied E (rev b) s))"
  proof (cases ?l)
    case (Inl e)
    then show ?thesis
      by (simp add: t_def check_timed_out_multisig_transactions_def run all_multisig_def from_end_def it)
  next
    case (Inr b)
    have "batch_ok (rev b)"
      using expire_loop_keys [OF Inr desc] by (simp add: batch_ok_def rev_map [symmetric] sorted_wrt_rev)
    with Inr E(1) show ?thesis
      by (simp add: t_def check_timed_out_multisig_transactions_def run all_multisig_def from_end_def it)
  qed
  show "view E t k = view E s k"
    if "take (length MULTISIG_TRANSACTIONS_ROOT) k \<noteq> MULTISIG_TRANSACTIONS_ROOT"
  proof (cases ?l)
    case (Inr b)
    have "k \<notin> fst ` set (rev b)"
      using expire_loop_keys [OF Inr desc] l that by (auto simp: listing_def)
    moreover have "batch_ok (rev b)"
      using expire_loop_keys [OF Inr desc] by (simp add: batch_ok_def rev_map [symmetric] sorted_wrt_rev)
    ultimately show ?thesis using E(1) Inr by (simp add: all apply_batch_other)
  qed (simp add: all)
  show "latest_tid t = latest_tid s" "migrations t = migrations s"
    "blockchain t = blockchain s" "current_time t = current_time s" "current_hash t = current_hash s"
    by (simp_all add: all split: sum.split)
qed

section \<open>What a commit does\<close>

definition height_raised :: "('m, 'v, 'g) env \<Rightarrow> u64 \<Rightarrow> ('m, 'g) ledger \<Rightarrow> ('m, 'g) ledger" where
  "height_raised E h s = committed E (applied E [(HEIGHT_ROOT, Put (of_bytes E (u64_be (h + 1))))] s)"

lemma attempt_ok_state: "attempt m s = (Inr x, t) \<Longrightarrow> t = snd (m s)"
  by (auto simp: attempt_def split: prod.splits sum.splits fault.splits)

lemma commit_block_ok:
  fixes s :: "('m, 'g) ledger"
  assumes E: "store_ok E" and ok: "commit_block E s = (Inr i, t)"
  obtains u h w where "u = snd (check_timed_out_multisig_transactions E s)"
    and "counter_at E u HEIGHT_ROOT = Inr h"
    and "w = snd (update_migrations E (h + 1) (height_raised E h u))"
    and "view E t = view E w"
    and "latest_tid t = event_id_from E (push_bit HEIGHT_EVENTID_SHIFT h)"
    and "current_hash t = Some (merk_root_hash E (persistent_store t))" and "blockchain t = blockchain w"
    and "current_time t = current_time w" and "i = \<lparr>retain_height = 0, app_hash = merk_root_hash E (persistent_store t)\<rparr>"
proof -
  from ok obtain x u h u1 u2 w w2 where a: "attempt (check_timed_out_multisig_transactions E) s = (Inr x, u)"
    and h: "inc_height E u = (Inr h, u1)" and c: "commit_storage E u1 = (Inr (), u2)"
    and m: "update_migrations E (h + 1) u2 = (Inr (), w)" and c2: "commit_storage E w = (Inr (), w2)"
    and t: "t = w2\<lparr>current_hash := Some (merk_root_hash E (persistent_store w2)),
      latest_tid := event_id_from E (push_bit HEIGHT_EVENTID_SHIFT h)\<rparr>"
    and i: "i = \<lparr>retain_height = 0, app_hash = merk_root_hash E (persistent_store w2)\<rparr>"
    by (auto simp: commit_block_def andthen_ok bnd_ok expecting_ok gets_ok modify_ok ret_ok)
  have u: "u = snd (check_timed_out_multisig_transactions E s)"
    using a by (rule attempt_ok_state)
  have height: "counter_at E u HEIGHT_ROOT = Inr h"
    and u1: "u1 = applied E [(HEIGHT_ROOT, Put (of_bytes E (u64_be (h + 1))))] u"
    using h E by (auto simp: inc_height_def run split: sum.splits)
  have "u2 = height_raised E h u"
    using c u1 E by (simp add: height_raised_def commit_storage_run)
  with m have w: "w = snd (update_migrations E (h + 1) (height_raised E h u))" by simp
  have w2: "w2 = committed E w" using c2 E by (simp add: commit_storage_run)
  show ?thesis
    by (rule that [OF u height w]) (use E in \<open>simp_all add: t i w2\<close>)
qed

lemma commit_block_view:
  assumes E: "store_ok E" "disk_ok E D" "migrations_ok E"
    and ok: "commit_block E s = (Inr i, t)" and h: "counter_at E s HEIGHT_ROOT = Inr h"
  shows "view E t HEIGHT_ROOT = Some (of_bytes E (u64_be (h + 1)))"
    and "view E t (key_for_event j) = None \<longleftrightarrow> view E s (key_for_event j) = None"
    and "latest_tid t = event_id_from E (push_bit HEIGHT_EVENTID_SHIFT h)"
    and "current_hash t = Some (merk_root_hash E (persistent_store t))"
    and "blockchain t = blockchain s"
proof -
  from ok obtain u h' w where u: "u = snd (check_timed_out_multisig_transactions E s)"
    and h': "counter_at E u HEIGHT_ROOT = Inr h'"
    and w: "w = snd (update_migrations E (h' + 1) (height_raised E h' u))"
    and t: "view E t = view E w" "latest_tid t = event_id_from E (push_bit HEIGHT_EVENTID_SHIFT h')"
      "current_hash t = Some (merk_root_hash E (persistent_store t))" "blockchain t = blockchain w"
    by (rule commit_block_ok [OF E(1)])
  have root: "take (length MULTISIG_TRANSACTIONS_ROOT) HEIGHT_ROOT \<noteq> MULTISIG_TRANSACTIONS_ROOT"
    by (simp add: HEIGHT_ROOT_def MULTISIG_TRANSACTIONS_ROOT_def)
  have "h' = h"
    using h h' expiry_frame(1) [OF E(1,2) root, of s] by (simp add: counter_at_def u)
  have raised: "view E (height_raised E h u) = (view E u)(HEIGHT_ROOT \<mapsto> of_bytes E (u64_be (h + 1)))"
    using E(1) by (simp add: height_raised_def)
  show "view E t HEIGHT_ROOT = Some (of_bytes E (u64_be (h + 1)))"
    using update_migrations_view(1) [OF E(3)] by (simp add: t(1) w \<open>h' = h\<close> raised)
  have "take (length MULTISIG_TRANSACTIONS_ROOT) (key_for_event j) \<noteq> MULTISIG_TRANSACTIONS_ROOT"
    by (simp add: key_for_event_def EVENTS_ROOT_def MULTISIG_TRANSACTIONS_ROOT_def)
  then have "view E u (key_for_event j) = view E s (key_for_event j)"
    unfolding u by (rule expiry_frame(1) [OF E(1,2)])
  moreover have "view E w (key_for_event j) = None \<longleftrightarrow> view E u (key_for_event j) = None"
    using update_migrations_view(2) [OF E(3)] by (simp add: w \<open>h' = h\<close> raised)
  ultimately show "view E t (key_for_event j) = None \<longleftrightarrow> view E s (key_for_event j) = None"
    by (simp add: t(1))
  show "latest_tid t = event_id_from E (push_bit HEIGHT_EVENTID_SHIFT h)"
    "current_hash t = Some (merk_root_hash E (persistent_store t))"
    by (simp_all add: t \<open>h' = h\<close>)
  show "blockchain t = blockchain s"
    using expiry_frame(4) [OF E(1,2), of s]
    by (simp add: t(4) w u update_migrations_def height_raised_def split: prod.split)
qed

text \<open>The event stored under a number.\<close>

definition event_at :: "('m, 'v, 'g) env \<Rightarrow> ('m, 'g) ledger \<Rightarrow> event_id \<Rightarrow> event_log option" where
  "event_at E s i = (case view E s (key_for_event i) of None \<Rightarrow> None
     | Some v \<Rightarrow> (case dec (c_event E) v of Inl _ \<Rightarrow> None | Inr e \<Rightarrow> Some e))"

lemma log_event_logged:
  assumes "store_ok E" and "codec_ok (c_event E)" and "log_event E c s = (Inr (), t)"
  shows "\<exists>n. t = logged E c n s \<and> counter_at E s EVENT_COUNT_ROOT = Inr n"
proof -
  obtain n where n: "counter_at E s EVENT_COUNT_ROOT = Inr n"
    using assms by (auto simp: log_event_def bnd_ok nb_events_run)
  with log_event_run [OF assms(1,2) n] assms(3) show ?thesis by auto
qed

text \<open>Expiry neither panics nor diverges, so a commit goes on whatever it says.\<close>

lemma expire_loop_err: "expire_loop E t items = Inl f \<Longrightarrow> \<exists>e. f = Err e"
proof (induction items)
  case Nil
  then show ?case by simp
next
  case (Cons item items)
  have step: "expire_step E t p = Inl g \<Longrightarrow> \<exists>e. g = Err e" for p g
    by (auto simp: expire_step_def map_err_def from_many_def rbind_def split: sum.splits if_splits)
  from Cons step show ?case
    by (cases item) (auto simp: rbind_def split: sum.splits option.splits)
qed

lemma expiry_attempt:
  assumes "store_ok E"
  shows "\<exists>x. attempt (check_timed_out_multisig_transactions E) s =
    (Inr x, snd (check_timed_out_multisig_transactions E s))"
proof -
  obtain r t where r: "check_timed_out_multisig_transactions E s = (r, t)" by fastforce
  have "\<exists>e. f = Err e" if "r = Inl f" for f
  proof (cases "expire_loop E (now E s) (all_multisig E (persistent_store s) Descending)")
    case (Inl g)
    with r that expire_loop_err [OF Inl] show ?thesis
      by (auto simp: check_timed_out_multisig_transactions_def run)
  next
    case (Inr b)
    with r that db_apply_bad [OF assms, of "rev b" apply_failed s] show ?thesis
      by (cases "batch_ok (rev b)")
        (auto simp: check_timed_out_multisig_transactions_def run assms split: if_splits)
  qed
  with r show ?thesis by (cases r) (auto simp: attempt_run split: fault.split)
qed

lemma commit_block_fine:
  assumes "store_ok E" and "disk_ok E D" and "counter_at E s HEIGHT_ROOT = Inr h"
    and "\<And>g m k. fst (migration_update E g m k) = Inr ()"
  shows "\<exists>i t. commit_block E s = (Inr i, t)"
proof -
  let ?u = "snd (check_timed_out_multisig_transactions E s)"
  have root: "take (length MULTISIG_TRANSACTIONS_ROOT) HEIGHT_ROOT \<noteq> MULTISIG_TRANSACTIONS_ROOT"
    by (simp add: HEIGHT_ROOT_def MULTISIG_TRANSACTIONS_ROOT_def)
  obtain x where x: "attempt (check_timed_out_multisig_transactions E) s = (Inr x, ?u)"
    using expiry_attempt [OF assms(1)] by blast
  have "counter_at E ?u HEIGHT_ROOT = Inr h"
    using assms(3) expiry_frame(1) [OF assms(1,2) root, of s] by (simp add: counter_at_def)
  then have "inc_height E ?u = (Inr h, applied E [(HEIGHT_ROOT, Put (of_bytes E (u64_be (h + 1))))] ?u)"
    using assms(1) by (simp add: inc_height_def run)
  moreover have "\<exists>w. update_migrations E (h + 1) v = (Inr (), w)" for v
    using assms(4) [of "migrations v" "persistent_store v" "h + 1"]
    by (auto simp: update_migrations_def split: prod.split)
  then obtain w where "update_migrations E (h + 1) (height_raised E h ?u) = (Inr (), w)" by blast
  ultimately show ?thesis
    using x assms(1) by (simp add: commit_block_def run height_raised_def)
qed

section \<open>Properties\<close>

text \<open>
  A restart continues where the server would have: loading the store that a commit left gives the
  event number, the height and the hash that the running server holds (the agreement that
  \<open>load\<close> restores by taking one off the height).
\<close>

lemma load_after_commit:
  assumes "store_ok E" and "disk_ok E D" and "migrations_ok E"
    and "commit_block E s = (Inr i, t)" and "counter_at E s HEIGHT_ROOT = Inr h" and "h + 1 \<noteq> 0"
    and "storage_load E (Inr (persistent_store t)) (blockchain t) lm = Inr t'"
  shows "latest_tid t' = latest_tid t \<and> view E t' = view E t \<and> blockchain t' = blockchain t \<and>
    fst (abci_info_op E t') = fst (abci_info_op E t) \<and>
    fst (abci_info_op E t) = Inr \<lparr>info_height = h + 1, info_hash = app_hash i\<rparr>"
proof -
  note v = commit_block_view [OF assms(1-5)]
  have hash: "app_hash i = merk_root_hash E (persistent_store t)"
    using assms(4) by (rule commit_block_ok [OF assms(1)]) simp
  have "height_in E (persistent_store t) = Inr (h + 1)"
    using v(1) assms(1) by (simp add: height_in_def merk_get_view view_def)
  with assms(6,7) obtain g where t': "t' = \<lparr>persistent_store = persistent_store t, blockchain = blockchain t,
      current_time = None, current_hash = None,
      latest_tid = event_id_from E (push_bit HEIGHT_EVENTID_SHIFT h), migrations = g\<rparr>"
    by (auto simp: storage_load_def okD)
  have view: "view E t' = view E t" by (simp add: t' view_def)
  have "counter_at E t HEIGHT_ROOT = Inr (h + 1)"
    using v(1) assms(1) by (simp add: counter_at_def)
  then have "abci_info_op E t = (Inr \<lparr>info_height = h + 1, info_hash = app_hash i\<rparr>, t)"
    and "abci_info_op E t' = (Inr \<lparr>info_height = h + 1, info_hash = app_hash i\<rparr>, t')"
    using assms(1) v(4) view by (simp_all add: abci_info_op_def run hash_def hash counter_at_def t')
  then show ?thesis using view v(3) by (simp add: t')
qed

text \<open>
  C20. Event numbers are not used twice: when a block after the first logged at most \<open>2^32\<close> events, its
  commit moves the event number past every event of the log, so the next block's events get
  keys that are free.
\<close>

theorem commit_keeps_events_below:
  assumes "env_ok E" and "disk_ok E D" and "migrations_ok E"
    and "commit_block E s = (Inr i, t)" and "counter_at E s HEIGHT_ROOT = Inr h" and "unat h < 2 ^ 32"
    and "events_below E s" and "be_nat (latest_tid s) \<le> unat h * 2 ^ 32"
  shows "events_below E t \<and> be_nat (latest_tid t) = unat h * 2 ^ 32"
proof -
  note v = commit_block_view [OF env_okD(1) [OF assms(1)] assms(2-5)]
  have "unat h * 2 ^ 32 < 2 ^ 64" using assms(6) by simp
  then have num: "unat (push_bit HEIGHT_EVENTID_SHIFT h) = unat h * 2 ^ 32"
    by (simp add: HEIGHT_EVENTID_SHIFT_def push_bit_eq_mult unat_word_ariths)
  have ev: "event_id_ok E" using assms(1) by simp
  have "be_nat i' \<le> be_nat (latest_tid t)"
    if "length i' \<le> 32" and "view E t (key_for_event i') \<noteq> None" for i'
  proof -
    have "view E s (key_for_event i') \<noteq> None" using that(2) v(2) [of i'] by simp
    with that(1) assms(7) have "be_nat i' \<le> be_nat (latest_tid s)" by (simp add: events_below_def)
    with assms(8) ev num show ?thesis by (simp add: v(3))
  qed
  then show ?thesis using ev num by (simp add: events_below_def v(3))
qed

text \<open>
  The events of the first block are lost: at height 0 a commit restarts the event numbers where they
  began, so the first event of the second block replaces the first event of the first block.
\<close>

theorem first_block_overwritten:
  assumes "env_ok E" and "disk_ok E D" and "migrations_ok E"
    and "counter_at E s HEIGHT_ROOT = Inr 0" and "be_nat (latest_tid s) = 0"
    and "log_event E a s = (Inr (), s1)" and "commit_block E s1 = (Inr i, s2)"
    and "log_event E b s2 = (Inr (), s3)"
  shows "map_option ev_content (event_at E s1 (latest_tid s1)) = Some a \<and>
    map_option ev_content (event_at E s3 (latest_tid s1)) = Some b"
proof -
  have ok: "store_ok E" "event_id_ok E" "codec_ok (c_event E)" using assms(1) by simp_all
  obtain n where s1: "s1 = logged E a n s" and n: "counter_at E s EVENT_COUNT_ROOT = Inr n"
    using log_event_logged [OF ok(1,3) assms(6)] by blast
  have "counter_at E s1 HEIGHT_ROOT = Inr 0"
    using assms(4) ok(1) by (simp add: s1 counter_at_def view_logged)
  then have tid: "be_nat (latest_tid s2) = 0"
    using commit_block_view(3) [OF ok(1) assms(2,3,7)] ok(2) by simp
  obtain m where s3: "s3 = logged E b m s2"
    using log_event_logged [OF ok(1,3) assms(8)] by blast
  let ?i = "event_id_add E (latest_tid s) 1" and ?j = "event_id_add E (latest_tid s2) 1"
  have num: "be_nat ?i = 1" "be_nat ?j = 1" using assms(5) tid ok(2) by simp_all
  have fits: "length ?i \<le> 32" "length ?j \<le> 32"
    using assms(5) tid ok(2) by (auto intro!: event_id_fits simp: event_id_limit_def)
  have "key_for_event ?j = key_for_event ?i" using num fits by simp
  then show ?thesis
    using ok by (simp add: s1 s3 event_at_def view_logged)
qed

text \<open>
  C40. A commit cannot fail on the server's side: with a store that works, a well-formed height and
  migrations that succeed, committing a block returns; an expiry that fails is ignored.
\<close>

theorem commit_block_returns:
  assumes "store_ok E" and "disk_ok E D" and "counter_at E s HEIGHT_ROOT = Inr h"
    and "\<And>g m k. fst (migration_update E g m k) = Inr ()"
  shows "\<exists>i t. commit_block E s = (Inr i, t)"
  using assms by (rule commit_block_fine)

section \<open>Witnesses\<close>

lemma ref_migration_update [simp]: "migration_update ref_env g m h = (Inr (), g, m)"
  by (simp add: ref_env_def)

lemma ref_migrations_ok: "migrations_ok ref_env"
  by (simp add: migrations_ok_def)

definition ref_block :: "u64 \<Rightarrow> bytes \<Rightarrow> (ref_store, string list) ledger" where
  "ref_block h tid = (ref_ledger [(HEIGHT_ROOT, RBytes (u64_be h))] [])\<lparr>latest_tid := tid\<rparr>"

lemma ref_block_height: "counter_at ref_env (ref_block h tid) HEIGHT_ROOT = Inr h"
  using u64_of_be [OF ref_store_ok, of h] by (simp add: counter_at_def ref_block_def)

lemma ref_commits:
  assumes "counter_at ref_env s HEIGHT_ROOT = Inr h"
  obtains i t where "commit_block ref_env s = (Inr i, t)"
  using commit_block_fine [OF ref_store_ok ref_disk_ok assms] by auto

lemma commit_block_returns_witness:
  "\<exists>i t. commit_block ref_env (ref_block 3 [CHR 0x07]) = (Inr i, t)"
  by (rule commit_block_returns [OF ref_store_ok ref_disk_ok ref_block_height]) simp

lemma load_after_commit_witness:
  "\<exists>i t t'. commit_block ref_env (ref_block 3 [CHR 0x07]) = (Inr i, t) \<and>
    storage_load ref_env (Inr (persistent_store t)) True None = Inr t' \<and> latest_tid t' = latest_tid t"
proof -
  obtain i t where c: "commit_block ref_env (ref_block 3 [CHR 0x07]) = (Inr i, t)"
    using ref_block_height by (rule ref_commits)
  note v = commit_block_view [OF ref_store_ok ref_disk_ok ref_migrations_ok c ref_block_height]
  have b: "blockchain t = True" using v(5) by (simp add: ref_block_def)
  have m: "migration_empty ref_env = Inr []" by (simp add: ref_env_def)
  have "height_in ref_env (persistent_store t) = Inr 4"
    using v(1) u64_of_be [OF ref_store_ok, of 4]
    by (simp add: height_in_def merk_get_view [OF ref_store_ok] view_def del: ref_view)
  then obtain t' where l: "storage_load ref_env (Inr (persistent_store t)) (blockchain t) None = Inr t'"
    by (simp add: storage_load_def m)
  have "latest_tid t' = latest_tid t"
    using load_after_commit [OF ref_store_ok ref_disk_ok ref_migrations_ok c ref_block_height _ l] by simp
  with c l b show ?thesis by auto
qed

lemma commit_keeps_events_below_witness:
  "be_nat (latest_tid (snd (commit_block ref_env (ref_block 3 [CHR 0x07])))) = 3 * 2 ^ 32"
proof -
  obtain i t where c: "commit_block ref_env (ref_block 3 [CHR 0x07]) = (Inr i, t)"
    using ref_block_height by (rule ref_commits)
  have "events_below ref_env (ref_block 3 [CHR 0x07])"
    by (simp add: events_below_def ref_block_def)
  from commit_keeps_events_below [OF ref_env_ok ref_disk_ok ref_migrations_ok c ref_block_height _ this]
  have "be_nat (latest_tid t) = 3 * 2 ^ 32" by (simp add: ref_block_def be_nat_def)
  with c show ?thesis by simp
qed

lemma first_block_overwritten_witness:
  "\<exists>s1 s2 s3 i. log_event ref_env (EvAccountDisable 7) (ref_block 0 [CHR 0x00]) = (Inr (), s1) \<and>
    commit_block ref_env s1 = (Inr i, s2) \<and> log_event ref_env (EvAccountDisable 8) s2 = (Inr (), s3) \<and>
    map_option ev_content (event_at ref_env s3 (latest_tid s1)) = Some (EvAccountDisable 8)"
proof -
  let ?s = "ref_block 0 [CHR 0x00]" and ?c = EvAccountDisable
  have ok: "store_ok ref_env" by simp
  have n: "counter_at ref_env ?s EVENT_COUNT_ROOT = Inr 0"
    by (simp add: counter_at_def ref_block_def)
  obtain s1 where s1: "log_event ref_env (?c 7) ?s = (Inr (), s1)" "s1 = logged ref_env (?c 7) 0 ?s"
    using ref_log_event [OF n] by blast
  have "counter_at ref_env s1 HEIGHT_ROOT = Inr 0"
    using ref_block_height [of 0] ok by (simp add: counter_at_def s1(2) view_logged del: ref_view)
  then obtain i s2 where s2: "commit_block ref_env s1 = (Inr i, s2)" by (rule ref_commits)
  have "counter_at ref_env s2 EVENT_COUNT_ROOT = Inr 1"
  proof -
    have root: "take (length MULTISIG_TRANSACTIONS_ROOT) EVENT_COUNT_ROOT \<noteq> MULTISIG_TRANSACTIONS_ROOT"
      by (simp add: EVENT_COUNT_ROOT_def MULTISIG_TRANSACTIONS_ROOT_def)
    from s2 obtain u h w where u: "u = snd (check_timed_out_multisig_transactions ref_env s1)"
      and w: "w = snd (update_migrations ref_env (h + 1) (height_raised ref_env h u))"
      and v: "view ref_env s2 = view ref_env w" by (rule commit_block_ok [OF ok])
    have "view ref_env w = view ref_env (height_raised ref_env h u)"
      by (simp add: w update_migrations_def view_def del: ref_view)
    then have "view ref_env s2 EVENT_COUNT_ROOT = view ref_env s1 EVENT_COUNT_ROOT"
      using ok expiry_frame(1) [OF ok ref_disk_ok root, of s1]
      by (simp add: v height_raised_def u del: ref_view)
    then show ?thesis
      using counter_logged [OF ok, of "?c 7" 0 ?s] by (simp add: counter_at_def s1(2) del: ref_view)
  qed
  then obtain s3 where s3: "log_event ref_env (?c 8) s2 = (Inr (), s3)"
    using ref_log_event by blast
  have "be_nat (latest_tid ?s) = 0" by (simp add: ref_block_def be_nat_def)
  with first_block_overwritten [OF ref_env_ok ref_disk_ok ref_migrations_ok ref_block_height _ s1(1) s2 s3]
  show ?thesis using s1(1) s2 s3 by blast
qed

end
