(* ===== verification/Migrations.thy ===== *)
theory Migrations
  imports Abci
begin

text \<open>
  The migrations of \<open>many-ledger/src/migration/\<close>: functions of the merk store that the registry runs
  at the height where a migration becomes active, and hotfixes, functions of the bytes of one
  transaction. The lemmas show what each makes of the store: legacy memos become memos and
  nothing else changes, the counters start exact, account numbers go on where they were, a
  hotfix changes one timestamp.
\<close>

type_synonym ('m, 'a) merk_op = "('m, 'a) op"

definition m_get :: "('m, 'v, 'g) env \<Rightarrow> bytes \<Rightarrow> ('m, 'v option) merk_op" where
  "m_get E k = reads (\<lambda>m. map_err get_failed (merk_get E m k))"

definition m_apply :: "('m, 'v, 'g) env \<Rightarrow> (bytes \<times> 'v store_op) list \<Rightarrow> ('m, unit) merk_op" where
  "m_apply E b = (\<lambda>m. case merk_apply E m b of (r, m') \<Rightarrow> (map_err apply_failed r, m'))"

definition m_commit :: "('m, 'v, 'g) env \<Rightarrow> ('m, unit) merk_op" where
  "m_commit E = (\<lambda>m. case merk_commit E m of (r, m') \<Rightarrow> (map_err commit_failed r, m'))"

section \<open>Memos\<close>

text \<open>\<open>iter_through_events\<close>, \<open>iter_through_multisig_storage\<close>: the items of an iterator, decoded.\<close>

definition log_item :: "('x, 'v) codec \<Rightarrow> string + bytes \<times> 'v \<Rightarrow> (bytes \<times> 'x) res" where
  "log_item c item = rbind (map_err Unknown item) (\<lambda>(k, v).
     rbind (map_err DeserializationError (dec c v)) (\<lambda>x. Inr (k, x)))"

definition iter_through_events :: "('m, 'v, 'g) env \<Rightarrow> 'm \<Rightarrow> (bytes \<times> event_log) res list" where
  "iter_through_events E m = map (log_item (c_event E)) (all_events E m)"

definition iter_through_multisig_storage :: "('m, 'v, 'g) env \<Rightarrow> 'm \<Rightarrow> (bytes \<times> multisig_storage) res list" where
  "iter_through_multisig_storage E m = map (log_item (c_multisig E)) (all_multisig E m Ascending)"

definition legacy_memo :: "('m, 'v, 'g) env \<Rightarrow> string option \<Rightarrow> bytes option \<Rightarrow> memo option res" where
  "legacy_memo E memo0 data0 = (case (memo0, data0) of
       (Some m, Some d) \<Rightarrow> rbind (from_many (memo_push_bytes E (memo_of_string E m) d)) (\<lambda>x. Inr (Some x))
     | (Some m, None) \<Rightarrow> Inr (Some (memo_of_string E m))
     | (None, Some d) \<Rightarrow> Inr (Some (memo_of_data E d))
     | (None, None) \<Rightarrow> Inr None)"

fun event_step :: "('m, 'v, 'g) env \<Rightarrow> bytes \<times> event_log \<Rightarrow> (bytes \<times> 'v store_op) option res" where
  "event_step E (key, log) = (case ev_content log of
       EvMultisigSubmit sub acc memo0 tx tok thr tmo auto data0 memo1 \<Rightarrow>
         (if memo1 \<noteq> None then Inr None
          else rbind (legacy_memo E memo0 data0) (\<lambda>m. case m of
              None \<Rightarrow> Inr None
            | Some x \<Rightarrow> rbind (map_err SerializationError (enc (c_event E) (log\<lparr>ev_content :=
                  EvMultisigSubmit sub acc None tx tok thr tmo auto None (Some x)\<rparr>)))
                (\<lambda>v. Inr (Some (key, Put v)))))
     | _ \<Rightarrow> Inr None)"

fun entry_step :: "('m, 'v, 'g) env \<Rightarrow> bytes \<times> multisig_storage \<Rightarrow> (bytes \<times> 'v store_op) option res" where
  "entry_step E (key, x) =
     (if memo (ms_info x) \<noteq> None then Inr None
      else rbind (legacy_memo E (old_memo (ms_info x)) (old_data (ms_info x))) (\<lambda>m. case m of
          None \<Rightarrow> Inr None
        | Some y \<Rightarrow> rbind (map_err SerializationError (enc (c_multisig E) (x\<lparr>ms_info := (ms_info x)
              \<lparr>old_memo := None, old_data := None, memo := Some y\<rparr>\<rparr>)))
            (\<lambda>v. Inr (Some (key, Put v)))))"

text \<open>The loops: an error ends them, a \<open>continue\<close> skips the item.\<close>

primrec collect_batch :: "('x \<Rightarrow> 'p option res) \<Rightarrow> 'x res list \<Rightarrow> 'p list res" where
  "collect_batch f [] = Inr []"
| "collect_batch f (item # items) = rbind item (\<lambda>x. rbind (f x) (\<lambda>r.
     rbind (collect_batch f items) (\<lambda>b. Inr (case r of None \<Rightarrow> b | Some p \<Rightarrow> p # b))))"

definition update_multisig_submit_events :: "('m, 'v, 'g) env \<Rightarrow> ('m, unit) merk_op" where
  "update_multisig_submit_events E =
     bnd (reads (\<lambda>m. collect_batch (event_step E) (iter_through_events E m))) (\<lambda>batch.
     andthen (m_apply E batch) (m_commit E))"

definition update_multisig_storage :: "('m, 'v, 'g) env \<Rightarrow> ('m, unit) merk_op" where
  "update_multisig_storage E =
     bnd (reads (\<lambda>m. collect_batch (entry_step E) (iter_through_multisig_storage E m))) (\<lambda>batch.
     andthen (m_apply E batch) (m_commit E))"

definition memo_initialize :: "('m, 'v, 'g) env \<Rightarrow> ('m, unit) merk_op" where
  "memo_initialize E = andthen (update_multisig_submit_events E) (update_multisig_storage E)"

section \<open>Account counts\<close>

definition BALANCES_ROOT_BYTES :: bytes where
  "BALANCES_ROOT_BYTES = ''/balances''"

primrec count_items :: "('m, 'v, 'g) env \<Rightarrow> (string + bytes \<times> 'v) list \<Rightarrow> u64 \<times> u64 \<Rightarrow> (u64 \<times> u64) res" where
  "count_items E [] acc = Inr acc"
| "count_items E (item # items) acc = rbind (map_err Unknown item) (\<lambda>kv.
     count_items E items (fst acc + 1, if amount_from E (snd kv) \<noteq> 0 then snd acc + 1 else snd acc))"

definition get_data_from_db :: "('m, 'v, 'g) env \<Rightarrow> 'm \<Rightarrow> (u64 \<times> u64) res" where
  "get_data_from_db E m = count_items E (merk_iter_prefix E m BALANCES_ROOT_BYTES False) (0, 0)"

definition initial_data_info :: "('m, 'v, 'g) env \<Rightarrow> (data_index \<times> data_info) list" where
  "initial_data_info E = bt_insert (NON_ZERO_ACCOUNT_TOTAL_COUNT_INDEX E) (TypeCounter, ''nonZeroAccountTotalCount'')
     (bt_insert (ACCOUNT_TOTAL_COUNT_INDEX E) (TypeCounter, ''accountTotalCount'') [])"

definition initial_data_value :: "('m, 'v, 'g) env \<Rightarrow> u64 \<Rightarrow> u64 \<Rightarrow> (data_index \<times> data_value) list" where
  "initial_data_value E unique non_zero = bt_insert (NON_ZERO_ACCOUNT_TOTAL_COUNT_INDEX E) (Counter non_zero)
     (bt_insert (ACCOUNT_TOTAL_COUNT_INDEX E) (Counter unique) [])"

definition data_initialize :: "('m, 'v, 'g) env \<Rightarrow> ('m, unit) merk_op" where
  "data_initialize E =
     bnd (reads (get_data_from_db E)) (\<lambda>(unique, non_zero).
     bnd (encode (c_data_attributes E) (initial_data_value E unique non_zero)) (\<lambda>v.
     bnd (encode (c_data_info E) (initial_data_info E)) (\<lambda>w.
     m_apply E [(DATA_ATTRIBUTES_KEY, Put v), (DATA_INFO_KEY, Put w)])))"

section \<open>Tokens\<close>

definition migrate_account_identity :: "('m, 'v, 'g) env \<Rightarrow> ('m, unit) merk_op" where
  "migrate_account_identity E =
     bnd (m_get E IDENTITY_ROOT) (\<lambda>x.
     bnd (lift (ok_or (LedgerError (StorageKeyNotFound IDENTITY_ROOT)) x)) (\<lambda>root_identity.
     bnd (m_get E ACCOUNT_SUBRESOURCE_ID_ROOT) (\<lambda>y.
     bnd (case y of None \<Rightarrow> ret 0 | Some v \<Rightarrow> lift (u32_of E v)) (\<lambda>subresource_counter.
     bnd (lift (from_many (address_from_bytes E root_identity))) (\<lambda>root_address.
     m_apply E [(ACCOUNT_SUBRESOURCE_ID_ROOT, Delete),
       (ACCOUNT_IDENTITY_ROOT, Put root_identity),
       (key_for_subresource_counter E root_address True, Put (of_bytes E (u32_be subresource_counter)))])))))"

definition migration_params :: "string list" where
  "migration_params = [''token_identity'', ''token_next_subresource'', ''symbol'', ''symbol_name'',
     ''symbol_decimals'', ''symbol_total'', ''symbol_circulating'', ''symbol_maximum'', ''symbol_owner'']"

text \<open>\<open>extra[k]\<close>: indexing a map panics when the key is missing.\<close>

definition extra_at :: "(string \<Rightarrow> json option) \<Rightarrow> string \<Rightarrow> json res" where
  "extra_at extra k = (case extra k of None \<Rightarrow> Inl (Panic ''index'') | Some j \<Rightarrow> Inr j)"

definition from_value :: "(json \<Rightarrow> string + 'a) \<Rightarrow> (string \<Rightarrow> json option) \<Rightarrow> string \<Rightarrow> 'a res" where
  "from_value f extra k = rbind (extra_at extra k) (\<lambda>j. map_err DeserializationError (f j))"

primrec check_params :: "(string \<Rightarrow> json option) \<Rightarrow> string list \<Rightarrow> unit res" where
  "check_params extra [] = Inr ()"
| "check_params extra (p # ps) = (if extra p = None
     then Inl (Err (Unknown (''Missing extra parameter '' @ [CHR 0x27] @ p @ [CHR 0x27] @ '' for Token Migration'')))
     else check_params extra ps)"

definition migrated_token_info :: "('m, 'v, 'g) env \<Rightarrow> (string \<Rightarrow> json option) \<Rightarrow> symbol \<Rightarrow> string \<Rightarrow> token_info res" where
  "migrated_token_info E extra symb tick =
     rbind (from_value (json_string E) extra ''symbol_name'') (\<lambda>nm.
     rbind (from_value (json_u64 E) extra ''symbol_decimals'') (\<lambda>dc.
     rbind (from_value (json_amount E) extra ''symbol_total'') (\<lambda>tot.
     rbind (from_value (json_amount E) extra ''symbol_circulating'') (\<lambda>circ.
     rbind (from_value (json_amount_opt E) extra ''symbol_maximum'') (\<lambda>mx.
     rbind (from_value (json_address_opt E) extra ''symbol_owner'') (\<lambda>own.
     Inr \<lparr>ti_symbol = symb, ti_summary = \<lparr>name = nm, ticker = tick, decimals = dc\<rparr>,
          ti_supply = \<lparr>total = tot, circulating = circ, maximum = mx\<rparr>, ti_owner = own\<rparr>))))))"

definition migrate_token :: "('m, 'v, 'g) env \<Rightarrow> (string \<Rightarrow> json option) \<Rightarrow> ('m, unit) merk_op" where
  "migrate_token E extra =
     andthen (lift (check_params extra migration_params))
     (bnd (lift (from_value (json_string E) extra ''token_identity'')) (\<lambda>ident_text.
     bnd (lift (from_many (address_from_str E ident_text))) (\<lambda>token_identity.
     bnd (lift (from_value (json_u32 E) extra ''token_next_subresource'')) (\<lambda>next_subresource.
     bnd (lift (from_value (json_string E) extra ''symbol'')) (\<lambda>symbol_text.
     bnd (lift (from_many (address_from_str E symbol_text))) (\<lambda>symb.
     bnd (m_get E SYMBOLS_ROOT) (\<lambda>x.
     bnd (lift (ok_or (LedgerError (StorageKeyNotFound SYMBOLS_ROOT)) x)) (\<lambda>symbols_enc.
     bnd (decode (c_symbols E) symbols_enc) (\<lambda>symbol_and_ticker.
     bnd (lift (ok_or (Unknown (''Symbol '' @ show_address E symb @ '' not found in DB''))
        (map_of symbol_and_ticker symb))) (\<lambda>tick.
     bnd (lift (migrated_token_info E extra symb tick)) (\<lambda>info.
     bnd (encode (c_ext_info E) (ext_info_default E)) (\<lambda>e.
     bnd (encode (c_token_info E) info) (\<lambda>i.
     m_apply E [(key_for_ext_info E symb, Put e),
       (key_for_subresource_counter E token_identity True, Put (of_bytes E (u32_be next_subresource))),
       (key_for_symbol E symb, Put i),
       (TOKEN_IDENTITY_ROOT, Put (address_to_vec E token_identity))])))))))))))))"

definition tokens_initialize :: "('m, 'v, 'g) env \<Rightarrow> (string \<Rightarrow> json option) \<Rightarrow> ('m, unit) merk_op" where
  "tokens_initialize E extra = andthen (migrate_account_identity E) (migrate_token E extra)"

section \<open>Hotfixes\<close>

definition BLOCK_9400_TX_ID :: string where
  "BLOCK_9400_TX_ID = ''241e00000001''"

definition BLOCK_9400_NEW_TIMESTAMP :: u64 where
  "BLOCK_9400_NEW_TIMESTAMP = 1658348752"

text \<open>\<open>matches\<close> is the test of the transaction's number.\<close>

definition hotfix_response :: "('m, 'v, 'g) env \<Rightarrow> (string \<Rightarrow> bool) \<Rightarrow> u64 \<Rightarrow> bytes \<Rightarrow> bytes option res" where
  "hotfix_response E matches new_timestamp b = (case dec (c_block_tx E) b of
       Inl _ \<Rightarrow> Inr None
     | Inr (tx_id, response) \<Rightarrow>
         if matches (hex_encode E tx_id) then
           (case timestamp_new E new_timestamp of
              Inl _ \<Rightarrow> Inl (Panic ''unwrap'')
            | Inr t \<Rightarrow> (case enc (c_response E) (response\<lparr>rsp_timestamp := Some t\<rparr>) of
                 Inl _ \<Rightarrow> Inr None
               | Inr r \<Rightarrow> Inr (Some r)))
         else Inr None)"

definition block_9400 :: "('m, 'v, 'g) env \<Rightarrow> bytes \<Rightarrow> bytes option res" where
  "block_9400 E b = hotfix_response E (\<lambda>t. t = BLOCK_9400_TX_ID) BLOCK_9400_NEW_TIMESTAMP b"

definition DUMMY_HOTFIX_TX_ID :: string where
  "DUMMY_HOTFIX_TX_ID = ''0001''"

definition DUMMY_HOTFIX_NEW_TIMESTAMP :: u64 where
  "DUMMY_HOTFIX_NEW_TIMESTAMP = 1234567890"

definition ends_with :: "string \<Rightarrow> string \<Rightarrow> bool" where
  "ends_with t suf \<longleftrightarrow> length suf \<le> length t \<and> drop (length t - length suf) t = suf"

definition dummy_hotfix :: "('m, 'v, 'g) env \<Rightarrow> bytes \<Rightarrow> bytes option res" where
  "dummy_hotfix E b = hotfix_response E (\<lambda>t. ends_with t DUMMY_HOTFIX_TX_ID) DUMMY_HOTFIX_NEW_TIMESTAMP b"

section \<open>Rewriting entries of the store\<close>

lemma m_run [run]:
  "store_ok E \<Longrightarrow> m_get E k m = (Inr (mview E m k), m)"
  "store_ok E \<Longrightarrow> batch_ok b \<Longrightarrow> m_apply E b m = (Inr (), snd (merk_apply E m b))"
  "store_ok E \<Longrightarrow> m_commit E m = (Inr (), snd (merk_commit E m))"
  by (simp_all add: m_get_def m_apply_def m_commit_def reads_run merk_get_view merk_apply_ok(1)
      merk_commit_ok(1) split_beta)

lemma collect_batch_run:
  assumes "\<And>k v. (k, v) \<in> set es \<Longrightarrow> \<exists>x. dec c v = Inr x \<and> f (k, x) = Inr (g (k, v))"
  shows "collect_batch f (map (log_item c) (map Inr es)) = Inr (List.map_filter g es)"
  using assms
proof (induction es)
  case Nil
  then show ?case by (simp add: map_filter_simps)
next
  case (Cons p es)
  obtain k v where p: "p = (k, v)" by (cases p)
  then obtain x where "dec c v = Inr x" and fx: "f (k, x) = Inr (g (k, v))" using Cons.prems by auto
  then have "log_item c (Inr (k, v)) = Inr (k, x)" by (simp add: log_item_def)
  moreover have "collect_batch f (map (log_item c) (map Inr es)) = Inr (List.map_filter g es)"
    using Cons by simp
  ultimately show ?case
    by (simp add: p fx map_filter_simps split: option.split)
qed

lemma collect_batch_fails:
  assumes "(k, v) \<in> set es" and "\<And>x. dec c v = Inr x \<Longrightarrow> \<exists>e. f (k, x) = Inl e"
  shows "\<exists>e. collect_batch f (map (log_item c) (map Inr es)) = Inl e"
  using assms(1)
proof (induction es)
  case Nil
  then show ?case by simp
next
  case (Cons p es)
  show ?case
  proof (cases "p = (k, v)")
    case True
    with assms(2) show ?thesis
      by (cases "dec c v") (auto simp: log_item_def map_err_def rbind_def)
  next
    case False
    with Cons obtain e where "collect_batch f (map (log_item c) (map Inr es)) = Inl e" by auto
    then show ?thesis
      by (auto simp: rbind_def split: sum.split)
  qed
qed

text \<open>A stored value, its content rewritten by \<open>h\<close>.\<close>

definition rewritten :: "('x, 'v) codec \<Rightarrow> ('x \<Rightarrow> 'x) \<Rightarrow> 'v \<Rightarrow> 'v" where
  "rewritten c h v = (case dec c v of Inl _ \<Rightarrow> v | Inr x \<Rightarrow> if h x = x then v else enc_val c (h x))"

definition put_rewritten :: "('x, 'v) codec \<Rightarrow> ('x \<Rightarrow> 'x) \<Rightarrow> bytes \<times> 'x \<Rightarrow> (bytes \<times> 'v store_op) option" where
  "put_rewritten c h p = (if h (snd p) = snd p then None else Some (fst p, Put (enc_val c (h (snd p)))))"

lemma rewrite_run:
  assumes E: "store_ok E" "disk_ok E D" "codec_ok c" and sync: "D m = mview E m"
    and l: "listing (D m) P es" and items: "items m = map (log_item c) (map Inr es)"
    and all: "\<And>k v. P k \<Longrightarrow> mview E m k = Some v \<Longrightarrow> \<exists>x. dec c v = Inr x"
    and f: "\<And>k v x. P k \<Longrightarrow> mview E m k = Some v \<Longrightarrow> dec c v = Inr x \<Longrightarrow> f (k, x) = Inr (put_rewritten c h (k, x))"
  shows "\<exists>m'. bnd (reads (\<lambda>m. collect_batch f (items m))) (\<lambda>b. andthen (m_apply E b) (m_commit E)) m = (Inr (), m') \<and>
    D m' = mview E m' \<and>
    (\<forall>k. mview E m' k = (if P k then map_option (rewritten c h) (mview E m k) else mview E m k))"
proof -
  define g where "g = (\<lambda>(k, v). case dec c v of Inl _ \<Rightarrow> None | Inr x \<Rightarrow> put_rewritten c h (k, x))"
  have key: "g p = Some q \<Longrightarrow> fst q = fst p" for p q
    by (auto simp: g_def put_rewritten_def split: prod.splits sum.splits if_splits)
  have "\<exists>x. dec c v = Inr x \<and> f (k, x) = Inr (g (k, v))" if "(k, v) \<in> set es" for k v
    using that l sync all [of k v] f [of k v] by (auto simp: g_def listing_def)
  then have coll: "collect_batch f (items m) = Inr (List.map_filter g es)"
    unfolding items by (rule collect_batch_run)
  let ?m = "snd (merk_commit E (snd (merk_apply E m (List.map_filter g es))))"
  have ok: "batch_ok (List.map_filter g es)" using l key by (rule batch_ok_filtered)
  have view: "mview E ?m = apply_batch (List.map_filter g es) (mview E m)"
    using E(1) ok by (simp add: merk_commit_ok(2) merk_apply_ok(2))
  have "mview E ?m k = (if P k then map_option (rewritten c h) (mview E m k) else mview E m k)" for k
  proof (cases "P k")
    case True
    then have "mview E ?m k = (case mview E m k of None \<Rightarrow> None
        | Some v \<Rightarrow> (case g (k, v) of None \<Rightarrow> Some v | Some q \<Rightarrow> op_value (snd q)))"
      unfolding view using apply_filtered [OF l key, where f = "mview E m" and k = k] sync by simp
    with True show ?thesis using all [of k]
      by (auto simp: g_def rewritten_def put_rewritten_def split: option.split)
  next
    case False
    then show ?thesis
      unfolding view using apply_filtered [OF l key, where f = "mview E m" and k = k] sync by simp
  qed
  moreover have "D ?m = mview E ?m"
  proof -
    have "D (snd (merk_commit E m')) = mview E m'" for m' using E(2) unfolding disk_ok_def by blast
    then show ?thesis using E(1) by (simp add: merk_commit_ok(2))
  qed
  ultimately show ?thesis using E(1) ok by (simp add: run coll)
qed

lemma rewrite_fails:
  assumes sync: "D m = mview E m" and l: "listing (D m) P es"
    and items: "items m = map (log_item c) (map Inr es)" and k: "P k" "mview E m k = Some v"
    and f: "\<And>x. dec c v = Inr x \<Longrightarrow> \<exists>e. f (k, x) = Inl e"
  shows "\<exists>e. bnd (reads (\<lambda>m. collect_batch f (items m))) (\<lambda>b. andthen (m_apply E b) (m_commit E)) m = (Inl e, m)"
proof -
  have "(k, v) \<in> set es" using l k sync by (simp add: listing_def)
  then have "\<exists>e. collect_batch f (map (log_item c) (map Inr es)) = Inl e"
    by (rule collect_batch_fails) (rule f)
  then show ?thesis by (auto simp: run items)
qed

section \<open>What the memo migration does to an event and to an entry\<close>

text \<open>
  The memo that takes the place of an old memo and old data: either alone, or the memo with the data
  pushed to it, which may fail.
\<close>

definition joined :: "('m, 'v, 'g) env \<Rightarrow> string \<Rightarrow> bytes \<Rightarrow> memo option" where
  "joined E t d = (case memo_push_bytes E (memo_of_string E t) d of Inr x \<Rightarrow> Some x | Inl _ \<Rightarrow> None)"

fun moved_memo :: "('m, 'v, 'g) env \<Rightarrow> string option \<Rightarrow> bytes option \<Rightarrow> memo option" where
  "moved_memo E None None = None"
| "moved_memo E (Some t) None = Some (memo_of_string E t)"
| "moved_memo E None (Some d) = Some (memo_of_data E d)"
| "moved_memo E (Some t) (Some d) = joined E t d"

text \<open>Old fields that a memo can be made of.\<close>

definition joinable :: "('m, 'v, 'g) env \<Rightarrow> string option \<Rightarrow> bytes option \<Rightarrow> bool" where
  "joinable E memo0 data0 \<longleftrightarrow> (\<forall>t d. memo0 = Some t \<longrightarrow> data0 = Some d \<longrightarrow> joined E t d \<noteq> None)"

lemma legacy_memo_run:
  "joinable E a b \<Longrightarrow> legacy_memo E a b = Inr (moved_memo E a b)"
  "\<not> joinable E a b \<Longrightarrow> \<exists>e. legacy_memo E a b = Inl e"
  by (cases a; cases b; auto simp: legacy_memo_def joinable_def joined_def split: sum.splits)+

fun modern_content :: "('m, 'v, 'g) env \<Rightarrow> event_info \<Rightarrow> event_info" where
  "modern_content E (EvMultisigSubmit sub acc memo0 tx tok thr tmo auto data0 memo1) =
     (if memo1 = None \<and> moved_memo E memo0 data0 \<noteq> None
      then EvMultisigSubmit sub acc None tx tok thr tmo auto None (moved_memo E memo0 data0)
      else EvMultisigSubmit sub acc memo0 tx tok thr tmo auto data0 memo1)"
| "modern_content E c = c"

definition modern_event :: "('m, 'v, 'g) env \<Rightarrow> event_log \<Rightarrow> event_log" where
  "modern_event E e = e\<lparr>ev_content := modern_content E (ev_content e)\<rparr>"

definition modern_entry :: "('m, 'v, 'g) env \<Rightarrow> multisig_storage \<Rightarrow> multisig_storage" where
  "modern_entry E x = (let m = moved_memo E (old_memo (ms_info x)) (old_data (ms_info x)) in
     if memo (ms_info x) = None \<and> m \<noteq> None
     then x\<lparr>ms_info := (ms_info x)\<lparr>old_memo := None, old_data := None, memo := m\<rparr>\<rparr> else x)"

text \<open>
  A stored event, and a stored entry, that the migration can read and rewrite: it decodes, and if it is
  without a memo one can be made of its old fields.
\<close>

fun movable_content :: "('m, 'v, 'g) env \<Rightarrow> event_info \<Rightarrow> bool" where
  "movable_content E (EvMultisigSubmit sub acc memo0 tx tok thr tmo auto data0 memo1) \<longleftrightarrow>
     memo1 = None \<longrightarrow> joinable E memo0 data0"
| "movable_content E _ \<longleftrightarrow> True"

definition event_movable :: "('m, 'v, 'g) env \<Rightarrow> 'v \<Rightarrow> bool" where
  "event_movable E v \<longleftrightarrow> (\<exists>e. dec (c_event E) v = Inr e \<and> movable_content E (ev_content e))"

definition entry_movable :: "('m, 'v, 'g) env \<Rightarrow> 'v \<Rightarrow> bool" where
  "entry_movable E v \<longleftrightarrow> (\<exists>x. dec (c_multisig E) v = Inr x \<and>
     (memo (ms_info x) = None \<longrightarrow> joinable E (old_memo (ms_info x)) (old_data (ms_info x))))"

lemma event_step_run:
  assumes "codec_ok (c_event E)" and "movable_content E (ev_content e)"
  shows "event_step E (k, e) = Inr (put_rewritten (c_event E) (modern_event E) (k, e))"
proof (cases "ev_content e")
  case (EvMultisigSubmit sub acc memo0 tx tok thr tmo auto data0 memo1)
  show ?thesis
  proof (cases "memo1 = None \<and> moved_memo E memo0 data0 \<noteq> None")
    case True
    then obtain y where "moved_memo E memo0 data0 = Some y" "memo1 = None" by auto
    moreover from this have "modern_event E e \<noteq> e"
      by (auto simp: modern_event_def EvMultisigSubmit dest: arg_cong [of _ e ev_content])
    ultimately show ?thesis
      using assms by (simp add: EvMultisigSubmit legacy_memo_run(1) put_rewritten_def modern_event_def)
  next
    case False
    then show ?thesis
      using assms by (auto simp: EvMultisigSubmit legacy_memo_run(1) put_rewritten_def modern_event_def)
  qed
qed (simp_all add: put_rewritten_def modern_event_def)

lemma event_step_fails:
  assumes "\<not> movable_content E (ev_content e)"
  shows "\<exists>err. event_step E (k, e) = Inl err"
  using assms legacy_memo_run(2) [of E] by (cases "ev_content e") (fastforce simp: rbind_def)+

lemma entry_step_run:
  assumes "codec_ok (c_multisig E)" and j: "memo (ms_info x) = None \<longrightarrow> joinable E (old_memo (ms_info x)) (old_data (ms_info x))"
  shows "entry_step E (k, x) = Inr (put_rewritten (c_multisig E) (modern_entry E) (k, x))"
proof (cases "memo (ms_info x) = None \<and> moved_memo E (old_memo (ms_info x)) (old_data (ms_info x)) \<noteq> None")
  case True
  then obtain y where y: "moved_memo E (old_memo (ms_info x)) (old_data (ms_info x)) = Some y"
    "memo (ms_info x) = None" by auto
  then have "memo (ms_info (modern_entry E x)) \<noteq> memo (ms_info x)"
    by (simp add: modern_entry_def)
  then have "modern_entry E x \<noteq> x" by metis
  with y assms show ?thesis
    by (simp add: legacy_memo_run(1) put_rewritten_def modern_entry_def)
next
  case False
  with assms show ?thesis by (auto simp: legacy_memo_run(1) put_rewritten_def modern_entry_def)
qed

lemma entry_step_fails:
  assumes "memo (ms_info x) = None" and "\<not> joinable E (old_memo (ms_info x)) (old_data (ms_info x))"
  shows "\<exists>err. entry_step E (k, x) = Inl err"
  using assms(1) legacy_memo_run(2) [OF assms(2)] by auto

declare event_step.simps [simp del] entry_step.simps [simp del]

lemma modern_event_idem: "modern_event E (modern_event E e) = modern_event E e"
  by (cases "ev_content e") (auto simp: modern_event_def)

lemma modern_entry_idem: "modern_entry E (modern_entry E x) = modern_entry E x"
  by (auto simp: modern_entry_def Let_def)

lemma rewritten_idem:
  assumes "codec_ok c" and "\<And>x. h (h x) = h x"
  shows "rewritten c h (rewritten c h v) = rewritten c h v"
  using assms by (auto simp: rewritten_def split: sum.split)

section \<open>What the migrations make of the store\<close>

definition event_range :: "('m, 'v, 'g) env \<Rightarrow> bytes \<Rightarrow> bool" where
  "event_range E k \<longleftrightarrow> EVENTS_ROOT \<le> k \<and> k < events_upper E Unbounded"

definition multisig_range :: "bytes \<Rightarrow> bool" where
  "multisig_range k \<longleftrightarrow> take (length MULTISIG_TRANSACTIONS_ROOT) k = MULTISIG_TRANSACTIONS_ROOT"

lemma ranges_apart: "multisig_range k \<Longrightarrow> \<not> event_range E k"
proof -
  assume "multisig_range k"
  then have "k = MULTISIG_TRANSACTIONS_ROOT @ drop (length MULTISIG_TRANSACTIONS_ROOT) k"
    unfolding multisig_range_def by (metis append_take_drop_id)
  moreover have "\<not> MULTISIG_TRANSACTIONS_ROOT @ x < events_upper E Unbounded" for x
    by (simp add: MULTISIG_TRANSACTIONS_ROOT_def events_upper_def EVENTS_ROOT_def less_char_def)
  ultimately show ?thesis unfolding event_range_def by metis
qed

definition events_movable :: "('m, 'v, 'g) env \<Rightarrow> 'm \<Rightarrow> bool" where
  "events_movable E m \<longleftrightarrow> (\<forall>k v. event_range E k \<longrightarrow> mview E m k = Some v \<longrightarrow> event_movable E v)"

definition entries_movable :: "('m, 'v, 'g) env \<Rightarrow> 'm \<Rightarrow> bool" where
  "entries_movable E m \<longleftrightarrow> (\<forall>k v. multisig_range k \<longrightarrow> mview E m k = Some v \<longrightarrow> entry_movable E v)"

definition modern_value :: "('m, 'v, 'g) env \<Rightarrow> bytes \<Rightarrow> 'v \<Rightarrow> 'v" where
  "modern_value E k = (if event_range E k then rewritten (c_event E) (modern_event E)
     else if multisig_range k then rewritten (c_multisig E) (modern_entry E) else id)"

lemma all_events_listed:
  assumes "disk_ok E D"
  obtains es where "listing (D m) (event_range E) es" and "iter_through_events E m = map (log_item (c_event E)) (map Inr es)"
proof -
  obtain es where es: "listing (D m) (\<lambda>k. events_lower E Unbounded \<le> k \<and> k < events_upper E Unbounded) es"
    and ev: "\<And>ord. events_scoped_by_id E m (Unbounded, Unbounded) ord =
      map Inr (if from_end ord then rev es else es)"
    using events_scoped_listing [OF assms, of m Unbounded Unbounded] by blast
  from es have "listing (D m) (event_range E) es"
    by (simp add: event_range_def [abs_def] events_lower_def)
  moreover from ev [of Indeterminate] have "iter_through_events E m = map (log_item (c_event E)) (map Inr es)"
    by (simp add: iter_through_events_def all_events_def from_end_def)
  ultimately show ?thesis by (rule that)
qed

lemma events_moved:
  assumes E: "env_ok E" "disk_ok E D" and sync: "D m = mview E m"
  shows "events_movable E m \<Longrightarrow> \<exists>m1. update_multisig_submit_events E m = (Inr (), m1) \<and> D m1 = mview E m1 \<and>
      (\<forall>k. mview E m1 k = (if event_range E k
        then map_option (rewritten (c_event E) (modern_event E)) (mview E m k) else mview E m k))"
    and "\<not> events_movable E m \<Longrightarrow> \<exists>e. update_multisig_submit_events E m = (Inl e, m)"
proof -
  have st: "store_ok E" and cod: "codec_ok (c_event E)" using E(1) by simp_all
  obtain es where l: "listing (D m) (event_range E) es"
    and it: "iter_through_events E m = map (log_item (c_event E)) (map Inr es)"
    using E(2) by (rule all_events_listed)
  show "\<exists>m1. update_multisig_submit_events E m = (Inr (), m1) \<and> D m1 = mview E m1 \<and>
      (\<forall>k. mview E m1 k = (if event_range E k
        then map_option (rewritten (c_event E) (modern_event E)) (mview E m k) else mview E m k))"
    if mv: "events_movable E m"
    unfolding update_multisig_submit_events_def
  proof (rule rewrite_run [where items = "iter_through_events E", OF st E(2) cod sync l it])
    fix k v assume k: "event_range E k" "mview E m k = Some v"
    with mv have "event_movable E v" unfolding events_movable_def by blast
    then show "\<exists>x. dec (c_event E) v = Inr x" by (auto simp: event_movable_def)
    show "event_step E (k, x) = Inr (put_rewritten (c_event E) (modern_event E) (k, x))" if "dec (c_event E) v = Inr x" for x
      using \<open>event_movable E v\<close> that event_step_run [OF cod] by (auto simp: event_movable_def)
  qed
  show "\<exists>e. update_multisig_submit_events E m = (Inl e, m)" if "\<not> events_movable E m"
  proof -
    from that obtain k v where k: "event_range E k" "mview E m k = Some v" and v: "\<not> event_movable E v"
      unfolding events_movable_def by blast
    show ?thesis
      unfolding update_multisig_submit_events_def
      by (rule rewrite_fails [where items = "iter_through_events E" and D = D and m = m and P = "event_range E", OF sync l it k])
        (use v in \<open>auto simp: event_movable_def intro: event_step_fails\<close>)
  qed
qed

lemma entries_moved:
  assumes E: "env_ok E" "disk_ok E D" and sync: "D m = mview E m"
  shows "entries_movable E m \<Longrightarrow> \<exists>m1. update_multisig_storage E m = (Inr (), m1) \<and> D m1 = mview E m1 \<and>
      (\<forall>k. mview E m1 k = (if multisig_range k
        then map_option (rewritten (c_multisig E) (modern_entry E)) (mview E m k) else mview E m k))"
    and "\<not> entries_movable E m \<Longrightarrow> \<exists>e. update_multisig_storage E m = (Inl e, m)"
proof -
  have st: "store_ok E" and cod: "codec_ok (c_multisig E)" using E(1) by simp_all
  from E(2) obtain es where l: "listing (D m) multisig_range es"
    and "merk_iter_prefix E m MULTISIG_TRANSACTIONS_ROOT False = map Inr es"
    unfolding disk_ok_def multisig_range_def [abs_def] by blast
  then have it: "iter_through_multisig_storage E m = map (log_item (c_multisig E)) (map Inr es)"
    by (simp add: iter_through_multisig_storage_def all_multisig_def from_end_def)
  show "\<exists>m1. update_multisig_storage E m = (Inr (), m1) \<and> D m1 = mview E m1 \<and>
      (\<forall>k. mview E m1 k = (if multisig_range k
        then map_option (rewritten (c_multisig E) (modern_entry E)) (mview E m k) else mview E m k))"
    if mv: "entries_movable E m"
    unfolding update_multisig_storage_def
  proof (rule rewrite_run [where items = "iter_through_multisig_storage E", OF st E(2) cod sync l it])
    fix k v assume k: "multisig_range k" "mview E m k = Some v"
    with mv have "entry_movable E v" unfolding entries_movable_def by blast
    then show "\<exists>x. dec (c_multisig E) v = Inr x" by (auto simp: entry_movable_def)
    show "entry_step E (k, x) = Inr (put_rewritten (c_multisig E) (modern_entry E) (k, x))"
      if "dec (c_multisig E) v = Inr x" for x
      using \<open>entry_movable E v\<close> that entry_step_run [OF cod] by (auto simp: entry_movable_def)
  qed
  show "\<exists>e. update_multisig_storage E m = (Inl e, m)" if "\<not> entries_movable E m"
  proof -
    from that obtain k v where k: "multisig_range k" "mview E m k = Some v" and v: "\<not> entry_movable E v"
      unfolding entries_movable_def by blast
    show ?thesis
      unfolding update_multisig_storage_def
      by (rule rewrite_fails [where items = "iter_through_multisig_storage E" and D = D and m = m and P = multisig_range, OF sync l it k])
        (use v in \<open>auto simp: entry_movable_def intro: entry_step_fails\<close>)
  qed
qed

text \<open>Both steps: the first has committed when the second fails.\<close>

lemma memo_initialize_run:
  assumes E: "env_ok E" "disk_ok E D" and sync: "D m = mview E m"
  shows "\<not> events_movable E m \<Longrightarrow> \<exists>e. memo_initialize E m = (Inl e, m)"
    and "events_movable E m \<Longrightarrow> \<not> entries_movable E m \<Longrightarrow> \<exists>e m'. memo_initialize E m = (Inl e, m') \<and>
      (\<forall>k. mview E m' k = (if event_range E k then map_option (modern_value E k) (mview E m k) else mview E m k))"
    and "events_movable E m \<Longrightarrow> entries_movable E m \<Longrightarrow> \<exists>m'. memo_initialize E m = (Inr (), m') \<and>
      D m' = mview E m' \<and> (\<forall>k. mview E m' k = map_option (modern_value E k) (mview E m k))"
proof -
  show "\<exists>e. memo_initialize E m = (Inl e, m)" if "\<not> events_movable E m"
    using events_moved(2) [OF assms that] by (auto simp: memo_initialize_def andthen_run)
  assume ev: "events_movable E m"
  from events_moved(1) [OF assms ev] obtain m1 where
      m1: "update_multisig_submit_events E m = (Inr (), m1)" "D m1 = mview E m1"
    and v1: "\<And>k. mview E m1 k = (if event_range E k
        then map_option (rewritten (c_event E) (modern_event E)) (mview E m k) else mview E m k)" by blast
  have same: "mview E m1 k = mview E m k" if "multisig_range k" for k
    using ranges_apart [OF that, of E] by (simp add: v1)
  then have en: "entries_movable E m1 = entries_movable E m"
    unfolding entries_movable_def by metis
  show "\<exists>e m'. memo_initialize E m = (Inl e, m') \<and>
      (\<forall>k. mview E m' k = (if event_range E k then map_option (modern_value E k) (mview E m k) else mview E m k))"
    if no: "\<not> entries_movable E m"
  proof -
    obtain e where "update_multisig_storage E m1 = (Inl e, m1)"
      using entries_moved(2) [OF E m1(2)] en no by auto
    with m1(1) have "memo_initialize E m = (Inl e, m1)" by (simp add: memo_initialize_def andthen_run)
    moreover have "mview E m1 k = (if event_range E k then map_option (modern_value E k) (mview E m k) else mview E m k)" for k
      by (simp add: v1 modern_value_def)
    ultimately show ?thesis by blast
  qed
  show "\<exists>m'. memo_initialize E m = (Inr (), m') \<and>
      D m' = mview E m' \<and> (\<forall>k. mview E m' k = map_option (modern_value E k) (mview E m k))"
    if yes: "entries_movable E m"
  proof -
    obtain m2 where m2: "update_multisig_storage E m1 = (Inr (), m2)" "D m2 = mview E m2"
      and v2: "\<And>k. mview E m2 k = (if multisig_range k
        then map_option (rewritten (c_multisig E) (modern_entry E)) (mview E m1 k) else mview E m1 k)"
      using entries_moved(1) [OF E m1(2)] en yes by auto
    have "mview E m2 k = map_option (modern_value E k) (mview E m k)" for k
      using ranges_apart [of k E] by (simp add: v2 v1 modern_value_def option.map_id)
    with m1 m2 show ?thesis by (auto simp: memo_initialize_def andthen_run)
  qed
qed

text \<open>What is modern can be read again.\<close>

lemma modern_event_movable:
  assumes "codec_ok (c_event E)" and "event_movable E v"
  shows "event_movable E (rewritten (c_event E) (modern_event E) v)"
proof -
  from assms(2) obtain e where e: "dec (c_event E) v = Inr e" "movable_content E (ev_content e)"
    unfolding event_movable_def by blast
  have "movable_content E (ev_content (modern_event E e))"
    using e(2) by (cases "ev_content e") (auto simp: modern_event_def)
  with e assms(1) show ?thesis by (auto simp: event_movable_def rewritten_def)
qed

lemma modern_entry_movable:
  assumes "codec_ok (c_multisig E)" and "entry_movable E v"
  shows "entry_movable E (rewritten (c_multisig E) (modern_entry E) v)"
proof -
  from assms(2) obtain x where x: "dec (c_multisig E) v = Inr x"
    "memo (ms_info x) = None \<longrightarrow> joinable E (old_memo (ms_info x)) (old_data (ms_info x))"
    unfolding entry_movable_def by (elim exE conjE)
  have "modern_entry E x = x \<or> memo (ms_info (modern_entry E x)) \<noteq> None"
    by (simp add: modern_entry_def Let_def)
  with x(2) have "memo (ms_info (modern_entry E x)) = None \<longrightarrow>
      joinable E (old_memo (ms_info (modern_entry E x))) (old_data (ms_info (modern_entry E x)))"
    by metis
  with x assms(1) show ?thesis by (auto simp: entry_movable_def rewritten_def)
qed

lemma modern_movable:
  assumes E: "env_ok E" and m: "events_movable E m" "entries_movable E m"
    and v: "\<And>k. mview E m' k = map_option (modern_value E k) (mview E m k)"
  shows "events_movable E m' \<and> entries_movable E m'"
proof -
  have cod: "codec_ok (c_event E)" "codec_ok (c_multisig E)" using E by simp_all
  show ?thesis
    unfolding events_movable_def entries_movable_def
  proof (intro conjI allI impI)
    fix k w
    assume k: "event_range E k" and w: "mview E m' k = Some w"
    with v [of k] obtain u where u: "mview E m k = Some u" "w = modern_value E k u" by (cases "mview E m k") auto
    with k m(1) have "event_movable E u" unfolding events_movable_def by blast
    from modern_event_movable [OF cod(1) this] k show "event_movable E w" by (simp add: u(2) modern_value_def)
  next
    fix k w
    assume k: "multisig_range k" and w: "mview E m' k = Some w"
    with v [of k] obtain u where u: "mview E m k = Some u" "w = modern_value E k u" by (cases "mview E m k") auto
    with k m(2) have "entry_movable E u" unfolding entries_movable_def by blast
    from modern_entry_movable [OF cod(2) this] k ranges_apart [OF k, of E] show "entry_movable E w"
      by (simp add: u(2) modern_value_def)
  qed
qed

lemma modern_value_idem: "env_ok E \<Longrightarrow> modern_value E k (modern_value E k v) = modern_value E k v"
  by (simp add: modern_value_def rewritten_idem modern_event_idem modern_entry_idem)

subsection \<open>Counting balances\<close>

lemma count_items_run:
  "count_items E (map Inr es) acc = Inr (fst acc + of_nat (length es),
     snd acc + of_nat (length (filter (\<lambda>p. amount_from E (snd p) \<noteq> 0) es)))"
  by (induction es arbitrary: acc) (simp_all add: algebra_simps)

definition balance_range :: "bytes \<Rightarrow> bool" where
  "balance_range k \<longleftrightarrow> take (length BALANCES_ROOT_BYTES) k = BALANCES_ROOT_BYTES"

lemma balance_in_range: "balance_range (key_for_account_balance E a x)"
  by (simp add: balance_range_def BALANCES_ROOT_BYTES_def key_for_account_balance_def)

text \<open>The balances listed, as a set of holders: each entry is one pair of an address and a symbol.\<close>

lemma card_listed:
  assumes "env_ok E" and l: "listing (view E s) balance_range es"
    and own: "\<And>k v. balance_range k \<Longrightarrow> view E s k = Some v \<Longrightarrow> \<exists>a x. k = key_for_account_balance E a x"
  shows "card {(a, x). \<exists>v. view E s (key_for_account_balance E a x) = Some v \<and> Q v} =
      length (filter (\<lambda>p. Q (snd p)) es)"
    and "finite {(a, x). \<exists>v. view E s (key_for_account_balance E a x) = Some v \<and> Q v}"
proof -
  let ?K = "\<lambda>(a, x). key_for_account_balance E a x"
  let ?S = "{(a, x). \<exists>v. view E s (key_for_account_balance E a x) = Some v \<and> Q v}"
  let ?F = "filter (\<lambda>p. Q (snd p)) es"
  have inj: "inj ?K"
    using balances.key_same [of E] assms(1) by (auto intro!: injI)
  have mem: "(k, v) \<in> set es \<longleftrightarrow> view E s k = Some v \<and> balance_range k" for k v
    using l by (simp add: listing_def)
  have img: "?K ` ?S = fst ` set ?F"
  proof (intro equalityI subsetI)
    fix k assume "k \<in> ?K ` ?S"
    then obtain a x v where "k = key_for_account_balance E a x" "view E s k = Some v" "Q v" by auto
    then have "(k, v) \<in> set ?F" using mem balance_in_range by simp
    then show "k \<in> fst ` set ?F" by force
  next
    fix k assume "k \<in> fst ` set ?F"
    then obtain v where v: "view E s k = Some v" "balance_range k" "Q v" using mem by auto
    with own obtain a x where "k = key_for_account_balance E a x" by blast
    with v show "k \<in> ?K ` ?S" by (auto intro!: image_eqI [of _ _ "(a, x)"])
  qed
  have "distinct (map fst es)" using l by (simp add: listing_def strict_sorted_iff)
  then have dist: "distinct (map fst ?F)" by (rule distinct_map_filter)
  have "card (?K ` ?S) = card ?S" using inj by (intro card_image) (auto intro: inj_on_subset)
  moreover have "card (fst ` set ?F) = length ?F"
    using distinct_card [OF dist] by simp
  ultimately show "card ?S = length ?F" by (simp add: img)
  have "finite (?K ` ?S)" unfolding img by simp
  then show "finite ?S" using inj by (auto intro: finite_imageD inj_on_subset)
qed

section \<open>What the token migration makes of the account numbers\<close>

lemma account_identity_moved:
  assumes E: "env_ok E" and ok: "migrate_account_identity E m = (Inr (), m')"
  obtains v a n where "mview E m IDENTITY_ROOT = Some v" and "address_from_bytes E v = Inr a"
    and "(case mview E m ACCOUNT_SUBRESOURCE_ID_ROOT of None \<Rightarrow> Inr 0 | Some w \<Rightarrow> u32_of E w) = Inr n"
    and "mview E m' = (mview E m)(ACCOUNT_SUBRESOURCE_ID_ROOT := None, ACCOUNT_IDENTITY_ROOT \<mapsto> v,
       key_for_subresource_counter E a True \<mapsto> of_bytes E (u32_be n))"
proof -
  have st: "store_ok E" using E by simp
  have sorted: "batch_ok [(ACCOUNT_SUBRESOURCE_ID_ROOT, Delete), (ACCOUNT_IDENTITY_ROOT, Put v),
      (key_for_subresource_counter E a True, Put w)]" for v w :: 'b and a
    by (simp add: batch_ok_def key_defs less_char_def)
  from ok obtain v a n where v: "mview E m IDENTITY_ROOT = Some v" "address_from_bytes E v = Inr a"
    "(case mview E m ACCOUNT_SUBRESOURCE_ID_ROOT of None \<Rightarrow> Inr 0 | Some w \<Rightarrow> u32_of E w) = Inr n"
    and m': "m' = snd (merk_apply E m [(ACCOUNT_SUBRESOURCE_ID_ROOT, Delete), (ACCOUNT_IDENTITY_ROOT, Put v),
      (key_for_subresource_counter E a True, Put (of_bytes E (u32_be n)))])"
    using st sorted
    by (auto simp: migrate_account_identity_def run from_many_def ok_or_def
        split: option.splits sum.splits)
  have "mview E m' = (mview E m)(ACCOUNT_SUBRESOURCE_ID_ROOT := None, ACCOUNT_IDENTITY_ROOT \<mapsto> v,
      key_for_subresource_counter E a True \<mapsto> of_bytes E (u32_be n))"
    unfolding m' using merk_apply_ok(2) [OF st sorted] by simp
  with v that show ?thesis by blast
qed

lemma token_moved:
  assumes E: "env_ok E" and ok: "migrate_token E extra m = (Inr (), m')"
  obtains x t i symb where "from_value (json_string E) extra ''token_identity'' = Inr x"
    and "address_from_str E x = Inr t"
    and "\<And>k. k \<notin> {key_for_ext_info E symb, key_for_subresource_counter E t True, key_for_symbol E symb,
       TOKEN_IDENTITY_ROOT} \<Longrightarrow> mview E m' k = mview E m k"
proof -
  have st: "store_ok E" using E by simp
  have sorted: "batch_ok [(key_for_ext_info E symb, Put u), (key_for_subresource_counter E t True, Put v),
      (key_for_symbol E symb, Put w), (TOKEN_IDENTITY_ROOT, Put y)]" for u v w y :: 'b and symb t
    by (simp add: batch_ok_def key_defs less_char_def)
  from ok obtain x t symb u v w y where "from_value (json_string E) extra ''token_identity'' = Inr x"
      and "address_from_str E x = Inr t"
      and m': "m_apply E [(key_for_ext_info E symb, Put u), (key_for_subresource_counter E t True, Put v),
      (key_for_symbol E symb, Put w), (TOKEN_IDENTITY_ROOT, Put y)] m = (Inr (), m')"
    by (auto simp: migrate_token_def okD from_many_ok m_run [OF st] ok_or_def split: option.splits)
  moreover have "mview E m' k = mview E m k"
    if "k \<notin> {key_for_ext_info E symb, key_for_subresource_counter E t True, key_for_symbol E symb,
       TOKEN_IDENTITY_ROOT}" for k
    using m' that merk_apply_ok(2) [OF st sorted] by (auto simp: m_run [OF st] sorted)
  ultimately show ?thesis using that by blast
qed

text \<open>
  The token migration does not restart the numbers of accounts: when every account of a store
  had its address handed out for a number below the old counter, it still has once the migration
  has run and is active, so no later account takes the address of an earlier one. The migration's
  parameters must name a token identity that is not the server's.
\<close>

lemma account_numbers_continue:
  assumes "env_ok E" and "accounts_issued E s"
    and "\<not> token_migration_active E s" and "token_migration_active E s'"
    and "view E s ACCOUNT_IDENTITY_ROOT = None"
    and "tokens_initialize E extra (persistent_store s) = (Inr (), persistent_store s')"
    and "from_value (json_string E) extra ''token_identity'' = Inr x" and "address_from_str E x = Inr t"
    and "sub_identity E s ACCOUNT_IDENTITY_ROOT \<noteq> Inr t"
  shows "accounts_issued E s'"
proof -
  let ?m = "persistent_store s"
  have st: "store_ok E" using assms(1) by simp
  from assms(6) obtain m1 where m1: "migrate_account_identity E ?m = (Inr (), m1)"
    and m2: "migrate_token E extra m1 = (Inr (), persistent_store s')"
    by (auto simp: tokens_initialize_def okD)
  obtain v a n where v: "view E s IDENTITY_ROOT = Some v" "address_from_bytes E v = Inr a"
    and n: "(case view E s ACCOUNT_SUBRESOURCE_ID_ROOT of None \<Rightarrow> Inr 0 | Some w \<Rightarrow> u32_of E w) = Inr n"
    and w1: "mview E m1 = (view E s)(ACCOUNT_SUBRESOURCE_ID_ROOT := None, ACCOUNT_IDENTITY_ROOT \<mapsto> v,
       key_for_subresource_counter E a True \<mapsto> of_bytes E (u32_be n))"
    using account_identity_moved [OF assms(1) m1] unfolding view_def .
  obtain symb where w2: "\<And>k. k \<notin> {key_for_ext_info E symb, key_for_subresource_counter E t True,
      key_for_symbol E symb, TOKEN_IDENTITY_ROOT} \<Longrightarrow> view E s' k = mview E m1 k"
    using token_moved [OF assms(1) m2] assms(7,8) unfolding view_def by (metis sum.inject(2))
  have old: "sub_identity E s ACCOUNT_IDENTITY_ROOT = Inr a" "sub_counter E s a = Inr n"
    using v n assms(3,5) by (simp_all add: sub_identity_def sub_counter_def key_for_subresource_counter_def)
  have at: "a \<noteq> t" using old(1) assms(9) by auto
  have "view E s' ACCOUNT_IDENTITY_ROOT = Some v"
    by (subst w2) (simp_all add: w1 key_defs)
  moreover have "view E s' (key_for_subresource_counter E a True) = Some (of_bytes E (u32_be n))"
  proof -
    have "key_for_subresource_counter E a True \<noteq> key_for_subresource_counter E t True"
      using at assms(1) by simp
    moreover have "key_for_subresource_counter E a True \<noteq> key_for_ext_info E symb"
      "key_for_subresource_counter E a True \<noteq> key_for_symbol E symb"
      "key_for_subresource_counter E a True \<noteq> TOKEN_IDENTITY_ROOT" by (simp_all add: key_defs)
    ultimately show ?thesis by (subst w2) (simp_all add: w1)
  qed
  moreover have "view E s' (key_for_account E i) = view E s (key_for_account E i)" for i
  proof -
    have "key_for_account E i \<noteq> ACCOUNT_SUBRESOURCE_ID_ROOT" by (simp add: key_defs)
    then show ?thesis by (subst w2) (simp_all add: w1)
  qed
  ultimately show ?thesis
    using assms(2,4) old v st unfolding accounts_issued_def
    by (simp add: sub_identity_def sub_counter_def)
qed

definition ref_extra :: "string \<Rightarrow> json option" where
  "ref_extra k = Some (if k = ''token_identity'' then 5 else 7)"

abbreviation ref_before :: "(ref_store, string list) ledger" where
  "ref_before \<equiv> ref_ledger [(IDENTITY_ROOT, RAddress 2), (SYMBOLS_ROOT, RSymbols [(7, ''S'')]),
     (ACCOUNT_SUBRESOURCE_ID_ROOT, RBytes (u32_be 2)), (key_for_account ref_env 301, RAmount 0)] []"

lemma ref_tokens_initialize:
  "\<exists>m'. tokens_initialize ref_env ref_extra (persistent_store ref_before) = (Inr (), m')"
proof -
  define m where "m = persistent_store ref_before"
  have v: "mview ref_env m IDENTITY_ROOT = Some (RAddress 2)" "mview ref_env m SYMBOLS_ROOT = Some (RSymbols [(7, ''S'')])"
    "mview ref_env m ACCOUNT_SUBRESOURCE_ID_ROOT = Some (RBytes (u32_be 2))"
    by (simp_all add: m_def key_defs)
  define m1 where "m1 = snd (migrate_account_identity ref_env m)"
  have st: "store_ok ref_env" by (rule ref_store_ok)
  have b: "batch_ok [(ACCOUNT_SUBRESOURCE_ID_ROOT, Delete), (ACCOUNT_IDENTITY_ROOT, Put u),
      (key_for_subresource_counter ref_env a True, Put w)]" for u w :: ref_value and a
    by (simp add: batch_ok_def key_defs less_char_def)
  have 1: "migrate_account_identity ref_env m = (Inr (), m1)"
    using v unfolding m1_def
    by (simp add: migrate_account_identity_def run m_run [OF st] ok_or_def b u32_of_def del: ref_mview)
  have "mview ref_env m1 SYMBOLS_ROOT = Some (RSymbols [(7, ''S'')])"
  proof -
    obtain u a n where "mview ref_env m1 = (mview ref_env m)(ACCOUNT_SUBRESOURCE_ID_ROOT := None,
        ACCOUNT_IDENTITY_ROOT \<mapsto> u, key_for_subresource_counter ref_env a True \<mapsto> of_bytes ref_env (u32_be n))"
      using account_identity_moved [OF ref_env_ok 1] by metis
    with v(2) show ?thesis by (simp add: key_defs del: ref_mview)
  qed
  moreover have "batch_ok [(key_for_ext_info ref_env symb, Put u), (key_for_subresource_counter ref_env t True, Put w),
      (key_for_symbol ref_env symb, Put x), (TOKEN_IDENTITY_ROOT, Put y)]" for u w x y :: ref_value and symb t
    by (simp add: batch_ok_def key_defs less_char_def)
  moreover have "json_string ref_env = (\<lambda>j. Inr (replicate (Suc j) (CHR ''m'')))" "json_u32 ref_env = (\<lambda>j. Inr (word_of_nat j))"
    "json_u64 ref_env = (\<lambda>j. Inr (word_of_nat j))" "json_amount ref_env = Inr"
    "json_amount_opt ref_env = (\<lambda>j. Inr (if j = 0 then None else Some j))"
    "json_address_opt ref_env = (\<lambda>j. Inr (if j = 0 then None else Some j))"
    "address_from_str ref_env = (\<lambda>t. Inr (length t - 1))" by (simp_all add: ref_env_def)
  ultimately have "\<exists>m'. migrate_token ref_env ref_extra m1 = (Inr (), m')"
    by (simp add: migrate_token_def run m_run [OF st] ok_or_def from_value_def extra_at_def ref_extra_def
        migration_params_def migrated_token_info_def ref_codecs tagged_def encode_def decode_def del: ref_mview)
  with 1 show ?thesis by (simp add: tokens_initialize_def run m_def)
qed

lemma account_numbers_continue_witness:
  "accounts_issued ref_env ((ref_ledger [] [TOKEN_MIGRATION])\<lparr>persistent_store :=
     snd (tokens_initialize ref_env ref_extra (persistent_store ref_before))\<rparr>)"
proof (rule account_numbers_continue [of _ ref_before _ ref_extra "replicate 6 (CHR ''m'')" 5])
  have *: "key_for_account ref_env i = key_for_account ref_env 301 \<longleftrightarrow> i = 301" for i
    using ref_env_ok by (intro account_key_inj) simp
  have "view ref_env ref_before (key_for_account ref_env i) \<noteq> None \<Longrightarrow> i = 301" for i
    by (auto simp: * split: if_splits)
  moreover have "with_subresource_id ref_env 2 1 = Inr 301" "(1 :: u32) < 2" by simp_all
  moreover have "sub_identity ref_env ref_before ACCOUNT_IDENTITY_ROOT = Inr 2"
    by (simp add: sub_identity_def key_defs)
  moreover have "sub_counter ref_env ref_before 2 = Inr 2"
    by (simp add: sub_counter_def token_migration_active_def key_defs u32_of_def)
  ultimately show "accounts_issued ref_env ref_before" unfolding accounts_issued_def by metis
  show "sub_identity ref_env ref_before ACCOUNT_IDENTITY_ROOT \<noteq> Inr 5"
    by (simp add: sub_identity_def key_defs)
  show "view ref_env ref_before ACCOUNT_IDENTITY_ROOT = None" by (simp add: key_defs)
  show "tokens_initialize ref_env ref_extra (persistent_store ref_before) = (Inr (), persistent_store
     ((ref_ledger [] [TOKEN_MIGRATION])\<lparr>persistent_store :=
     snd (tokens_initialize ref_env ref_extra (persistent_store ref_before))\<rparr>))"
    using ref_tokens_initialize by auto
  have j: "json_string ref_env 5 = Inr (replicate 6 (CHR ''m''))" "address_from_str ref_env y = Inr (length y - 1)" for y
    unfolding ref_env_def by (simp_all add: replicate_Suc [of 5, symmetric])
  show "from_value (json_string ref_env) ref_extra ''token_identity'' = Inr (replicate 6 (CHR ''m''))"
    using j(1) by (simp add: from_value_def extra_at_def ref_extra_def)
  show "address_from_str ref_env (replicate 6 (CHR ''m'')) = Inr 5" by (simp add: j)
qed (simp_all add: token_migration_active_def)

section \<open>What the other migrations achieve\<close>

text \<open>
  C29. The memo migration rewrites exactly the submissions and the multisig transactions with an old memo
  or old data and no memo: each gets the memo made of its old fields (an old memo alone, old data
  alone, or the memo with the data pushed to it), and the old fields become empty; every other entry
  of the store keeps its value, and no entry appears or goes. It succeeds exactly when all events and
  entries can be read and wherever both fields are there the data can be pushed; when an event is
  in the way nothing has changed, when a multisig transaction is, the events have been rewritten.
\<close>

theorem memo_migration_exact:
  assumes "env_ok E" and "disk_ok E D" and "D m = mview E m"
  shows "case memo_initialize E m of
      (Inr _, m') \<Rightarrow> events_movable E m \<and> entries_movable E m \<and>
        (\<forall>k. mview E m' k = map_option (modern_value E k) (mview E m k))
    | (Inl _, m') \<Rightarrow> \<not> (events_movable E m \<and> entries_movable E m) \<and>
        (\<forall>k. mview E m' k = (if events_movable E m \<and> event_range E k
           then map_option (modern_value E k) (mview E m k) else mview E m k))"
proof (cases "events_movable E m")
  case False
  with memo_initialize_run(1) [OF assms False] show ?thesis by auto
next
  case True
  show ?thesis
  proof (cases "entries_movable E m")
    case False
    with True memo_initialize_run(2) [OF assms True False] show ?thesis by auto
  next
    case True
    with \<open>events_movable E m\<close> memo_initialize_run(3) [OF assms \<open>events_movable E m\<close> True] show ?thesis by auto
  qed
qed

text \<open>
  Running the memo migration a second time changes nothing more: it is the function that
  makes every entry modern, and a modern entry is left alone.
\<close>

theorem memo_migration_idempotent:
  assumes "env_ok E" and "disk_ok E D" and "D m = mview E m" and "events_movable E m" and "entries_movable E m"
  shows "mview E (snd (memo_initialize E (snd (memo_initialize E m)))) = mview E (snd (memo_initialize E m))"
proof -
  obtain m1 where m1: "memo_initialize E m = (Inr (), m1)" "D m1 = mview E m1"
    and v1: "\<And>k. mview E m1 k = map_option (modern_value E k) (mview E m k)"
    using memo_initialize_run(3) [OF assms] by blast
  obtain m2 where m2: "memo_initialize E m1 = (Inr (), m2)"
    and v2: "\<And>k. mview E m2 k = map_option (modern_value E k) (mview E m1 k)"
    using memo_initialize_run(3) [OF assms(1,2) m1(2)] modern_movable [OF assms(1,4,5) v1] by blast
  have "mview E m2 k = mview E m1 k" for k
    using modern_value_idem [OF assms(1)] by (cases "mview E m k") (simp_all add: v1 v2)
  with m1 m2 show ?thesis by (simp add: ext)
qed

text \<open>
  C24. The counts that the data migration stores are exact: the number of balance entries, and
  of those above zero. This is the state from which a transfer keeps them exact.
\<close>

theorem data_migration_exact:
  fixes E :: "('m, 'v, 'g) env"
  assumes "env_ok E" and "account_indices_ok E" and "disk_ok E D" and "D (persistent_store s) = view E s"
    and "\<forall>k v. view E s k = Some v \<longrightarrow> balance_range k \<longrightarrow> (\<exists>a x. k = key_for_account_balance E a x)"
  shows "counts_exact E (s\<lparr>persistent_store := snd (data_initialize E (persistent_store s))\<rparr>) \<and>
    attributes E (s\<lparr>persistent_store := snd (data_initialize E (persistent_store s))\<rparr>) \<noteq> None"
proof -
  have st: "store_ok E" using assms(1) by simp
  let ?m = "persistent_store s"
  from assms(3) obtain es where l: "listing (D ?m) balance_range es"
    and it: "merk_iter_prefix E ?m BALANCES_ROOT_BYTES False = map Inr es"
    unfolding disk_ok_def balance_range_def by blast
  from l have lv: "listing (view E s) balance_range es" by (simp add: assms(4))
  have own: "\<exists>a x. k = key_for_account_balance E a x" if "balance_range k" "view E s k = Some v" for k v
    using that assms(5) by blast
  note card = card_listed [OF assms(1) lv own]
  have H: "card (holdings E s) = length es" "finite (holdings E s)"
    using card [where Q = "\<lambda>_. True"] by (simp_all add: holdings_def)
  have F: "card (funded E s) = length (filter (\<lambda>p. amount_from E (snd p) \<noteq> 0) es)"
    using card(1) [where Q = "\<lambda>v. amount_from E v \<noteq> 0"] by (simp add: funded_def)
  define vals where "vals = initial_data_value E (of_nat (length es))
    (of_nat (length (filter (\<lambda>p. amount_from E (snd p) \<noteq> 0) es)))"
  define m' where "m' = snd (data_initialize E ?m)"
  have less: "DATA_ATTRIBUTES_KEY < DATA_INFO_KEY" by (simp add: key_defs less_char_def)
  then have sorted: "batch_ok [(DATA_ATTRIBUTES_KEY, Put u), (DATA_INFO_KEY, Put v)]" for u v :: 'v
    by simp
  have "m' = snd (merk_apply E ?m [(DATA_ATTRIBUTES_KEY, Put (enc_val (c_data_attributes E) vals)),
      (DATA_INFO_KEY, Put (enc_val (c_data_info E) (initial_data_info E)))])"
    using assms(1) by (simp add: m'_def data_initialize_def get_data_from_db_def it count_items_run run vals_def
        less m_run [OF st] encode_run)
  then have v: "mview E m' = (view E s)(DATA_ATTRIBUTES_KEY \<mapsto> enc_val (c_data_attributes E) vals,
      DATA_INFO_KEY \<mapsto> enc_val (c_data_info E) (initial_data_info E))"
    using merk_apply_ok(2) [OF st sorted] by (simp add: view_def)
  let ?s = "s\<lparr>persistent_store := m'\<rparr>"
  have b: "view E ?s (key_for_account_balance E a x) = view E s (key_for_account_balance E a x)" for a x
    by (simp add: view_def v)
  have "holdings E ?s = holdings E s" "funded E ?s = funded E s"
    by (simp_all add: holdings_def funded_def b)
  moreover have at: "attributes E ?s = Some vals"
    using assms(1) by (simp add: attributes_def view_def v key_defs)
  moreover have "map_of vals (ACCOUNT_TOTAL_COUNT_INDEX E) = Some (Counter (of_nat (length es)))"
    "map_of vals (NON_ZERO_ACCOUNT_TOTAL_COUNT_INDEX E) =
       Some (Counter (of_nat (length (filter (\<lambda>p. amount_from E (snd p) \<noteq> 0) es))))"
    using assms(2) by (simp_all add: vals_def initial_data_value_def account_indices_ok_def)
  ultimately show ?thesis using H F by (simp add: counts_exact_def m'_def [symmetric])
qed

section \<open>Witnesses\<close>

abbreviation old_submit :: event_log where
  "old_submit \<equiv> \<lparr>ev_id = [CHR 0x01], ev_time = 3, ev_content =
     EvMultisigSubmit 2 101 (Some ''pay'') (TxAccountDisable 102) (Some [CHR 0x01]) 2 9 False (Some ''x'') None\<rparr>"

abbreviation old_store :: ref_store where
  "old_store \<equiv> \<lparr>work = [(key_for_event [CHR 0x01], REvent old_submit), (HEIGHT_ROOT, RAmount 3)],
     disk = [(key_for_event [CHR 0x01], REvent old_submit), (HEIGHT_ROOT, RAmount 3)]\<rparr>"

lemma event_in_range: "event_range E (key_for_event i)"
  unfolding event_range_def using event_key_less_end by (simp add: key_for_event_def EVENTS_ROOT_def)

lemma old_store_movable: "events_movable ref_env old_store \<and> entries_movable ref_env old_store"
proof -
  have "\<not> event_range ref_env HEIGHT_ROOT" "\<not> multisig_range HEIGHT_ROOT"
    by (simp_all add: event_range_def multisig_range_def events_upper_def key_defs less_char_def)
  moreover have "\<not> multisig_range (key_for_event i)" for i
    using event_in_range ranges_apart by blast
  moreover have "event_movable ref_env (REvent old_submit)"
    by (simp add: event_movable_def ref_codecs tagged_def joinable_def joined_def ref_env_def)
  ultimately show ?thesis unfolding events_movable_def entries_movable_def by (auto split: if_splits)
qed

lemma memo_migration_exact_witness:
  "\<exists>m'. memo_initialize ref_env old_store = (Inr (), m') \<and>
    mview ref_env m' (key_for_event [CHR 0x01]) = Some (REvent (old_submit\<lparr>ev_content :=
      EvMultisigSubmit 2 101 None (TxAccountDisable 102) (Some [CHR 0x01]) 2 9 False None (Some [''pay'', ''x''])\<rparr>))"
proof -
  have c: "dec (c_event ref_env) (REvent old_submit) = Inr old_submit"
    "enc_val (c_event ref_env) e = REvent e" for e
    by (simp_all add: ref_codecs tagged_def enc_val_def)
  have "moved_memo ref_env (Some ''pay'') (Some ''x'') = Some [''pay'', ''x'']"
    by (simp add: joined_def ref_env_def)
  then have "modern_event ref_env old_submit = old_submit\<lparr>ev_content :=
      EvMultisigSubmit 2 101 None (TxAccountDisable 102) (Some [CHR 0x01]) 2 9 False None (Some [''pay'', ''x''])\<rparr>"
    by (simp add: modern_event_def)
  then have "modern_value ref_env (key_for_event [CHR 0x01]) (REvent old_submit) = REvent (old_submit\<lparr>ev_content :=
      EvMultisigSubmit 2 101 None (TxAccountDisable 102) (Some [CHR 0x01]) 2 9 False None (Some [''pay'', ''x''])\<rparr>)"
    by (simp add: modern_value_def event_in_range rewritten_def c)
  then show ?thesis
    using memo_migration_exact [OF ref_env_ok ref_disk_ok, of old_store] old_store_movable
    by (auto split: prod.splits sum.splits)
qed

lemma memo_migration_idempotent_witness:
  "mview ref_env (snd (memo_initialize ref_env (snd (memo_initialize ref_env old_store)))) =
   mview ref_env (snd (memo_initialize ref_env old_store))"
  by (rule memo_migration_idempotent [OF ref_env_ok ref_disk_ok _ conjunct1 [OF old_store_movable]
      conjunct2 [OF old_store_movable]]) simp

abbreviation two_balances :: "(bytes \<times> ref_value) list" where
  "two_balances \<equiv> [(key_for_account_balance ref_env 2 7, RAmount 20), (key_for_account_balance ref_env 3 7, RAmount 0)]"

lemma data_migration_exact_witness:
  "counts_exact ref_env ((ref_ledger two_balances [])\<lparr>persistent_store :=
     snd (data_initialize ref_env (persistent_store (ref_ledger two_balances [])))\<rparr>) \<and>
   attributes ref_env ((ref_ledger two_balances [])\<lparr>persistent_store :=
     snd (data_initialize ref_env (persistent_store (ref_ledger two_balances [])))\<rparr>) \<noteq> None"
  by (rule data_migration_exact [OF ref_env_ok ref_account_indices_ok ref_disk_ok]) (auto split: if_splits)

end
