(* ===== verification/IdStore.thy ===== *)
theory IdStore
  imports Abci
begin

text \<open>
  The identity store: \<open>storage/idstore.rs\<close>, \<open>module/idstore.rs\<close> and the exporter
  \<open>idstore-export/src/main.rs\<close>. A credential is kept under the recall phrase that a counter
  generates and under the address it belongs to. The lemmas show that what is stored is found
  again, that a phrase never changes hands, and that an export can be imported.
\<close>

section \<open>Keys\<close>

definition IDSTORE_ROOT :: bytes where
  "IDSTORE_ROOT = ''/idstore/''"

definition IDSTORE_SEED_ROOT :: bytes where
  "IDSTORE_SEED_ROOT = ''/config/idstore_seed''"

datatype root_separator = SepRecallPhrase | SepAddress

fun separator_value :: "root_separator \<Rightarrow> bytes" where
  "separator_value SepRecallPhrase = ''00''"
| "separator_value SepAddress = ''01''"

definition idstore_key :: "root_separator \<Rightarrow> bytes \<Rightarrow> bytes" where
  "idstore_key sep k = IDSTORE_ROOT @ separator_value sep @ k"

section \<open>Storage\<close>

primrec decode_keys :: "('m, 'v, 'g) env \<Rightarrow> (string \<times> string) list \<Rightarrow> (bytes \<times> bytes) list res" where
  "decode_keys E [] = Inr []"
| "decode_keys E (kv # kvs) = (case base64_decode E (fst kv) of
       None \<Rightarrow> Inl (Panic ''Invalid base64 for key'')
     | Some k \<Rightarrow> (case base64_decode E (snd kv) of
           None \<Rightarrow> Inl (Panic ''Invalid base64 for value'')
         | Some v \<Rightarrow> rbind (decode_keys E kvs) (\<lambda>m. Inr ((k, v) # m))))"

text \<open>\<open>collect::<BTreeMap<_, _>>()\<close>: a later pair replaces an earlier one of the same key.\<close>

definition bt_collect :: "('k::linorder \<times> 'v) list \<Rightarrow> ('k \<times> 'v) list" where
  "bt_collect xs = fold (\<lambda>(k, v). bt_insert k v) xs []"

definition with_idstore :: "('m, 'v, 'g) env \<Rightarrow> u64 option \<Rightarrow> (string \<times> string) list option \<Rightarrow>
    ('m, 'g, unit) ledger_op" where
  "with_idstore E maybe_seed maybe_keys =
     bnd (lift (case maybe_keys of None \<Rightarrow> Inr None
       | Some keys \<Rightarrow> rbind (decode_keys E keys) (\<lambda>kvs. Inr (Some (bt_collect kvs))))) (\<lambda>keys.
     db_apply E apply_failed
       ((case maybe_seed of None \<Rightarrow> []
          | Some seed \<Rightarrow> [(IDSTORE_SEED_ROOT, Put (of_bytes E (u64_be seed)))])
        @ (case keys of None \<Rightarrow> []
          | Some kvs \<Rightarrow> map (\<lambda>(k, v). (k, Put (of_bytes E v))) kvs)))"

definition inc_idstore_seed :: "('m, 'v, 'g) env \<Rightarrow> ('m, 'g, u64) ledger_op" where
  "inc_idstore_seed E =
     bnd (db_get E get_failed IDSTORE_SEED_ROOT) (\<lambda>x.
     bnd (case x of None \<Rightarrow> ret 0 | Some v \<Rightarrow> lift (u64_of E v)) (\<lambda>seed.
     andthen (db_apply E apply_failed [(IDSTORE_SEED_ROOT, Put (of_bytes E (u64_be (seed + 1))))])
     (andthen (maybe_commit E) (ret seed))))"

definition phrase_cbor :: "('m, 'v, 'g) env \<Rightarrow> string list \<Rightarrow> bytes res" where
  "phrase_cbor E phrase = map_err SerializationError (enc (c_recall_phrase E) phrase)"

definition address_bytes :: "('m, 'v, 'g) env \<Rightarrow> address \<Rightarrow> bytes" where
  "address_bytes E a = to_bytes E (address_to_vec E a)"

definition store_credential :: "('m, 'v, 'g) env \<Rightarrow> string list \<Rightarrow> address \<Rightarrow> bytes \<Rightarrow> bytes \<Rightarrow>
    ('m, 'g, unit) ledger_op" where
  "store_credential E phrase address cid pk =
     bnd (lift (phrase_cbor E phrase)) (\<lambda>recall_phrase_cbor.
     bnd (db_get E get_failed recall_phrase_cbor) (\<lambda>x.
     if x \<noteq> None then raise (IdStoreError ExistingEntry)
     else bnd (encode (c_credential E) \<lparr>cred_id = cid, public_key = pk\<rparr>) (\<lambda>value.
       andthen (db_apply E apply_failed
         [(idstore_key SepRecallPhrase recall_phrase_cbor, Put value),
          (idstore_key SepAddress (address_bytes E address), Put value)])
       (maybe_commit E))))"

definition get_from_storage :: "('m, 'v, 'g) env \<Rightarrow> bytes \<Rightarrow> root_separator \<Rightarrow> ('m, 'g, 'v option) ledger_op" where
  "get_from_storage E key sep = db_get E get_failed (idstore_key sep key)"

text \<open>\<open>recall_phrase.join(" ")\<close>.\<close>

fun join_words :: "string list \<Rightarrow> string" where
  "join_words [] = ''''"
| "join_words [w] = w"
| "join_words (w # ws) = w @ '' '' @ join_words ws"

definition found_credential :: "('m, 'v, 'g) env \<Rightarrow> string \<Rightarrow> 'v option \<Rightarrow> ('m, 'g, bytes \<times> bytes) ledger_op" where
  "found_credential E missing x = (case x of
       Some value \<Rightarrow> bnd (decode (c_credential E) value) (\<lambda>c. ret (cred_id c, public_key c))
     | None \<Rightarrow> raise (IdStoreError (EntryNotFound missing)))"

definition get_from_recall_phrase :: "('m, 'v, 'g) env \<Rightarrow> string list \<Rightarrow> ('m, 'g, bytes \<times> bytes) ledger_op" where
  "get_from_recall_phrase E phrase =
     bnd (lift (phrase_cbor E phrase)) (\<lambda>cbor.
     bnd (get_from_storage E cbor SepRecallPhrase) (found_credential E (join_words phrase)))"

definition get_from_address :: "('m, 'v, 'g) env \<Rightarrow> address \<Rightarrow> ('m, 'g, bytes \<times> bytes) ledger_op" where
  "get_from_address E address =
     bnd (get_from_storage E (address_bytes E address) SepAddress)
       (found_credential E (show_address E address))"

section \<open>Recall phrases\<close>

text \<open>\<open>str::split_whitespace\<close> on ASCII text.\<close>

definition is_space :: "char \<Rightarrow> bool" where
  "is_space c \<longleftrightarrow> c \<in> set [CHR 0x09, CHR 0x0A, CHR 0x0B, CHR 0x0C, CHR 0x0D, CHR 0x20]"

function split_whitespace :: "string \<Rightarrow> string list" where
  "split_whitespace [] = []"
| "split_whitespace (c # cs) = (if is_space c then split_whitespace cs
     else (c # takeWhile (Not \<circ> is_space) cs) # split_whitespace (dropWhile (Not \<circ> is_space) cs))"
  by pat_completeness auto
termination
  by (relation "measure length") (auto simp: length_dropWhile_le le_imp_less_Suc)

definition generate_recall_phrase :: "('m, 'v, 'g) env \<Rightarrow> nat \<Rightarrow> nat \<Rightarrow> nat \<Rightarrow> bytes \<Rightarrow> string list res" where
  "generate_recall_phrase E W FB CS seed = (case entropy_from_slice E FB seed of
       None \<Rightarrow> Inl (Err (Unknown ''Unable to generate entropy''))
     | Some entropy \<Rightarrow> (case to_mnemonics E W FB CS entropy of
           None \<Rightarrow> Inl (Panic ''unwrap'')
         | Some mnemonic \<Rightarrow> Inr (split_whitespace mnemonic)))"

text \<open>The number of words, of bytes and of checksum bits, and the bytes, by the size of the seed.\<close>

definition phrase_shape :: "u64 \<Rightarrow> (nat \<times> nat \<times> nat \<times> bytes) option" where
  "phrase_shape seed =
     (if seed \<le> 0xFFFF then Some (2, 2, 6, drop 6 (u64_be seed))
      else if seed \<le> 0xFFFFFF then Some (3, 4, 1, drop 4 (u64_be seed))
      else if seed \<le> 0xFFFFFFFF then Some (4, 5, 4, drop 3 (u64_be seed))
      else if seed \<le> 0xFFFFFFFFFF then Some (5, 6, 7, drop 2 (u64_be seed))
      else None)"

definition seed_phrase :: "('m, 'v, 'g) env \<Rightarrow> u64 \<Rightarrow> string list res" where
  "seed_phrase E seed = (case phrase_shape seed of
       None \<Rightarrow> Inl (Panic ''not implemented'')
     | Some (W, FB, CS, bs) \<Rightarrow> generate_recall_phrase E W FB CS bs)"

text \<open>The loop of \<open>store\<close>, with the number of tries left.\<close>

primrec find_phrase :: "('m, 'v, 'g) env \<Rightarrow> nat \<Rightarrow> ('m, 'g, string list) ledger_op" where
  "find_phrase E 0 = raise (IdStoreError RecallPhraseGenerationFailed)"
| "find_phrase E (Suc n) =
     bnd (inc_idstore_seed E) (\<lambda>seed.
     bnd (lift (seed_phrase E seed)) (\<lambda>phrase.
     bnd (attempt (get_from_recall_phrase E phrase)) (\<lambda>r.
     case r of Inr _ \<Rightarrow> find_phrase E n | Inl _ \<Rightarrow> ret phrase)))"

section \<open>The module\<close>

definition idstore_store :: "('m, 'v, 'g) env \<Rightarrow> address \<Rightarrow> address \<Rightarrow> bytes \<Rightarrow> bytes \<Rightarrow>
    ('m, 'g, string list) ledger_op" where
  "idstore_store E sender address cid pk =
     (if is_anonymous E sender then raise InvalidIdentity
      else if \<not> is_public_key E address then raise (IdStoreError (InvalidAddress (show_address E address)))
      else if \<not> (16 \<le> length cid \<and> length cid \<le> 1023)
        then raise (IdStoreError (InvalidCredentialId (hex_encode E cid)))
      else andthen (lift (map_err DeserializationError (cose_key_from E pk)))
        (bnd (find_phrase E 8) (\<lambda>phrase.
         andthen (store_credential E phrase address cid pk) (ret phrase))))"

definition idstore_get_from_recall_phrase :: "('m, 'v, 'g) env \<Rightarrow> string list \<Rightarrow> ('m, 'g, bytes \<times> bytes) ledger_op" where
  "idstore_get_from_recall_phrase E phrase = get_from_recall_phrase E phrase"

definition idstore_get_from_address :: "('m, 'v, 'g) env \<Rightarrow> address \<Rightarrow> ('m, 'g, bytes \<times> bytes) ledger_op" where
  "idstore_get_from_address E address = get_from_address E address"

section \<open>The exporter\<close>

record json_root =
  id_store_seed :: u64
  id_store_keys :: "(string \<times> string) list"

definition export_item :: "('m, 'v, 'g) env \<Rightarrow> string + bytes \<times> 'v \<Rightarrow> (string \<times> string) list \<Rightarrow>
    (string \<times> string) list res" where
  "export_item E item idstore = rbind (panic_on_err ''Error while reading the DB'' item) (\<lambda>kv.
     Inr (bt_insert (base64_encode E (fst kv)) (base64_encode E (to_bytes E (snd kv))) idstore))"

primrec export_items :: "('m, 'v, 'g) env \<Rightarrow> (string + bytes \<times> 'v) list \<Rightarrow> (string \<times> string) list \<Rightarrow>
    (string \<times> string) list res" where
  "export_items E [] idstore = Inr idstore"
| "export_items E (item # items) idstore = rbind (export_item E item idstore) (export_items E items)"

definition export_idstore :: "('m, 'v, 'g) env \<Rightarrow> 'm \<Rightarrow> json_root res" where
  "export_idstore E m =
     rbind (export_items E (merk_iter_prefix E m IDSTORE_ROOT False) []) (\<lambda>idstore.
     rbind (panic_on_err ''Could not read seed'' (merk_get E m IDSTORE_SEED_ROOT)) (\<lambda>x.
     rbind (case x of None \<Rightarrow> Inr 0 | Some v \<Rightarrow> u64_of E v) (\<lambda>seed.
     Inr \<lparr>id_store_seed = seed, id_store_keys = idstore\<rparr>)))"

section \<open>Lookups and keys\<close>

lemma recall_key_less [simp]: "idstore_key SepRecallPhrase x < idstore_key SepAddress y"
  by (simp add: idstore_key_def append_less_iff less_char_def)

lemma idstore_key_eq [simp]: "idstore_key sep x = idstore_key sep y \<longleftrightarrow> x = y"
  by (simp add: idstore_key_def)

lemma idstore_keys_apart [simp]:
  "idstore_key SepRecallPhrase x \<noteq> idstore_key SepAddress y"
  "idstore_key SepAddress y \<noteq> idstore_key SepRecallPhrase x"
  "idstore_key sep x \<noteq> IDSTORE_SEED_ROOT" "IDSTORE_SEED_ROOT \<noteq> idstore_key sep x"
  by (simp_all add: idstore_key_def IDSTORE_ROOT_def IDSTORE_SEED_ROOT_def)

text \<open>The entry under a phrase, whatever a failed lookup reports.\<close>

definition resolves :: "('m, 'v, 'g) env \<Rightarrow> ('m, 'g) ledger \<Rightarrow> string list \<Rightarrow> bytes \<times> bytes \<Rightarrow> bool" where
  "resolves E s phrase c \<longleftrightarrow> fst (get_from_recall_phrase E phrase s) = Inr c"

lemma found_credential_run:
  "found_credential E m x s = (case x of None \<Rightarrow> Inl (Err (IdStoreError (EntryNotFound m)))
     | Some v \<Rightarrow> (case dec (c_credential E) v of Inl e \<Rightarrow> Inl (Err (DeserializationError e))
         | Inr c \<Rightarrow> Inr (cred_id c, public_key c)), s)"
  by (simp add: found_credential_def decode_def run split: option.split sum.split)

lemma get_from_recall_phrase_run:
  assumes "store_ok E"
  shows "get_from_recall_phrase E p s = (case phrase_cbor E p of Inl f \<Rightarrow> (Inl f, s)
     | Inr k \<Rightarrow> found_credential E (join_words p) (view E s (idstore_key SepRecallPhrase k)) s)"
  using assms by (simp add: get_from_recall_phrase_def get_from_storage_def run split: sum.split)

lemma get_from_address_run:
  assumes "store_ok E"
  shows "get_from_address E a s =
    found_credential E (show_address E a) (view E s (idstore_key SepAddress (address_bytes E a))) s"
  using assms by (simp add: get_from_address_def get_from_storage_def run)

lemma resolves_iff:
  assumes "store_ok E"
  shows "resolves E s p c \<longleftrightarrow> (\<exists>k v x. phrase_cbor E p = Inr k \<and>
    view E s (idstore_key SepRecallPhrase k) = Some v \<and> dec (c_credential E) v = Inr x \<and>
    c = (cred_id x, public_key x))"
  using assms
  by (auto simp: resolves_def get_from_recall_phrase_run found_credential_run split: sum.splits option.splits)

lemma resolves_cong:
  assumes "store_ok E"
    and "\<And>k. view E t (idstore_key SepRecallPhrase k) = view E s (idstore_key SepRecallPhrase k)"
  shows "resolves E t p c \<longleftrightarrow> resolves E s p c"
  using assms by (simp add: resolves_iff)

lemma inc_seed_ok:
  assumes E: "store_ok E" and ok: "inc_idstore_seed E s = (r, t)"
  shows "k \<noteq> IDSTORE_SEED_ROOT \<Longrightarrow> view E t k = view E s k"
  using ok E by (auto simp: inc_idstore_seed_def run split: option.splits sum.splits)

lemma keeps_inc_seed:
  assumes "store_ok E"
  shows "keeps (\<lambda>s. resolves E s p c) (inc_idstore_seed E)"
  unfolding keeps_def
proof (intro allI impI)
  fix s assume r: "resolves E s p c"
  have "view E (snd (inc_idstore_seed E s)) (idstore_key SepRecallPhrase k) =
      view E s (idstore_key SepRecallPhrase k)" for k
    by (rule inc_seed_ok [OF assms surjective_pairing]) simp
  with r resolves_cong [OF assms] show "resolves E (snd (inc_idstore_seed E s)) p c" by blast
qed

lemma pure_recall: "pure_act (get_from_recall_phrase E p)"
  unfolding get_from_recall_phrase_def get_from_storage_def found_credential_def decode_def
  by (intro pure_bnd pure_lift) (auto simp: pure_act_def run db_get_def split: option.split sum.split)

lemma keeps_find_phrase:
  assumes "store_ok E"
  shows "keeps (\<lambda>s. resolves E s p c) (find_phrase E n)"
proof (induction n)
  case 0
  then show ?case by (simp add: keeps_throw)
next
  case (Suc n)
  then show ?case
    by (auto intro!: keeps_bnd keeps_lift keeps_inc_seed [OF assms] keeps_attempt keeps_sum keeps_ret
        pure_act_keeps [OF pure_recall])
qed

lemma find_phrase_free: "find_phrase E n s = (Inr p, t) \<Longrightarrow> \<not> resolves E t p c"
proof (induction n arbitrary: s)
  case 0
  then show ?case by (simp add: throw_run)
next
  case (Suc n)
  from Suc.prems obtain seed s1 q r s2 where "attempt (get_from_recall_phrase E q) s1 = (Inr r, s2)"
    and rest: "(case r of Inr _ \<Rightarrow> find_phrase E n | Inl _ \<Rightarrow> ret q) s2 = (Inr p, t)"
    by (auto simp: bnd_ok lift_ok)
  then have r: "r = (case fst (get_from_recall_phrase E q s1) of Inl (Err e) \<Rightarrow> Inl e | Inr x \<Rightarrow> Inr x)"
    and "s2 = s1" using pure_actD [OF pure_recall [of E q]]
    by (auto simp: attempt_def split: prod.splits sum.splits fault.splits)
  show ?case
  proof (cases r)
    case (Inl e)
    with rest have "p = q" "t = s1" using \<open>s2 = s1\<close> by (simp_all add: ret_ok)
    with r Inl show ?thesis by (auto simp: resolves_def)
  next
    case (Inr x)
    with rest Suc.IH show ?thesis by simp
  qed
qed

lemma store_credential_ok:
  assumes E: "store_ok E" "codec_ok (c_credential E)"
    and ok: "store_credential E p a cid pk s = (Inr (), t)"
  obtains k where "phrase_cbor E p = Inr k" and "view E s k = None"
    and "view E t = (view E s)
      (idstore_key SepRecallPhrase k \<mapsto> enc_val (c_credential E) \<lparr>cred_id = cid, public_key = pk\<rparr>,
       idstore_key SepAddress (address_bytes E a) \<mapsto> enc_val (c_credential E) \<lparr>cred_id = cid, public_key = pk\<rparr>)"
proof -
  from ok obtain k where k: "phrase_cbor E p = Inr k" "view E s k = None"
    using E(1) by (auto simp: store_credential_def bnd_ok lift_ok db_get_run throw_ok split: if_splits)
  have "t = maybe_committed E (applied E
      [(idstore_key SepRecallPhrase k, Put (enc_val (c_credential E) \<lparr>cred_id = cid, public_key = pk\<rparr>)),
       (idstore_key SepAddress (address_bytes E a),
          Put (enc_val (c_credential E) \<lparr>cred_id = cid, public_key = pk\<rparr>))] s)"
    using ok k E by (simp add: store_credential_def run)
  with E(1) k that show ?thesis by simp
qed

lemma store_credential_fail:
  assumes E: "store_ok E" "codec_ok (c_credential E)"
    and "store_credential E p a cid pk s = (Inl e, t)"
  shows "t = s"
  using assms by (auto simp: store_credential_def run split: sum.splits if_splits)

lemma be_nat_drop: "be_nat (drop k bs) = be_nat bs mod 256 ^ (length bs - k)"
proof -
  have "be_nat bs = be_nat (take k bs) * 256 ^ (length bs - k) + be_nat (drop k bs)"
    using be_nat_append [of "take k bs" "drop k bs"] by simp
  moreover have "be_nat (drop k bs) < 256 ^ (length bs - k)"
    using be_nat_bound [of "drop k bs"] by simp
  ultimately show ?thesis by simp
qed

lemma be_nat_u64: "be_nat (be_bytes 8 (unat (w :: u64))) = unat w"
proof -
  have "unat w < 256 ^ 8" using unsigned_less [of w] by simp
  then show ?thesis by (rule be_nat_be_bytes)
qed

section \<open>Collecting a map\<close>

lemma set_bt_insert_fresh: "k \<notin> fst ` set m \<Longrightarrow> set (bt_insert k v m) = insert (k, v) (set m)"
  by (induction k v m rule: bt_insert.induct) auto

lemma set_fold_bt_insert:
  "distinct (map fst xs) \<Longrightarrow> fst ` set xs \<inter> fst ` set m = {} \<Longrightarrow>
   set (fold (\<lambda>(k, v). bt_insert k v) xs m) = set xs \<union> set m"
proof (induction xs arbitrary: m)
  case Nil
  then show ?case by simp
next
  case (Cons p xs)
  then have "fst p \<notin> fst ` set m" and "fst ` set xs \<inter> fst ` set (bt_insert (fst p) (snd p) m) = {}"
    by (auto simp: fst_bt_insert)
  with Cons.IH [of "bt_insert (fst p) (snd p) m"] Cons.prems(1) show ?case
    by (simp add: split_def set_bt_insert_fresh)
qed

lemma bt_ok_fold_bt_insert: "bt_ok m \<Longrightarrow> bt_ok (fold (\<lambda>(k, v). bt_insert k v) xs m)"
  by (induction xs arbitrary: m) (simp_all add: split_def)

lemma set_bt_collect: "distinct (map fst xs) \<Longrightarrow> set (bt_collect xs) = set xs"
  by (simp add: bt_collect_def set_fold_bt_insert)

lemma bt_ok_collect [simp]: "bt_ok (bt_collect xs)"
  by (simp add: bt_collect_def bt_ok_fold_bt_insert)

section \<open>Export and import\<close>

definition base64_ok :: "('m, 'v, 'g) env \<Rightarrow> bool" where
  "base64_ok E \<longleftrightarrow> (\<forall>b. base64_decode E (base64_encode E b) = Some b)"

lemma base64_inj: "base64_ok E \<Longrightarrow> base64_encode E a = base64_encode E b \<longleftrightarrow> a = b"
  by (metis base64_ok_def option.inject)

lemma export_items_run:
  "export_items E (map Inr es) m = Inr (fold (\<lambda>(k, v). bt_insert k v)
     (map (\<lambda>(k, v). (base64_encode E k, base64_encode E (to_bytes E v))) es) m)"
  by (induction es arbitrary: m) (simp_all add: export_item_def split_def)

lemma decode_keys_run:
  assumes "base64_ok E" and "set kvs \<subseteq> (\<lambda>(k, v). (base64_encode E k, base64_encode E v)) ` P"
  shows "\<exists>xs. decode_keys E kvs = Inr xs \<and> kvs = map (\<lambda>(k, v). (base64_encode E k, base64_encode E v)) xs"
  using assms(2)
proof (induction kvs)
  case Nil
  then show ?case by simp
next
  case (Cons kv kvs)
  then obtain xs k v where "decode_keys E kvs = Inr xs" "kvs = map (\<lambda>(k, v). (base64_encode E k, base64_encode E v)) xs"
    and "kv = (base64_encode E k, base64_encode E v)" by auto
  with assms(1) show ?case
    by (intro exI [of _ "(k, v) # xs"]) (simp add: base64_ok_def)
qed

lemma under_idstore_root: "take (length IDSTORE_ROOT) k = IDSTORE_ROOT \<Longrightarrow> IDSTORE_SEED_ROOT < k"
proof -
  assume "take (length IDSTORE_ROOT) k = IDSTORE_ROOT"
  then have "k = IDSTORE_ROOT @ drop (length IDSTORE_ROOT) k" by (metis append_take_drop_id)
  moreover have "IDSTORE_SEED_ROOT < IDSTORE_ROOT @ x" for x
    by (simp add: IDSTORE_SEED_ROOT_def IDSTORE_ROOT_def less_char_def)
  ultimately show ?thesis by metis
qed

lemma sorted_batch_of_map:
  assumes "bt_ok kvs" and "\<forall>k \<in> fst ` set kvs. seed < k"
  shows "batch_ok ((seed, x) # map (\<lambda>(k, v). (k, f v)) kvs)"
proof -
  have fst: "fst \<circ> (\<lambda>(k, v). (k, f v)) = fst" by auto
  show ?thesis using assms by (auto simp: batch_ok_def bt_ok_def fst)
qed

lemma distinct_map_fst_of:
  assumes "distinct (map (fst \<circ> f) xs)"
    and "\<And>p q. p \<in> set xs \<Longrightarrow> q \<in> set xs \<Longrightarrow> fst p = fst q \<Longrightarrow> fst (f p) = fst (f q)"
  shows "distinct (map fst xs)"
  using assms
proof (induction xs)
  case Nil
  then show ?case by simp
next
  case (Cons p xs)
  have "fst p \<noteq> fst q" if "q \<in> set xs" for q
    using Cons.prems(1) Cons.prems(2) [of p q] that by auto
  moreover have "distinct (map fst xs)"
    by (rule Cons.IH) (use Cons.prems in auto)
  ultimately show ?case by auto
qed

section \<open>Properties\<close>

text \<open>
  C30. What is stored is found: after a store request that returned a phrase, both lookups, by the phrase
  and by the address, return the credential that was stored.
\<close>

theorem idstore_roundtrip:
  assumes "store_ok E" and "codec_ok (c_credential E)"
    and "idstore_store E sender a cid pk s = (Inr p, t)"
  shows "idstore_get_from_recall_phrase E p t = (Inr (cid, pk), t) \<and>
    idstore_get_from_address E a t = (Inr (cid, pk), t)"
proof -
  from assms(3) obtain s1 where st: "store_credential E p a cid pk s1 = (Inr (), t)"
    by (auto simp: idstore_store_def andthen_ok bnd_ok ret_ok throw_ok split: if_splits)
  obtain k where k: "phrase_cbor E p = Inr k"
    and v: "view E t = (view E s1)
      (idstore_key SepRecallPhrase k \<mapsto> enc_val (c_credential E) \<lparr>cred_id = cid, public_key = pk\<rparr>,
       idstore_key SepAddress (address_bytes E a) \<mapsto> enc_val (c_credential E) \<lparr>cred_id = cid, public_key = pk\<rparr>)"
    by (rule store_credential_ok [OF assms(1,2) st])
  show ?thesis
    unfolding idstore_get_from_recall_phrase_def idstore_get_from_address_def
    using assms(1,2) by (simp add: get_from_recall_phrase_run get_from_address_run k v found_credential_run)
qed

text \<open>
  A recall phrase never changes hands: whatever store requests are made, and whether they succeed,
  a phrase that resolves to a credential resolves to that credential afterwards.
\<close>

lemma keeps_resolves:
  assumes "store_ok E" and "codec_ok (c_credential E)"
  shows "keeps (\<lambda>s. resolves E s q c) (idstore_store E sender a cid pk)"
proof -
  have "keeps (\<lambda>s. resolves E s q c) (bnd (find_phrase E 8) (\<lambda>p.
      andthen (store_credential E p a cid pk) (ret p)))"
    unfolding keeps_def
  proof (intro allI impI)
    fix s assume s: "resolves E s q c"
    obtain r t where f: "find_phrase E 8 s = (r, t)" by fastforce
    have t: "resolves E t q c" using keepsD [OF keeps_find_phrase [OF assms(1)] s f] .
    have "resolves E (snd (store_credential E p a cid pk t)) q c" if "r = Inr p" for p
    proof (cases "store_credential E p a cid pk t")
      case (Pair r' u)
      show ?thesis
      proof (cases r')
        case (Inl e)
        with Pair t store_credential_fail [OF assms(1,2)] show ?thesis by (metis snd_conv)
      next
        case (Inr x)
        with Pair have st: "store_credential E p a cid pk t = (Inr (), u)" by simp
        obtain k where k: "phrase_cbor E p = Inr k"
          and v: "view E u = (view E t)
      (idstore_key SepRecallPhrase k \<mapsto> enc_val (c_credential E) \<lparr>cred_id = cid, public_key = pk\<rparr>,
       idstore_key SepAddress (address_bytes E a) \<mapsto> enc_val (c_credential E) \<lparr>cred_id = cid, public_key = pk\<rparr>)"
          by (rule store_credential_ok [OF assms(1,2) st])
        have "phrase_cbor E q \<noteq> Inr k"
        proof
          assume "phrase_cbor E q = Inr k"
          with t k have "resolves E t p c" using assms(1) by (simp add: resolves_iff)
          with find_phrase_free [of E 8 s p t c] f that show False by simp
        qed
        with t Pair show ?thesis using assms(1) by (auto simp: resolves_iff v)
      qed
    qed
    with t f show "resolves E (snd (bnd (find_phrase E 8) (\<lambda>p. andthen (store_credential E p a cid pk) (ret p)) s)) q c"
      by (cases r) (auto simp: run split: prod.splits sum.splits)
  qed
  then show ?thesis
    unfolding idstore_store_def by (intro keeps_if keeps_throw keeps_andthen keeps_lift)
qed

lemma recall_phrases_kept:
  assumes "store_ok E" and "codec_ok (c_credential E)" and "resolves E s q c"
  shows "resolves E (snd (idstore_store E sender a cid pk s)) q c"
  using keeps_snd [OF keeps_resolves [OF assms(1,2)]] assms(3) by blast

text \<open>
  The phrase of a seed has the documented size: full bytes times eight plus the checksum bits is the
  number of words times eleven, the bytes are as many as the entropy needs, and they hold the
  whole seed, so no two seeds share an entropy of one size; seeds of more than 40 bits have none.
\<close>

theorem phrase_shape_documented:
  "(phrase_shape seed = None \<longleftrightarrow> 2 ^ 40 \<le> unat seed) \<and>
   (case phrase_shape seed of None \<Rightarrow> True | Some (W, FB, CS, bs) \<Rightarrow>
      FB * 8 + CS = W * 11 \<and> length bs = FB \<and> be_nat bs = unat seed)"
proof -
  have le: "seed \<le> c \<longleftrightarrow> unat seed \<le> unat c" for c by (simp add: word_le_nat_alt)
  have bs: "be_nat (drop k (u64_be seed)) = unat seed" if "unat seed < 256 ^ (8 - k)" for k
    using that by (simp add: be_nat_drop u64_be_def be_nat_u64)
  show ?thesis by (auto simp: phrase_shape_def le bs)
qed

text \<open>
  The check for an existing entry never fires: it looks under the encoded phrase itself, where nothing
  is ever stored, so storing under a phrase that is taken replaces its credential.
\<close>

theorem existing_entry_replaced:
  assumes "store_ok E" and "codec_ok (c_credential E)"
    and "phrase_cbor E p = Inr k" and "view E s k = None" and "resolves E s p c"
  shows "\<exists>t. store_credential E p a cid pk s = (Inr (), t) \<and> resolves E t p (cid, pk)"
proof -
  let ?v = "enc_val (c_credential E) \<lparr>cred_id = cid, public_key = pk\<rparr>"
  let ?t = "maybe_committed E (applied E [(idstore_key SepRecallPhrase k, Put ?v),
    (idstore_key SepAddress (address_bytes E a), Put ?v)] s)"
  have "store_credential E p a cid pk s = (Inr (), ?t)"
    using assms by (simp add: store_credential_def run)
  moreover have "resolves E ?t p (cid, pk)"
    using assms(1,2,3) by (simp add: resolves_iff)
  ultimately show ?thesis by blast
qed

lemma exported_entries:
  assumes "disk_ok E D" and "base64_ok E" and "export_idstore E m = Inr j"
  shows "\<exists>es ys. listing (D m) (\<lambda>k. take (length IDSTORE_ROOT) k = IDSTORE_ROOT) es \<and>
    decode_keys E (id_store_keys j) = Inr ys \<and>
    set (bt_collect ys) = (\<lambda>(k, v). (k, to_bytes E v)) ` set es"
proof -
  let ?e = "base64_encode E"
  from assms(1) obtain es where l: "listing (D m) (\<lambda>k. take (length IDSTORE_ROOT) k = IDSTORE_ROOT) es"
    and it: "merk_iter_prefix E m IDSTORE_ROOT False = map Inr es"
    unfolding disk_ok_def by blast
  let ?xs = "map (\<lambda>(k, v). (?e k, ?e (to_bytes E v))) es"
  have keys: "id_store_keys j = bt_collect ?xs"
    using assms(3) by (auto simp: export_idstore_def it export_items_run bt_collect_def okD)
  have "distinct (map fst es)" using l by (simp add: listing_def strict_sorted_iff)
  then have "distinct (map fst ?xs)"
    using base64_inj [OF assms(2)] by (auto simp: split_def distinct_map inj_on_def)
  then have set: "set (id_store_keys j) = set ?xs" by (simp add: keys set_bt_collect)
  have sub: "set (id_store_keys j) \<subseteq> (\<lambda>(k, v). (?e k, ?e v)) ` UNIV" unfolding set by auto
  obtain ys where dec: "decode_keys E (id_store_keys j) = Inr ys"
    and ys: "id_store_keys j = map (\<lambda>(k, v). (?e k, ?e v)) ys"
    using decode_keys_run [OF assms(2) sub] by blast
  have "distinct (map fst (id_store_keys j))"
    using bt_ok_distinct [OF bt_ok_collect, of ?xs] by (simp add: keys)
  then have "distinct (map fst ys)"
    by (intro distinct_map_fst_of [of "\<lambda>(k, v). (?e k, ?e v)"]) (auto simp: ys)
  then have coll: "set (bt_collect ys) = set ys" by (rule set_bt_collect)
  have "(k, b) \<in> set ys \<longleftrightarrow> (k, b) \<in> (\<lambda>(k, v). (k, to_bytes E v)) ` set es" for k b
  proof -
    have "(k, b) \<in> set ys \<longleftrightarrow> (?e k, ?e b) \<in> set (id_store_keys j)"
      using base64_inj [OF assms(2)] by (force simp: ys)
    moreover have "(?e k, ?e b) \<in> set ?xs \<longleftrightarrow> (k, b) \<in> (\<lambda>(k, v). (k, to_bytes E v)) ` set es"
      using base64_inj [OF assms(2)] by force
    ultimately show ?thesis unfolding set by blast
  qed
  then have "set ys = (\<lambda>(k, v). (k, to_bytes E v)) ` set es" by auto
  with l dec coll show ?thesis by auto
qed

text \<open>
  C31. An export can be imported: loading the exported seed and keys into any store succeeds, gives every
  identity entry of the exported store its value and the seed its count, and leaves the rest of
  the store alone.
\<close>

theorem idstore_export_import:
  assumes "store_ok E" and "disk_ok E D" and "D m = mview E m" and "base64_ok E"
    and "\<And>k v. take (length IDSTORE_ROOT) k = IDSTORE_ROOT \<Longrightarrow> mview E m k = Some v \<Longrightarrow>
      of_bytes E (to_bytes E v) = v"
    and "export_idstore E m = Inr j"
  shows "\<exists>t. with_idstore E (Some (id_store_seed j)) (Some (id_store_keys j)) s = (Inr (), t) \<and>
    view E t IDSTORE_SEED_ROOT = Some (of_bytes E (u64_be (id_store_seed j))) \<and>
    (\<forall>k. k \<noteq> IDSTORE_SEED_ROOT \<longrightarrow> view E t k =
      (if take (length IDSTORE_ROOT) k = IDSTORE_ROOT \<and> mview E m k \<noteq> None then mview E m k else view E s k))"
proof -
  let ?P = "\<lambda>k. take (length IDSTORE_ROOT) k = IDSTORE_ROOT"
  obtain es ys where l: "listing (D m) ?P es" and dec: "decode_keys E (id_store_keys j) = Inr ys"
    and coll: "set (bt_collect ys) = (\<lambda>(k, v). (k, to_bytes E v)) ` set es"
    using exported_entries [OF assms(2,4,6)] by blast
  have mem: "(k, v) \<in> set es \<longleftrightarrow> mview E m k = Some v \<and> ?P k" for k v
    using l assms(3) by (simp add: listing_def)
  let ?b = "(IDSTORE_SEED_ROOT, Put (of_bytes E (u64_be (id_store_seed j)))) #
    map (\<lambda>(k, v). (k, Put (of_bytes E v))) (bt_collect ys)"
  have "\<forall>k \<in> fst ` set (bt_collect ys). IDSTORE_SEED_ROOT < k"
    using under_idstore_root mem by (auto simp: coll)
  then have ok: "batch_ok ?b" by (intro sorted_batch_of_map) simp_all
  have run: "with_idstore E (Some (id_store_seed j)) (Some (id_store_keys j)) s = (Inr (), applied E ?b s)"
    using assms(1) ok by (simp add: with_idstore_def dec run)
  have dist: "distinct (map fst ?b)" using ok unfolding batch_ok_def strict_sorted_iff by blast
  have seed: "view E (applied E ?b s) IDSTORE_SEED_ROOT = Some (of_bytes E (u64_be (id_store_seed j)))"
    using assms(1) ok
      apply_batch_in [OF dist, of IDSTORE_SEED_ROOT "Put (of_bytes E (u64_be (id_store_seed j)))" "view E s"]
    by simp
  have "view E (applied E ?b s) k =
      (if ?P k \<and> mview E m k \<noteq> None then mview E m k else view E s k)" if "k \<noteq> IDSTORE_SEED_ROOT" for k
  proof (cases "\<exists>v. (k, v) \<in> set es")
    case True
    then obtain v where v: "(k, v) \<in> set es" by blast
    then have "(k, Put (of_bytes E (to_bytes E v))) \<in> set ?b" using coll by force
    moreover have "of_bytes E (to_bytes E v) = v" using assms(5) mem v by blast
    ultimately show ?thesis
      using apply_batch_in [OF dist, of k "Put v" "view E s"] mem v assms(1) ok by simp
  next
    case False
    then have "k \<notin> fst ` set ?b" using that by (auto simp: coll)
    with False mem [of k] show ?thesis using assms(1) ok by (auto simp: apply_batch_other)
  qed
  with run seed show ?thesis by blast
qed

section \<open>Witnesses\<close>

lemma ref_idstore [simp]:
  "phrase_cbor ref_env p = Inr (phrase_bytes p)" "codec_ok (c_credential ref_env)"
  "cose_key_from ref_env b = Inr ()" "base64_encode ref_env b = b" "base64_decode ref_env b = Some b"
  by (simp_all add: phrase_cbor_def ref_env_def) (simp add: codec_ok_def tagged_def)

lemma be_bytes_zero: "be_bytes n 0 = replicate n (char_of (0 :: nat))"
  by (induction n) (simp_all add: replicate_append_same)

lemma ref_entropy: "entropy_from_slice ref_env n b = (if length b = n then Some b else None)"
  "to_mnemonics ref_env W FB CS b = Some (concat (map (\<lambda>c. replicate (Suc (of_char c)) (CHR ''a'') @ '' '') b))"
  by (simp_all add: ref_env_def)

lemma ref_seed_phrase: "seed_phrase ref_env 0 = Inr [''a'', ''a'']"
proof -
  have "drop 6 (u64_be 0) = [char_of (0 :: nat), char_of (0 :: nat)]"
    unfolding u64_be_def by (simp only: unsigned_0 be_bytes_zero drop_replicate) (simp add: numeral_2_eq_2)
  then have "phrase_shape 0 = Some (2, 2, 6, [char_of (0 :: nat), char_of (0 :: nat)])"
    by (simp add: phrase_shape_def)
  then show ?thesis
    by (simp add: seed_phrase_def generate_recall_phrase_def ref_entropy is_space_def)
qed

definition ref_credential :: "(ref_store, string list) ledger" where
  "ref_credential = ref_ledger [(idstore_key SepRecallPhrase (phrase_bytes [''b'']),
     RCredential \<lparr>cred_id = ''c'', public_key = ''k''\<rparr>)] []"

lemma ref_credential_resolves: "resolves ref_env ref_credential [''b''] (''c'', ''k'')"
  by (simp add: resolves_iff ref_credential_def ref_codecs tagged_def)

lemma phrase_bytes_key [simp]: "phrase_bytes p \<noteq> idstore_key sep k" "phrase_bytes p \<noteq> IDSTORE_SEED_ROOT"
  by (cases p; cases "hd p"; simp add: phrase_bytes_def idstore_key_def IDSTORE_ROOT_def IDSTORE_SEED_ROOT_def)+

lemma existing_entry_replaced_witness:
  "\<exists>t. store_credential ref_env [''b''] 3 ''d'' ''l'' ref_credential = (Inr (), t) \<and>
     resolves ref_env t [''b''] (''d'', ''l'')"
  by (rule existing_entry_replaced [OF _ _ ref_idstore(1) _ ref_credential_resolves]) (simp_all add: ref_credential_def)

lemma ref_store_request:
  "\<exists>t. idstore_store ref_env 2 3 (replicate 16 (CHR ''x'')) ''pk'' ref_credential = (Inr [''a'', ''a''], t)"
proof -
  have ok: "store_ok ref_env" by simp
  define u where "u = maybe_committed ref_env
    (applied ref_env [(IDSTORE_SEED_ROOT, Put (of_bytes ref_env (u64_be 1)))] ref_credential)"
  have v: "view ref_env ref_credential IDSTORE_SEED_ROOT = None"
    by (simp add: ref_credential_def)
  have seed: "inc_idstore_seed ref_env ref_credential = (Inr 0, u)"
    using ok v by (simp add: inc_idstore_seed_def run u_def del: ref_view)
  have view: "view ref_env u k = (if k = IDSTORE_SEED_ROOT then Some (RBytes (u64_be 1)) else view ref_env ref_credential k)" for k
    using ok by (simp add: u_def del: ref_view)
  have ne: "idstore_key SepRecallPhrase (phrase_bytes [''a'', ''a'']) \<noteq> idstore_key SepRecallPhrase (phrase_bytes [''b''])"
    by (simp add: phrase_bytes_def)
  have none: "view ref_env u (idstore_key SepRecallPhrase (phrase_bytes [''a'', ''a''])) = None"
    "view ref_env u (phrase_bytes [''a'', ''a'']) = None"
    unfolding view using ne by (simp_all add: ref_credential_def)
  then have miss: "get_from_recall_phrase ref_env [''a'', ''a''] u =
      (Inl (Err (IdStoreError (EntryNotFound (join_words [''a'', ''a''])))), u)"
    using ok by (simp add: get_from_recall_phrase_run found_credential_run del: ref_view join_words.simps)
  have phrase: "find_phrase ref_env 8 ref_credential = (Inr [''a'', ''a''], u)"
    by (simp add: numeral_eq_Suc run seed ref_seed_phrase miss del: join_words.simps)
  have "\<exists>t. store_credential ref_env [''a'', ''a''] 3 cid pk u = (Inr (), t)" for cid pk
    using ok none by (simp add: store_credential_def run del: ref_view)
  then obtain t where "store_credential ref_env [''a'', ''a''] 3 (replicate 16 (CHR ''x'')) ''pk'' u = (Inr (), t)"
    by blast
  with phrase show ?thesis by (simp add: idstore_store_def run)
qed

lemma idstore_roundtrip_witness:
  "\<exists>t. idstore_store ref_env 2 3 (replicate 16 (CHR ''x'')) ''pk'' ref_credential = (Inr [''a'', ''a''], t) \<and>
     idstore_get_from_address ref_env 3 t = (Inr (replicate 16 (CHR ''x''), ''pk''), t)"
proof -
  obtain t where t: "idstore_store ref_env 2 3 (replicate 16 (CHR ''x'')) ''pk'' ref_credential = (Inr [''a'', ''a''], t)"
    using ref_store_request by blast
  with idstore_roundtrip [OF _ _ this] show ?thesis by simp
qed

lemma recall_phrases_kept_witness:
  "resolves ref_env (snd (idstore_store ref_env 2 3 (replicate 16 (CHR ''x'')) ''pk'' ref_credential)) [''b''] (''c'', ''k'')"
  by (rule recall_phrases_kept [OF _ _ ref_credential_resolves]) simp_all

definition ref_exported :: ref_store where
  "ref_exported = \<lparr>work = [(idstore_key SepAddress ''x'', RBytes ''v''), (IDSTORE_SEED_ROOT, RBytes (u64_be 5))],
     disk = [(idstore_key SepAddress ''x'', RBytes ''v''), (IDSTORE_SEED_ROOT, RBytes (u64_be 5))]\<rparr>"

lemma idstore_export_import_witness:
  "\<exists>j t. export_idstore ref_env ref_exported = Inr j \<and>
     with_idstore ref_env (Some (id_store_seed j)) (Some (id_store_keys j)) ref_credential = (Inr (), t) \<and>
     view ref_env t (idstore_key SepAddress ''x'') = Some (RBytes ''v'')"
proof -
  have root: "take (length IDSTORE_ROOT) (idstore_key sep k) = IDSTORE_ROOT" for sep k
    by (simp add: idstore_key_def)
  have seed: "mview ref_env ref_exported IDSTORE_SEED_ROOT = Some (RBytes (u64_be 5))"
    by (simp add: ref_exported_def)
  from ref_disk_ok obtain es where it: "merk_iter_prefix ref_env ref_exported IDSTORE_ROOT False = map Inr es"
    unfolding disk_ok_def by blast
  have "merk_get ref_env ref_exported IDSTORE_SEED_ROOT = Inr (Some (RBytes (u64_be 5)))"
    using merk_get_view [OF ref_store_ok, of ref_exported IDSTORE_SEED_ROOT] seed by simp
  then obtain j where j: "export_idstore ref_env ref_exported = Inr j"
    using u64_of_be [OF ref_store_ok, of 5] by (simp add: export_idstore_def it export_items_run)
  have val: "of_bytes ref_env (to_bytes ref_env v) = v"
    if "take (length IDSTORE_ROOT) k = IDSTORE_ROOT" "mview ref_env ref_exported k = Some v" for k v
    using that by (auto simp: ref_exported_def split: if_splits)
  have sync: "map_of (disk ref_exported) = mview ref_env ref_exported" by (simp add: ref_exported_def)
  have b64: "base64_ok ref_env" by (simp add: base64_ok_def)
  have "\<exists>t. with_idstore ref_env (Some (id_store_seed j)) (Some (id_store_keys j)) ref_credential = (Inr (), t) \<and>
    view ref_env t IDSTORE_SEED_ROOT = Some (of_bytes ref_env (u64_be (id_store_seed j))) \<and>
    (\<forall>k. k \<noteq> IDSTORE_SEED_ROOT \<longrightarrow> view ref_env t k =
      (if take (length IDSTORE_ROOT) k = IDSTORE_ROOT \<and> mview ref_env ref_exported k \<noteq> None
       then mview ref_env ref_exported k else view ref_env ref_credential k))"
    by (rule idstore_export_import [OF ref_store_ok ref_disk_ok sync b64 _ j]) (rule val)
  then obtain t where t: "with_idstore ref_env (Some (id_store_seed j)) (Some (id_store_keys j)) ref_credential = (Inr (), t)"
    and v: "\<And>k. k \<noteq> IDSTORE_SEED_ROOT \<Longrightarrow> view ref_env t k =
      (if take (length IDSTORE_ROOT) k = IDSTORE_ROOT \<and> mview ref_env ref_exported k \<noteq> None
       then mview ref_env ref_exported k else view ref_env ref_credential k)" by blast
  have "view ref_env t (idstore_key SepAddress ''x'') = Some (RBytes ''v'')"
    using v [of "idstore_key SepAddress ''x''"] root by (simp add: ref_exported_def del: ref_view)
  with j t show ?thesis by blast
qed

end
