(* ===== verification/MintBurn.thy ===== *)
theory MintBurn
  imports Tokens
begin

text \<open>
  \<open>storage/ledger_mintburn.rs\<close> and \<open>module/ledger_mintburn.rs\<close>: minting to and burning from
  the balances of a distribution. Both write one batch, so they happen entirely or not at
  all; the supply of the token moves with the balances.
\<close>

record mint_args =
  mi_symbol :: symbol
  mi_distribution :: distribution
  mi_memo :: "memo option"

record burn_args =
  bu_symbol :: symbol
  bu_distribution :: distribution
  bu_memo :: "memo option"
  bu_error_on_under_burn :: "bool option"

section \<open>Storage\<close>

definition get_token_supply :: "('m, 'v, 'g) env \<Rightarrow> symbol \<Rightarrow> ('m, 'g, token_supply) ledger_op" where
  "get_token_supply E x = bnd (info_token E \<lparr>tia_symbol = x, tia_extended_info = None\<rparr>)
     (\<lambda>(info, _). ret (ti_supply info))"

definition mint_step :: "('m, 'v, 'g) env \<Rightarrow> symbol \<Rightarrow> token_supply \<Rightarrow>
    (bytes \<times> 'v store_op) list \<times> nat \<Rightarrow> address \<times> nat \<Rightarrow>
    (('m, 'g) ledger, (bytes \<times> 'v store_op) list \<times> nat) op" where
  "mint_step E x current_supply acc p = (case (acc, p) of ((batch, circ0), (a, amount)) \<Rightarrow>
     if amount = 0 then raise (MintBurnError (UnableToDistributeZero a))
     else let circ = circ0 + amount in
       andthen (case maximum current_supply of
           Some mx \<Rightarrow> unless (\<not> circulating current_supply + circ > mx)
             (Err (MintBurnError (OverMaximumSupply x circ mx)))
         | None \<Rightarrow> ret ())
       (bnd (get_multiple_balances E a [x]) (\<lambda>bs.
         let new_balance = (case map_of bs x of None \<Rightarrow> amount | Some b \<Rightarrow> b + amount) in
         ret (batch @ [(key_for_account_balance E a x, Put (amount_to_vec E new_balance))], circ))))"

definition mint_token :: "('m, 'v, 'g) env \<Rightarrow> symbol \<Rightarrow> distribution \<Rightarrow> ('m, 'g, unit) ledger_op" where
  "mint_token E x d = bnd (get_token_supply E x) (\<lambda>current_supply.
     bnd (fold_act d (mint_step E x current_supply) ([], 0)) (\<lambda>(batch, circ).
     bnd (info_token E \<lparr>tia_symbol = x, tia_extended_info = None\<rparr>) (\<lambda>(info, _).
     let info' = info\<lparr>ti_supply := (ti_supply info)
           \<lparr>circulating := circulating (ti_supply info) + circ, total := total (ti_supply info) + circ\<rparr>\<rparr> in
     bnd (encode (c_token_info E) info') (\<lambda>v.
     andthen (db_apply E apply_failed (batch @ [(key_for_symbol E x, Put v)]))
       (maybe_commit E)))))"

definition burn_step :: "('m, 'v, 'g) env \<Rightarrow> symbol \<Rightarrow>
    (bytes \<times> 'v store_op) list \<times> nat \<Rightarrow> address \<times> nat \<Rightarrow>
    (('m, 'g) ledger, (bytes \<times> 'v store_op) list \<times> nat) op" where
  "burn_step E x acc p = (case (acc, p) of ((batch, circ), (a, amount)) \<Rightarrow>
     if amount = 0 then raise (MintBurnError (UnableToDistributeZero a))
     else bnd (get_multiple_balances E a [x]) (\<lambda>bs.
       bnd (case map_of bs x of
           Some b \<Rightarrow> if b < amount then raise (MintBurnError (MissingFunds x amount b)) else ret b
         | None \<Rightarrow> raise (MintBurnError (MissingFunds x amount 0))) (\<lambda>balance_amount.
       ret (batch @ [(key_for_account_balance E a x, Put (amount_to_vec E (balance_amount - amount)))],
            circ + amount))))"

text \<open>An amount is a big natural: taking more than there is panics.\<close>

definition sub_amount :: "nat \<Rightarrow> nat \<Rightarrow> nat res" where
  "sub_amount a b = (if b \<le> a then Inr (a - b) else Inl (Panic ''subtract with overflow''))"

definition burn_token :: "('m, 'v, 'g) env \<Rightarrow> symbol \<Rightarrow> distribution \<Rightarrow> ('m, 'g, unit) ledger_op" where
  "burn_token E x d = bnd (fold_act d (burn_step E x) ([], 0)) (\<lambda>(batch, circ).
     bnd (info_token E \<lparr>tia_symbol = x, tia_extended_info = None\<rparr>) (\<lambda>(info, _).
     bnd (lift (sub_amount (circulating (ti_supply info)) circ)) (\<lambda>c.
     bnd (lift (sub_amount (total (ti_supply info)) circ)) (\<lambda>t.
     let info' = info\<lparr>ti_supply := (ti_supply info)\<lparr>circulating := c, total := t\<rparr>\<rparr> in
     bnd (encode (c_token_info E) info') (\<lambda>v.
     andthen (db_apply E apply_failed (batch @ [(key_for_symbol E x, Put v)]))
       (maybe_commit E))))))"

section \<open>The module\<close>

definition check_symbol_exists :: "symbol \<Rightarrow> symbol list \<Rightarrow> unit res" where
  "check_symbol_exists x syms =
     (if x \<notin> set syms then Inl (Err (MintBurnError (SymbolNotFound x))) else Inr ())"

definition mint_burn_allowed :: "('m, 'v, 'g) env \<Rightarrow> string \<Rightarrow> address \<Rightarrow> symbol \<Rightarrow>
    ('m, 'g, unit) ledger_op" where
  "mint_burn_allowed E method sender x =
     andthen (needs_migration E method)
     (andthen (bnd (token_identity E) (\<lambda>i. lift (verify_tokens_sender sender i)))
       (bnd (get_symbols E) (\<lambda>syms. lift (check_symbol_exists x syms))))"

definition mint :: "('m, 'v, 'g) env \<Rightarrow> address \<Rightarrow> mint_args \<Rightarrow> ('m, 'g, unit) ledger_op" where
  "mint E sender args =
     andthen (mint_burn_allowed E ''tokens.mint'' sender (mi_symbol args))
     (andthen (mint_token E (mi_symbol args) (mi_distribution args))
       (log_event E (EvTokenMint (mi_symbol args) (mi_distribution args) (mi_memo args))))"

definition burn :: "('m, 'v, 'g) env \<Rightarrow> address \<Rightarrow> burn_args \<Rightarrow> ('m, 'g, distribution) ledger_op" where
  "burn E sender args =
     andthen (mint_burn_allowed E ''tokens.burn'' sender (bu_symbol args))
     (andthen (unless (bu_error_on_under_burn args \<noteq> Some False) (Err (MintBurnError PartialBurnDisabled)))
     (andthen (burn_token E (bu_symbol args) (bu_distribution args))
     (andthen (log_event E (EvTokenBurn (bu_symbol args) (bu_distribution args) (bu_memo args)))
       (ret (bu_distribution args)))))"

section \<open>Balances as minting reads them\<close>

lemma pure_get_all_balances: "pure_act (get_all_balances E a)"
proof -
  have one: "pure_act (bnd (db_get E get_failed k) (\<lambda>x. case x of None \<Rightarrow> ret r | Some v \<Rightarrow> ret (f v)))" for k r f
    by (intro pure_bnd) (auto simp: pure_act_def db_get_def run split: option.split)
  have fold: "pure_act (fold_act xs g r)" if "\<And>r x. pure_act (g r x)" for xs g r
    using that by (induction xs arbitrary: r) (auto intro: pure_bnd pure_ret)
  show ?thesis unfolding get_all_balances_def
    by (auto intro!: pure_ret pure_bnd pure_get_symbols fold one)
qed

lemma pure_get_multiple_balances: "pure_act (get_multiple_balances E a xs)"
  unfolding get_multiple_balances_def
  by (auto intro: pure_get_all_balances pure_bnd pure_ret)

lemma all_balances_fold:
  assumes "store_ok E"
  shows "fold_act syms (\<lambda>result symb.
          bnd (db_get E get_failed (key_for_account_balance E a symb))
          (\<lambda>x. case x of None \<Rightarrow> ret result
                       | Some v \<Rightarrow> ret (bt_insert symb (amount_from E v) result))) r s =
    (Inr (fold (\<lambda>symb result. case view E s (key_for_account_balance E a symb) of None \<Rightarrow> result
                       | Some v \<Rightarrow> bt_insert symb (amount_from E v) result) syms r), s)"
proof (induction syms arbitrary: r)
  case Nil
  then show ?case by (simp add: run)
next
  case (Cons x xs)
  then show ?case using assms by (simp add: run split: option.split)
qed

lemma map_of_all_balances:
  "map_of (fold (\<lambda>symb result. case f symb of None \<Rightarrow> result
                       | Some v \<Rightarrow> bt_insert symb (g v) result) syms r) x =
    (if x \<in> set syms \<and> f x \<noteq> None then map_option g (f x) else map_of r x)"
  by (induction syms arbitrary: r) (auto split: option.split)

lemma multiple_balances_ok:
  assumes "store_ok E" and "get_multiple_balances E a [x] s = (Inr bs, t)" and "\<not> is_anonymous E a"
    and "get_symbols E s = (Inr syms, s)" and "x \<in> set syms"
  shows "map_of bs x = map_option (amount_from E) (view E s (key_for_account_balance E a x))"
proof -
  have f: "map_of (filter (\<lambda>(k, _). k = x) m) x = map_of m x" for m :: "(nat \<times> nat) list"
    by (induction m) auto
  have "bs = filter (\<lambda>(k, _). k = x) (fold (\<lambda>symb result. case view E s (key_for_account_balance E a symb) of
      None \<Rightarrow> result | Some v \<Rightarrow> bt_insert symb (amount_from E v) result) syms [])"
    using assms by (auto simp: get_multiple_balances_def get_all_balances_def bnd_run all_balances_fold ret_run)
  with assms(5) show ?thesis by (simp add: f map_of_all_balances)
qed

section \<open>What minting and burning do\<close>

definition change_batch :: "('m, 'v, 'g) env \<Rightarrow> ('m, 'g) ledger \<Rightarrow> symbol \<Rightarrow> (nat \<Rightarrow> nat \<Rightarrow> nat) \<Rightarrow>
    distribution \<Rightarrow> (bytes \<times> 'v store_op) list" where
  "change_batch E s x f d =
     map (\<lambda>(a, v). (key_for_account_balance E a x, Put (amount_to_vec E (f (balance E s a x) v)))) d"

text \<open>The check of the module, which precedes both (\<open>check_symbol_exists\<close>).\<close>

definition known :: "('m, 'v, 'g) env \<Rightarrow> ('m, 'g) ledger \<Rightarrow> symbol \<Rightarrow> bool" where
  "known E s x \<longleftrightarrow> (\<exists>syms. get_symbols E s = (Inr syms, s) \<and> x \<in> set syms)"

lemma new_balance:
  assumes "store_ok E" and "get_multiple_balances E a [x] s = (Inr bs, t)" and "known E s x"
  shows "map_of bs x = (if is_anonymous E a \<or> view E s (key_for_account_balance E a x) = None then None
      else Some (balance E s a x))"
proof (cases "is_anonymous E a")
  case True
  with assms(2) show ?thesis
    by (auto simp: get_multiple_balances_def get_all_balances_def bnd_run ret_run)
next
  case False
  with assms multiple_balances_ok [OF assms(1,2)] show ?thesis by (auto simp: known_def balance_def)
qed

lemma mint_step_ok:
  assumes E: "env_ok E" and k: "known E s x"
    and ok: "mint_step E x cs (b, c) p s = (Inr r, t)"
  shows "t = s \<and> 0 < snd p \<and> r = (b @ change_batch E s x (+) [p], c + snd p) \<and>
    (\<forall>mx. maximum cs = Some mx \<longrightarrow> circulating cs + c + snd p \<le> mx)"
proof -
  obtain a v where p: "p = (a, v)" by (cases p)
  obtain q where q: "get_multiple_balances E a [x] s = (q, s)"
    using pure_get_multiple_balances [of E a "[x]"] by (cases "get_multiple_balances E a [x] s") (auto simp: pure_act_def dest: spec [of _ s])
  from ok p have v: "v \<noteq> 0" by (auto simp: mint_step_def run split: if_splits)
  have mx: "\<forall>mx. maximum cs = Some mx \<longrightarrow> circulating cs + (c + v) \<le> mx"
    using ok p v by (auto simp: mint_step_def run Let_def split: if_splits)
  with ok p v q obtain bs where b: "q = Inr bs"
    by (cases q) (auto simp: mint_step_def run Let_def split: if_splits option.splits)
  with q have bs: "get_multiple_balances E a [x] s = (Inr bs, s)" by simp
  from ok p v bs mx have r: "r = (b @ [(key_for_account_balance E a x, Put (amount_to_vec E
      (case map_of bs x of None \<Rightarrow> v | Some b \<Rightarrow> b + v)))], c + v)" and t: "t = s"
    by (cases "maximum cs"; simp add: mint_step_def run Let_def)+
  from new_balance [OF _ bs k] E have "map_of bs x = (if is_anonymous E a \<or>
      view E s (key_for_account_balance E a x) = None then None else Some (balance E s a x))" by simp
  moreover have "is_anonymous E a \<or> view E s (key_for_account_balance E a x) = None \<Longrightarrow> balance E s a x = 0"
    by (auto simp: balance_def)
  ultimately show ?thesis using v mx r t p by (auto simp: change_batch_def)
qed

lemma mint_fold_ok:
  assumes E: "env_ok E" and k: "known E s x"
  shows "fold_act d (mint_step E x cs) (b, c) s = (Inr r, t) \<Longrightarrow>
    t = s \<and> r = (b @ change_batch E s x (+) d, c + sum_list (map snd d)) \<and>
    (\<forall>mx. maximum cs = Some mx \<longrightarrow> d \<noteq> [] \<longrightarrow> circulating cs + c + sum_list (map snd d) \<le> mx)"
proof (induction d arbitrary: b c)
  case Nil
  then show ?case by (auto simp: okD change_batch_def)
next
  case (Cons p d)
  from Cons.prems obtain q u where st: "mint_step E x cs (b, c) p s = (Inr q, u)"
    and rest: "fold_act d (mint_step E x cs) q u = (Inr r, t)" by (auto simp: okD)
  from mint_step_ok [OF E k st] have u: "u = s" and q: "q = (b @ change_batch E s x (+) [p], c + snd p)"
    and mx: "\<And>mx. maximum cs = Some mx \<Longrightarrow> circulating cs + c + snd p \<le> mx" by auto
  from Cons.IH [OF rest [unfolded u q]] mx show ?case
    by (cases d) (auto simp: change_batch_def add.assoc)
qed

lemma mint_fold_pure: "pure_act (fold_act d (mint_step E x cs) r)"
proof -
  have "pure_act (mint_step E x cs acc p)" for acc p
    unfolding mint_step_def Let_def
    by (auto simp: split_def andthen_def unless_lift intro!: pure_bnd pure_throw pure_lift pure_ret
        pure_get_multiple_balances split: option.split)
  then show ?thesis by (induction d arbitrary: r) (auto intro: pure_bnd pure_ret)
qed

lemma burn_fold_pure: "pure_act (fold_act d (burn_step E x) r)"
proof -
  have "pure_act (burn_step E x acc p)" for acc p
    unfolding burn_step_def
    by (auto simp: split_def intro!: pure_bnd pure_throw pure_ret
        pure_get_multiple_balances split: option.split)
  then show ?thesis by (induction d arbitrary: r) (auto intro: pure_bnd pure_ret)
qed

lemma burn_step_ok:
  assumes E: "env_ok E" and k: "known E s x"
    and ok: "burn_step E x (b, c) p s = (Inr r, t)"
  shows "t = s \<and> 0 < snd p \<and> snd p \<le> balance E s (fst p) x \<and> \<not> is_anonymous E (fst p) \<and> r = (b @ change_batch E s x (-) [p], c + snd p)"
proof -
  obtain a v where p: "p = (a, v)" by (cases p)
  obtain q where q: "get_multiple_balances E a [x] s = (q, s)"
    using pure_get_multiple_balances [of E a "[x]"] by (cases "get_multiple_balances E a [x] s") (auto simp: pure_act_def dest: spec [of _ s])
  from ok p have v: "v \<noteq> 0" by (auto simp: burn_step_def run split: if_splits)
  from ok p v q obtain bs where b: "q = Inr bs"
    by (cases q) (auto simp: burn_step_def run)
  with q have bs: "get_multiple_balances E a [x] s = (Inr bs, s)" by simp
  from ok p v bs obtain y where y: "map_of bs x = Some y" "v \<le> y"
    by (cases "map_of bs x") (auto simp: burn_step_def run split: if_splits)
  from ok p v bs y have r: "r = (b @ [(key_for_account_balance E a x, Put (amount_to_vec E (y - v)))], c + v)"
    and t: "t = s"
    by (simp_all add: burn_step_def run)
  from new_balance [OF _ bs k] E y(1) have "y = balance E s a x \<and> \<not> is_anonymous E a"
    by (auto split: if_splits)
  then show ?thesis using v y r t p by (auto simp: change_batch_def)
qed

lemma burn_fold_ok:
  assumes E: "env_ok E" and k: "known E s x"
  shows "fold_act d (burn_step E x) (b, c) s = (Inr r, t) \<Longrightarrow>
    t = s \<and> r = (b @ change_batch E s x (-) d, c + sum_list (map snd d)) \<and>
    (\<forall>(a, v) \<in> set d. v \<le> balance E s a x \<and> \<not> is_anonymous E a)"
proof (induction d arbitrary: b c)
  case Nil
  then show ?case by (auto simp: okD change_batch_def)
next
  case (Cons p d)
  from Cons.prems obtain q u where st: "burn_step E x (b, c) p s = (Inr q, u)"
    and rest: "fold_act d (burn_step E x) q u = (Inr r, t)" by (auto simp: okD)
  from burn_step_ok [OF E k st] have u: "u = s" and q: "q = (b @ change_batch E s x (-) [p], c + snd p)"
    and le: "snd p \<le> balance E s (fst p) x" "\<not> is_anonymous E (fst p)" by auto
  from Cons.IH [OF rest [unfolded u q]] le show ?case
    by (cases p) (auto simp: change_batch_def add.assoc)
qed

definition supply_changed :: "(nat \<Rightarrow> nat \<Rightarrow> nat) \<Rightarrow> nat \<Rightarrow> token_info \<Rightarrow> token_info" where
  "supply_changed f c info = info\<lparr>ti_supply := (ti_supply info)
     \<lparr>circulating := f (circulating (ti_supply info)) c, total := f (total (ti_supply info)) c\<rparr>\<rparr>"

lemma info_token_ok:
  assumes "store_ok E"
  shows "info_token E \<lparr>tia_symbol = x, tia_extended_info = None\<rparr> s = (Inr r, t) \<longleftrightarrow> t = s \<and>
    token_info_at E s x = Some (fst r) \<and>
    (\<exists>v. view E s (key_for_ext_info E x) = Some v \<and> dec (c_ext_info E) v = Inr (snd r))"
  using assms by (cases r) (auto simp: info_token_def okD db_get_run token_info_at_def
      split: option.splits sum.splits)

lemma pure_info_token: "pure_act (info_token E args)"
proof -
  have "pure_act (db_get E f k)" "pure_act (decode c v)" for f k and v :: 'b and c :: "('x, 'b) codec"
    by (simp_all add: pure_act_def db_get_def decode_def run)
  then show ?thesis unfolding info_token_def
    by (auto intro!: pure_bnd pure_lift pure_ret split: option.split)
       (auto simp: pure_act_def run decode_def)
qed

definition change_all :: "('m, 'v, 'g) env \<Rightarrow> ('m, 'g) ledger \<Rightarrow> symbol \<Rightarrow> (nat \<Rightarrow> nat \<Rightarrow> nat) \<Rightarrow>
    distribution \<Rightarrow> token_info \<Rightarrow> (bytes \<times> 'v store_op) list" where
  "change_all E s x f d info = change_batch E s x f d
     @ [(key_for_symbol E x, Put (enc_val (c_token_info E) (supply_changed f (sum_list (map snd d)) info)))]"

lemma mint_token_ok:
  assumes E: "env_ok E" and k: "known E s x" and ok: "mint_token E x d s = (Inr u, t)"
  obtains info where "token_info_at E s x = Some info" and "batch_ok (change_all E s x (+) d info)"
    and "t = maybe_committed E (applied E (change_all E s x (+) d info) s)"
    and "\<And>mx. maximum (ti_supply info) = Some mx \<Longrightarrow> d \<noteq> [] \<Longrightarrow>
      circulating (ti_supply info) + sum_list (map snd d) \<le> mx"
proof -
  have st: "store_ok E" using E by simp
  from ok [unfolded mint_token_def bnd_ok] obtain cs r s1 s2 where
      cs: "get_token_supply E x s = (Inr cs, s1)"
    and f: "fold_act d (mint_step E x cs) ([], 0) s1 = (Inr r, s2)"
    and rest: "(case r of (batch, circ) \<Rightarrow>
        bnd (info_token E \<lparr>tia_symbol = x, tia_extended_info = None\<rparr>) (\<lambda>(info, _).
     let info' = info\<lparr>ti_supply := (ti_supply info)
           \<lparr>circulating := circulating (ti_supply info) + circ, total := total (ti_supply info) + circ\<rparr>\<rparr> in
     bnd (encode (c_token_info E) info') (\<lambda>v.
     andthen (db_apply E apply_failed (batch @ [(key_for_symbol E x, Put v)]))
       (maybe_commit E)))) s2 = (Inr u, t)" by blast
  from cs obtain info where info: "token_info_at E s x = Some info" and sup: "cs = ti_supply info" and s1: "s1 = s"
    by (auto simp: get_token_supply_def bnd_ok ret_ok info_token_ok [OF st])
  from mint_fold_ok [OF E k f [unfolded s1]] have s2: "s2 = s"
    and r: "r = (change_batch E s x (+) d, sum_list (map snd d))"
    and mx: "\<And>mx. maximum cs = Some mx \<Longrightarrow> d \<noteq> [] \<Longrightarrow> circulating cs + sum_list (map snd d) \<le> mx"
    by auto
  from rest [unfolded s2 r] info have "batch_ok (change_all E s x (+) d info)"
    and "t = maybe_committed E (applied E (change_all E s x (+) d info) s)"
    using E by (auto simp: bnd_ok info_token_ok [OF st] Let_def encode_ok andthen_ok db_apply_ok [OF st]
        maybe_commit_ok [OF st] change_all_def supply_changed_def)
  with that info mx sup show ?thesis by blast
qed

lemma burn_token_ok:
  assumes E: "env_ok E" and k: "known E s x" and ok: "burn_token E x d s = (Inr u, t)"
  obtains info where "token_info_at E s x = Some info" and "batch_ok (change_all E s x (-) d info)"
    and "t = maybe_committed E (applied E (change_all E s x (-) d info) s)"
    and "sum_list (map snd d) \<le> circulating (ti_supply info)" and "sum_list (map snd d) \<le> total (ti_supply info)"
    and "\<And>a v. (a, v) \<in> set d \<Longrightarrow> v \<le> balance E s a x \<and> \<not> is_anonymous E a"
proof -
  have st: "store_ok E" using E by simp
  from ok [unfolded burn_token_def bnd_ok] obtain r s2 where
      f: "fold_act d (burn_step E x) ([], 0) s = (Inr r, s2)"
    and rest: "(case r of (batch, circ) \<Rightarrow>
        bnd (info_token E \<lparr>tia_symbol = x, tia_extended_info = None\<rparr>) (\<lambda>(info, _).
     bnd (lift (sub_amount (circulating (ti_supply info)) circ)) (\<lambda>c.
     bnd (lift (sub_amount (total (ti_supply info)) circ)) (\<lambda>t.
     let info' = info\<lparr>ti_supply := (ti_supply info)\<lparr>circulating := c, total := t\<rparr>\<rparr> in
     bnd (encode (c_token_info E) info') (\<lambda>v.
     andthen (db_apply E apply_failed (batch @ [(key_for_symbol E x, Put v)]))
       (maybe_commit E)))))) s2 = (Inr u, t)" by blast
  from burn_fold_ok [OF E k f] have s2: "s2 = s"
    and r: "r = (change_batch E s x (-) d, sum_list (map snd d))"
    and le: "\<And>a v. (a, v) \<in> set d \<Longrightarrow> v \<le> balance E s a x \<and> \<not> is_anonymous E a"
    by auto
  from rest [unfolded s2 r] obtain info where info: "token_info_at E s x = Some info"
    and "batch_ok (change_all E s x (-) d info)"
    and "t = maybe_committed E (applied E (change_all E s x (-) d info) s)"
    and "sum_list (map snd d) \<le> circulating (ti_supply info)" "sum_list (map snd d) \<le> total (ti_supply info)"
    using E by (auto simp: bnd_ok info_token_ok [OF st] Let_def encode_ok andthen_ok db_apply_ok [OF st]
        maybe_commit_ok [OF st] change_all_def supply_changed_def lift_ok sub_amount_def split: if_splits)
  with that le show ?thesis by blast
qed

text \<open>A failing mint or burn leaves no trace.\<close>

definition atomic :: "('s, 'f, 'a) act \<Rightarrow> bool" where
  "atomic m \<longleftrightarrow> (\<forall>s e t. m s = (Inl e, t) \<longrightarrow> t = s)"

lemma atomicD: "atomic m \<Longrightarrow> m s = (Inl e, t) \<Longrightarrow> t = s"
  by (simp add: atomic_def)

lemma atomic_bnd:
  assumes "pure_act m" and "\<And>x. atomic (f x)"
  shows "atomic (bnd m f)"
  unfolding atomic_def
proof (intro allI impI)
  fix s e t
  assume b: "bnd m f s = (Inl e, t)"
  obtain r where r: "m s = (r, s)"
    using assms(1) [unfolded pure_act_def, rule_format, of s] by (cases "m s") auto
  with b assms(2) show "t = s" by (cases r) (auto simp: run dest: atomicD)
qed

lemma change_tail_atomic:
  assumes "store_ok E"
  shows "atomic (andthen (db_apply E apply_failed b) (maybe_commit E))"
proof (cases "batch_ok b")
  case True
  with assms show ?thesis by (simp add: atomic_def run)
next
  case False
  have "t = s" if "andthen (db_apply E apply_failed b) (maybe_commit E) s = (Inl e, t)"
    for s :: "('a, 'c) ledger" and e t
    using that db_apply_bad [OF assms False, of apply_failed s] by (auto simp: run)
  then show ?thesis by (simp add: atomic_def)
qed

lemma pure_token_supply: "pure_act (get_token_supply E x)"
  unfolding get_token_supply_def split_def by (intro pure_bnd pure_info_token pure_ret)

lemma pure_encode: "pure_act (encode c v)"
  by (simp add: pure_act_def encode_def run)

lemma mint_token_atomic: "store_ok E \<Longrightarrow> atomic (mint_token E x d)"
  unfolding mint_token_def split_def Let_def
  by (intro atomic_bnd pure_token_supply mint_fold_pure pure_info_token pure_encode change_tail_atomic)

lemma burn_token_atomic: "store_ok E \<Longrightarrow> atomic (burn_token E x d)"
  unfolding burn_token_def split_def Let_def
  by (intro atomic_bnd burn_fold_pure pure_info_token pure_encode pure_lift change_tail_atomic)

section \<open>Supply and balances\<close>

definition share :: "distribution \<Rightarrow> address \<Rightarrow> nat" where
  "share d a = (case map_of d a of None \<Rightarrow> 0 | Some v \<Rightarrow> v)"

lemma sum_share:
  assumes "distinct (map fst d)" and "finite A" and "fst ` set d \<subseteq> A"
  shows "(\<Sum>a \<in> A. share d a) = sum_list (map snd d)"
proof -
  have z: "share d a = 0" if "a \<notin> fst ` set d" for a
    using that by (simp add: share_def map_of_eq_None_iff [symmetric] image_image)
  have "(\<Sum>a \<in> A. share d a) = (\<Sum>a \<in> fst ` set d. share d a)"
    by (rule sum.mono_neutral_right [OF assms(2,3)]) (auto intro: z)
  also have "\<dots> = sum_list (map (share d) (map fst d))"
    using assms(1) by (simp add: sum_list_distinct_conv_sum_set del: map_map)
  also have "map (share d) (map fst d) = map snd d"
    using assms(1) by (auto simp: share_def)
  finally show ?thesis .
qed

lemma distinct_change_all:
  assumes "batch_ok (change_all E s x f d info)"
  shows "distinct (map fst d)"
proof -
  have "distinct (map fst (change_batch E s x f d))"
    using assms by (simp add: batch_ok_def strict_sorted_iff change_all_def)
  then have "distinct (map (\<lambda>a. key_for_account_balance E a x) (map fst d))"
    by (simp add: change_batch_def o_def split_def)
  then show ?thesis by (simp only: distinct_map)
qed

lemma view_change_all:
  assumes E: "env_ok E" and ok: "batch_ok (change_all E s x f d info)"
  shows "view E (applied E (change_all E s x f d info) s) (key_for_symbol E x) =
      Some (enc_val (c_token_info E) (supply_changed f (sum_list (map snd d)) info))"
    and "view E (applied E (change_all E s x f d info) s) (key_for_account_balance E a y) =
      (if y = x \<and> a \<in> fst ` set d then Some (amount_to_vec E (f (balance E s a x) (share d a)))
       else view E s (key_for_account_balance E a y))"
proof -
  let ?b = "change_all E s x f d info"
  have st: "store_ok E" using E by simp
  have dist: "distinct (map fst ?b)"
    using ok by (simp add: batch_ok_def strict_sorted_iff)
  have v: "view E (applied E ?b s) k = apply_batch ?b (view E s) k" for k
    using st ok by simp
  have "(key_for_symbol E x, Put (enc_val (c_token_info E) (supply_changed f (sum_list (map snd d)) info))) \<in> set ?b"
    by (simp add: change_all_def)
  from apply_batch_in [OF dist this] show "view E (applied E ?b s) (key_for_symbol E x) =
      Some (enc_val (c_token_info E) (supply_changed f (sum_list (map snd d)) info))"
    unfolding v by simp
  show "view E (applied E ?b s) (key_for_account_balance E a y) =
      (if y = x \<and> a \<in> fst ` set d then Some (amount_to_vec E (f (balance E s a x) (share d a)))
       else view E s (key_for_account_balance E a y))"
  proof (cases "y = x \<and> a \<in> fst ` set d")
    case True
    then obtain w where w: "(a, w) \<in> set d" by auto
    with distinct_change_all [OF ok] have "map_of d a = Some w" by simp
    with w have "(key_for_account_balance E a x, Put (amount_to_vec E (f (balance E s a x) (share d a)))) \<in> set ?b"
      by (force simp: change_all_def change_batch_def share_def)
    from apply_batch_in [OF dist this] True show ?thesis unfolding v by simp
  next
    case False
    then have "key_for_account_balance E a y \<notin> fst ` set ?b"
      using E by (auto simp: change_all_def change_batch_def image_iff)
    with False show ?thesis unfolding v by (auto simp: apply_batch_other)
  qed
qed

text \<open>
  The addresses that hold a symbol, and the claims that the supply is what they hold, or that
  it covers what they hold. What is stored for the anonymous address counts for neither: its
  balance reads as zero.
\<close>

definition holders :: "('m, 'v, 'g) env \<Rightarrow> ('m, 'g) ledger \<Rightarrow> symbol \<Rightarrow> address set" where
  "holders E s x = {a. view E s (key_for_account_balance E a x) \<noteq> None}"

definition agree :: "bool \<Rightarrow> nat \<Rightarrow> nat \<Rightarrow> bool" where
  "agree exact n m \<longleftrightarrow> (if exact then n = m else n \<le> m)"

definition supply_by :: "bool \<Rightarrow> ('m, 'v, 'g) env \<Rightarrow> ('m, 'g) ledger \<Rightarrow> symbol \<Rightarrow> bool" where
  "supply_by exact E s x \<longleftrightarrow> finite (holders E s x) \<and> (\<exists>info. token_info_at E s x = Some info \<and>
     agree exact (\<Sum>a \<in> holders E s x. balance E s a x) (circulating (ti_supply info)) \<and>
     total (ti_supply info) = circulating (ti_supply info))"

abbreviation "supply_exact \<equiv> supply_by True"
abbreviation "supply_covers \<equiv> supply_by False"

lemma agree_refl [simp]: "agree exact n n"
  by (simp add: agree_def)

lemma supply_exact_covers: "supply_exact E s x \<Longrightarrow> supply_covers E s x"
  by (auto simp: supply_by_def agree_def)

lemma sum_holders:
  assumes "finite A" and "holders E s x \<subseteq> A"
  shows "(\<Sum>a \<in> A. balance E s a x) = (\<Sum>a \<in> holders E s x. balance E s a x)"
  by (rule sum.mono_neutral_right [OF assms]) (auto simp: holders_def balance_def)

lemma supply_byI:
  assumes "finite A" and "holders E s x \<subseteq> A" and "token_info_at E s x = Some info"
    and "agree exact (\<Sum>a \<in> A. balance E s a x) (circulating (ti_supply info))"
    and "total (ti_supply info) = circulating (ti_supply info)"
  shows "supply_by exact E s x"
  using assms finite_subset [OF assms(2,1)] sum_holders [OF assms(1,2)]
  by (simp add: supply_by_def)

lemma share_none: "a \<notin> fst ` set d \<Longrightarrow> share d a = 0"
  by (simp add: share_def map_of_eq_None_iff [symmetric] image_image)

lemma balance_change_all:
  assumes E: "env_ok E" and ok: "batch_ok (change_all E s x f d info)" and f: "\<And>n. f n 0 = n"
  shows "balance E (maybe_committed E (applied E (change_all E s x f d info) s)) a y =
    (if is_anonymous E a then 0 else if y = x then f (balance E s a x) (share d a) else balance E s a y)"
  using E share_none [of a d]
  by (cases "a \<in> fst ` set d"; simp add: balance_def [of E "maybe_committed E z" for z] view_change_all(2) [OF E ok] f)
     (simp_all add: balance_def)

lemma supply_by_change:
  assumes E: "env_ok E" and ok: "batch_ok (change_all E s x f d info)"
    and s: "supply_by exact E s x" "token_info_at E s x = Some info"
    and f: "\<And>n. f n 0 = n"
    and sum: "\<And>A c. finite A \<Longrightarrow> fst ` set d \<subseteq> A \<Longrightarrow> agree exact (\<Sum>a \<in> A. balance E s a x) c \<Longrightarrow>
      agree exact (\<Sum>a \<in> A. if is_anonymous E a then 0 else f (balance E s a x) (share d a)) (f c (\<Sum>a \<in> A. share d a))"
  shows "supply_by exact E (maybe_committed E (applied E (change_all E s x f d info) s)) x"
proof -
  let ?t = "maybe_committed E (applied E (change_all E s x f d info) s)"
  let ?A = "holders E s x \<union> fst ` set d"
  note v = view_change_all [OF E ok]
  have fin: "finite ?A" using s(1) by (simp add: supply_by_def)
  have sub: "holders E ?t x \<subseteq> ?A" using E by (auto simp: holders_def v(2) split: if_splits)
  have info: "token_info_at E ?t x = Some (supply_changed f (sum_list (map snd d)) info)"
    using E by (simp add: token_info_at_def v(1))
  have "agree exact (\<Sum>a \<in> ?A. balance E s a x) (circulating (ti_supply info))"
    using s sum_holders [OF fin, of E s x] by (auto simp: supply_by_def)
  from sum [OF fin _ this] have "agree exact (\<Sum>a \<in> ?A. balance E ?t a x)
      (circulating (ti_supply (supply_changed f (sum_list (map snd d)) info)))"
    using sum_share [OF distinct_change_all [OF ok] fin]
    by (simp add: balance_change_all [OF E ok f] supply_changed_def cong: if_cong)
  then show ?thesis
    using s by (intro supply_byI [OF fin sub info]) (auto simp: supply_by_def supply_changed_def)
qed

lemma sum_minus:
  fixes f g :: "'a \<Rightarrow> nat"
  assumes "\<And>a. a \<in> A \<Longrightarrow> g a \<le> f a"
  shows "(\<Sum>a \<in> A. f a - g a) = (\<Sum>a \<in> A. f a) - (\<Sum>a \<in> A. g a)"
  using assms by (simp add: sum_subtractf_nat)

section \<open>Properties\<close>

text \<open>
  C13. Minting is all or nothing and respects the maximum. For a known symbol it either fails and
  changes nothing, or adds each amount of the distribution to the balance of its address,
  leaves all other balances, and adds the sum to the circulating and the total supply, which
  stays within the maximum. The anonymous address is the exception: its balance reads as zero
  before and after, and what was stored for it is not added to but overwritten with the amount.
\<close>

theorem mint_token_spec:
  assumes "env_ok E" and "known E s x"
  shows "case mint_token E x d s of
      (Inl e, t) \<Rightarrow> t = s
    | (Inr _, t) \<Rightarrow> (\<exists>info. token_info_at E s x = Some info \<and>
        token_info_at E t x = Some (supply_changed (+) (sum_list (map snd d)) info) \<and>
        (\<forall>a y. balance E t a y = balance E s a y + (if y = x \<and> \<not> is_anonymous E a then share d a else 0)) \<and>
        (\<forall>a y. view E t (key_for_account_balance E a y) = (if y = x \<and> a \<in> fst ` set d
           then Some (amount_to_vec E (if is_anonymous E a then share d a else balance E s a x + share d a))
           else view E s (key_for_account_balance E a y))) \<and>
        (\<forall>mx. maximum (ti_supply info) = Some mx \<and> d \<noteq> [] \<longrightarrow>
           circulating (ti_supply info) + sum_list (map snd d) \<le> mx))"
proof -
  obtain r t where run: "mint_token E x d s = (r, t)" by (cases "mint_token E x d s")
  show ?thesis
  proof (cases r)
    case (Inl e)
    with run have "mint_token E x d s = (Inl e, t)" by simp
    from atomicD [OF mint_token_atomic [OF env_okD(1) [OF assms(1)]] this] have "t = s" .
    with run Inl show ?thesis by simp
  next
    case (Inr u)
    from mint_token_ok [OF assms run [unfolded Inr]] obtain info where
        i: "token_info_at E s x = Some info" and ok: "batch_ok (change_all E s x (+) d info)"
      and t: "t = maybe_committed E (applied E (change_all E s x (+) d info) s)"
      and mx: "\<And>mx. maximum (ti_supply info) = Some mx \<Longrightarrow> d \<noteq> [] \<Longrightarrow>
        circulating (ti_supply info) + sum_list (map snd d) \<le> mx" by metis
    note v = view_change_all [OF assms(1) ok]
    have zero: "is_anonymous E a \<Longrightarrow> balance E s a y = 0" for a y by (simp add: balance_def)
    have "balance E t a y = balance E s a y + (if y = x \<and> \<not> is_anonymous E a then share d a else 0)" for a y
      by (simp add: t balance_change_all [OF assms(1) ok] zero)
    moreover have "view E t (key_for_account_balance E a y) = (if y = x \<and> a \<in> fst ` set d
        then Some (amount_to_vec E (if is_anonymous E a then share d a else balance E s a x + share d a))
        else view E s (key_for_account_balance E a y))" for a y
      using assms(1) by (simp add: t v(2) zero)
    moreover have "token_info_at E t x = Some (supply_changed (+) (sum_list (map snd d)) info)"
      using assms(1) by (simp add: t token_info_at_def v(1))
    ultimately show ?thesis using i mx by (simp add: run Inr)
  qed
qed

text \<open>
  Supply and balances agree: if the circulating and total supply of a token are the sum of what
  its holders hold, this is still so after a mint or a burn, whatever its outcome, as long as
  nothing is minted for the anonymous address; if they cover what the holders hold, this is
  still so after any mint and burn.
\<close>

lemma supply_minted:
  assumes "env_ok E" and "supply_by exact E s x" and "known E s x"
    and named: "exact \<longrightarrow> (\<forall>a \<in> fst ` set d. \<not> is_anonymous E a)"
  shows "supply_by exact E (snd (mint_token E x d s)) x"
proof (cases "fst (mint_token E x d s)")
  case (Inl e)
  with atomicD [OF mint_token_atomic, of E x d s e "snd (mint_token E x d s)"] assms show ?thesis
    by (simp add: prod_eq_iff)
next
  case (Inr u)
  then have "mint_token E x d s = (Inr u, snd (mint_token E x d s))" by (simp add: prod_eq_iff)
  from mint_token_ok [OF assms(1,3) this] obtain info where
      i: "token_info_at E s x = Some info" "batch_ok (change_all E s x (+) d info)"
      "snd (mint_token E x d s) = maybe_committed E (applied E (change_all E s x (+) d info) s)" by metis
  let ?new = "\<lambda>a. if is_anonymous E a then 0 else balance E s a x + share d a"
  have le: "?new a \<le> balance E s a x + share d a" for a by simp
  have eq: "exact \<Longrightarrow> ?new a = balance E s a x + share d a" for a
    using named share_none [of a d] by (cases "a \<in> fst ` set d") (auto simp: balance_def)
  have "agree exact (\<Sum>a \<in> A. ?new a) (c + (\<Sum>a \<in> A. share d a))"
    if "agree exact (\<Sum>a \<in> A. balance E s a x) c" for A c
    using that eq sum_mono [of A ?new, OF le] by (auto simp: agree_def sum.distrib)
  with supply_by_change [OF assms(1) i(2) assms(2) i(1)] i(3) show ?thesis by simp
qed

lemma supply_burnt:
  assumes "env_ok E" and "supply_by exact E s x" and "known E s x"
  shows "supply_by exact E (snd (burn_token E x d s)) x"
proof (cases "fst (burn_token E x d s)")
  case (Inl e)
  with atomicD [OF burn_token_atomic, of E x d s e "snd (burn_token E x d s)"] assms show ?thesis
    by (simp add: prod_eq_iff)
next
  case (Inr u)
  then have "burn_token E x d s = (Inr u, snd (burn_token E x d s))" by (simp add: prod_eq_iff)
  from burn_token_ok [OF assms(1,3) this] obtain info where
      b: "token_info_at E s x = Some info" "batch_ok (change_all E s x (-) d info)"
      "snd (burn_token E x d s) = maybe_committed E (applied E (change_all E s x (-) d info) s)"
    and le: "\<And>a v. (a, v) \<in> set d \<Longrightarrow> v \<le> balance E s a x \<and> \<not> is_anonymous E a" by metis
  have sh: "share d a \<le> balance E s a x" for a
    using le by (auto simp: share_def split: option.split dest: map_of_SomeD)
  have "(if is_anonymous E a then 0 else balance E s a x - share d a) = balance E s a x - share d a" for a
    by (simp add: balance_def)
  moreover have "(\<Sum>a \<in> A. balance E s a x - share d a) = (\<Sum>a \<in> A. balance E s a x) - (\<Sum>a \<in> A. share d a)" for A
    using sh by (intro sum_minus) simp
  ultimately have "agree exact (\<Sum>a \<in> A. if is_anonymous E a then 0 else balance E s a x - share d a)
      (c - (\<Sum>a \<in> A. share d a))" if "agree exact (\<Sum>a \<in> A. balance E s a x) c" for A c
    using that by (auto simp: agree_def split: if_splits)
  with supply_by_change [OF assms(1) b(2) assms(2) b(1)] b(3) show ?thesis by simp
qed

text \<open>
  What is minted for the anonymous address counts as supply and nobody holds it, so the
  supply is exact no longer.
\<close>

lemma anonymous_mint_inflates:
  assumes "env_ok E" and "known E s x" and "supply_exact E s x"
    and "is_anonymous E a" and "mint_token E x [(a, n)] s = (Inr u, t)"
  shows "0 < n \<and> supply_covers E t x \<and> \<not> supply_exact E t x"
proof -
  from mint_token_ok [OF assms(1,2,5)] obtain info where
      i: "token_info_at E s x = Some info" and ok: "batch_ok (change_all E s x (+) [(a, n)] info)"
    and t: "t = maybe_committed E (applied E (change_all E s x (+) [(a, n)] info) s)" by metis
  from assms(5) obtain cs s1 r s2 where "fold_act [(a, n)] (mint_step E x cs) ([], 0) s1 = (Inr r, s2)"
    unfolding mint_token_def bnd_ok by blast
  then have "n \<noteq> 0" by (cases "n = 0") (simp_all add: okD mint_step_def throw_run)
  have "supply_covers E t x"
    using supply_minted [of E False s x "[(a, n)]"] assms supply_exact_covers by fastforce
  moreover have "token_info_at E t x = Some (supply_changed (+) n info)"
    using assms(1) by (simp add: t token_info_at_def view_change_all(1) [OF assms(1) ok])
  moreover have "balance E t b x = balance E s b x" for b
    using assms(4) by (auto simp: t balance_change_all [OF assms(1) ok] share_def) (simp_all add: balance_def)
  moreover have "(\<Sum>b \<in> holders E t x. balance E s b x) = (\<Sum>b \<in> holders E s x. balance E s b x)"
  proof -
    have "finite (insert a (holders E s x))" using assms(3) by (simp add: supply_by_def)
    moreover have "holders E t x \<subseteq> insert a (holders E s x)"
      using assms(1) by (auto simp: holders_def t view_change_all(2) [OF assms(1) ok] split: if_splits)
    moreover have "balance E s b x = 0" if "b \<in> insert a (holders E s x)" "b \<notin> holders E t x" for b
      using that assms(1,4) by (auto simp: holders_def t view_change_all(2) [OF assms(1) ok] balance_def split: if_splits)
    ultimately have "(\<Sum>b \<in> insert a (holders E s x). balance E s b x) = (\<Sum>b \<in> holders E t x. balance E s b x)"
      by (intro sum.mono_neutral_right) auto
    with sum_holders [of "insert a (holders E s x)" E s x] show ?thesis
      using \<open>finite (insert a (holders E s x))\<close> by auto
  qed
  ultimately show ?thesis
    using assms(3) i \<open>n \<noteq> 0\<close> by (auto simp: supply_by_def agree_def supply_changed_def)
qed

section \<open>Witnesses\<close>

definition ref_supply :: "(ref_store, string list) ledger" where
  "ref_supply = ref_ledger [(SYMBOLS_ROOT, RSymbols [(7, ''MFX'')]),
     (key_for_symbol ref_env 7, RTokenInfo ref_info), (key_for_ext_info ref_env 7, RExtInfo []),
     (key_for_account_balance ref_env 2 7, RAmount 10)] []"

lemma ref_known: "known ref_env ref_supply 7"
  by (simp add: known_def get_symbols_def get_symbols_and_tickers_def run token_migration_active_def
      ref_supply_def decode_def ref_codecs tagged_def)

lemma ref_supply_info: "token_info_at ref_env ref_supply 7 = Some ref_info"
  by (simp add: token_info_at_def ref_supply_def ref_codecs tagged_def)

lemma ref_supply_view: "view ref_env ref_supply (key_for_account_balance ref_env a 7) =
    (if a = 2 then Some (RAmount 10) else None)"
  by (simp add: ref_supply_def del: ref_env_simps(9))

lemma ref_supply_exact: "supply_exact ref_env ref_supply 7"
proof -
  have "holders ref_env ref_supply 7 = {2}"
    by (auto simp: holders_def ref_supply_view simp del: ref_view)
  moreover have "balance ref_env ref_supply 2 7 = 10"
    by (simp add: balance_def ref_supply_view del: ref_view)
  ultimately show ?thesis by (simp add: supply_by_def ref_supply_info ref_info_def)
qed

lemma ref_mint_runs: "\<exists>t. mint_token ref_env 7 [(3, 5)] ref_supply = (Inr (), t)"
proof -
  have ext: "view ref_env ref_supply (key_for_ext_info ref_env 7) = Some (enc_val (c_ext_info ref_env) [])"
    by (simp add: ref_supply_def enc_val_def ref_codecs tagged_def)
  have i: "info_token ref_env \<lparr>tia_symbol = 7, tia_extended_info = None\<rparr> ref_supply = (Inr (ref_info, []), ref_supply)"
    by (rule token_info_run [OF ref_env_ok ref_supply_info ext])
  obtain bs where mb: "get_multiple_balances ref_env 3 [7] ref_supply = (Inr bs, ref_supply)"
    by (simp add: get_multiple_balances_def get_all_balances_def bnd_run all_balances_fold ret_run
        get_symbols_def get_symbols_and_tickers_def run token_migration_active_def
        ref_supply_def decode_def ref_codecs tagged_def)
  have "fold_act [(3, 5)] (mint_step ref_env 7 (ti_supply ref_info)) ([], 0) ref_supply =
      (Inr (change_batch ref_env ref_supply 7 (+) [(3, 5)], 5), ref_supply)"
  proof -
    have "\<exists>r. fold_act [(3, 5)] (mint_step ref_env 7 (ti_supply ref_info)) ([], 0) ref_supply = (Inr r, ref_supply)"
      by (simp add: mint_step_def run mb Let_def ref_info_def)
    then obtain r where "fold_act [(3, 5)] (mint_step ref_env 7 (ti_supply ref_info)) ([], 0) ref_supply = (Inr r, ref_supply)"
      by blast
    with mint_fold_ok [OF ref_env_ok ref_known this] show ?thesis by simp
  qed
  moreover have "batch_ok (change_all ref_env ref_supply 7 (+) [(3, 5)] ref_info)"
    by (simp add: change_all_def change_batch_def batch_ok_def key_defs less_char_def)
  ultimately show ?thesis
    by (simp add: mint_token_def get_token_supply_def i run change_all_def supply_changed_def Let_def
        del: ref_view fold_act.simps)
qed

lemma mint_token_spec_witness:
  "\<exists>t. mint_token ref_env 7 [(3, 5)] ref_supply = (Inr (), t) \<and> balance ref_env t 3 7 = 5"
proof -
  obtain t where t: "mint_token ref_env 7 [(3, 5)] ref_supply = (Inr (), t)"
    using ref_mint_runs by blast
  have "balance ref_env ref_supply 3 7 = 0"
    by (simp add: balance_def ref_supply_view del: ref_view)
  then have "balance ref_env t 3 7 = 5"
    using mint_token_spec [OF ref_env_ok ref_known, of "[(3, 5)]"] t by (auto simp: share_def)
  with t show ?thesis by blast
qed

end
