(* ===== verification/KvStore.thy ===== *)
theory KvStore
  imports Accounts
begin

text \<open>
  \<open>many-kvstore/src/storage.rs\<close>, \<open>storage/event.rs\<close>, \<open>storage/account.rs\<close>, \<open>module.rs\<close>,
  \<open>module/account.rs\<close> and \<open>module/allow_addrs.rs\<close>: the key-value server. A key has a value
  under the prefix \<open>s\<close> and metadata (its owner, whether it is disabled) under the prefix \<open>a\<close>.
  The operations are related to a pair of maps, from keys to metadata and to values.
\<close>

record 'm kv = "'m backend" +
  latest_event_id :: event_id
  next_subresource :: u32
  root_identity :: address

type_synonym ('m, 'a) kv_op = "('m kv, 'a) op"

section \<open>Storage\<close>

definition KVSTORE_ROOT :: bytes where
  "KVSTORE_ROOT = ''s''"

definition KVSTORE_ACL_ROOT :: bytes where
  "KVSTORE_ACL_ROOT = ''a''"

definition SUBRESOURCE_ID_KEY :: bytes where
  "SUBRESOURCE_ID_KEY = ''/config/subresource_id''"

definition LATEST_EVENT_ID_KEY :: bytes where
  "LATEST_EVENT_ID_KEY = ''/latest_event_id''"

definition kv_set_time :: "timestamp \<Rightarrow> ('m, unit) kv_op" where
  "kv_set_time t = modify (\<lambda>s. s\<lparr>current_time := Some t\<rparr>)"

definition kv_now :: "('m, 'v, 'g) env \<Rightarrow> 'm kv \<Rightarrow> timestamp" where
  "kv_now E s = (case current_time s of None \<Rightarrow> wall_clock E | Some t \<Rightarrow> t)"

definition new_subresource_id :: "('m, 'v, 'g) env \<Rightarrow> ('m, address) kv_op" where
  "new_subresource_id E =
     bnd (gets next_subresource) (\<lambda>current_id.
     andthen (modify (\<lambda>s. s\<lparr>next_subresource := next_subresource s + 1\<rparr>))
     (bnd (gets next_subresource) (\<lambda>n.
     andthen (db_apply E apply_failed [(SUBRESOURCE_ID_KEY, Put (of_bytes E (u32_be n)))])
     (bnd (gets root_identity) (\<lambda>root. lift (from_many (with_subresource_id E root current_id)))))))"

text \<open>
  \<open>load\<close> and \<open>new\<close>: \<open>opened\<close> is what \<open>merk::Merk::open\<close> returned. Their errors are strings,
  which the module wraps with \<open>ManyError::unknown\<close>.
\<close>

definition kv_load :: "('m, 'v, 'g) env \<Rightarrow> string + 'm \<Rightarrow> bool \<Rightarrow> 'm kv res" where
  "kv_load E opened bc =
     rbind (map_err Unknown opened) (\<lambda>m.
     rbind (panic_on_err ''unwrap'' (merk_get E m SUBRESOURCE_ID_KEY)) (\<lambda>x.
     rbind (case x of None \<Rightarrow> Inr 0 | Some v \<Rightarrow> u32_of E v) (\<lambda>n.
     rbind (panic_on_err ''Could not open storage.'' (merk_get E m IDENTITY_ROOT)) (\<lambda>y.
     rbind (case y of None \<Rightarrow> Inl (Panic ''Could not find key'') | Some v \<Rightarrow> Inr v) (\<lambda>ident.
     rbind (case address_from_bytes E ident of Inl e \<Rightarrow> Inl (Err (Unknown (show_error E e))) | Inr a \<Rightarrow> Inr a) (\<lambda>root.
     rbind (panic_on_err ''Could not open storage.'' (merk_get E m LATEST_EVENT_ID_KEY)) (\<lambda>z.
     rbind (case z of None \<Rightarrow> Inl (Panic ''Could not find key'') | Some v \<Rightarrow> Inr v) (\<lambda>latest.
     rbind (map_err Unknown (dec (c_event_id E) latest)) (\<lambda>i.
     Inr \<lparr>persistent_store = m, blockchain = bc, current_time = None, current_hash = None,
          latest_event_id = i, next_subresource = n, root_identity = root\<rparr>)))))))))"

primrec acl_batch :: "('m, 'v, 'g) env \<Rightarrow> (bytes \<times> kv_metadata) list \<Rightarrow> (bytes \<times> 'v store_op) list res" where
  "acl_batch E [] = Inr []"
| "acl_batch E (kv # kvs) = rbind (map_err Unknown (enc (c_kv_metadata E) (snd kv))) (\<lambda>v.
     rbind (acl_batch E kvs) (\<lambda>b. Inr ((KVSTORE_ACL_ROOT @ fst kv, Put v) # b)))"

definition kv_new :: "('m, 'v, 'g) env \<Rightarrow> string + 'm \<Rightarrow> (bytes \<times> kv_metadata) list \<Rightarrow> address \<Rightarrow> bool \<Rightarrow>
    'm kv res" where
  "kv_new E opened acl identity bc =
     rbind (map_err Unknown opened) (\<lambda>m.
     rbind (acl_batch E acl) (\<lambda>b.
     let i = [char_of (0 :: nat)];
         s = \<lparr>persistent_store = m, blockchain = bc, current_time = None, current_hash = None,
              latest_event_id = i, next_subresource = 0, root_identity = identity\<rparr>
     in (case andthen (db_apply E Unknown ((IDENTITY_ROOT, Put (address_to_vec E identity)) # b))
           (bnd (expecting ''Unable to encode event id'' (encode (c_event_id E) i)) (\<lambda>v.
           andthen (expecting ''unwrap'' (db_apply E Unknown [(LATEST_EVENT_ID_KEY, Put v)]))
           (db_commit E Unknown))) s of
         (Inl e, _) \<Rightarrow> Inl e
       | (Inr _, t) \<Rightarrow> Inr t)))"

definition kv_get_height :: "('m, 'v, 'g) env \<Rightarrow> ('m, u64) kv_op" where
  "kv_get_height E = bnd (expecting ''unwrap'' (db_get E Unknown HEIGHT_ROOT))
     (\<lambda>x. case x of None \<Rightarrow> ret 0 | Some v \<Rightarrow> lift (u64_of E v))"

definition kv_inc_height :: "('m, 'v, 'g) env \<Rightarrow> ('m, u64) kv_op" where
  "kv_inc_height E = bnd (kv_get_height E) (\<lambda>current_height.
     andthen (expecting ''unwrap'' (db_apply E Unknown
        [(HEIGHT_ROOT, Put (of_bytes E (u64_be (current_height + 1))))]))
       (ret current_height))"

definition kv_commit :: "('m, 'v, 'g) env \<Rightarrow> ('m, commit_info) kv_op" where
  "kv_commit E = bnd (kv_inc_height E) (\<lambda>_.
     bnd (gets latest_event_id) (\<lambda>i.
     bnd (expecting ''Unable to encode event id'' (encode (c_event_id E) i)) (\<lambda>v.
     andthen (expecting ''unwrap'' (db_apply E Unknown [(LATEST_EVENT_ID_KEY, Put v)]))
     (andthen (expecting ''unwrap'' (db_commit E Unknown))
     (bnd (gets (\<lambda>s. merk_root_hash E (persistent_store s))) (\<lambda>h.
     andthen (modify (\<lambda>s. s\<lparr>current_hash := Some h\<rparr>))
       (ret \<lparr>retain_height = 0, app_hash = h\<rparr>)))))))"

definition kv_hash :: "('m, 'v, 'g) env \<Rightarrow> 'm kv \<Rightarrow> bytes" where
  "kv_hash E s = (case current_hash s of None \<Rightarrow> merk_root_hash E (persistent_store s) | Some h \<Rightarrow> h)"

definition kv_raw_get :: "('m, 'v, 'g) env \<Rightarrow> bytes \<Rightarrow> bytes \<Rightarrow> ('m, 'v option) kv_op" where
  \<comment> \<open>\<open>_get\<close>\<close>
  "kv_raw_get E key prefix = db_get E Unknown (prefix @ key)"

definition kv_get :: "('m, 'v, 'g) env \<Rightarrow> bytes \<Rightarrow> ('m, 'v option) kv_op" where
  "kv_get E key = bnd (kv_raw_get E key KVSTORE_ACL_ROOT) (\<lambda>x.
     andthen (case x of None \<Rightarrow> ret ()
       | Some cbor \<Rightarrow> bnd (decode (c_kv_metadata E) cbor) (\<lambda>meta.
           (case kv_disabled meta of None \<Rightarrow> ret ()
            | Some (Inl False) \<Rightarrow> ret ()
            | Some _ \<Rightarrow> raise (KvError KeyDisabled))))
     (kv_raw_get E key KVSTORE_ROOT))"

definition kv_get_metadata :: "('m, 'v, 'g) env \<Rightarrow> bytes \<Rightarrow> ('m, 'v option) kv_op" where
  "kv_get_metadata E key = kv_raw_get E key KVSTORE_ACL_ROOT"

definition kv_maybe_commit :: "('m, 'v, 'g) env \<Rightarrow> ('m, unit) kv_op" where
  "kv_maybe_commit E = bnd (gets blockchain) (\<lambda>b.
     whenever (\<not> b) (expecting ''unwrap'' (db_commit E Unknown)))"

subsection \<open>Events\<close>

definition kv_key_for_event :: "event_id \<Rightarrow> bytes" where
  "kv_key_for_event i =
     (let i' = (if length i > EVENT_ID_KEY_SIZE_IN_BYTES then take EVENT_ID_KEY_SIZE_IN_BYTES i else i)
      in EVENTS_ROOT @ replicate (EVENT_ID_KEY_SIZE_IN_BYTES - length i') (char_of (0 :: nat)) @ i')"

definition kv_new_event_id :: "('m, 'v, 'g) env \<Rightarrow> ('m, event_id) kv_op" where
  "kv_new_event_id E = andthen (modify (\<lambda>s. s\<lparr>latest_event_id := event_id_add E (latest_event_id s) 1\<rparr>))
     (gets latest_event_id)"

definition kv_nb_events :: "('m, 'v, 'g) env \<Rightarrow> ('m, u64) kv_op" where
  "kv_nb_events E = bnd (expecting ''unwrap'' (db_get E Unknown EVENT_COUNT_ROOT))
     (\<lambda>x. case x of None \<Rightarrow> ret 0 | Some v \<Rightarrow> lift (u64_of E v))"

definition kv_log_event :: "('m, 'v, 'g) env \<Rightarrow> event_info \<Rightarrow> ('m, unit) kv_op" where
  "kv_log_event E content =
     bnd (kv_nb_events E) (\<lambda>current_nb_events.
     bnd (kv_new_event_id E) (\<lambda>i.
     bnd (gets (kv_now E)) (\<lambda>t.
     bnd (expecting ''unwrap'' (encode (c_event E) \<lparr>ev_id = i, ev_time = t, ev_content = content\<rparr>)) (\<lambda>v.
     andthen (expecting ''unwrap'' (db_apply E Unknown
        [(kv_key_for_event i, Put v),
         (EVENT_COUNT_ROOT, Put (of_bytes E (u64_be (current_nb_events + 1))))]))
     (kv_maybe_commit E)))))"

subsection \<open>Keys\<close>

definition kv_store_put :: "('m, 'v, 'g) env \<Rightarrow> kv_metadata \<Rightarrow> bytes \<Rightarrow> bytes \<Rightarrow> ('m, unit) kv_op" where
  "kv_store_put E meta key val =
     bnd (encode (c_kv_metadata E) meta) (\<lambda>v.
     andthen (db_apply E Unknown
        [(KVSTORE_ACL_ROOT @ key, Put v), (KVSTORE_ROOT @ key, Put (of_bytes E val))])
     (andthen (kv_log_event E (EvKvStorePut key val (kv_owner meta)))
     (kv_maybe_commit E)))"

definition reason_of :: "kv_metadata \<Rightarrow> reason option" where
  "reason_of meta = (case kv_disabled meta of Some (Inr r) \<Rightarrow> Some r | _ \<Rightarrow> None)"

definition kv_store_disable :: "('m, 'v, 'g) env \<Rightarrow> kv_metadata \<Rightarrow> bytes \<Rightarrow> ('m, unit) kv_op" where
  "kv_store_disable E meta key =
     bnd (encode (c_kv_metadata E) meta) (\<lambda>v.
     andthen (db_apply E Unknown [(KVSTORE_ACL_ROOT @ key, Put v)])
     (andthen (kv_log_event E (EvKvStoreDisable key (reason_of meta)))
     (kv_maybe_commit E)))"

definition kv_store_transfer :: "('m, 'v, 'g) env \<Rightarrow> bytes \<Rightarrow> address \<Rightarrow> kv_metadata \<Rightarrow> ('m, unit) kv_op" where
  "kv_store_transfer E key previous_owner meta =
     bnd (encode (c_kv_metadata E) meta) (\<lambda>v.
     andthen (db_apply E Unknown [(KVSTORE_ACL_ROOT @ key, Put v)])
     (andthen (kv_log_event E (EvKvStoreTransfer key previous_owner (kv_owner meta)))
     (kv_maybe_commit E)))"


section \<open>Accounts\<close>

text \<open>\<open>many-kvstore/src/storage/account.rs\<close>.\<close>

definition kv_key_for_account :: "('m, 'v, 'g) env \<Rightarrow> address \<Rightarrow> bytes" where
  "kv_key_for_account E i = ''/accounts/'' @ show_address E i"

definition kv_validate_features :: "('m, 'v, 'g) env \<Rightarrow> account \<Rightarrow> unit res" where
  "kv_validate_features E a = not_missing (get_kvstore_feature E (features a))"

definition kv_allowed_roles :: "('m, 'v, 'g) env \<Rightarrow> account \<Rightarrow> role list" where
  "kv_allowed_roles E a = (if is_ok (get_kvstore_feature E (features a))
     then bs_append [Owner] (kvstore_roles E) else [Owner])"

definition kv_validate_roles :: "('m, 'v, 'g) env \<Rightarrow> account \<Rightarrow> unit res" where
  "kv_validate_roles E a = (case filter (\<lambda>r. r \<notin> set (kv_allowed_roles E a)) (account_roles a) of
     [] \<Rightarrow> Inr () | r # _ \<Rightarrow> Inl (Err (AccountError (UnknownRole r))))"

definition kv_validate_account :: "('m, 'v, 'g) env \<Rightarrow> account \<Rightarrow> unit res" where
  "kv_validate_account E a = rbind (kv_validate_features E a) (\<lambda>_. kv_validate_roles E a)"

definition kv_roles_for_account :: "('m, 'v, 'g) env \<Rightarrow> account \<Rightarrow> role list" where
  "kv_roles_for_account E a = (if has_feature_id E (features a) (kvstore_feature_id E)
     then bs_append [] (kvstore_roles E) else [])"

text \<open>An account whose read fails, or that does not decode, counts as absent.\<close>

definition kv_account_even_disabled :: "('m, 'v, 'g) env \<Rightarrow> 'm kv \<Rightarrow> address \<Rightarrow> account option" where
  "kv_account_even_disabled E s i =
     (case merk_get E (persistent_store s) (kv_key_for_account E i) of
        Inr (Some v) \<Rightarrow> (case dec (c_account E) v of Inr a \<Rightarrow> Some a | Inl _ \<Rightarrow> None)
      | _ \<Rightarrow> None)"

definition kv_get_account :: "('m, 'v, 'g) env \<Rightarrow> 'm kv \<Rightarrow> address \<Rightarrow> account option" where
  "kv_get_account E s i = (case kv_account_even_disabled E s i of
     None \<Rightarrow> None
   | Some a \<Rightarrow> if disabled a = None \<or> disabled a = Some (Inl False) then Some a else None)"

definition kv_commit_account :: "('m, 'v, 'g) env \<Rightarrow> address \<Rightarrow> account \<Rightarrow> ('m, unit) kv_op" where
  "kv_commit_account E i a = bnd (encode (c_account E) a) (\<lambda>v.
     andthen (db_apply E Unknown [(kv_key_for_account E i, Put v)]) (kv_maybe_commit E))"

definition kv_add_account_raw :: "('m, 'v, 'g) env \<Rightarrow> account \<Rightarrow> bool \<Rightarrow> ('m, address) kv_op" where
  \<comment> \<open>\<open>_add_account\<close>\<close>
  "kv_add_account_raw E acc add_event =
     bnd (new_subresource_id E) (\<lambda>i.
     let a = add_role E acc i Owner in
     andthen (whenever add_event (kv_log_event E (EvAccountCreate i (description a) (roles a) (features a))))
     (andthen (kv_commit_account E i a) (ret i)))"

definition kv_add_account :: "('m, 'v, 'g) env \<Rightarrow> account \<Rightarrow> ('m, address) kv_op" where
  "kv_add_account E acc = kv_add_account_raw E acc True"

definition kv_store_description :: "('m, 'v, 'g) env \<Rightarrow> account \<Rightarrow> description_args \<Rightarrow> ('m, unit) kv_op" where
  "kv_store_description E a args =
     andthen (kv_log_event E (EvAccountSetDescription (de_account args) (de_description args)))
       (kv_commit_account E (de_account args) (with_description E a (Some (de_description args))))"

definition kv_store_add_roles :: "('m, 'v, 'g) env \<Rightarrow> account \<Rightarrow> roles_args \<Rightarrow> ('m, unit) kv_op" where
  "kv_store_add_roles E a args =
     andthen (kv_log_event E (EvAccountAddRoles (ro_account args) (ro_roles args)))
       (kv_commit_account E (ro_account args) (each_role (add_role E) (ro_roles args) a))"

definition kv_store_remove_roles :: "('m, 'v, 'g) env \<Rightarrow> account \<Rightarrow> roles_args \<Rightarrow> ('m, unit) kv_op" where
  "kv_store_remove_roles E a args =
     (if (case map_of (ro_roles args) (ro_account args) of None \<Rightarrow> False | Some rs \<Rightarrow> Owner \<in> set rs)
      then raise (AccountError AccountMustOwnItself)
      else andthen (kv_log_event E (EvAccountRemoveRoles (ro_account args) (ro_roles args)))
        (kv_commit_account E (ro_account args) (each_role (remove_role E) (ro_roles args) a)))"

definition kv_store_add_features :: "('m, 'v, 'g) env \<Rightarrow> account \<Rightarrow> features_args \<Rightarrow> ('m, unit) kv_op" where
  "kv_store_add_features E acc args = bnd (lift (insert_features E (fe_features args) acc)) (\<lambda>a1.
     let a2 = (case fe_roles args of None \<Rightarrow> a1
               | Some rm \<Rightarrow> fold (\<lambda>(i, rs) a. entry_roles i rs a) rm a1) in
     andthen (lift (kv_validate_account E a2))
     (andthen (kv_log_event E (EvAccountAddFeatures (fe_account args)
          (case fe_roles args of None \<Rightarrow> [] | Some rm \<Rightarrow> rm) (fe_features args)))
       (kv_commit_account E (fe_account args) a2)))"

definition kv_disable_account :: "('m, 'v, 'g) env \<Rightarrow> address \<Rightarrow> ('m, unit) kv_op" where
  "kv_disable_account E i = bnd (gets (\<lambda>s. kv_account_even_disabled E s i)) (\<lambda>x.
     bnd (lift (ok_or (unknown_account i) x)) (\<lambda>a.
     if disabled a = None \<or> disabled a = Some (Inl False) then
       andthen (kv_commit_account E i (a\<lparr>disabled := Some (Inl True)\<rparr>))
       (andthen (kv_log_event E (EvAccountDisable i)) (kv_maybe_commit E))
     else raise (unknown_account i)))"

text \<open>\<open>many-kvstore/src/module/account.rs\<close>.\<close>

definition kv_existing_account :: "('m, 'v, 'g) env \<Rightarrow> address \<Rightarrow> ('m, account) kv_op" where
  "kv_existing_account E i = reads (\<lambda>s. ok_or (unknown_account i) (kv_get_account E s i))"

definition kv_account_create :: "('m, 'v, 'g) env \<Rightarrow> address \<Rightarrow> create_args \<Rightarrow> ('m, address) kv_op" where
  "kv_account_create E sender args =
     (if cr_features args = [] then raise (AccountError EmptyFeature)
      else let a = account_create E sender args in
        andthen (lift (kv_validate_account E a)) (kv_add_account E a))"

definition kv_set_description :: "('m, 'v, 'g) env \<Rightarrow> address \<Rightarrow> description_args \<Rightarrow> ('m, unit) kv_op" where
  "kv_set_description E sender args = bnd (kv_existing_account E (de_account args)) (\<lambda>a.
     andthen (unless (has_role E a sender Owner) needs_owner) (kv_store_description E a args))"

definition kv_list_roles :: "('m, 'v, 'g) env \<Rightarrow> address \<Rightarrow> ('m, role list) kv_op" where
  "kv_list_roles E i = bnd (kv_existing_account E i) (\<lambda>a. ret (kv_roles_for_account E a))"

definition kv_get_roles :: "('m, 'v, 'g) env \<Rightarrow> address \<Rightarrow> address list \<Rightarrow> ('m, role_map) kv_op" where
  "kv_get_roles E i identities = bnd (kv_existing_account E i) (\<lambda>a.
     ret (fold (\<lambda>j m. bt_insert j (get_roles E a j) m) identities []))"

definition kv_add_roles :: "('m, 'v, 'g) env \<Rightarrow> address \<Rightarrow> roles_args \<Rightarrow> ('m, unit) kv_op" where
  "kv_add_roles E sender args = bnd (kv_existing_account E (ro_account args)) (\<lambda>a.
     andthen (unless (has_role E a sender Owner) needs_owner) (kv_store_add_roles E a args))"

definition kv_remove_roles :: "('m, 'v, 'g) env \<Rightarrow> address \<Rightarrow> roles_args \<Rightarrow> ('m, unit) kv_op" where
  "kv_remove_roles E sender args = bnd (kv_existing_account E (ro_account args)) (\<lambda>a.
     andthen (unless (has_role E a sender Owner) needs_owner) (kv_store_remove_roles E a args))"

definition kv_account_info :: "('m, 'v, 'g) env \<Rightarrow> address \<Rightarrow> ('m, account) kv_op" where
  "kv_account_info E i = reads (\<lambda>s. ok_or (unknown_account i) (kv_account_even_disabled E s i))"

definition kv_account_disable :: "('m, 'v, 'g) env \<Rightarrow> address \<Rightarrow> address \<Rightarrow> ('m, unit) kv_op" where
  "kv_account_disable E sender i = bnd (kv_existing_account E i) (\<lambda>a.
     andthen (unless (has_role E a sender Owner) needs_owner) (kv_disable_account E i))"

definition kv_add_features :: "('m, 'v, 'g) env \<Rightarrow> address \<Rightarrow> features_args \<Rightarrow> ('m, unit) kv_op" where
  "kv_add_features E sender args =
     (if fe_features args = [] then raise (AccountError EmptyFeature)
      else bnd (kv_existing_account E (fe_account args)) (\<lambda>a.
        andthen (lift (from_many (needs_role E a sender [Owner]))) (kv_store_add_features E a args)))"

fun kv_run_account :: "('m, 'v, 'g) env \<Rightarrow> address \<Rightarrow> account_request \<Rightarrow> ('m, unit) kv_op" where
  "kv_run_account E sender (AccountCreate args) = bnd (kv_account_create E sender args) (\<lambda>_. ret ())"
| "kv_run_account E sender (AccountSetDescription args) = kv_set_description E sender args"
| "kv_run_account E sender (AccountAddRoles args) = kv_add_roles E sender args"
| "kv_run_account E sender (AccountRemoveRoles args) = kv_remove_roles E sender args"
| "kv_run_account E sender (AccountDisable i) = kv_account_disable E sender i"
| "kv_run_account E sender (AccountAddFeatures args) = kv_add_features E sender args"

section \<open>The module\<close>

text \<open>Who may act for another owner, and who owns a key.\<close>

definition validate_alternative_owner :: "('m, 'v, 'g) env \<Rightarrow> address \<Rightarrow> address \<Rightarrow> role list \<Rightarrow>
    ('m, unit) kv_op" where
  "validate_alternative_owner E sender alternative_owner rs =
     bnd (gets (\<lambda>s. kv_get_account E s alternative_owner)) (\<lambda>x. case x of
       Some a \<Rightarrow> lift (from_many (needs_role E a sender rs))
     | None \<Rightarrow> if is_subresource E alternative_owner then raise (KvError SubresAltUnsupported)
         else if is_anonymous E alternative_owner then raise (KvError AnonAltDenied)
         else raise (KvError PermissionDenied))"

definition kv_verify_acl :: "('m, 'v, 'g) env \<Rightarrow> address \<Rightarrow> bytes \<Rightarrow> ('m, unit) kv_op" where
  "kv_verify_acl E sender key = bnd (kv_get_metadata E key) (\<lambda>x. case x of
     None \<Rightarrow> ret ()
   | Some cbor \<Rightarrow> bnd (decode (c_kv_metadata E) cbor) (\<lambda>meta.
       if kv_owner meta = sender then ret () else raise (KvError PermissionDenied)))"

definition kv_acting :: "('m, 'v, 'g) env \<Rightarrow> address \<Rightarrow> address option \<Rightarrow> role list \<Rightarrow> ('m, address) kv_op" where
  \<comment> \<open>\<open>let owner = if let Some(alternative_owner) = args.alternative_owner\<close>\<close>
  "kv_acting E sender alternative_owner rs = (case alternative_owner of
     Some o' \<Rightarrow> andthen (validate_alternative_owner E sender o' rs) (ret o')
   | None \<Rightarrow> ret sender)"

record put_args =
  pa_key :: bytes
  pa_value :: bytes
  pa_owner :: "address option"

record disable_args =
  da_key :: bytes
  da_owner :: "address option"
  da_reason :: "reason option"

record transfer_args =
  ta_key :: bytes
  ta_owner :: "address option"
  ta_new_owner :: address

definition kv_get_op :: "('m, 'v, 'g) env \<Rightarrow> bytes \<Rightarrow> ('m, bytes option) kv_op" where
  "kv_get_op E key = bnd (kv_get E key) (\<lambda>x. ret (map_option (to_bytes E) x))"

definition kv_query :: "('m, 'v, 'g) env \<Rightarrow> bytes \<Rightarrow> ('m, kv_metadata) kv_op" where
  "kv_query E key = bnd (kv_get_metadata E key) (\<lambda>x.
     bnd (lift (ok_or (KvError KeyNotFound) x)) (decode (c_kv_metadata E)))"

definition kv_put :: "('m, 'v, 'g) env \<Rightarrow> address \<Rightarrow> put_args \<Rightarrow> ('m, unit) kv_op" where
  "kv_put E sender args =
     bnd (kv_acting E sender (pa_owner args) [CanKvStorePut, Owner]) (\<lambda>own.
     andthen (kv_verify_acl E own (pa_key args))
     (kv_store_put E \<lparr>kv_owner = own, kv_disabled = Some (Inl False)\<rparr> (pa_key args) (pa_value args)))"

definition kv_disable :: "('m, 'v, 'g) env \<Rightarrow> address \<Rightarrow> disable_args \<Rightarrow> ('m, unit) kv_op" where
  "kv_disable E sender args =
     bnd (kv_get E (da_key args)) (\<lambda>x.
     if x = None then raise (KvError CannotDisableEmptyKey)
     else bnd (kv_acting E sender (da_owner args) [CanKvStoreDisable, Owner]) (\<lambda>own.
       andthen (kv_verify_acl E own (da_key args))
       (kv_store_disable E \<lparr>kv_owner = own, kv_disabled = Some (case da_reason args of
            Some r \<Rightarrow> Inr r | None \<Rightarrow> Inl True)\<rparr> (da_key args))))"

definition kv_transfer :: "('m, 'v, 'g) env \<Rightarrow> address \<Rightarrow> transfer_args \<Rightarrow> ('m, unit) kv_op" where
  "kv_transfer E sender args =
     bnd (kv_get E (ta_key args)) (\<lambda>x.
     if x = None then raise (KvError KeyNotFound)
     else if is_anonymous E (ta_new_owner args) then raise (KvError AnonAltDenied)
     else bnd (kv_get_metadata E (ta_key args)) (\<lambda>y.
       bnd (lift (ok_or (KvError KeyNotFound) y)) (\<lambda>cbor.
       bnd (decode (c_kv_metadata E) cbor) (\<lambda>meta.
       bnd (kv_acting E sender (ta_owner args) [CanKvStoreTransfer, Owner]) (\<lambda>own.
       andthen (kv_verify_acl E own (ta_key args))
       (kv_store_transfer E (ta_key args) own
          \<lparr>kv_owner = ta_new_owner args, kv_disabled = kv_disabled meta\<rparr>))))))"

text \<open>Making the module: \<open>new\<close> checks the hash of the initial state.\<close>

record kv_initial =
  init_acl :: "(bytes \<times> kv_metadata) list"
  init_identity :: address
  init_hash :: "string option"

definition kv_module_new :: "('m, 'v, 'g) env \<Rightarrow> kv_initial \<Rightarrow> string + 'm \<Rightarrow> bool \<Rightarrow> 'm kv res" where
  "kv_module_new E initial_state opened bc =
     rbind (kv_new E opened (init_acl initial_state) (init_identity initial_state) bc) (\<lambda>s.
     rbind (case init_hash initial_state of None \<Rightarrow> Inr ()
       | Some h \<Rightarrow> let actual = hex_encode E (kv_hash E s) in
           if actual \<noteq> h then Inl (Err (KvError (InvalidInitialHash h actual))) else Inr ()) (\<lambda>_.
     rbind (fst (kv_get_height E s)) (\<lambda>_. Inr s)))"

definition kv_begin_block :: "('m, 'v, 'g) env \<Rightarrow> u64 option \<Rightarrow> ('m, unit) kv_op" where
  "kv_begin_block E time = bnd (kv_get_height E) (\<lambda>_.
     (case time of None \<Rightarrow> ret ()
      | Some t \<Rightarrow> bnd (lift (from_many (timestamp_new E t))) kv_set_time))"

definition kv_abci_info :: "('m, 'v, 'g) env \<Rightarrow> ('m, abci_info) kv_op" where
  "kv_abci_info E = bnd (kv_get_height E) (\<lambda>height.
     bnd (gets (kv_hash E)) (\<lambda>h. ret \<lparr>info_height = height, info_hash = h\<rparr>))"

text \<open>\<open>kvstore.info\<close>, \<open>abci.commit\<close>, and loading, which gives an error of the storage as it is.\<close>

definition kv_info :: "('m, 'v, 'g) env \<Rightarrow> ('m, bytes) kv_op" where
  "kv_info E = gets (kv_hash E)"

definition kv_abci_commit :: "('m, 'v, 'g) env \<Rightarrow> ('m, commit_info) kv_op" where
  "kv_abci_commit E = kv_commit E"

definition kv_module_load :: "('m, 'v, 'g) env \<Rightarrow> string + 'm \<Rightarrow> bool \<Rightarrow> 'm kv res" where
  "kv_module_load E opened bc = kv_load E opened bc"

text \<open>The endpoints the module reports, and whether each is a command.\<close>

definition kv_endpoints :: "(string \<times> bool) list" where
  "kv_endpoints =
    [(''kvstore.info'', False), (''kvstore.get'', False), (''kvstore.query'', False),
     (''kvstore.put'', True), (''kvstore.disable'', True),
     (''account.create'', True), (''account.setDescription'', True), (''account.listRoles'', False),
     (''account.getRoles'', False), (''account.addRoles'', True), (''account.removeRoles'', True),
     (''account.info'', False), (''account.disable'', True), (''account.addFeatures'', True),
     (''events.info'', False), (''events.list'', False)]"

text \<open>\<open>module/allow_addrs.rs\<close>: commands of the listed senders only.\<close>

definition kv_allow_addrs :: "address list \<Rightarrow> (address \<Rightarrow> ('m, 'a) kv_op) \<Rightarrow> address \<Rightarrow> ('m, 'a) kv_op" where
  "kv_allow_addrs allow_addrs execute sender =
     (if sender \<notin> set allow_addrs then raise InvalidFromIdentity else execute sender)"

datatype kv_request =
    KvPut put_args
  | KvDisable disable_args
  | KvTransfer transfer_args
  | KvAccount account_request

fun kv_run :: "('m, 'v, 'g) env \<Rightarrow> address \<Rightarrow> kv_request \<Rightarrow> ('m, unit) kv_op" where
  "kv_run E sender (KvPut args) = kv_put E sender args"
| "kv_run E sender (KvDisable args) = kv_disable E sender args"
| "kv_run E sender (KvTransfer args) = kv_transfer E sender args"
| "kv_run E sender (KvAccount req) = kv_run_account E sender req"

end
