(* ===== verification/KvSafety.thy ===== *)
theory KvSafety
  imports KvStore Reference
begin

text \<open>
  What the key-value server does, as a pair of maps from keys to metadata and to values. The
  interface \<open>account_storage\<close> says what both servers' account storages promise (logging leaves
  the accounts alone, a write changes one account); it is interpreted on both.
\<close>

section \<open>Keys apart\<close>

abbreviation acl_key :: "bytes \<Rightarrow> bytes" where
  "acl_key k \<equiv> KVSTORE_ACL_ROOT @ k"

abbreviation value_key :: "bytes \<Rightarrow> bytes" where
  "value_key k \<equiv> KVSTORE_ROOT @ k"

lemma kv_key_for_event_pad [simp]: "kv_key_for_event i = key_for_event i"
  by (simp add: kv_key_for_event_def key_for_event_def pad_id_def Let_def)

lemma kv_key_for_account_same [simp]: "kv_key_for_account E i = key_for_account E i"
  by (simp add: kv_key_for_account_def key_for_account_def)

interpretation kv_metas: namespace "\<lambda>_ _. True" "(=)" "\<lambda>_. acl_key" "''a''"
  by unfold_locales (simp_all add: KVSTORE_ACL_ROOT_def)

interpretation kv_values: namespace "\<lambda>_ _. True" "(=)" "\<lambda>_. value_key" "''s''"
  by unfold_locales (simp_all add: KVSTORE_ROOT_def)

lemmas kv_key_defs = key_defs KVSTORE_ROOT_def KVSTORE_ACL_ROOT_def SUBRESOURCE_ID_KEY_def LATEST_EVENT_ID_KEY_def

text \<open>The server's own keys start with a slash, those of its clients do not.\<close>

definition own_key :: "bytes \<Rightarrow> bool" where
  "own_key k \<longleftrightarrow> take 1 k = ''/''"

lemma own_keys [simp]:
  "own_key EVENT_COUNT_ROOT" "own_key HEIGHT_ROOT" "own_key (key_for_event i)" "own_key (key_for_account E a)"
  "own_key SUBRESOURCE_ID_KEY" "own_key LATEST_EVENT_ID_KEY" "own_key IDENTITY_ROOT"
  "\<not> own_key (acl_key k)" "\<not> own_key (value_key k)"
  by (simp_all add: own_key_def kv_key_defs)

lemma client_key_apart [simp]:
  "own_key l \<Longrightarrow> acl_key k \<noteq> l" "own_key l \<Longrightarrow> value_key k \<noteq> l"
  "own_key l \<Longrightarrow> l \<noteq> acl_key k" "own_key l \<Longrightarrow> l \<noteq> value_key k"
  "acl_key k \<noteq> value_key j" "value_key j \<noteq> acl_key k"
  using own_keys(8,9) by (auto simp: KVSTORE_ROOT_def KVSTORE_ACL_ROOT_def)

lemma kv_own_apart [simp]:
  "SUBRESOURCE_ID_KEY \<noteq> EVENT_COUNT_ROOT" "SUBRESOURCE_ID_KEY \<noteq> HEIGHT_ROOT"
  "SUBRESOURCE_ID_KEY \<noteq> key_for_account E i" "SUBRESOURCE_ID_KEY \<noteq> key_for_event j"
  "LATEST_EVENT_ID_KEY \<noteq> EVENT_COUNT_ROOT" "LATEST_EVENT_ID_KEY \<noteq> HEIGHT_ROOT"
  "LATEST_EVENT_ID_KEY \<noteq> key_for_account E i" "LATEST_EVENT_ID_KEY \<noteq> key_for_event j"
  "LATEST_EVENT_ID_KEY \<noteq> SUBRESOURCE_ID_KEY" "LATEST_EVENT_ID_KEY \<noteq> IDENTITY_ROOT"
  "SUBRESOURCE_ID_KEY \<noteq> IDENTITY_ROOT"
  by (simp_all add: kv_key_defs)

lemmas kv_own_apart_sym [simp] = kv_own_apart [symmetric]

section \<open>Runs\<close>

definition kv_env_ok :: "('m, 'v, 'g) env \<Rightarrow> bool" where
  "kv_env_ok E \<longleftrightarrow> env_ok E \<and> codec_ok (c_kv_metadata E) \<and> codec_ok (c_event_id E)"

lemma kv_env_okD [simp]:
  assumes "kv_env_ok E"
  shows "env_ok E" "codec_ok (c_kv_metadata E)" "codec_ok (c_event_id E)"
    and "store_ok E" "codec_ok (c_event E)" "codec_ok (c_account E)" "address_ok E" "event_id_ok E"
  using assms by (simp_all add: kv_env_ok_def)

lemma kv_fields [simp]:
  "latest_event_id (applied E b s) = latest_event_id s"
  "next_subresource (applied E b s) = next_subresource s"
  "root_identity (applied E b s) = root_identity s"
  "latest_event_id (committed E s) = latest_event_id s"
  "next_subresource (committed E s) = next_subresource s"
  "root_identity (committed E s) = root_identity s"
  by (simp_all add: applied_def committed_def)

lemma view_kv_fields [simp]:
  "view E (s\<lparr>latest_event_id := i\<rparr>) = view E s"
  "view E (s\<lparr>next_subresource := n\<rparr>) = view E s"
  by (simp_all add: view_def)

definition kv_maybe_committed :: "('m, 'v, 'g) env \<Rightarrow> 'm kv \<Rightarrow> 'm kv" where
  "kv_maybe_committed E s = (if blockchain s then s else committed E s)"

lemma kv_maybe_committed_fields [simp]:
  "latest_event_id (kv_maybe_committed E s) = latest_event_id s"
  "next_subresource (kv_maybe_committed E s) = next_subresource s"
  "root_identity (kv_maybe_committed E s) = root_identity s"
  "blockchain (kv_maybe_committed E s) = blockchain s"
  "current_time (kv_maybe_committed E s) = current_time s"
  "store_ok E \<Longrightarrow> view E (kv_maybe_committed E s) = view E s"
  by (simp_all add: kv_maybe_committed_def)

lemma kv_maybe_commit_run [run]:
  "store_ok E \<Longrightarrow> kv_maybe_commit E s = (Inr (), kv_maybe_committed E s)"
  by (simp add: kv_maybe_commit_def kv_maybe_committed_def run)

definition kv_counter :: "('m, 'v, 'g) env \<Rightarrow> 'm kv \<Rightarrow> bytes \<Rightarrow> u64 res" where
  "kv_counter E s k = (case view E s k of None \<Rightarrow> Inr 0 | Some v \<Rightarrow> u64_of E v)"

lemma kv_get_height_run [run]: "store_ok E \<Longrightarrow> kv_get_height E s = (kv_counter E s HEIGHT_ROOT, s)"
  by (simp add: kv_get_height_def kv_counter_def run split: option.split)

lemma kv_nb_events_run [run]: "store_ok E \<Longrightarrow> kv_nb_events E s = (kv_counter E s EVENT_COUNT_ROOT, s)"
  by (simp add: kv_nb_events_def kv_counter_def run split: option.split)

definition kv_logged :: "('m, 'v, 'g) env \<Rightarrow> event_info \<Rightarrow> u64 \<Rightarrow> 'm kv \<Rightarrow> 'm kv" where
  "kv_logged E c n s = (let i = event_id_add E (latest_event_id s) 1 in
     kv_maybe_committed E (applied E
       [(key_for_event i, Put (enc_val (c_event E) \<lparr>ev_id = i, ev_time = kv_now E s, ev_content = c\<rparr>)),
        (EVENT_COUNT_ROOT, Put (of_bytes E (u64_be (n + 1))))] (s\<lparr>latest_event_id := i\<rparr>)))"

lemma kv_log_event_run:
  assumes "kv_env_ok E" and "kv_counter E s EVENT_COUNT_ROOT = Inr n"
  shows "kv_log_event E c s = (Inr (), kv_logged E c n s)"
  using assms by (simp add: kv_log_event_def kv_logged_def run Let_def kv_now_def kv_new_event_id_def)

lemma kv_logged_fields [simp]:
  "latest_event_id (kv_logged E c n s) = event_id_add E (latest_event_id s) 1"
  "next_subresource (kv_logged E c n s) = next_subresource s"
  "root_identity (kv_logged E c n s) = root_identity s"
  "blockchain (kv_logged E c n s) = blockchain s"
  by (simp_all add: kv_logged_def Let_def)

lemma view_kv_logged:
  assumes "store_ok E"
  shows "view E (kv_logged E c n s) = (view E s)
    (key_for_event (event_id_add E (latest_event_id s) 1) \<mapsto> enc_val (c_event E)
        \<lparr>ev_id = event_id_add E (latest_event_id s) 1, ev_time = kv_now E s, ev_content = c\<rparr>,
     EVENT_COUNT_ROOT \<mapsto> of_bytes E (u64_be (n + 1)))"
  using assms by (simp add: kv_logged_def Let_def)

lemma view_kv_logged_other:
  assumes "store_ok E" and "\<And>i. k \<noteq> key_for_event i" and "k \<noteq> EVENT_COUNT_ROOT"
  shows "view E (kv_logged E c n s) k = view E s k"
  using assms by (simp add: view_kv_logged)

section \<open>The two maps\<close>

type_synonym kv_maps = "(bytes \<rightharpoonup> kv_metadata) \<times> (bytes \<rightharpoonup> bytes)"

definition kv_meta :: "('m, 'v, 'g) env \<Rightarrow> 'm kv \<Rightarrow> bytes \<rightharpoonup> kv_metadata" where
  "kv_meta E s k = (case view E s (acl_key k) of None \<Rightarrow> None
     | Some v \<Rightarrow> (case dec (c_kv_metadata E) v of Inl _ \<Rightarrow> None | Inr m \<Rightarrow> Some m))"

definition kv_value :: "('m, 'v, 'g) env \<Rightarrow> 'm kv \<Rightarrow> bytes \<rightharpoonup> bytes" where
  "kv_value E s k = map_option (to_bytes E) (view E s (value_key k))"

definition kv_abs :: "('m, 'v, 'g) env \<Rightarrow> 'm kv \<Rightarrow> kv_maps" where
  "kv_abs E s = (kv_meta E s, kv_value E s)"

text \<open>
  A state the server's operations understand: the counters are 8 bytes long, all metadata
  decodes.
\<close>

definition kv_ok :: "('m, 'v, 'g) env \<Rightarrow> 'm kv \<Rightarrow> bool" where
  "kv_ok E s \<longleftrightarrow> (\<exists>n. kv_counter E s EVENT_COUNT_ROOT = Inr n) \<and> (\<exists>n. kv_counter E s HEIGHT_ROOT = Inr n) \<and>
     (\<forall>k v. view E s (acl_key k) = Some v \<longrightarrow> (\<exists>m. dec (c_kv_metadata E) v = Inr m))"

lemma kv_meta_None: "kv_ok E s \<Longrightarrow> view E s (acl_key k) = None \<longleftrightarrow> kv_meta E s k = None"
  unfolding kv_ok_def kv_meta_def by (auto split: option.splits sum.splits) (metis sum.simps(4))

lemma kv_meta_Some: "kv_meta E s k = Some m \<longleftrightarrow> (\<exists>v. view E s (acl_key k) = Some v \<and> dec (c_kv_metadata E) v = Inr m)"
  by (auto simp: kv_meta_def split: option.splits sum.splits)

lemma kv_abs_cong: "(\<And>k. \<not> own_key k \<Longrightarrow> view E t k = view E s k) \<Longrightarrow> kv_abs E t = kv_abs E s"
  by (simp add: kv_abs_def kv_meta_def [abs_def] kv_value_def [abs_def])

lemma kv_abs_logged [simp]: "kv_env_ok E \<Longrightarrow> kv_abs E (kv_logged E c n s) = kv_abs E s"
  by (rule kv_abs_cong) (auto simp: view_kv_logged)

lemma kv_abs_maybe [simp]: "kv_env_ok E \<Longrightarrow> kv_abs E (kv_maybe_committed E s) = kv_abs E s"
  by (rule kv_abs_cong) simp

lemma kv_ok_logged: "kv_env_ok E \<Longrightarrow> kv_ok E s \<Longrightarrow> kv_ok E (kv_logged E c n s)"
  by (auto simp: kv_ok_def kv_counter_def view_kv_logged)

lemma kv_ok_cong: "view E t = view E s \<Longrightarrow> kv_ok E t = kv_ok E s"
  by (simp add: kv_ok_def kv_counter_def)

lemma kv_ok_maybe: "kv_env_ok E \<Longrightarrow> kv_ok E (kv_maybe_committed E s) = kv_ok E s"
  by (rule kv_ok_cong) simp


section \<open>The specification\<close>

definition key_enabled :: "kv_metadata \<Rightarrow> bool" where
  "key_enabled m \<longleftrightarrow> kv_disabled m = None \<or> kv_disabled m = Some (Inl False)"

text \<open>The value under a key: none under a key without one, an error under a disabled key.\<close>

definition spec_get :: "kv_maps \<Rightarrow> bytes \<Rightarrow> bytes option res" where
  "spec_get A k = (case fst A k of
     None \<Rightarrow> Inr (snd A k)
   | Some m \<Rightarrow> if key_enabled m then Inr (snd A k) else Inl (Err (KvError KeyDisabled)))"

definition spec_acl :: "kv_maps \<Rightarrow> address \<Rightarrow> bytes \<Rightarrow> unit res" where
  "spec_acl A own k = (case fst A k of None \<Rightarrow> Inr ()
     | Some m \<Rightarrow> if kv_owner m = own then Inr () else Inl (Err (KvError PermissionDenied)))"

definition set_meta :: "bytes \<Rightarrow> kv_metadata \<Rightarrow> kv_maps \<Rightarrow> kv_maps" where
  "set_meta k m A = ((fst A)(k \<mapsto> m), snd A)"

definition set_value :: "bytes \<Rightarrow> bytes \<Rightarrow> kv_maps \<Rightarrow> kv_maps" where
  "set_value k v A = (fst A, (snd A)(k \<mapsto> v))"

text \<open>
  What each command makes of the maps, given whom the sender acts for (\<open>acting\<close>) and which
  addresses are anonymous. A request on accounts leaves them alone.
\<close>

fun kv_spec :: "(address option \<Rightarrow> role list \<Rightarrow> address res) \<Rightarrow> (address \<Rightarrow> bool) \<Rightarrow> kv_maps \<Rightarrow>
    kv_request \<Rightarrow> kv_maps res" where
  "kv_spec acting anon A (KvPut a) =
     rbind (acting (pa_owner a) [CanKvStorePut, Owner]) (\<lambda>own.
     rbind (spec_acl A own (pa_key a)) (\<lambda>_.
     Inr (set_value (pa_key a) (pa_value a)
       (set_meta (pa_key a) \<lparr>kv_owner = own, kv_disabled = Some (Inl False)\<rparr> A))))"
| "kv_spec acting anon A (KvDisable a) =
     rbind (spec_get A (da_key a)) (\<lambda>x.
     if x = None then Inl (Err (KvError CannotDisableEmptyKey))
     else rbind (acting (da_owner a) [CanKvStoreDisable, Owner]) (\<lambda>own.
       rbind (spec_acl A own (da_key a)) (\<lambda>_.
       Inr (set_meta (da_key a) \<lparr>kv_owner = own, kv_disabled = Some (case da_reason a of
          Some r \<Rightarrow> Inr r | None \<Rightarrow> Inl True)\<rparr> A))))"
| "kv_spec acting anon A (KvTransfer a) =
     rbind (spec_get A (ta_key a)) (\<lambda>x.
     if x = None then Inl (Err (KvError KeyNotFound))
     else if anon (ta_new_owner a) then Inl (Err (KvError AnonAltDenied))
     else (case fst A (ta_key a) of None \<Rightarrow> Inl (Err (KvError KeyNotFound))
       | Some m \<Rightarrow> rbind (acting (ta_owner a) [CanKvStoreTransfer, Owner]) (\<lambda>own.
         rbind (spec_acl A own (ta_key a)) (\<lambda>_.
         Inr (set_meta (ta_key a) \<lparr>kv_owner = ta_new_owner a, kv_disabled = kv_disabled m\<rparr> A)))))"
| "kv_spec acting anon A (KvAccount req) = Inr A"

fun is_command :: "kv_request \<Rightarrow> bool" where
  "is_command (KvAccount _) = False"
| "is_command _ = True"

section \<open>Reading\<close>

lemma kv_raw_get_run [run]: "store_ok E \<Longrightarrow> kv_raw_get E k p s = (Inr (view E s (p @ k)), s)"
  by (simp add: kv_raw_get_def run)

lemma kv_get_run:
  assumes "kv_env_ok E" and "kv_ok E s"
  shows "kv_get E k s = (case kv_meta E s k of
       None \<Rightarrow> (Inr (view E s (value_key k)), s)
     | Some m \<Rightarrow> if key_enabled m then (Inr (view E s (value_key k)), s)
         else (Inl (Err (KvError KeyDisabled)), s))"
proof (cases "view E s (acl_key k)")
  case None
  then show ?thesis using assms by (simp add: kv_get_def run kv_meta_def)
next
  case (Some v)
  with assms(2) obtain m where m: "dec (c_kv_metadata E) v = Inr m" unfolding kv_ok_def by blast
  then have "kv_meta E s k = Some m" using Some by (simp add: kv_meta_def)
  with assms Some m show ?thesis
    by (auto simp: kv_get_def run decode_def key_enabled_def split: option.split sum.split bool.split)
qed

lemma kv_get_op_run:
  assumes "kv_env_ok E" and "kv_ok E s"
  shows "kv_get_op E k s = (spec_get (kv_abs E s) k, s)"
  using assms by (simp add: kv_get_op_def run kv_get_run spec_get_def kv_abs_def kv_value_def split: option.split)

lemma kv_query_run:
  assumes "kv_env_ok E" and "kv_ok E s"
  shows "kv_query E k s = (case kv_meta E s k of None \<Rightarrow> Inl (Err (KvError KeyNotFound)) | Some m \<Rightarrow> Inr m, s)"
proof (cases "view E s (acl_key k)")
  case None
  then show ?thesis using assms by (simp add: kv_query_def kv_get_metadata_def run kv_meta_def ok_or_def)
next
  case (Some v)
  with assms(2) obtain m where "dec (c_kv_metadata E) v = Inr m" unfolding kv_ok_def by blast
  with Some assms show ?thesis
    by (simp add: kv_query_def kv_get_metadata_def run kv_meta_def ok_or_def decode_def)
qed

lemma kv_verify_acl_run:
  assumes "kv_env_ok E" and "kv_ok E s"
  shows "kv_verify_acl E own k s = (spec_acl (kv_abs E s) own k, s)"
proof (cases "view E s (acl_key k)")
  case None
  then show ?thesis using assms
    by (simp add: kv_verify_acl_def kv_get_metadata_def run spec_acl_def kv_abs_def kv_meta_def)
next
  case (Some v)
  with assms(2) obtain m where "dec (c_kv_metadata E) v = Inr m" unfolding kv_ok_def by blast
  with Some assms show ?thesis
    by (simp add: kv_verify_acl_def kv_get_metadata_def run spec_acl_def kv_abs_def kv_meta_def decode_def)
qed

lemma kv_acting_pure: "snd (kv_acting E sender alt rs s) = s"
  by (auto simp: kv_acting_def validate_alternative_owner_def run split: option.split sum.split prod.split)

lemma kv_acting_run: "kv_acting E sender alt rs s = (fst (kv_acting E sender alt rs s), s)"
  using kv_acting_pure [of E sender alt rs s] by (metis prod.collapse)

section \<open>Writing\<close>

lemma kv_store_put_run:
  assumes E: "kv_env_ok E" and s: "kv_ok E s"
  shows "\<exists>t. kv_store_put E meta k v s = (Inr (), t) \<and> kv_ok E t \<and>
    kv_abs E t = set_value k v (set_meta k meta (kv_abs E s))"
proof -
  let ?a = "applied E [(acl_key k, Put (enc_val (c_kv_metadata E) meta)), (value_key k, Put (of_bytes E v))] s"
  have less: "acl_key k < value_key k"
    by (simp add: KVSTORE_ROOT_def KVSTORE_ACL_ROOT_def less_char_def)
  have va: "view E ?a = (view E s)(acl_key k \<mapsto> enc_val (c_kv_metadata E) meta, value_key k \<mapsto> of_bytes E v)"
    using E less by simp
  have c: "kv_counter E ?a l = kv_counter E s l" if "own_key l" for l
    using that E less by (simp add: kv_counter_def)
  have ok: "kv_ok E ?a"
    using s E unfolding kv_ok_def by (auto simp: c va split: if_splits)
  then obtain n where n: "kv_counter E ?a EVENT_COUNT_ROOT = Inr n" unfolding kv_ok_def by blast
  have "kv_abs E ?a = set_value k v (set_meta k meta (kv_abs E s))"
    using E unfolding kv_abs_def set_value_def set_meta_def kv_meta_def [abs_def] kv_value_def [abs_def] va
    by (auto intro!: ext)
  with ok n less E show ?thesis
    by (simp add: kv_store_put_def run encode_run kv_log_event_run kv_ok_maybe kv_ok_logged)
qed

lemma kv_write_meta_run:
  assumes E: "kv_env_ok E" and s: "kv_ok E s"
  shows "\<exists>t. bnd (encode (c_kv_metadata E) meta) (\<lambda>v.
     andthen (db_apply E Unknown [(acl_key k, Put v)])
     (andthen (kv_log_event E c) (kv_maybe_commit E))) s = (Inr (), t) \<and> kv_ok E t \<and>
    kv_abs E t = set_meta k meta (kv_abs E s)"
proof -
  let ?a = "applied E [(acl_key k, Put (enc_val (c_kv_metadata E) meta))] s"
  have va: "view E ?a = (view E s)(acl_key k \<mapsto> enc_val (c_kv_metadata E) meta)"
    using E by simp
  have c: "kv_counter E ?a l = kv_counter E s l" if "own_key l" for l
    using that E by (simp add: kv_counter_def)
  have ok: "kv_ok E ?a"
    using s E unfolding kv_ok_def by (auto simp: c va split: if_splits)
  then obtain n where n: "kv_counter E ?a EVENT_COUNT_ROOT = Inr n" unfolding kv_ok_def by blast
  have "kv_abs E ?a = set_meta k meta (kv_abs E s)"
    using E unfolding kv_abs_def set_meta_def kv_meta_def [abs_def] kv_value_def [abs_def] va
    by (auto intro!: ext)
  with ok n E show ?thesis
    by (simp add: run encode_run kv_log_event_run kv_ok_maybe kv_ok_logged)
qed


section \<open>Commands refine the specification\<close>

definition kv_auth :: "('m, 'v, 'g) env \<Rightarrow> 'm kv \<Rightarrow> address \<Rightarrow> address option \<Rightarrow> role list \<Rightarrow> address res" where
  "kv_auth E s sender alt rs = fst (kv_acting E sender alt rs s)"

text \<open>A run that agrees with an outcome of the specification.\<close>

definition agrees :: "('m, 'v, 'g) env \<Rightarrow> 'm kv \<Rightarrow> kv_maps res \<Rightarrow> unit res \<times> 'm kv \<Rightarrow> bool" where
  "agrees E s spec run' \<longleftrightarrow> (case spec of
     Inl e \<Rightarrow> run' = (Inl e, s)
   | Inr A \<Rightarrow> \<exists>t. run' = (Inr (), t) \<and> kv_ok E t \<and> kv_abs E t = A)"

lemma agrees_acting:
  assumes "\<And>own. kv_auth E s sender alt rs = Inr own \<Longrightarrow> agrees E s (f own) (m own s)"
  shows "agrees E s (rbind (kv_auth E s sender alt rs) f) (bnd (kv_acting E sender alt rs) m s)"
proof (cases "kv_auth E s sender alt rs")
  case (Inl e)
  then have "kv_acting E sender alt rs s = (Inl e, s)"
    using kv_acting_run [of E sender alt rs s] by (simp add: kv_auth_def)
  with Inl show ?thesis by (simp add: agrees_def run)
next
  case (Inr own)
  then have "kv_acting E sender alt rs s = (Inr own, s)"
    using kv_acting_run [of E sender alt rs s] by (simp add: kv_auth_def)
  with Inr assms show ?thesis by (simp add: run)
qed

lemma agrees_acl:
  assumes "kv_env_ok E" and "kv_ok E s" and "agrees E s f (m s)"
  shows "agrees E s (rbind (spec_acl (kv_abs E s) own k) (\<lambda>_. f)) (andthen (kv_verify_acl E own k) m s)"
  using assms(3) by (cases "spec_acl (kv_abs E s) own k")
    (simp_all add: run kv_verify_acl_run assms(1,2) agrees_def)

lemma agrees_get:
  assumes "kv_env_ok E" and "kv_ok E s"
    and "\<And>x. spec_get (kv_abs E s) k = Inr (map_option (to_bytes E) x) \<Longrightarrow>
      agrees E s (f (map_option (to_bytes E) x)) (m x s)"
  shows "agrees E s (rbind (spec_get (kv_abs E s) k) f) (bnd (kv_get E k) m s)"
proof (cases "\<exists>m. kv_meta E s k = Some m \<and> \<not> key_enabled m")
  case True
  then show ?thesis
    using assms(1,2) by (auto simp: run kv_get_run agrees_def spec_get_def kv_abs_def)
next
  case False
  then have "spec_get (kv_abs E s) k = Inr (map_option (to_bytes E) (view E s (value_key k)))"
    and "kv_get E k s = (Inr (view E s (value_key k)), s)"
    using assms(1,2) by (auto simp: kv_get_run spec_get_def kv_abs_def kv_value_def split: option.split)
  with assms(3) show ?thesis by (simp add: run)
qed

lemma agrees_put:
  assumes "kv_env_ok E" and "kv_ok E s"
  shows "agrees E s (Inr (set_value k v (set_meta k meta (kv_abs E s)))) (kv_store_put E meta k v s)"
  using kv_store_put_run [OF assms] by (auto simp: agrees_def)

lemma agrees_meta:
  assumes "kv_env_ok E" and "kv_ok E s"
  shows "agrees E s (Inr (set_meta k meta (kv_abs E s))) (kv_store_disable E meta k s)"
    and "agrees E s (Inr (set_meta k meta (kv_abs E s))) (kv_store_transfer E k old meta s)"
  using kv_write_meta_run [OF assms, of meta k]
  by (simp_all add: agrees_def kv_store_disable_def kv_store_transfer_def)

lemma agrees_raise [simp]: "agrees E s (Inl (Err e)) (raise e s)"
  by (simp add: agrees_def run)

lemma agrees_command:
  assumes E: "kv_env_ok E" and s: "kv_ok E s" and "is_command req"
  shows "agrees E s (kv_spec (kv_auth E s sender) (is_anonymous E) (kv_abs E s) req) (kv_run E sender req s)"
proof (cases req)
  case (KvPut a)
  show ?thesis unfolding KvPut kv_run.simps kv_spec.simps kv_put_def
    by (intro agrees_acting agrees_acl agrees_put E s)
next
  case (KvDisable a)
  show ?thesis unfolding KvDisable kv_run.simps kv_spec.simps kv_disable_def
  proof (rule agrees_get [OF E s], goal_cases)
    case (1 x)
    show ?case
      by (cases x) (simp, simp only: option.map option.simps if_False, intro agrees_acting agrees_acl agrees_meta E s)
  qed
next
  case (KvTransfer a)
  show ?thesis unfolding KvTransfer kv_run.simps kv_spec.simps kv_transfer_def
  proof (rule agrees_get [OF E s], goal_cases)
    case (1 x)
    let ?k = "ta_key a"
    have "agrees E s (case fst (kv_abs E s) ?k of None \<Rightarrow> Inl (Err (KvError KeyNotFound))
       | Some m \<Rightarrow> rbind (kv_auth E s sender (ta_owner a) [CanKvStoreTransfer, Owner]) (\<lambda>own.
         rbind (spec_acl (kv_abs E s) own ?k) (\<lambda>_.
         Inr (set_meta ?k \<lparr>kv_owner = ta_new_owner a, kv_disabled = kv_disabled m\<rparr> (kv_abs E s)))))
      (bnd (kv_get_metadata E ?k) (\<lambda>y.
       bnd (lift (ok_or (KvError KeyNotFound) y)) (\<lambda>cbor.
       bnd (decode (c_kv_metadata E) cbor) (\<lambda>meta.
       bnd (kv_acting E sender (ta_owner a) [CanKvStoreTransfer, Owner]) (\<lambda>own.
       andthen (kv_verify_acl E own ?k)
       (kv_store_transfer E ?k own \<lparr>kv_owner = ta_new_owner a, kv_disabled = kv_disabled meta\<rparr>))))) s)"
    proof (cases "kv_meta E s ?k")
      case None
      then have "view E s (acl_key ?k) = None" using kv_meta_None [OF s] by simp
      with None E show ?thesis by (simp add: kv_abs_def agrees_def kv_get_metadata_def run ok_or_def)
    next
      case (Some m)
      then obtain v where "view E s (acl_key ?k) = Some v" "dec (c_kv_metadata E) v = Inr m"
        by (auto simp: kv_meta_Some)
      then have eq: "bnd (kv_get_metadata E ?k) (\<lambda>y. bnd (lift (ok_or (KvError KeyNotFound) y)) (\<lambda>cbor.
         bnd (decode (c_kv_metadata E) cbor) f)) s = f m s" for f :: "kv_metadata \<Rightarrow> ('a, unit) kv_op"
        using E by (simp add: kv_get_metadata_def run ok_or_def decode_def)
      have "fst (kv_abs E s) ?k = Some m" using Some by (simp add: kv_abs_def)
      then show ?thesis unfolding eq
        by (simp only: option.simps) (intro agrees_acting agrees_acl agrees_meta E s)
    qed
    then show ?case by (cases x) auto
  qed
next
  case (KvAccount a)
  with assms(3) show ?thesis by simp
qed


section \<open>Requests on accounts\<close>

lemma keeps_expecting [keepsI]: "keeps I m \<Longrightarrow> keeps I (expecting msg m)"
  by (auto simp: keeps_def run split: prod.split)

text \<open>What survives the writes of the account storage survives every request on accounts.\<close>

definition account_stable :: "('m, 'v, 'g) env \<Rightarrow> ('m kv \<Rightarrow> bool) \<Rightarrow> bool" where
  "account_stable E I \<longleftrightarrow> store_ok E \<and>
     (\<forall>s i v. I s \<longrightarrow> I (applied E [(key_for_account E i, Put v)] s)) \<and>
     keeps I (new_subresource_id E) \<and>
     (\<forall>s. I s \<longrightarrow> I (committed E s)) \<and>
     (\<forall>c. keeps I (kv_log_event E c))"

lemma stable_parts:
  assumes "account_stable E I"
  shows "keeps I (kv_log_event E c)" and "keeps I (kv_maybe_commit E)"
    and "keeps I (kv_commit_account E i a)" and "keeps I (new_subresource_id E)"
proof -
  have E: "store_ok E" using assms by (simp add: account_stable_def)
  show "keeps I (kv_log_event E c)" using assms by (simp add: account_stable_def)
  show m: "keeps I (kv_maybe_commit E)" unfolding kv_maybe_commit_def
    using assms E by (intro keepsI) (simp_all add: account_stable_def)
  show "keeps I (kv_commit_account E i a)" unfolding kv_commit_account_def
    using assms E by (intro keepsI m) (simp_all add: account_stable_def)
  show "keeps I (new_subresource_id E)" using assms by (simp add: account_stable_def)
qed

text \<open>Taking a number is one write.\<close>

lemma new_subresource_id_run:
  assumes "store_ok E"
  shows "snd (new_subresource_id E s) = applied E [(SUBRESOURCE_ID_KEY, Put (of_bytes E (u32_be (next_subresource s + 1))))]
    (s\<lparr>next_subresource := next_subresource s + 1\<rparr>)"
  using assms by (simp add: new_subresource_id_def run)

lemma stable_account_request:
  assumes "account_stable E I"
  shows "keeps I (kv_run_account E sender req)"
proof -
  note p = stable_parts [OF assms]
  show ?thesis
    by (cases req) (simp_all add: kv_account_create_def kv_add_account_def kv_add_account_raw_def Let_def
      kv_set_description_def kv_store_description_def kv_add_roles_def kv_store_add_roles_def
      kv_remove_roles_def kv_store_remove_roles_def kv_account_disable_def kv_disable_account_def
      kv_add_features_def kv_store_add_features_def kv_existing_account_def keepsI p)
qed

lemma abs_stable:
  assumes "kv_env_ok E"
  shows "account_stable E (\<lambda>s. kv_abs E s = A)"
proof -
  have w: "kv_abs E (applied E b s) = kv_abs E s" if b: "batch_ok b" "\<forall>k \<in> fst ` set b. own_key k" for b s
  proof (rule kv_abs_cong)
    fix k assume "\<not> own_key k"
    with b(2) have "k \<notin> fst ` set b" by blast
    then show "view E (applied E b s) k = view E s k"
      using assms b(1) by (simp add: apply_batch_other)
  qed
  have m: "keeps (\<lambda>s. kv_abs E s = A) (kv_maybe_commit E)"
    using assms by (auto simp: keeps_def run)
  have "keeps (\<lambda>s. kv_abs E s = A) (modify (\<lambda>s. s\<lparr>latest_event_id := f s\<rparr>))" for f
    by (auto simp: keeps_def run intro: kv_abs_cong [THEN trans])
  then have "keeps (\<lambda>s. kv_abs E s = A) (kv_log_event E c)" for c
    unfolding kv_log_event_def kv_nb_events_def kv_new_event_id_def
    using assms by (intro keepsI m) (simp_all add: w)
  moreover have "keeps (\<lambda>s. kv_abs E s = A) (new_subresource_id E)"
    using assms by (auto simp: keeps_def new_subresource_id_run w intro: kv_abs_cong [THEN trans])
  ultimately show ?thesis unfolding account_stable_def
    using assms by (auto simp: w intro: kv_abs_cong [THEN trans])
qed

lemma ok_stable:
  assumes "kv_env_ok E"
  shows "account_stable E (kv_ok E)"
proof -
  have w: "kv_ok E (applied E [(k, v)] s)"
    if "kv_ok E s" "own_key k" "k \<noteq> EVENT_COUNT_ROOT" "k \<noteq> HEIGHT_ROOT" for k v s
    using that assms by (auto simp: kv_ok_def kv_counter_def)
  have "keeps (kv_ok E) (kv_log_event E c)" for c
    unfolding keeps_def
  proof (intro allI impI)
    fix s assume s: "kv_ok E s"
    then obtain n where "kv_counter E s EVENT_COUNT_ROOT = Inr n" unfolding kv_ok_def by blast
    with s assms show "kv_ok E (snd (kv_log_event E c s))" by (simp add: kv_log_event_run kv_ok_logged)
  qed
  moreover have "keeps (kv_ok E) (new_subresource_id E)"
    using assms by (auto simp: keeps_def new_subresource_id_run kv_ok_def kv_counter_def)
  ultimately show ?thesis unfolding account_stable_def
    using assms by (auto simp: w kv_ok_def kv_counter_def)
qed

lemma kv_ok_request:
  assumes "kv_env_ok E" and "kv_ok E s"
  shows "kv_ok E (snd (kv_run E sender req s))"
proof (cases "is_command req")
  case True
  from agrees_command [OF assms True, of sender] assms(2) show ?thesis
    by (auto simp: agrees_def split: sum.splits)
next
  case False
  then obtain a where "req = KvAccount a" by (cases req) auto
  with keeps_snd [OF stable_account_request [OF ok_stable [OF assms(1)]] assms(2)] show ?thesis by simp
qed

lemma kv_abs_account_request:
  "kv_env_ok E \<Longrightarrow> kv_abs E (snd (kv_run E sender (KvAccount a) s)) = kv_abs E s"
  using keeps_snd [OF stable_account_request [OF abs_stable [of E "kv_abs E s"]], of s sender a] by simp

text \<open>What survives logging and the writes of keys survives every command.\<close>

definition client_stable :: "('m, 'v, 'g) env \<Rightarrow> ('m kv \<Rightarrow> bool) \<Rightarrow> bool" where
  "client_stable E I \<longleftrightarrow> store_ok E \<and> (\<forall>c. keeps I (kv_log_event E c)) \<and> (\<forall>s. I s \<longrightarrow> I (committed E s)) \<and>
     (\<forall>s k v. I s \<longrightarrow> I (applied E [(acl_key k, Put v)] s)) \<and>
     (\<forall>s k v w. I s \<longrightarrow> I (applied E [(acl_key k, Put v), (value_key k, Put w)] s))"

lemma stable_command:
  assumes "client_stable E I" and "is_command req"
  shows "keeps I (kv_run E sender req)"
proof -
  have E: "store_ok E" and log: "keeps I (kv_log_event E c)" for c
    using assms by (simp_all add: client_stable_def)
  have m: "keeps I (kv_maybe_commit E)"
    unfolding kv_maybe_commit_def using assms E by (intro keepsI) (simp_all add: client_stable_def)
  have put: "keeps I (kv_store_put E meta k v)" for meta k v
    unfolding kv_store_put_def using assms E by (intro keepsI m log) (simp_all add: client_stable_def)
  have dis: "keeps I (kv_store_disable E meta k)" for meta k
    unfolding kv_store_disable_def using assms E by (intro keepsI m log) (simp_all add: client_stable_def)
  have tra: "keeps I (kv_store_transfer E k old meta)" for meta k old
    unfolding kv_store_transfer_def using assms E by (intro keepsI m log) (simp_all add: client_stable_def)
  have act: "keeps I (kv_acting E sender alt rs)" for alt rs
    by (simp add: keeps_def kv_acting_pure)
  have acl: "keeps I (kv_verify_acl E own k)" for own k
    unfolding kv_verify_acl_def kv_get_metadata_def kv_raw_get_def by (intro keepsI)
  have get: "keeps I (kv_get E k)" for k
    unfolding kv_get_def kv_raw_get_def by (intro keepsI) (auto split: bool.split intro: keepsI)
  show ?thesis
  proof (cases req)
    case (KvPut x)
    then show ?thesis by (simp add: kv_put_def keeps_bnd keeps_andthen put act acl)
  next
    case (KvDisable x)
    then show ?thesis by (simp add: kv_disable_def keeps_bnd keeps_andthen keeps_throw dis act acl get)
  next
    case (KvTransfer x)
    then show ?thesis
      by (simp add: kv_transfer_def kv_get_metadata_def kv_raw_get_def keeps_bnd keeps_andthen keeps_throw
          keeps_lift keeps_decode keeps_db_get tra act acl get)
  next
    case (KvAccount x)
    with assms(2) show ?thesis by simp
  qed
qed

lemma stable_request:
  assumes "client_stable E I" and "account_stable E I"
  shows "keeps I (kv_run E sender req)"
proof (cases "is_command req")
  case True
  then show ?thesis by (rule stable_command [OF assms(1)])
next
  case False
  then obtain a where "req = KvAccount a" by (cases req) auto
  then show ?thesis by (simp add: stable_account_request [OF assms(2)])
qed

lemma put_keys_sorted [simp]: "acl_key k < value_key k"
  by (simp add: KVSTORE_ROOT_def KVSTORE_ACL_ROOT_def less_char_def)

section \<open>Blocks\<close>

fun kv_request_ok :: "kv_request \<Rightarrow> bool" where
  "kv_request_ok (KvAccount req) = request_ok req"
| "kv_request_ok _ = True"

inductive kv_steps :: "('m, 'v, 'g) env \<Rightarrow> 'm kv \<Rightarrow> 'm kv \<Rightarrow> bool" for E where
  start: "kv_steps E s s"
| request: "kv_steps E s t \<Longrightarrow> kv_request_ok req \<Longrightarrow> kv_run E sender req t = (r, u) \<Longrightarrow> kv_steps E s u"
| block: "kv_steps E s t \<Longrightarrow> kv_begin_block E time t = (r, u) \<Longrightarrow> kv_steps E s u"
| commit: "kv_steps E s t \<Longrightarrow> kv_commit E t = (r, u) \<Longrightarrow> kv_steps E s u"

inductive_cases kv_steps_cases: "kv_steps E s t"

lemma kv_begin_block_state:
  assumes "store_ok E"
  shows "\<exists>time'. snd (kv_begin_block E time s) = s\<lparr>current_time := time'\<rparr>"
proof -
  have "s = s\<lparr>current_time := current_time s\<rparr>" by simp
  then have "\<exists>time'. s = s\<lparr>current_time := time'\<rparr>" by blast
  then show ?thesis using assms
    by (auto simp: kv_begin_block_def run kv_set_time_def split: sum.split option.split)
qed

definition kv_closed :: "('m, 'v, 'g) env \<Rightarrow> u64 \<Rightarrow> 'm kv \<Rightarrow> 'm kv" where
  "kv_closed E h s = committed E (applied E [(LATEST_EVENT_ID_KEY, Put (enc_val (c_event_id E) (latest_event_id s)))]
     (applied E [(HEIGHT_ROOT, Put (of_bytes E (u64_be (h + 1))))] s))"

lemma kv_commit_run:
  assumes "kv_env_ok E" and "kv_counter E s HEIGHT_ROOT = Inr h"
  shows "kv_commit E s = (Inr \<lparr>retain_height = 0, app_hash = merk_root_hash E (persistent_store (kv_closed E h s))\<rparr>,
    (kv_closed E h s)\<lparr>current_hash := Some (merk_root_hash E (persistent_store (kv_closed E h s)))\<rparr>)"
  using assms by (simp add: kv_commit_def kv_inc_height_def run kv_closed_def)

lemma kv_ok_commit:
  assumes "kv_env_ok E" and "kv_ok E s"
  shows "kv_ok E (snd (kv_commit E s))" and "kv_abs E (snd (kv_commit E s)) = kv_abs E s"
proof -
  from assms(2) obtain h where h: "kv_counter E s HEIGHT_ROOT = Inr h" unfolding kv_ok_def by blast
  have v: "view E (snd (kv_commit E s)) = (view E s)(HEIGHT_ROOT \<mapsto> of_bytes E (u64_be (h + 1)),
      LATEST_EVENT_ID_KEY \<mapsto> enc_val (c_event_id E) (latest_event_id s))"
    using assms(1) by (simp add: kv_commit_run [OF assms(1) h] kv_closed_def)
  show "kv_ok E (snd (kv_commit E s))"
    using assms(2,1) unfolding kv_ok_def kv_counter_def v by (auto simp: kv_key_defs)
  show "kv_abs E (snd (kv_commit E s)) = kv_abs E s"
    by (rule kv_abs_cong) (auto simp: v)
qed

lemma kv_ok_steps:
  assumes "kv_steps E s t" and "kv_env_ok E" and "kv_ok E s"
  shows "kv_ok E t"
  using assms
proof (induction rule: kv_steps.induct)
  case (start s)
  then show ?case by simp
next
  case (request s t req sender r u)
  then show ?case using kv_ok_request [of E t sender req] by simp
next
  case (block s t time r u)
  then obtain time' where "u = t\<lparr>current_time := time'\<rparr>"
    using kv_begin_block_state [of E time t] by auto
  with block show ?case using kv_ok_cong [of E u t] by simp
next
  case (commit s t r u)
  then show ?case using kv_ok_commit(1) [of E t] by simp
qed

end
