(* ===== verification/Modules.thy ===== *)
theory Modules
  imports Migrations IdStore MintBurn KvSafety
begin

text \<open>
  The query modules and the making of the ledger: \<open>module/event.rs\<close> of both servers (the
  events of a range, filtered, at most a hundred), \<open>module/data.rs\<close>, the endpoint table of
  \<open>module/abci.rs\<close>, \<open>module/allow_addrs.rs\<close>, \<open>module/idstore_webauthn.rs\<close>, and the initial
  state of \<open>json.rs\<close> with \<open>LedgerModuleImpl::new\<close> and \<open>load\<close>.
\<close>

section \<open>Listing events\<close>

definition MAXIMUM_EVENT_COUNT :: nat where
  "MAXIMUM_EVENT_COUNT = 100"

text \<open>The filters keep errors, so that the collection stops at the first one it reaches.\<close>

definition filter_results :: "('x \<Rightarrow> bool) \<Rightarrow> 'x res list \<Rightarrow> 'x res list" where
  "filter_results P it = filter (\<lambda>t. case t of Inl _ \<Rightarrow> True | Inr e \<Rightarrow> P e) it"

definition filter_account :: "('m, 'v, 'g) env \<Rightarrow> address list option \<Rightarrow> event_log res list \<Rightarrow> event_log res list" where
  "filter_account E acc it = (case acc of None \<Rightarrow> it
     | Some ids \<Rightarrow> filter_results (\<lambda>t. \<exists>i \<in> set ids. event_is_about E t i) it)"

definition filter_event_kind :: "('m, 'v, 'g) env \<Rightarrow> event_kind list option \<Rightarrow> event_log res list \<Rightarrow> event_log res list" where
  "filter_event_kind E event_kind it = (case event_kind of None \<Rightarrow> it
     | Some k \<Rightarrow> filter_results (\<lambda>t. event_kind_of E t \<in> set k) it)"

definition date_in :: "timestamp bound \<times> timestamp bound \<Rightarrow> timestamp \<Rightarrow> bool" where
  "date_in r t \<longleftrightarrow> above (fst r) id t \<and> below (snd r) id t"

definition filter_date :: "timestamp bound \<times> timestamp bound \<Rightarrow> event_log res list \<Rightarrow> event_log res list" where
  "filter_date r it = filter_results (\<lambda>t. date_in r (ev_time t)) it"

text \<open>One attribute filter: a set of multisig states that the event must be about.\<close>

definition about_state :: "multisig_state list \<Rightarrow> event_log \<Rightarrow> bool" where
  "about_state st t = (case ev_content t of
     EvMultisigSubmit _ _ _ _ _ _ _ _ _ _ \<Rightarrow> Pending \<in> set st
   | EvMultisigApprove _ _ _ \<Rightarrow> Pending \<in> set st
   | EvMultisigExecute _ _ _ _ \<Rightarrow> ExecutedAutomatically \<in> set st \<or> ExecutedManually \<in> set st
   | EvMultisigWithdraw _ _ _ \<Rightarrow> Withdrawn \<in> set st
   | EvMultisigExpired _ _ \<Rightarrow> Expired \<in> set st
   | _ \<Rightarrow> False)"

definition filter_attribute_specific :: "multisig_state list list \<Rightarrow> event_log res list \<Rightarrow> event_log res list" where
  "filter_attribute_specific attribute_specific it =
     fold (\<lambda>st it. filter_results (about_state st) it) attribute_specific it"

record event_filter =
  fl_account :: "address list option"
  fl_kind :: "event_kind list option"
  fl_id_range :: "(event_id bound \<times> event_id bound) option"
  fl_date_range :: "(timestamp bound \<times> timestamp bound) option"
  fl_attribute_specific :: "multisig_state list list"

definition default_filter :: event_filter where
  "default_filter = \<lparr>fl_account = None, fl_kind = None, fl_id_range = None, fl_date_range = None,
     fl_attribute_specific = []\<rparr>"

record list_args =
  la_count :: "u64 option"
  la_order :: "sort_order option"
  la_filter :: "event_filter option"

record list_returns =
  lr_nb_events :: u64
  lr_events :: "event_log list"

definition range_or_all :: "('x bound \<times> 'x bound) option \<Rightarrow> 'x bound \<times> 'x bound" where
  "range_or_all r = (case r of None \<Rightarrow> (Unbounded, Unbounded) | Some x \<Rightarrow> x)"

definition order_or_default :: "sort_order option \<Rightarrow> sort_order" where
  "order_or_default r = (case r of None \<Rightarrow> Indeterminate | Some x \<Rightarrow> x)"

definition count_limit :: "u64 option \<Rightarrow> nat" where
  "count_limit c = (case c of None \<Rightarrow> MAXIMUM_EVENT_COUNT | Some n \<Rightarrow> min (unat n) MAXIMUM_EVENT_COUNT)"

definition decode_event :: "('m, 'v, 'g) env \<Rightarrow> string + bytes \<times> 'v \<Rightarrow> event_log res" where
  "decode_event E item = rbind (map_err Unknown item) (\<lambda>kv. map_err DeserializationError (dec (c_event E) (snd kv)))"

primrec collect_results :: "'x res list \<Rightarrow> 'x list res" where
  "collect_results [] = Inr []"
| "collect_results (r # rs) = rbind r (\<lambda>x. rbind (collect_results rs) (\<lambda>xs. Inr (x # xs)))"

text \<open>\<open>many-ledger/src/module/event.rs\<close>.\<close>

definition events_info :: "('m, 'v, 'g) env \<Rightarrow> ('m, 'g, u64 \<times> event_kind list) ledger_op" where
  "events_info E = bnd (nb_events E) (\<lambda>total'. ret (total', all_event_kinds E))"

definition list_events :: "('m, 'v, 'g) env \<Rightarrow> list_args \<Rightarrow> ('m, 'g, list_returns) ledger_op" where
  "list_events E args =
     (let f = (case la_filter args of None \<Rightarrow> default_filter | Some f \<Rightarrow> f);
          count = count_limit (la_count args) in
      bnd (nb_events E) (\<lambda>n.
      bnd (reads (\<lambda>s.
        let it = map (decode_event E) (events_scoped_by_id E (persistent_store s)
              (range_or_all (fl_id_range f)) (order_or_default (la_order args)));
            it = filter_account E (fl_account f) it;
            it = filter_event_kind E (fl_kind f) it;
            it = filter_date (range_or_all (fl_date_range f)) it;
            it = filter_attribute_specific (fl_attribute_specific f) it
        in collect_results (take count it))) (\<lambda>evs.
      ret \<lparr>lr_nb_events = n, lr_events = evs\<rparr>)))"

text \<open>
  \<open>many-kvstore/src/storage/event.rs\<close> and \<open>module/event.rs\<close>: the same iterator and the same
  filters, but for the attribute filters, which the server does not have.
\<close>

definition kv_iter_events :: "('m, 'v, 'g) env \<Rightarrow> 'm \<Rightarrow> event_id bound \<times> event_id bound \<Rightarrow> sort_order \<Rightarrow>
    (string + bytes \<times> 'v) list" where
  "kv_iter_events E m r ord = merk_iter_range E m
     (case fst r of
        Included x \<Rightarrow> kv_key_for_event x
      | Excluded x \<Rightarrow> kv_key_for_event (event_id_add E x 1)
      | Unbounded \<Rightarrow> EVENTS_ROOT)
     (case snd r of
        Included x \<Rightarrow> kv_key_for_event (event_id_add E x 1)
      | Excluded x \<Rightarrow> kv_key_for_event x
      | Unbounded \<Rightarrow> butlast EVENTS_ROOT @ [char_of (of_char (last EVENTS_ROOT) + (1 :: nat))])
     (case ord of Indeterminate \<Rightarrow> False | Ascending \<Rightarrow> False | Descending \<Rightarrow> True)"

definition kv_filter_account :: "('m, 'v, 'g) env \<Rightarrow> address list option \<Rightarrow> event_log res list \<Rightarrow> event_log res list" where
  "kv_filter_account E acc it = (case acc of None \<Rightarrow> it
     | Some ids \<Rightarrow> filter_results (\<lambda>t. \<exists>i \<in> set ids. event_is_about E t i) it)"

definition kv_filter_event_kind :: "('m, 'v, 'g) env \<Rightarrow> event_kind list option \<Rightarrow> event_log res list \<Rightarrow> event_log res list" where
  "kv_filter_event_kind E event_kind it = (case event_kind of None \<Rightarrow> it
     | Some k \<Rightarrow> filter_results (\<lambda>t. event_kind_of E t \<in> set k) it)"

definition kv_filter_date :: "timestamp bound \<times> timestamp bound \<Rightarrow> event_log res list \<Rightarrow> event_log res list" where
  "kv_filter_date r it = filter_results (\<lambda>t. date_in r (ev_time t)) it"

definition kv_events_info :: "('m, 'v, 'g) env \<Rightarrow> ('m, u64 \<times> event_kind list) kv_op" where
  "kv_events_info E = bnd (kv_nb_events E) (\<lambda>total'. ret (total', all_event_kinds E))"

definition kv_list_events :: "('m, 'v, 'g) env \<Rightarrow> list_args \<Rightarrow> ('m, list_returns) kv_op" where
  "kv_list_events E args =
     (let f = (case la_filter args of None \<Rightarrow> default_filter | Some f \<Rightarrow> f);
          count = count_limit (la_count args) in
      bnd (kv_nb_events E) (\<lambda>n.
      bnd (reads (\<lambda>s.
        let it = map (decode_event E) (kv_iter_events E (persistent_store s)
              (range_or_all (fl_id_range f)) (order_or_default (la_order args)));
            it = kv_filter_account E (fl_account f) it;
            it = kv_filter_event_kind E (fl_kind f) it;
            it = kv_filter_date (range_or_all (fl_date_range f)) it
        in collect_results (take count it))) (\<lambda>evs.
      ret \<lparr>lr_nb_events = n, lr_events = evs\<rparr>)))"

section \<open>Data attributes\<close>

definition data_module_info :: "('m, 'v, 'g) env \<Rightarrow> ('m, 'g, data_index list) ledger_op" where
  "data_module_info E = bnd (data_attributes E) (\<lambda>x. ret (map fst (case x of None \<Rightarrow> [] | Some m \<Rightarrow> m)))"

definition data_get_info :: "('m, 'v, 'g) env \<Rightarrow> data_index list \<Rightarrow> ('m, 'g, (data_index \<times> data_info) list) ledger_op" where
  "data_get_info E indices = bnd (data_info E) (\<lambda>x.
     ret (filter (\<lambda>(k, _). k \<in> set indices) (case x of None \<Rightarrow> [] | Some m \<Rightarrow> m)))"

definition data_query :: "('m, 'v, 'g) env \<Rightarrow> data_index list \<Rightarrow> ('m, 'g, (data_index \<times> data_value) list) ledger_op" where
  "data_query E indices = bnd (data_attributes E) (\<lambda>x.
     ret (filter (\<lambda>(k, _). k \<in> set indices) (case x of None \<Rightarrow> [] | Some m \<Rightarrow> m)))"

section \<open>The initial state\<close>

record feature_json =
  fj_id :: nat
  fj_arg :: "json option"

record account_json =
  aj_id :: "address option"
  aj_subresource_id :: "u32 option"
  aj_description :: "string option"
  aj_roles :: "(address \<times> string list) list"
  aj_features :: "feature_json list"

record symbol_meta_json =
  sj_name :: string
  sj_decimals :: u64
  sj_owner :: "address option"
  sj_maximum :: "nat option"

record initial_state =
  is_identity :: address
  is_initial :: "(address \<times> (string \<times> nat) list) list"
  is_token_identity :: "address option"
  is_account_identity :: "address option"
  is_token_next_subresource :: "u32 option"
  is_symbols :: symbols
  is_symbols_meta :: "(address \<times> symbol_meta_json) list option"
  is_accounts :: "account_json list option"
  is_id_store_seed :: "u64 option"
  is_id_store_keys :: "(string \<times> string) list option"
  is_hash :: "string option"

text \<open>
  \<open>parse\<close> is \<open>serde_json::from_str::<MultisigFeatureArgJson>\<close> on the text of a value. An unknown
  feature, a bad argument and an unknown role end the program.
\<close>

definition try_into_feature :: "('m, 'v, 'g) env \<Rightarrow> (json \<Rightarrow> string + multisig_arg) \<Rightarrow> feature_json \<Rightarrow> feature option res" where
  "try_into_feature E parse f =
     (if fj_id f = ledger_feature_id E then Inr (Some (Feature (ledger_feature_id E) []))
      else if fj_id f = multisig_feature_id E then
        (case fj_arg f of None \<Rightarrow> Inr None
         | Some a \<Rightarrow> rbind (panic_on_err ''Invalid Feature argument.'' (parse a))
             (\<lambda>m. Inr (Some (multisig_as_feature E m))))
      else Inr None)"

primrec features_of_json :: "('m, 'v, 'g) env \<Rightarrow> (json \<Rightarrow> string + multisig_arg) \<Rightarrow> feature_json list \<Rightarrow>
    feature list \<Rightarrow> feature list res" where
  "features_of_json E parse [] acc = Inr acc"
| "features_of_json E parse (f # fs) acc = rbind (try_into_feature E parse f) (\<lambda>x.
     case x of None \<Rightarrow> Inl (Panic ''Unsupported feature.'')
     | Some y \<Rightarrow> features_of_json E parse fs (snd (insert_feature E y acc)))"

primrec roles_of_json :: "('m, 'v, 'g) env \<Rightarrow> string list \<Rightarrow> role list res" where
  "roles_of_json E [] = Inr []"
| "roles_of_json E (t # ts) = (case role_from_str E t of
     None \<Rightarrow> Inl (Panic ''Invalid role.'')
   | Some r \<Rightarrow> rbind (roles_of_json E ts) (\<lambda>rs. Inr (bs_insert r rs)))"

primrec role_map_of_json :: "('m, 'v, 'g) env \<Rightarrow> (address \<times> string list) list \<Rightarrow> role_map res" where
  "role_map_of_json E [] = Inr []"
| "role_map_of_json E (p # ps) = rbind (roles_of_json E (snd p)) (\<lambda>rs.
     rbind (role_map_of_json E ps) (\<lambda>m. Inr ((fst p, rs) # m)))"

definition meta_of_json :: "('m, 'v, 'g) env \<Rightarrow> (json \<Rightarrow> string + multisig_arg) \<Rightarrow> account_json \<Rightarrow> account_meta res" where
  "meta_of_json E parse v =
     rbind (role_map_of_json E (aj_roles v)) (\<lambda>rm.
     rbind (features_of_json E parse (aj_features v) []) (\<lambda>fs.
     Inr \<lparr>meta_id = aj_id v, meta_subresource_id = aj_subresource_id v, meta_description = aj_description v,
          meta_roles = rm, meta_features = fs\<rparr>))"

definition symbol_meta_of_json :: "symbol_meta_json \<Rightarrow> symbol_meta" where
  "symbol_meta_of_json v = \<lparr>sm_name = sj_name v, sm_decimals = sj_decimals v, sm_owner = sj_owner v,
     sm_maximum = sj_maximum v\<rparr>"

text \<open>\<open>balances\<close>: a token's name is its address or its ticker.\<close>

definition resolve_symbol :: "('m, 'v, 'g) env \<Rightarrow> symbols \<Rightarrow> string \<Rightarrow> symbol res" where
  "resolve_symbol E syms token_name =
     (case List.find (\<lambda>(s, n). address_eq_str E s token_name \<or> n = token_name) syms of
        None \<Rightarrow> Inl (Err (Unknown (''Could not resolve symbol '' @ [CHR 0x27] @ token_name @ [CHR 0x27])))
      | Some (s, _) \<Rightarrow> Inr s)"

primrec resolve_balances :: "('m, 'v, 'g) env \<Rightarrow> symbols \<Rightarrow> (string \<times> nat) list \<Rightarrow> (symbol \<times> nat) list \<Rightarrow>
    (symbol \<times> nat) list res" where
  "resolve_balances E syms [] acc = Inr acc"
| "resolve_balances E syms (p # ps) acc = rbind (resolve_symbol E syms (fst p)) (\<lambda>s.
     resolve_balances E syms ps (bt_insert s (snd p) acc))"

primrec initial_balances :: "('m, 'v, 'g) env \<Rightarrow> symbols \<Rightarrow> (address \<times> (string \<times> nat) list) list \<Rightarrow>
    (address \<times> (symbol \<times> nat) list) list res" where
  "initial_balances E syms [] = Inr []"
| "initial_balances E syms (p # ps) = rbind (resolve_balances E syms (snd p) []) (\<lambda>b.
     rbind (initial_balances E syms ps) (\<lambda>bs. Inr ((fst p, b) # bs)))"

primrec metas_of_json :: "('m, 'v, 'g) env \<Rightarrow> (json \<Rightarrow> string + multisig_arg) \<Rightarrow> account_json list \<Rightarrow> account_meta list res" where
  "metas_of_json E parse [] = Inr []"
| "metas_of_json E parse (v # vs) = rbind (meta_of_json E parse v) (\<lambda>m.
     rbind (metas_of_json E parse vs) (\<lambda>ms. Inr (m # ms)))"

text \<open>\<open>InitialStateJson::read\<close> checks the identities of the parsed file.\<close>

definition read_check :: "initial_state \<Rightarrow> initial_state res" where
  "read_check s = (case (is_token_identity s, is_account_identity s) of
     (Some t, Some a) \<Rightarrow> if t = a then Inl (Err (Unknown ''Token and account identities must be different.'')) else Inr s
   | _ \<Rightarrow> Inr s)"

section \<open>Making the ledger\<close>

definition ledger_new :: "('m, 'v, 'g) env \<Rightarrow> (json \<Rightarrow> string + multisig_arg) \<Rightarrow> initial_state \<Rightarrow>
    (u64 \<Rightarrow> many_error + 'g) option \<Rightarrow> string + 'm \<Rightarrow> bool \<Rightarrow> ('m, 'g) ledger res" where
  "ledger_new E parse st migration_config opened bc =
     (let syms = is_symbols st in
      rbind (initial_balances E syms (is_initial st)) (\<lambda>balances'.
      let metas = map_option (map (\<lambda>(k, v). (k, symbol_meta_of_json v))) (is_symbols_meta st) in
      rbind (case is_accounts st of None \<Rightarrow> Inr None
        | Some a \<Rightarrow> rbind (metas_of_json E parse a) (\<lambda>ms. Inr (Some ms))) (\<lambda>accounts'.
      rbind (storage_new E opened syms (is_identity st) bc) (\<lambda>s0.
      (case andthen (with_migrations E migration_config)
         (andthen (with_balances E syms balances')
         (andthen (with_idstore E (is_id_store_seed st) (is_id_store_keys st))
         (andthen (with_tokens E syms metas (is_token_identity st) (is_token_next_subresource st) balances')
         (andthen (with_account E (is_account_identity st) accounts')
         (storage_build E))))) s0 of
        (Inl e, _) \<Rightarrow> Inl e
      | (Inr _, s) \<Rightarrow>
          rbind (case is_hash st of None \<Rightarrow> Inr ()
            | Some h \<Rightarrow> let actual = hex_encode E (hash E s) in
                if actual \<noteq> h then Inl (Err (LedgerError (InvalidInitialState h actual))) else Inr ()) (\<lambda>_.
          rbind (fst (get_height E s)) (\<lambda>_. Inr s)))))))"

definition ledger_load :: "('m, 'v, 'g) env \<Rightarrow> (u64 \<Rightarrow> many_error + 'g) option \<Rightarrow> string + 'm \<Rightarrow> bool \<Rightarrow>
    ('m, 'g) ledger res" where
  "ledger_load E migration_config opened bc = (case storage_load E opened bc migration_config of
     Inl (Err _) \<Rightarrow> Inl (Panic ''unwrap'') | r \<Rightarrow> r)"

section \<open>Wrappers\<close>

definition allow_addrs_execute :: "address list \<Rightarrow> (address \<Rightarrow> ('m, 'g, 'a) ledger_op) \<Rightarrow> address \<Rightarrow> ('m, 'g, 'a) ledger_op" where
  "allow_addrs_execute allow_addrs execute sender =
     (if sender \<notin> set allow_addrs then raise InvalidFromIdentity else execute sender)"

text \<open>\<open>is_non_webauthn\<close>: an error has the code of \<open>non_webauthn_request_denied\<close>.\<close>

definition webauthn_validate :: "(many_error \<Rightarrow> bool) \<Rightarrow> bool \<Rightarrow> many_error + unit \<Rightarrow> unit res" where
  "webauthn_validate is_non_webauthn check_webauthn inner = (case inner of
     Inl e \<Rightarrow> if is_non_webauthn e \<and> \<not> check_webauthn then Inr () else Inl (Err e)
   | Inr _ \<Rightarrow> Inr ())"


text \<open>The endpoints of \<open>module/abci.rs\<close>, and whether each is a command.\<close>

definition ledger_endpoints :: "(string \<times> bool) list" where
  "ledger_endpoints =
    [(''ledger.info'', False), (''ledger.balance'', False), (''ledger.send'', True),
     (''events.info'', False), (''events.list'', False),
     (''idstore.store'', True), (''idstore.getFromRecallPhrase'', False), (''idstore.getFromAddress'', False),
     (''account.create'', True), (''account.setDescription'', True), (''account.listRoles'', False),
     (''account.getRoles'', False), (''account.addRoles'', True), (''account.removeRoles'', True),
     (''account.info'', False), (''account.disable'', True), (''account.addFeatures'', True),
     (''account.multisigSetDefaults'', True), (''account.multisigSubmitTransaction'', True),
     (''account.multisigInfo'', False), (''account.multisigApprove'', True), (''account.multisigRevoke'', True),
     (''account.multisigExecute'', True), (''account.multisigWithdraw'', True),
     (''data.info'', False), (''data.getInfo'', False), (''data.query'', False),
     (''tokens.create'', True), (''tokens.update'', True), (''tokens.info'', False),
     (''tokens.addExtendedInfo'', True), (''tokens.removeExtendedInfo'', True),
     (''tokens.mint'', True), (''tokens.burn'', True)]"

section \<open>Queries\<close>

text \<open>The requests that the table does not call commands, by endpoint.\<close>

datatype ledger_query =
    QLedgerInfo
  | QLedgerBalance "address option" "symbol list option"
  | QEventsInfo
  | QEventsList list_args
  | QFromRecallPhrase "string list"
  | QFromAddress address
  | QListRoles address
  | QGetRoles address "address list"
  | QAccountInfo address
  | QMultisigInfo bytes
  | QDataInfo
  | QDataGetInfo "data_index list"
  | QDataQuery "data_index list"
  | QTokensInfo token_info_args

fun query_endpoint :: "ledger_query \<Rightarrow> string" where
  "query_endpoint QLedgerInfo = ''ledger.info''"
| "query_endpoint (QLedgerBalance _ _) = ''ledger.balance''"
| "query_endpoint QEventsInfo = ''events.info''"
| "query_endpoint (QEventsList _) = ''events.list''"
| "query_endpoint (QFromRecallPhrase _) = ''idstore.getFromRecallPhrase''"
| "query_endpoint (QFromAddress _) = ''idstore.getFromAddress''"
| "query_endpoint (QListRoles _) = ''account.listRoles''"
| "query_endpoint (QGetRoles _ _) = ''account.getRoles''"
| "query_endpoint (QAccountInfo _) = ''account.info''"
| "query_endpoint (QMultisigInfo _) = ''account.multisigInfo''"
| "query_endpoint QDataInfo = ''data.info''"
| "query_endpoint (QDataGetInfo _) = ''data.getInfo''"
| "query_endpoint (QDataQuery _) = ''data.query''"
| "query_endpoint (QTokensInfo _) = ''tokens.info''"

definition forget :: "('s, 'a) op \<Rightarrow> ('s, unit) op" where
  "forget m = bnd m (\<lambda>_. ret ())"

fun run_query :: "('m, 'v, 'g) env \<Rightarrow> address \<Rightarrow> ledger_query \<Rightarrow> ('m, 'g, unit) ledger_op" where
  "run_query E sender QLedgerInfo = forget (ledger_info_op E)"
| "run_query E sender (QLedgerBalance a x) = forget (ledger_balance E sender a x)"
| "run_query E sender QEventsInfo = forget (events_info E)"
| "run_query E sender (QEventsList args) = forget (list_events E args)"
| "run_query E sender (QFromRecallPhrase p) = forget (idstore_get_from_recall_phrase E p)"
| "run_query E sender (QFromAddress a) = forget (idstore_get_from_address E a)"
| "run_query E sender (QListRoles a) = forget (list_roles E a)"
| "run_query E sender (QGetRoles a ids) = forget (get_roles_of E a ids)"
| "run_query E sender (QAccountInfo a) = forget (account_info E a)"
| "run_query E sender (QMultisigInfo t) = forget (multisig_info_op E t)"
| "run_query E sender QDataInfo = forget (data_module_info E)"
| "run_query E sender (QDataGetInfo ix) = forget (data_get_info E ix)"
| "run_query E sender (QDataQuery ix) = forget (data_query E ix)"
| "run_query E sender (QTokensInfo args) = forget (tokens_info E args)"

lemma pure_iff_keeps: "pure_act m \<longleftrightarrow> (\<forall>s. keeps (\<lambda>t. t = s) m)"
  by (simp add: pure_act_def keeps_def)

lemmas query_defs = ledger_info_op_def ledger_balance_def events_info_def list_events_def
  idstore_get_from_recall_phrase_def idstore_get_from_address_def get_from_recall_phrase_def
  get_from_address_def get_from_storage_def found_credential_def list_roles_def get_roles_of_def
  account_info_def multisig_info_op_def get_multisig_info_def data_module_info_def data_get_info_def
  data_query_def data_info_def data_attributes_def tokens_info_def info_token_def needs_migration_def
  get_symbols_and_tickers_def get_token_info_summary_def get_symbols_def get_symbols_from_keys_def
  get_multiple_balances_def get_all_balances_def nb_events_def existing_account_def get_account_def
  get_account_even_disabled_def

lemma query_keeps: "keeps I (run_query E sender q)"
  by (cases q) (simp_all add: forget_def query_defs Let_def keepsI)

section \<open>What a list of events holds\<close>

definition event_matches :: "('m, 'v, 'g) env \<Rightarrow> event_filter \<Rightarrow> event_log \<Rightarrow> bool" where
  "event_matches E f t \<longleftrightarrow>
     (case fl_account f of None \<Rightarrow> True | Some ids \<Rightarrow> \<exists>i \<in> set ids. event_is_about E t i) \<and>
     (case fl_kind f of None \<Rightarrow> True | Some k \<Rightarrow> event_kind_of E t \<in> set k) \<and>
     date_in (range_or_all (fl_date_range f)) (ev_time t) \<and>
     (\<forall>st \<in> set (fl_attribute_specific f). about_state st t)"

definition stored_event :: "('m, 'v, 'g) env \<Rightarrow> bytes \<times> 'v \<Rightarrow> event_log" where
  "stored_event E p = projr (dec (c_event E) (snd p))"

lemma filter_results_ok [simp]: "filter_results P (map Inr xs) = map Inr (filter P xs)"
  by (induction xs) (simp_all add: filter_results_def)

lemma filter_attribute_ok: "filter_attribute_specific sts (map Inr xs) =
    map Inr (filter (\<lambda>t. \<forall>st \<in> set sts. about_state st t) xs)"
  by (induction sts arbitrary: xs) (simp_all add: filter_attribute_specific_def conj_commute)

lemma collect_results_ok [simp]: "collect_results (map Inr xs) = Inr xs"
  by (induction xs) simp_all

lemma decode_events:
  assumes "\<forall>p \<in> set es. \<exists>e. dec (c_event E) (snd p) = Inr e"
  shows "map (decode_event E) (map Inr es) = map Inr (map (stored_event E) es)"
  using assms by (induction es) (auto simp: decode_event_def stored_event_def)

lemma filters_ok:
  "filter_attribute_specific (fl_attribute_specific f) (filter_date (range_or_all (fl_date_range f))
     (filter_event_kind E (fl_kind f) (filter_account E (fl_account f) (map Inr xs)))) =
   map Inr (filter (event_matches E f) xs)"
  by (cases "fl_account f"; cases "fl_kind f")
    (simp_all add: filter_account_def filter_event_kind_def filter_date_def filter_attribute_ok
      event_matches_def [abs_def] conj_ac)

lemma event_bounds_in_range:
  assumes "events_lower E lo \<le> k" and "k < events_upper E hi"
  shows "event_range E k"
proof -
  have "EVENTS_ROOT \<le> events_lower E lo"
    by (cases lo) (simp_all add: events_lower_def root_le_event_key)
  moreover have "events_upper E hi \<le> events_upper E Unbounded"
    using event_key_less_end by (cases hi) (auto simp: events_upper_def [of E "Included x" for x]
        events_upper_def [of E "Excluded x" for x] intro: order_less_imp_le)
  ultimately show ?thesis using assms unfolding event_range_def by (meson order.trans order.strict_trans2)
qed

lemma events_in_range:
  assumes "disk_ok E D" and "\<forall>k v. event_range E k \<longrightarrow> D m k = Some v \<longrightarrow> (\<exists>e. dec (c_event E) v = Inr e)"
  obtains es where "listing (D m) (\<lambda>k. events_lower E (fst r) \<le> k \<and> k < events_upper E (snd r)) es"
    and "\<And>ord. map (decode_event E) (events_scoped_by_id E m r ord) =
      map Inr (map (stored_event E) (if from_end ord then rev es else es))"
proof -
  obtain es where l: "listing (D m) (\<lambda>k. events_lower E (fst r) \<le> k \<and> k < events_upper E (snd r)) es"
    and it: "\<And>ord. events_scoped_by_id E m (fst r, snd r) ord = map Inr (if from_end ord then rev es else es)"
    using events_scoped_listing [OF assms(1), of m "fst r" "snd r"] by blast
  have "\<exists>e. dec (c_event E) (snd p) = Inr e" if "p \<in> set es" for p
    using that l assms(2) event_bounds_in_range unfolding listing_def by (metis prod.collapse)
  then have "map (decode_event E) (events_scoped_by_id E m r ord) =
      map Inr (map (stored_event E) (if from_end ord then rev es else es))" for ord
    using it [of ord] decode_events [of es E] decode_events [of "rev es" E] by auto
  with l that show ?thesis by blast
qed

section \<open>Properties\<close>

text \<open>
  C26. A list of events is exact: it is the first events, in the order asked for and at most a
  hundred of them, of those committed events whose numbers are in the range and that pass every
  filter, and it comes with the number of all events.
\<close>

theorem list_events_exact:
  assumes "store_ok E" and "disk_ok E D" and "counter_at E s EVENT_COUNT_ROOT = Inr n"
    and "\<forall>k v. event_range E k \<longrightarrow> D (persistent_store s) k = Some v \<longrightarrow> (\<exists>e. dec (c_event E) v = Inr e)"
    and "la_filter args = Some f"
  shows "\<exists>es. listing (D (persistent_store s)) (\<lambda>k. events_lower E (fst (range_or_all (fl_id_range f))) \<le> k \<and>
      k < events_upper E (snd (range_or_all (fl_id_range f)))) es \<and>
    list_events E args s = (Inr \<lparr>lr_nb_events = n, lr_events = take (count_limit (la_count args))
      (filter (event_matches E f) (map (stored_event E)
        (if order_or_default (la_order args) = Descending then rev es else es)))\<rparr>, s)"
proof -
  obtain es where l: "listing (D (persistent_store s)) (\<lambda>k. events_lower E (fst (range_or_all (fl_id_range f))) \<le> k \<and>
      k < events_upper E (snd (range_or_all (fl_id_range f)))) es"
    and it: "\<And>ord. map (decode_event E) (events_scoped_by_id E (persistent_store s) (range_or_all (fl_id_range f)) ord) =
      map Inr (map (stored_event E) (if from_end ord then rev es else es))"
    using events_in_range [OF assms(2,4)] by blast
  define xs where "xs = map (stored_event E) (if order_or_default (la_order args) = Descending then rev es else es)"
  have "from_end ord \<longleftrightarrow> ord = Descending" for ord by (cases ord) (simp_all add: from_end_def)
  then have "map (decode_event E) (events_scoped_by_id E (persistent_store s) (range_or_all (fl_id_range f))
      (order_or_default (la_order args))) = map Inr xs"
    unfolding it xs_def by simp
  then have "list_events E args s = (Inr \<lparr>lr_nb_events = n,
      lr_events = take (count_limit (la_count args)) (filter (event_matches E f) xs)\<rparr>, s)"
    using assms(1,3,5) by (simp add: list_events_def run filters_ok take_map)
  with l show ?thesis unfolding xs_def by blast
qed

text \<open>
  Queries read only: every query is reported to the block chain as no command, and leaves the
  state of the ledger as it is, whatever it answers.
\<close>

lemma queries_read_only:
  "(query_endpoint q, False) \<in> set ledger_endpoints \<and> snd (run_query E sender q s) = s"
proof -
  have "snd (run_query E sender q s) = s"
    using query_keeps [of "\<lambda>t. t = s" E sender q] by (simp add: keeps_def)
  then show ?thesis by (cases q) (simp_all add: ledger_endpoints_def)
qed


text \<open>The key-value server lists events in the same way; its filter has no attributes.\<close>

lemma kv_iter_same: "kv_iter_events E m r ord = events_scoped_by_id E m r ord"
  by (simp add: kv_iter_events_def events_scoped_by_id_def events_lower_def events_upper_def from_end_def
      split: bound.split)

lemma kv_list_events_exact:
  assumes "store_ok E" and "disk_ok E D" and "kv_counter E s EVENT_COUNT_ROOT = Inr n"
    and "\<forall>k v. event_range E k \<longrightarrow> D (persistent_store s) k = Some v \<longrightarrow> (\<exists>e. dec (c_event E) v = Inr e)"
    and "la_filter args = Some f" and "fl_attribute_specific f = []"
  shows "\<exists>es. listing (D (persistent_store s)) (\<lambda>k. events_lower E (fst (range_or_all (fl_id_range f))) \<le> k \<and>
      k < events_upper E (snd (range_or_all (fl_id_range f)))) es \<and>
    kv_list_events E args s = (Inr \<lparr>lr_nb_events = n, lr_events = take (count_limit (la_count args))
      (filter (event_matches E f) (map (stored_event E)
        (if order_or_default (la_order args) = Descending then rev es else es)))\<rparr>, s)"
proof -
  obtain es where l: "listing (D (persistent_store s)) (\<lambda>k. events_lower E (fst (range_or_all (fl_id_range f))) \<le> k \<and>
      k < events_upper E (snd (range_or_all (fl_id_range f)))) es"
    and it: "\<And>ord. map (decode_event E) (events_scoped_by_id E (persistent_store s) (range_or_all (fl_id_range f)) ord) =
      map Inr (map (stored_event E) (if from_end ord then rev es else es))"
    using events_in_range [OF assms(2,4)] by blast
  define xs where "xs = map (stored_event E) (if order_or_default (la_order args) = Descending then rev es else es)"
  have "from_end ord \<longleftrightarrow> ord = Descending" for ord by (cases ord) (simp_all add: from_end_def)
  then have "map (decode_event E) (kv_iter_events E (persistent_store s) (range_or_all (fl_id_range f))
      (order_or_default (la_order args))) = map Inr xs"
    unfolding kv_iter_same it xs_def by simp
  moreover have "kv_filter_date (range_or_all (fl_date_range f)) (kv_filter_event_kind E (fl_kind f)
      (kv_filter_account E (fl_account f) (map Inr xs))) = map Inr (filter (event_matches E f) xs)"
    using filters_ok [of f E xs] assms(6)
    by (simp add: kv_filter_account_def filter_account_def kv_filter_event_kind_def filter_event_kind_def
        kv_filter_date_def filter_date_def filter_attribute_specific_def)
  ultimately have "kv_list_events E args s = (Inr \<lparr>lr_nb_events = n,
      lr_events = take (count_limit (la_count args)) (filter (event_matches E f) xs)\<rparr>, s)"
    using assms(1,3,5) by (simp add: kv_list_events_def run take_map)
  with l show ?thesis unfolding xs_def by blast
qed

section \<open>Witnesses\<close>

abbreviation ref_two_events :: "(ref_store, string list) ledger" where
  "ref_two_events \<equiv> ref_ledger
     [(key_for_event [CHR 0x01], REvent \<lparr>ev_id = [CHR 0x01], ev_time = 3, ev_content = EvSend 2 3 7 1 None\<rparr>),
      (key_for_event [CHR 0x02], REvent \<lparr>ev_id = [CHR 0x02], ev_time = 4, ev_content = EvAccountDisable 101\<rparr>)] []"

lemma list_events_exact_witness:
  "\<exists>es. list_events ref_env \<lparr>la_count = Some 1, la_order = Some Descending,
      la_filter = Some (default_filter\<lparr>fl_kind := Some [0]\<rparr>)\<rparr> ref_two_events =
    (Inr \<lparr>lr_nb_events = 0, lr_events = take 1 (filter (event_matches ref_env (default_filter\<lparr>fl_kind := Some [0]\<rparr>))
      (map (stored_event ref_env) (rev es)))\<rparr>, ref_two_events) \<and>
    (key_for_event [CHR 0x01], REvent \<lparr>ev_id = [CHR 0x01], ev_time = 3, ev_content = EvSend 2 3 7 1 None\<rparr>) \<in> set es"
proof -
  define s where "s = ref_two_events"
  define f where "f = default_filter\<lparr>fl_kind := Some [0]\<rparr>"
  define args where "args = \<lparr>la_count = Some 1, la_order = Some Descending, la_filter = Some f\<rparr>"
  let ?D = "\<lambda>m. map_of (disk m)" and ?e = "REvent \<lparr>ev_id = [CHR 0x01], ev_time = 3, ev_content = EvSend 2 3 7 1 None\<rparr>"
  have c: "counter_at ref_env s EVENT_COUNT_ROOT = Inr 0"
    by (simp add: counter_at_def s_def)
  have d: "\<forall>k v. event_range ref_env k \<longrightarrow> ?D (persistent_store s) k = Some v \<longrightarrow>
      (\<exists>e. dec (c_event ref_env) v = Inr e)"
    by (auto simp: ref_codecs tagged_def s_def split: if_splits)
  have "la_filter args = Some f" by (simp add: args_def)
  then obtain es where l: "listing (?D (persistent_store s)) (\<lambda>k. events_lower ref_env (fst (range_or_all (fl_id_range f))) \<le> k \<and>
      k < events_upper ref_env (snd (range_or_all (fl_id_range f)))) es"
    and r: "list_events ref_env args s = (Inr \<lparr>lr_nb_events = 0, lr_events = take (count_limit (la_count args))
      (filter (event_matches ref_env f) (map (stored_event ref_env)
        (if order_or_default (la_order args) = Descending then rev es else es)))\<rparr>, s)"
    using list_events_exact [OF ref_store_ok ref_disk_ok c d] by blast
  have "event_range ref_env (key_for_event [CHR 0x01])" by (rule event_in_range)
  moreover have "?D (persistent_store s) (key_for_event [CHR 0x01]) = Some ?e" by (simp add: s_def)
  ultimately have "(key_for_event [CHR 0x01], ?e) \<in> set es"
    using l by (simp add: listing_def f_def default_filter_def range_or_all_def event_range_def events_lower_def)
  moreover have "order_or_default (la_order args) = Descending" "count_limit (la_count args) = 1"
    by (simp_all add: args_def order_or_default_def count_limit_def MAXIMUM_EVENT_COUNT_def)
  ultimately show ?thesis using r unfolding s_def f_def args_def by auto
qed

end
