(* ===== verification/Bridge.thy ===== *)
theory Bridge
  imports Modules
begin

text \<open>
  \<open>many-abci\<close>: the bridge between MANY clients, tendermint and an application server.
  \<open>many_app.rs\<close> sends a client's command to the block chain and its query to the server,
  \<open>abci_app.rs\<close> hands the block chain's calls to the server, \<open>module.rs\<close> answers questions about
  blocks and transactions. The messages and envelopes (record \<open>wire\<close>), a tendermint node
  (\<open>node\<close>) and the application server behind the bridge (\<open>server\<close>) are parameters.
\<close>

section \<open>What the bridge calls\<close>

record request_message =
  rq_from :: address
  rq_method :: string

text \<open>\<open>ResponseMessage\<close>; \<open>rm_rest\<close> stands for the fields that the bridge does not read.\<close>

record 'x response_message =
  rm_version :: "u8 option"
  rm_from :: address
  rm_data :: "many_error + bytes"
  rm_timestamp :: "timestamp option"
  rm_rest :: 'x

datatype signer = ServerKey | NoKey  \<comment> \<open>the bridge's \<open>CoseKeyIdentity\<close>, \<open>AnonymousIdentity\<close>\<close>

record ('e, 'x) wire =
  decode_request :: "'e \<Rightarrow> many_error + request_message"
  decode_response :: "'e \<Rightarrow> many_error + 'x response_message"
  encode_request :: "request_message \<Rightarrow> many_error + 'e"
  encode_response :: "'x response_message \<Rightarrow> signer \<Rightarrow> many_error + 'e"
  from_request :: "request_message \<Rightarrow> address \<Rightarrow> many_error + bytes \<Rightarrow> 'x response_message"
  with_async :: "'x response_message \<Rightarrow> bytes \<Rightarrow> 'x response_message"
  error_message :: "address \<Rightarrow> many_error \<Rightarrow> 'x response_message"
  envelope_to_vec :: "'e \<Rightarrow> string + bytes"
  envelope_from_slice :: "bytes \<Rightarrow> string + 'e"
  envelope_payload :: "'e \<Rightarrow> bytes option"
  message_from_bytes :: "bytes \<Rightarrow> string + 'x response_message"
  message_to_bytes :: "'x response_message \<Rightarrow> string + bytes"
  message_default :: "'x response_message"
  dec_init :: "bytes \<Rightarrow> string + (string \<times> bool) list"
  dec_info :: "bytes \<Rightarrow> string + abci_info"
  dec_commit :: "bytes \<Rightarrow> string + commit_info"
  unexpected_transport_error :: "string \<Rightarrow> many_error"
  abci_transport_error :: "string \<Rightarrow> many_error"
  unknown_block :: many_error
  many_error_show :: "many_error \<Rightarrow> string"
  anonymous :: address
  epoch :: timestamp  \<comment> \<open>\<open>Timestamp::new(0)\<close>\<close>
  new_timestamp :: "u64 \<Rightarrow> many_error + timestamp"
  sha256 :: "bytes \<Rightarrow> bytes"
  genesis :: "bytes \<times> u64"
  abci_attribute_id :: nat
  pkg_version :: string

text \<open>What tendermint answers, and the queries it is asked.\<close>

record tx_answer =
  ta_hash :: bytes
  ta_tx :: bytes
  ta_result_data :: bytes

record sync_info =
  latest_block_hash :: bytes
  latest_block_height :: u64
  latest_app_hash :: bytes

record tm_block =
  tb_height :: u64
  tb_hash :: bytes
  tb_last_block_id :: "bytes option"
  tb_app_hash :: bytes
  tb_time :: int  \<comment> \<open>seconds since the epoch\<close>
  tb_data :: "bytes list"

datatype tm_order = TmAscending | TmDescending

datatype tm_condition =  \<comment> \<open>on \<open>block.height\<close>\<close>
    Gte u64
  | Gt u64
  | Lte u64
  | Lt u64

record 'n node =
  broadcast_tx_sync :: "bytes \<Rightarrow> 'n \<Rightarrow> (string + bytes) \<times> 'n"
  abci_query :: "bytes \<Rightarrow> 'n \<Rightarrow> (string + bytes) \<times> 'n"
  node_tx :: "bytes \<Rightarrow> 'n \<Rightarrow> string + tx_answer"
  node_status :: "'n \<Rightarrow> string + sync_info"
  node_block_by_hash :: "bytes \<Rightarrow> 'n \<Rightarrow> string + tm_block option"
  node_block :: "u32 \<Rightarrow> 'n \<Rightarrow> string + tm_block"
  node_block_search :: "tm_condition list \<Rightarrow> u32 \<Rightarrow> u8 \<Rightarrow> tm_order \<Rightarrow> 'n \<Rightarrow> string + tm_block list"

datatype abci_call =
    CallInfo
  | CallBeginBlock "u64 option"
  | CallEndBlock
  | CallCommit

record ('e, 'w) server =
  srv_call :: "abci_call \<Rightarrow> 'w \<Rightarrow> (many_error + bytes) \<times> 'w"
  srv_send :: "'e \<Rightarrow> 'w \<Rightarrow> (string + 'e) \<times> 'w"  \<comment> \<open>\<open>send_envelope\<close>\<close>

section \<open>\<open>many_app.rs\<close>: the front end of the block chain\<close>

record base_status =
  st_name :: string
  st_version :: nat
  st_identity :: address
  st_public_key :: "bytes option"
  st_attributes :: "(nat \<times> bytes) list"
  st_server_version :: string

record frontend =
  backend_status :: base_status
  fe_identity :: address
  fe_public_key :: "bytes option"
  backend_endpoints :: "(string \<times> bool) list"
  fe_allow_addrs :: "address list option"

text \<open>\<open>new\<close>: the server is asked for its endpoints; every failure panics.\<close>

definition frontend_new :: "('e, 'x) wire \<Rightarrow> 'n node \<Rightarrow> base_status \<Rightarrow> address \<Rightarrow> bytes option \<Rightarrow>
    address list option \<Rightarrow> ('n, frontend) op" where
  "frontend_new W N status identity key allow_addrs =
     bnd (expecting ''unwrap'' (lift (from_many
       (encode_request W \<lparr>rq_from = identity, rq_method = ''abci.init''\<rparr>)))) (\<lambda>request.
     bnd (lift (panic_on_err ''unwrap'' (envelope_to_vec W request))) (\<lambda>data.
     bnd (\<lambda>n. case abci_query N data n of (r, n') \<Rightarrow> (panic_on_err ''unwrap'' r, n')) (\<lambda>value.
     bnd (lift (panic_on_err ''unwrap'' (envelope_from_slice W value))) (\<lambda>envelope.
     bnd (expecting ''unwrap'' (lift (from_many (decode_response W envelope)))) (\<lambda>response.
     bnd (expecting ''unwrap'' (lift (from_many (rm_data response)))) (\<lambda>bytes.
     bnd (lift (panic_on_err ''unwrap'' (dec_init W bytes))) (\<lambda>endpoints.
     ret \<lparr>backend_status = status, fe_identity = identity, fe_public_key = key,
       backend_endpoints = endpoints, fe_allow_addrs = allow_addrs\<rparr>)))))))"

definition addr_allowed :: "frontend \<Rightarrow> address \<Rightarrow> bool" where
  "addr_allowed F a = (case fe_allow_addrs F of None \<Rightarrow> True | Some as \<Rightarrow> a \<in> set as)"

definition execute_message :: "('e, 'x) wire \<Rightarrow> frontend \<Rightarrow> 'n node \<Rightarrow> 'e \<Rightarrow> ('n, 'e) op" where
  "execute_message W F N envelope =
     bnd (lift (from_many (decode_request W envelope))) (\<lambda>message.
     case map_of (backend_endpoints F) (rq_method message) of
       None \<Rightarrow> raise (InvalidMethodName (rq_method message))
     | Some is_cmd \<Rightarrow>
         bnd (lift (map_err (unexpected_transport_error W) (envelope_to_vec W envelope))) (\<lambda>data.
         if is_cmd then
           andthen (unless (addr_allowed F (rq_from message)) (Err InvalidFromIdentity))
           (bnd (\<lambda>n. case broadcast_tx_sync N data n of (r, n') \<Rightarrow>
              (map_err (unexpected_transport_error W) r, n')) (\<lambda>hash.
           let response = with_async W (from_request W message (fe_identity F) (Inr [])) hash in
           lift (case encode_response W response ServerKey of
               Inl e \<Rightarrow> Inl (Err (unexpected_transport_error W (many_error_show W e)))
             | Inr x \<Rightarrow> Inr x)))
         else
           bnd (\<lambda>n. case abci_query N data n of (r, n') \<Rightarrow>
             (map_err (unexpected_transport_error W) r, n')) (\<lambda>value.
           lift (map_err (unexpected_transport_error W) (envelope_from_slice W value)))))"

text \<open>\<open>execute\<close>: an error is sent back in a signed envelope, and is a text if that fails.\<close>

definition bridge_execute :: "('e, 'x) wire \<Rightarrow> frontend \<Rightarrow> 'n node \<Rightarrow> 'e \<Rightarrow> ('n, string + 'e) op" where
  "bridge_execute W F N envelope =
     bnd (attempt (execute_message W F N envelope)) (\<lambda>result.
     ret (case result of Inr x \<Rightarrow> Inr x
       | Inl e \<Rightarrow> (case encode_response W (error_message W (fe_identity F) e) ServerKey of
             Inl e' \<Rightarrow> Inl (many_error_show W e') | Inr x \<Rightarrow> Inr x)))"

definition bridge_endpoints :: "frontend \<Rightarrow> string list" where
  "bridge_endpoints F = fold bs_insert (map fst (backend_endpoints F)) []"

definition bridge_status :: "('e, 'x) wire \<Rightarrow> frontend \<Rightarrow> base_status" where
  "bridge_status W F =
     \<lparr>st_name = ''AbciModule('' @ st_name (backend_status F) @ '')'', st_version = 1,
      st_identity = fe_identity F, st_public_key = fe_public_key F,
      st_attributes = filter (\<lambda>a. fst a \<noteq> abci_attribute_id W) (st_attributes (backend_status F)),
      st_server_version = pkg_version W\<rparr>"

section \<open>\<open>abci_app.rs\<close>: the calls of the block chain\<close>

record app_info =
  ai_data :: string
  ai_version :: string
  ai_app_version :: nat
  ai_last_block_height :: int
  ai_last_block_app_hash :: bytes

record tx_response =  \<comment> \<open>\<open>ResponseDeliverTx\<close>; \<open>value\<close> of a \<open>ResponseQuery\<close> is \<open>tr_data\<close>\<close>
  tr_code :: u32
  tr_data :: bytes
  tr_log :: string

definition app_info_of :: "('e, 'x) wire \<Rightarrow> ('e, 'w) server \<Rightarrow> string \<Rightarrow> 'w \<Rightarrow> app_info \<times> 'w" where
  "app_info_of W S app_name w =
     (case srv_call S CallInfo w of (r, w') \<Rightarrow>
        ((case (case r of Inl e \<Rightarrow> Inl e
                | Inr payload \<Rightarrow> (case dec_info W payload of Inl d \<Rightarrow> Inl (DeserializationError d) | Inr i \<Rightarrow> Inr i)) of
            Inl err \<Rightarrow>
              \<lparr>ai_data = ''An error occurred during call to abci.info:'' @ CHR 0x0A # many_error_show W err,
               ai_version = [], ai_app_version = 0, ai_last_block_height = 0, ai_last_block_app_hash = []\<rparr>
          | Inr i \<Rightarrow>
              \<lparr>ai_data = ''many-abci-bridge('' @ app_name @ '')'', ai_version = pkg_version W,
               ai_app_version = 1, ai_last_block_height = sint (info_height i),
               ai_last_block_app_hash = info_hash i\<rparr>), w'))"

definition app_query :: "('e, 'x) wire \<Rightarrow> ('e, 'w) server \<Rightarrow> bytes \<Rightarrow> 'w \<Rightarrow> tx_response \<times> 'w" where
  "app_query W S data w =
     (case envelope_from_slice W data of
        Inl err \<Rightarrow> (\<lparr>tr_code = 2, tr_data = [], tr_log = err\<rparr>, w)
      | Inr cose \<Rightarrow> (case srv_send S cose w of (r, w') \<Rightarrow>
          ((case r of
              Inl err \<Rightarrow> \<lparr>tr_code = 3, tr_data = [], tr_log = err\<rparr>
            | Inr answer \<Rightarrow> (case envelope_to_vec W answer of
                Inr v \<Rightarrow> \<lparr>tr_code = 0, tr_data = v, tr_log = []\<rparr>
              | Inl err \<Rightarrow> \<lparr>tr_code = 1, tr_data = [], tr_log = err\<rparr>)), w')))"

text \<open>\<open>seconds as u64\<close>: a time before the epoch wraps.\<close>

definition app_begin_block :: "('e, 'w) server \<Rightarrow> int option option \<Rightarrow> 'w \<Rightarrow> 'w" where
  "app_begin_block S header w =
     (let time = (case header of Some (Some seconds) \<Rightarrow> Some (word_of_int seconds) | _ \<Rightarrow> None)
      in snd (srv_call S (CallBeginBlock time) w))"

definition app_end_block :: "('e, 'w) server \<Rightarrow> 'w \<Rightarrow> 'w" where
  "app_end_block S w = snd (srv_call S CallEndBlock w)"

text \<open>The fields of a response that two servers may fill differently are overwritten.\<close>

definition consensus_form :: "('e, 'x) wire \<Rightarrow> 'x response_message \<Rightarrow> 'x response_message" where
  "consensus_form W response =
     response\<lparr>rm_from := anonymous W, rm_version := None, rm_timestamp := Some (epoch W)\<rparr>"

definition received :: "('e, 'x) wire \<Rightarrow> 'e \<Rightarrow> 'x response_message" where
  "received W cose_sign =
     (let payload = (case envelope_payload W cose_sign of None \<Rightarrow> [] | Some p \<Rightarrow> p)
      in case message_from_bytes W payload of Inl _ \<Rightarrow> message_default W | Inr m \<Rightarrow> m)"

definition deliver_tx :: "('e, 'x) wire \<Rightarrow> ('e, 'w) server \<Rightarrow> bytes \<Rightarrow> 'w \<Rightarrow> tx_response \<times> 'w" where
  "deliver_tx W S tx w =
     (case envelope_from_slice W tx of
        Inl err \<Rightarrow> (\<lparr>tr_code = 2, tr_data = [], tr_log = err\<rparr>, w)
      | Inr cose \<Rightarrow> (case srv_send S cose w of (r, w') \<Rightarrow>
          ((case r of
              Inr cose_sign \<Rightarrow> (case message_to_bytes W (consensus_form W (received W cose_sign)) of
                Inr data \<Rightarrow> \<lparr>tr_code = 0, tr_data = data, tr_log = []\<rparr>
              | Inl _ \<Rightarrow> \<lparr>tr_code = 3, tr_data = [], tr_log = []\<rparr>)
            | Inl err \<Rightarrow> \<lparr>tr_code = 1, tr_data = [], tr_log = err\<rparr>), w')))"

text \<open>\<open>commit\<close>: the data and the retained height; an answer that does not decode panics.\<close>

definition app_commit :: "('e, 'x) wire \<Rightarrow> ('e, 'w) server \<Rightarrow> ('w, bytes \<times> int) op" where
  "app_commit W S =
     (\<lambda>w. case srv_call S CallCommit w of (r, w') \<Rightarrow>
        (case r of
           Inl err \<Rightarrow> Inr (many_error_show W err, 0)
         | Inr msg \<Rightarrow> (case dec_commit W msg of
               Inl _ \<Rightarrow> Inl (Panic ''unwrap'')
             | Inr info \<Rightarrow> Inr (app_hash info, sint (retain_height info))), w'))"

section \<open>\<open>module.rs\<close>: blocks and transactions\<close>

definition MAXIMUM_BLOCK_COUNT :: u64 where
  "MAXIMUM_BLOCK_COUNT = 100"

definition DEFAULT_BLOCK_LIST_QUERY :: "tm_condition list" where
  "DEFAULT_BLOCK_LIST_QUERY = [Gte 0]"

record chain_tx =
  tx_id :: bytes
  tx_request :: "bytes option"
  tx_response :: "bytes option"

record chain_block =
  bl_id :: "bytes \<times> u64"
  bl_parent :: "bytes \<times> u64"
  bl_app_hash :: "bytes option"
  bl_timestamp :: timestamp
  bl_txs_count :: u64
  bl_txs :: "chain_tx list"

text \<open>
  A block above the first has a parent, a time is not before the epoch: \<open>unwrap\<close> panics
  otherwise.
\<close>

definition many_block :: "('e, 'x) wire \<Rightarrow> tm_block \<Rightarrow> chain_block res" where
  "many_block W b =
     (let height = tb_height b;
          txs_count = word_of_nat (length (tb_data b));
          txs = map (\<lambda>d. \<lparr>tx_id = sha256 W d, tx_request = None, tx_response = None\<rparr>) (tb_data b)
      in rbind (if height \<le> 1 then Inr (genesis W)
                else (case tb_last_block_id b of None \<Rightarrow> Inl (Panic ''unwrap'')
                  | Some h \<Rightarrow> Inr (h, height - 1))) (\<lambda>parent.
         rbind (if tb_time b < 0 then Inl (Panic ''unwrap'')
                else (case new_timestamp W (word_of_int (tb_time b)) of Inl _ \<Rightarrow> Inl (Panic ''unwrap'')
                  | Inr t \<Rightarrow> Inr t)) (\<lambda>timestamp.
         Inr \<lparr>bl_id = (tb_hash b, height), bl_parent = parent, bl_app_hash = Some (tb_app_hash b),
           bl_timestamp = timestamp, bl_txs_count = txs_count, bl_txs = txs\<rparr>)))"

primrec many_blocks :: "('e, 'x) wire \<Rightarrow> tm_block list \<Rightarrow> chain_block list res" where
  "many_blocks W [] = Inr []"
| "many_blocks W (b # bs) =
     rbind (many_block W b) (\<lambda>x. rbind (many_blocks W bs) (\<lambda>xs. Inr (x # xs)))"

definition tm_order_of :: "sort_order \<Rightarrow> tm_order" where
  "tm_order_of order = (case order of Ascending \<Rightarrow> TmAscending | Descending \<Rightarrow> TmDescending
     | Indeterminate \<Rightarrow> TmAscending)"

datatype block_filter =
    HeightRange "u64 bound \<times> u64 bound"
  | TimeRange "timestamp bound \<times> timestamp bound"

definition tm_query_of :: "block_filter \<Rightarrow> tm_condition list res" where
  "tm_query_of flt =
     (case flt of
        TimeRange _ \<Rightarrow> Inl (Err (Unknown ''Unimplemented''))
      | HeightRange (lo, hi) \<Rightarrow>
          (let query = (case lo of Included x \<Rightarrow> [Gte x] | Excluded x \<Rightarrow> [Gt x] | Unbounded \<Rightarrow> []) @
               (case hi of Included x \<Rightarrow> [Lte x] | Excluded x \<Rightarrow> [Lt x] | Unbounded \<Rightarrow> [])
           in Inr (if query = [] then DEFAULT_BLOCK_LIST_QUERY else query)))"

text \<open>The count and the page asked of tendermint: \<open>u8::MAX\<close> blocks in a page.\<close>

definition block_count :: "u64 option \<Rightarrow> u64" where
  "block_count count = (case count of None \<Rightarrow> MAXIMUM_BLOCK_COUNT | Some c \<Rightarrow> min c MAXIMUM_BLOCK_COUNT)"

definition block_pages :: "u64 \<Rightarrow> (u32 \<times> u8) res" where
  "block_pages count =
     (if count > 255 then
        (let pages = (unat count + 254) div 255
         in if pages < 2 ^ 32 then Inr (word_of_nat pages, 255)
            else Inl (Err (Unknown ''Unable to cast u64 to u32'')))
      else Inr (1, ucast count))"

record list_blocks_args =
  lb_count :: "u64 option"
  lb_order :: "sort_order option"
  lb_filter :: "block_filter option"

definition list_blocks :: "('e, 'x) wire \<Rightarrow> 'n node \<Rightarrow> list_blocks_args \<Rightarrow> 'n \<Rightarrow>
    (u64 \<times> chain_block list) res" where
  "list_blocks W N args n =
     rbind (block_pages (block_count (lb_count args))) (\<lambda>(pages, count).
     let order = (case lb_order args of None \<Rightarrow> TmAscending | Some x \<Rightarrow> tm_order_of x)
     in rbind (case lb_filter args of None \<Rightarrow> Inr DEFAULT_BLOCK_LIST_QUERY | Some f \<Rightarrow> tm_query_of f) (\<lambda>query.
     let status = node_status N n;
         block = node_block_search N query pages count order n
     in rbind (map_err Unknown block) (\<lambda>bs.
     rbind (many_blocks W bs) (\<lambda>blocks.
     rbind (map_err Unknown status) (\<lambda>st. Inr (latest_block_height st, blocks))))))"

definition chain_info :: "('e, 'x) wire \<Rightarrow> 'n node \<Rightarrow> 'n \<Rightarrow>
    ((bytes \<times> u64) \<times> bytes option \<times> u64 option) res" where
  "chain_info W N n =
     rbind (map_err (abci_transport_error W) (node_status N n)) (\<lambda>status.
     Inr ((latest_block_hash status, latest_block_height status), Some (latest_app_hash status), None))"

text \<open>\<open>TryInto::<[u8; 32]>::try_into(hash)\<close>, then \<open>client.tx\<close>.\<close>

definition find_tx :: "('e, 'x) wire \<Rightarrow> 'n node \<Rightarrow> bytes \<Rightarrow> 'n \<Rightarrow> tx_answer res" where
  "find_tx W N digest n =
     (if length digest = 32 then map_err (abci_transport_error W) (node_tx N digest n)
      else Inl (Err (Unknown ''Invalid transaction hash .'')))"

definition chain_transaction :: "('e, 'x) wire \<Rightarrow> 'n node \<Rightarrow> bytes \<Rightarrow> 'n \<Rightarrow> chain_tx res" where
  "chain_transaction W N digest n =
     rbind (find_tx W N digest n) (\<lambda>block.
     Inr \<lparr>tx_id = ta_hash block, tx_request = None, tx_response = None\<rparr>)"

datatype block_query = BlockHash bytes | BlockHeight u64

definition chain_block_of :: "('e, 'x) wire \<Rightarrow> 'n node \<Rightarrow> block_query \<Rightarrow> 'n \<Rightarrow> chain_block res" where
  "chain_block_of W N query n =
     rbind (case query of
         BlockHash digest \<Rightarrow>
           if length digest = 32 then map_err (abci_transport_error W) (node_block_by_hash N digest n)
           else Inl (Err (Unknown ''Invalid hash length.''))
       | BlockHeight height \<Rightarrow>
           rbind (map_err (abci_transport_error W) (node_block N (ucast height) n)) (\<lambda>b. Inr (Some b)))
       (\<lambda>block. case block of
          Some b \<Rightarrow> many_block W b
        | None \<Rightarrow> Inl (Err (unknown_block W)))"

definition chain_request :: "('e, 'x) wire \<Rightarrow> 'n node \<Rightarrow> bytes \<Rightarrow> 'n \<Rightarrow> bytes res" where
  "chain_request W N digest n = rbind (find_tx W N digest n) (\<lambda>tx. Inr (ta_tx tx))"

definition chain_response :: "('e, 'x) wire \<Rightarrow> 'n node \<Rightarrow> bytes \<Rightarrow> 'n \<Rightarrow> bytes res" where
  "chain_response W N digest n =
     rbind (find_tx W N digest n) (\<lambda>tx.
     rbind (map_err DeserializationError (message_from_bytes W (ta_result_data tx))) (\<lambda>response.
     rbind (from_many (encode_response W response NoKey)) (\<lambda>envelope.
     map_err SerializationError (envelope_to_vec W envelope))))"

text \<open>\<open>async.status\<close>: the answer of a transaction that is in a block, \<open>None\<close> if it is unknown.\<close>

definition async_status :: "('e, 'x) wire \<Rightarrow> 'n node \<Rightarrow> bytes \<Rightarrow> 'n \<Rightarrow> 'e option res" where
  "async_status W N token n =
     (if length token = 32 then
        (case node_tx N token n of
           Inl _ \<Rightarrow> Inr None
         | Inr tx \<Rightarrow>
             rbind (map_err (abci_transport_error W) (message_from_bytes W (ta_result_data tx))) (\<lambda>response.
             case encode_response W response NoKey of
               Inl e \<Rightarrow> Inl (Err (abci_transport_error W (many_error_show W e)))
             | Inr envelope \<Rightarrow> Inr (Some envelope)))
      else Inl (Err (Unknown ''Invalid async token .'')))"

section \<open>Routing\<close>

text \<open>
  The node is called for a listed method only: a command of an allowed sender is broadcast, and
  nothing else is.
\<close>

lemma commands_need_consensus:
  "snd (execute_message W F N e n) = n \<or>
   (\<exists>m data. decode_request W e = Inr m \<and> envelope_to_vec W e = Inr data \<and>
     (map_of (backend_endpoints F) (rq_method m) = Some True \<and> addr_allowed F (rq_from m) \<and>
        snd (execute_message W F N e n) = snd (broadcast_tx_sync N data n) \<or>
      map_of (backend_endpoints F) (rq_method m) = Some False \<and>
        snd (execute_message W F N e n) = snd (abci_query N data n)))"
proof (cases "decode_request W e")
  case (Inl x)
  then show ?thesis by (simp add: execute_message_def run)
next
  case m: (Inr m)
  show ?thesis
  proof (cases "envelope_to_vec W e")
    case (Inl x)
    with m show ?thesis
      by (cases "map_of (backend_endpoints F) (rq_method m)") (simp_all add: execute_message_def run)
  next
    case d: (Inr data)
    show ?thesis
    proof (cases "map_of (backend_endpoints F) (rq_method m)")
      case None
      with m show ?thesis by (simp add: execute_message_def run)
    next
      case (Some c)
      have "snd (execute_message W F N e n) =
        (if c then if addr_allowed F (rq_from m) then snd (broadcast_tx_sync N data n) else n
         else snd (abci_query N data n))"
        using m d Some by (auto simp: execute_message_def run Let_def split: prod.split sum.split)
      with m d Some show ?thesis by (cases c) auto
    qed
  qed
qed

lemma unlisted_method_refused:
  assumes "decode_request W e = Inr m" and "rq_method m \<notin> fst ` set (backend_endpoints F)"
  shows "execute_message W F N e n = (Inl (Err (InvalidMethodName (rq_method m))), n)"
proof -
  have "map_of (backend_endpoints F) (rq_method m) = None" using assms(2) by (simp add: map_of_eq_None_iff)
  with assms(1) show ?thesis by (simp add: execute_message_def run)
qed

text \<open>
  The table that \<open>many-kvstore\<close> sends has no \<open>kvstore.transfer\<close>, although the server has the
  operation: behind the block chain every transfer is refused.
\<close>

lemma transfer_unreachable:
  assumes "backend_endpoints F = kv_endpoints"
    and "decode_request W e = Inr \<lparr>rq_from = sender, rq_method = ''kvstore.transfer''\<rparr>"
  shows "execute_message W F N e n = (Inl (Err (InvalidMethodName ''kvstore.transfer'')), n)"
  using unlisted_method_refused [OF assms(2), of F N n] assms(1) by (simp add: kv_endpoints_def)

text \<open>\<open>block(height as u32)\<close>: a height of \<open>2 ^ 32\<close> or more is answered with a lower block.\<close>

lemma ucast_low: "ucast (2 ^ 32 + ucast h :: u64) = (h :: u32)"
  by transfer (simp add: take_bit_take_bit, simp add: take_bit_eq_mod)

lemma ucast_low_plain: "ucast (ucast h :: u64) = (h :: u32)"
  by transfer (simp add: take_bit_take_bit)

lemma block_height_truncated:
  "chain_block_of W N (BlockHeight (2 ^ 32 + ucast (h :: u32))) n =
   chain_block_of W N (BlockHeight (ucast h)) n"
  unfolding chain_block_of_def block_query.case ucast_low ucast_low_plain by (rule refl)

section \<open>Replicas\<close>

text \<open>
  The validators of the chain run a bridge and a server each, and tendermint compares what they
  answer to the transactions of a block. Two answers of servers count as the same when they
  differ in sender, version and time only.
\<close>

definition same_reply :: "('e, 'x) wire \<Rightarrow> string + 'e \<Rightarrow> string + 'e \<Rightarrow> bool" where
  "same_reply W r r' = (case (r, r') of
     (Inr a, Inr b) \<Rightarrow> rm_data (received W a) = rm_data (received W b) \<and>
       rm_rest (received W a) = rm_rest (received W b)
   | (Inl d, Inl d') \<Rightarrow> d = d'
   | _ \<Rightarrow> False)"

primrec deliver_all :: "('e, 'x) wire \<Rightarrow> ('e, 'w) server \<Rightarrow> bytes list \<Rightarrow> 'w \<Rightarrow> tx_response list \<times> 'w" where
  "deliver_all W S [] w = ([], w)"
| "deliver_all W S (tx # txs) w =
     (case deliver_tx W S tx w of (r, w') \<Rightarrow> (case deliver_all W S txs w' of (rs, w'') \<Rightarrow> (r # rs, w'')))"

definition simulates :: "('e, 'x) wire \<Rightarrow> ('e, 'w) server \<Rightarrow> ('e, 'u) server \<Rightarrow> ('w \<Rightarrow> 'u \<Rightarrow> bool) \<Rightarrow> bool" where
  "simulates W S T R \<longleftrightarrow> (\<forall>e w u. R w u \<longrightarrow>
     same_reply W (fst (srv_send S e w)) (fst (srv_send T e u)) \<and>
     R (snd (srv_send S e w)) (snd (srv_send T e u)))"

lemma consensus_form_cong:
  assumes "rm_data a = rm_data b" and "rm_rest a = rm_rest b"
  shows "consensus_form W a = consensus_form W b"
  using assms by (cases a; cases b) (simp add: consensus_form_def)

lemma deliver_tx_replicas:
  assumes "simulates W S T R" and "R w u"
  shows "fst (deliver_tx W S tx w) = fst (deliver_tx W T tx u)"
    and "R (snd (deliver_tx W S tx w)) (snd (deliver_tx W T tx u))"
proof -
  have reply: "same_reply W (fst (srv_send S e w)) (fst (srv_send T e u))"
    and R: "R (snd (srv_send S e w)) (snd (srv_send T e u))" for e
    using assms unfolding simulates_def by blast+
  show "R (snd (deliver_tx W S tx w)) (snd (deliver_tx W T tx u))"
    using assms(2) R by (auto simp: deliver_tx_def split_beta split: sum.split)
  show "fst (deliver_tx W S tx w) = fst (deliver_tx W T tx u)"
  proof (cases "envelope_from_slice W tx")
    case (Inl d)
    then show ?thesis by (simp add: deliver_tx_def)
  next
    case e: (Inr e)
    show ?thesis
    proof (cases "fst (srv_send S e w)")
      case (Inl d)
      with reply [of e] have "fst (srv_send T e u) = Inl d"
        by (cases "fst (srv_send T e u)") (simp_all add: same_reply_def)
      with e Inl show ?thesis by (simp add: deliver_tx_def split_beta)
    next
      case (Inr a)
      with reply [of e] obtain b where b: "fst (srv_send T e u) = Inr b"
        and "rm_data (received W a) = rm_data (received W b)"
        and "rm_rest (received W a) = rm_rest (received W b)"
        by (cases "fst (srv_send T e u)") (simp_all add: same_reply_def)
      then have "consensus_form W (received W a) = consensus_form W (received W b)"
        by (intro consensus_form_cong)
      with e Inr b show ?thesis by (simp add: deliver_tx_def split_beta)
    qed
  qed
qed

lemma deliver_all_replicas:
  assumes "simulates W S T R" and "R w u"
  shows "fst (deliver_all W S txs w) = fst (deliver_all W T txs u)"
  using assms(2)
proof (induction txs arbitrary: w u)
  case Nil
  then show ?case by simp
next
  case (Cons tx txs)
  note step = deliver_tx_replicas [OF assms(1) Cons.prems, of tx]
  show ?case using Cons.IH [OF step(2)] step(1) by (simp add: split_beta)
qed

text \<open>A transaction that does not parse, or whose answer the bridge cannot encode, has its code.\<close>

lemma deliver_tx_code:
  "tr_code (fst (deliver_tx W S tx w)) \<in> {0, 1, 2, 3} \<and>
   (tr_code (fst (deliver_tx W S tx w)) \<noteq> 0 \<longrightarrow> tr_data (fst (deliver_tx W S tx w)) = [])"
  by (auto simp: deliver_tx_def split_beta split: sum.split)

section \<open>Lists of blocks\<close>

fun condition_holds :: "u64 \<Rightarrow> tm_condition \<Rightarrow> bool" where
  "condition_holds h (Gte x) = (x \<le> h)"
| "condition_holds h (Gt x) = (x < h)"
| "condition_holds h (Lte x) = (h \<le> x)"
| "condition_holds h (Lt x) = (h < x)"

definition in_order :: "tm_order \<Rightarrow> 'a list \<Rightarrow> 'a list" where
  "in_order ord xs = (case ord of TmAscending \<Rightarrow> xs | TmDescending \<Rightarrow> rev xs)"

lemma set_in_order [simp]: "set (in_order ord xs) = set xs"
  by (cases ord) (simp_all add: in_order_def)

lemma map_in_order: "map f (in_order ord xs) = in_order ord (map f xs)"
  by (cases ord) (simp_all add: in_order_def rev_map)

text \<open>
  What tendermint documents of \<open>block_search\<close>: the page of the blocks that meet every condition,
  for pages of 1 to 100 blocks. A page size below 1 is replaced by the default of 30 (\<open>validatePerPage\<close>
  of tendermint's RPC). \<open>chain n\<close> lists the blocks of the node by ascending height.
\<close>

definition page_size :: "u8 \<Rightarrow> nat" where
  "page_size c = (if c = 0 then 30 else unat c)"

definition search_ok :: "'n node \<Rightarrow> ('n \<Rightarrow> tm_block list) \<Rightarrow> bool" where
  "search_ok N chain \<longleftrightarrow> (\<forall>q p c ord n. 1 \<le> p \<longrightarrow> c \<le> 100 \<longrightarrow>
     node_block_search N q p c ord n =
       Inr (take (page_size c) (drop ((unat p - 1) * page_size c)
         (in_order ord (filter (\<lambda>b. list_all (condition_holds (tb_height b)) q) (chain n))))))"

text \<open>Blocks as tendermint makes them.\<close>

definition block_ok :: "('e, 'x) wire \<Rightarrow> tm_block \<Rightarrow> bool" where
  "block_ok W b \<longleftrightarrow> (tb_height b \<le> 1 \<or> tb_last_block_id b \<noteq> None) \<and> 0 \<le> tb_time b \<and>
     (\<exists>t. new_timestamp W (word_of_int (tb_time b)) = Inr t)"

lemma many_block_ok:
  assumes "block_ok W b"
  shows "\<exists>x. many_block W b = Inr x \<and> bl_id x = (tb_hash b, tb_height b)"
  using assms by (auto simp: block_ok_def many_block_def Let_def)

lemma many_blocks_ok:
  assumes "\<forall>b \<in> set bs. block_ok W b"
  shows "\<exists>xs. many_blocks W bs = Inr xs \<and> map bl_id xs = map (\<lambda>b. (tb_hash b, tb_height b)) bs"
  using assms
proof (induction bs)
  case Nil
  then show ?case by simp
next
  case (Cons b bs)
  then obtain xs where xs: "many_blocks W bs = Inr xs"
      "map bl_id xs = map (\<lambda>b. (tb_hash b, tb_height b)) bs" by auto
  obtain x where "many_block W b = Inr x" "bl_id x = (tb_hash b, tb_height b)"
    using many_block_ok Cons.prems by (metis list.set_intros(1))
  with xs show ?case by simp
qed

text \<open>At most 100 blocks are asked for, and they fit one page.\<close>

lemma one_page:
  assumes "c \<le> 100"
  shows "\<exists>k. block_pages c = Inr (1, k) \<and> k \<le> 100 \<and> unat k = unat c"
proof -
  have c: "unat c \<le> 100" using assms by (simp add: word_le_nat_alt)
  have u: "unat (ucast c :: u8) = unat c"
    using c by (simp add: unsigned_ucast_eq take_bit_eq_mod)
  then have "(ucast c :: u8) \<le> 100" using c by (simp add: word_le_nat_alt)
  moreover have "\<not> c > 255" using c by (simp add: word_less_nat_alt)
  ultimately show ?thesis using u by (simp add: block_pages_def)
qed

text \<open>How many blocks a client may get; for a count of zero it is tendermint's default.\<close>

definition blocks_due :: "u64 option \<Rightarrow> nat" where
  "blocks_due count = (case count of None \<Rightarrow> 100 | Some c \<Rightarrow> if c = 0 then 30 else min (unat c) 100)"

lemma block_count_le: "block_count c \<le> 100"
  by (auto simp: block_count_def MAXIMUM_BLOCK_COUNT_def min_def split: option.split)

lemma page_of_count:
  assumes "unat k = unat (block_count c)"
  shows "page_size k = blocks_due c"
proof -
  have size: "page_size k = (if unat k = 0 then 30 else unat k)" by (simp add: page_size_def unat_eq_0)
  show ?thesis
  proof (cases c)
    case None
    then show ?thesis unfolding size assms by (simp add: blocks_due_def block_count_def MAXIMUM_BLOCK_COUNT_def)
  next
    case (Some d)
    have "unat (min d 100 :: u64) = min (unat d) 100" by (simp add: min_def word_le_nat_alt)
    then have "unat k = min (unat d) 100"
      using Some assms by (simp add: block_count_def MAXIMUM_BLOCK_COUNT_def)
    with Some show ?thesis unfolding size by (auto simp: blocks_due_def min_def unat_eq_0)
  qed
qed

definition height_asked :: "list_blocks_args \<Rightarrow> u64 \<Rightarrow> bool" where
  "height_asked args h = (case lb_filter args of
     Some (HeightRange (lo, hi)) \<Rightarrow> above lo unat (unat h) \<and> below hi unat (unat h)
   | _ \<Rightarrow> True)"

definition by_height :: "list_blocks_args \<Rightarrow> bool" where
  "by_height args \<longleftrightarrow> (case lb_filter args of Some (TimeRange _) \<Rightarrow> False | _ \<Rightarrow> True)"

lemma tm_query_exact:
  assumes "by_height args"
  shows "\<exists>q. (case lb_filter args of None \<Rightarrow> Inr DEFAULT_BLOCK_LIST_QUERY | Some f \<Rightarrow> tm_query_of f) = Inr q \<and>
    (\<forall>h. list_all (condition_holds h) q = height_asked args h)"
  using assms
  by (auto simp: by_height_def height_asked_def tm_query_of_def DEFAULT_BLOCK_LIST_QUERY_def Let_def
      word_le_nat_alt word_less_nat_alt split: option.splits block_filter.splits bound.splits prod.splits)

text \<open>
  C27. A list of blocks has exactly the blocks whose height is in the range asked for, in the
  order asked for, cut after the count asked for or after 100, whatever the bounds of the range: they
  come from one page of tendermint's search. A count of zero is the exception: it is passed on as
  the page size, for which tendermint takes its default, so up to 30 blocks are listed. The height
  is the node's latest. (Ranges of times are not searched for by height and are left out.)
\<close>

theorem block_list_exact:
  assumes "search_ok N chain" and "\<forall>b \<in> set (chain n). block_ok W b" and "node_status N n = Inr st"
    and "by_height args"
  shows "\<exists>blocks. list_blocks W N args n = Inr (latest_block_height st, blocks) \<and>
    map (snd \<circ> bl_id) blocks = take (blocks_due (lb_count args))
      (in_order (case lb_order args of None \<Rightarrow> TmAscending | Some x \<Rightarrow> tm_order_of x)
        (filter (height_asked args) (map tb_height (chain n))))"
proof -
  let ?c = "blocks_due (lb_count args)"
  let ?ord = "case lb_order args of None \<Rightarrow> TmAscending | Some x \<Rightarrow> tm_order_of x"
  let ?bs = "take ?c (in_order ?ord (filter (\<lambda>b. height_asked args (tb_height b)) (chain n)))"
  obtain k where k: "block_pages (block_count (lb_count args)) = Inr (1, k)" "k \<le> 100"
    "unat k = unat (block_count (lb_count args))"
    using one_page [OF block_count_le] by blast
  obtain q where q: "(case lb_filter args of None \<Rightarrow> Inr DEFAULT_BLOCK_LIST_QUERY | Some f \<Rightarrow> tm_query_of f) = Inr q"
      "\<And>h. list_all (condition_holds h) q = height_asked args h"
    using tm_query_exact [OF assms(4)] by blast
  have found: "node_block_search N q 1 k ?ord n = Inr ?bs"
    using assms(1) k page_of_count [OF k(3)] unfolding search_ok_def by (simp add: q(2))
  have "\<forall>b \<in> set ?bs. block_ok W b" using assms(2) by (auto dest: in_set_takeD)
  from many_blocks_ok [OF this] obtain xs where xs: "many_blocks W ?bs = Inr xs"
      "map bl_id xs = map (\<lambda>b. (tb_hash b, tb_height b)) ?bs"
    by blast
  have "list_blocks W N args n = Inr (latest_block_height st, xs)"
    using k(1) q(1) found xs(1) assms(3) by (simp add: list_blocks_def Let_def)
  moreover have "map (snd \<circ> bl_id) xs = map tb_height ?bs"
    using arg_cong [OF xs(2), of "map snd"] by (simp add: comp_def)
  moreover have "map tb_height ?bs = take ?c (in_order ?ord (filter (height_asked args) (map tb_height (chain n))))"
    by (simp add: take_map [symmetric] map_in_order filter_map comp_def)
  ultimately show ?thesis by simp
qed

definition ex_wire :: "(bytes, unit) wire" where
  "ex_wire = \<lparr>decode_request = (\<lambda>_. Inl InvalidIdentity), decode_response = (\<lambda>_. Inl InvalidIdentity),
     encode_request = (\<lambda>_. Inl InvalidIdentity), encode_response = (\<lambda>_ _. Inl InvalidIdentity),
     from_request = (\<lambda>_ a d. \<lparr>rm_version = None, rm_from = a, rm_data = d, rm_timestamp = None, rm_rest = ()\<rparr>),
     with_async = (\<lambda>m _. m),
     error_message = (\<lambda>a e. \<lparr>rm_version = None, rm_from = a, rm_data = Inl e, rm_timestamp = None, rm_rest = ()\<rparr>),
     envelope_to_vec = Inr, envelope_from_slice = Inr, envelope_payload = Some,
     message_from_bytes = (\<lambda>b. case b of [] \<Rightarrow> Inl ''eof'' | c # d \<Rightarrow> Inr
       \<lparr>rm_version = Some 1, rm_from = of_char c, rm_data = Inr d, rm_timestamp = Some 5, rm_rest = ()\<rparr>),
     message_to_bytes = (\<lambda>m. case rm_data m of Inl _ \<Rightarrow> Inl ''error'' | Inr d \<Rightarrow> Inr (char_of (rm_from m) # d)),
     message_default = \<lparr>rm_version = None, rm_from = 0, rm_data = Inr [], rm_timestamp = None, rm_rest = ()\<rparr>,
     dec_init = (\<lambda>_. Inl ''eof''), dec_info = (\<lambda>_. Inl ''eof''), dec_commit = (\<lambda>_. Inl ''eof''),
     unexpected_transport_error = Unknown, abci_transport_error = Unknown, unknown_block = InvalidIdentity,
     many_error_show = (\<lambda>_. ''error''), anonymous = 65, epoch = 0, new_timestamp = (\<lambda>t. Inr (unat t)),
     sha256 = id, genesis = ([], 0), abci_attribute_id = 1000, pkg_version = ''0.1.0''\<rparr>"

definition ex_block :: "u64 \<Rightarrow> tm_block" where
  "ex_block h = \<lparr>tb_height = h, tb_hash = ''h'', tb_last_block_id = Some ''p'', tb_app_hash = ''a'',
     tb_time = 7, tb_data = []\<rparr>"

definition ex_node :: "u64 list node" where
  "ex_node = \<lparr>broadcast_tx_sync = (\<lambda>_ n. (Inl ''closed'', n)), abci_query = (\<lambda>_ n. (Inl ''closed'', n)),
     node_tx = (\<lambda>_ _. Inl ''closed''),
     node_status = (\<lambda>n. Inr \<lparr>latest_block_hash = ''h'', latest_block_height = last n, latest_app_hash = ''a''\<rparr>),
     node_block_by_hash = (\<lambda>_ _. Inl ''closed''), node_block = (\<lambda>_ _. Inl ''closed''),
     node_block_search = (\<lambda>q p c ord n. Inr (take (page_size c) (drop ((unat p - 1) * page_size c)
       (in_order ord (filter (\<lambda>b. list_all (condition_holds (tb_height b)) q) (map ex_block n))))))\<rparr>"

definition ex_args :: list_blocks_args where
  "ex_args = \<lparr>lb_count = Some 2, lb_order = Some Descending,
     lb_filter = Some (HeightRange (Excluded 1, Unbounded))\<rparr>"

lemma block_list_exact_witness:
  "\<exists>blocks. list_blocks ex_wire ex_node ex_args [1, 2, 3, 4] = Inr (4, blocks) \<and>
     map (snd \<circ> bl_id) blocks = [4, 3]"
proof -
  have "search_ok ex_node (map ex_block)" by (simp add: search_ok_def ex_node_def)
  moreover have "\<forall>b \<in> set (map ex_block [1, 2, 3, 4]). block_ok ex_wire b"
    unfolding block_ok_def ex_block_def by (simp add: ex_wire_def)
  moreover have "node_status ex_node [1, 2, 3, 4] =
      Inr \<lparr>latest_block_hash = ''h'', latest_block_height = 4, latest_app_hash = ''a''\<rparr>"
    by (simp add: ex_node_def)
  moreover have "by_height ex_args" by (simp add: by_height_def ex_args_def)
  ultimately obtain blocks where
      "list_blocks ex_wire ex_node ex_args [1, 2, 3, 4] = Inr (4, blocks)"
      "map (snd \<circ> bl_id) blocks = take (blocks_due (lb_count ex_args))
        (in_order (case lb_order ex_args of None \<Rightarrow> TmAscending | Some x \<Rightarrow> tm_order_of x)
          (filter (height_asked ex_args) (map tb_height (map ex_block [1, 2, 3, 4]))))"
    using block_list_exact [of ex_node "map ex_block" "[1, 2, 3, 4]" ex_wire _ ex_args] by auto
  then show ?thesis
    by (auto simp: ex_args_def ex_block_def blocks_due_def in_order_def tm_order_of_def height_asked_def)
qed

text \<open>
  C25. Replicas agree: the bridges of two validators whose servers give the same data for the same
  envelope, whatever the server's address, the version and the time they put in their answers,
  deliver the same responses for every sequence of transactions.
\<close>

theorem replicas_agree:
  assumes "simulates W S T R" and "R w u"
  shows "fst (deliver_all W S txs w) = fst (deliver_all W T txs u)"
  using deliver_all_replicas [OF assms] .

definition ex_server :: "char \<Rightarrow> (bytes, nat) server" where
  "ex_server c = \<lparr>srv_call = (\<lambda>_ w. (Inl InvalidIdentity, w)),
     srv_send = (\<lambda>e w. if w < 3 then (Inr (c # e), w + 1) else (Inl ''full'', w))\<rparr>"

lemma replicas_agree_witness:
  "fst (deliver_all ex_wire (ex_server CHR ''p'') [''x'', ''y''] 0) =
   fst (deliver_all ex_wire (ex_server CHR ''q'') [''x'', ''y''] 0)"
  by (rule replicas_agree [of _ _ _ "(=)"])
    (simp_all add: simulates_def same_reply_def received_def ex_server_def ex_wire_def)

end
