(* ===== verification/Client.thy ===== *)
theory Client
  imports Bridge IdStore
begin

text \<open>
  The command line clients: \<open>ledger\<close> and \<open>kvstore\<close>. A command is read from parsed options, builds
  the arguments of one request, sends it, waits for the answer and prints it. The client library
  (\<open>ManyClient\<close>), the decoders, the parsers of addresses and files are parameters (record
  \<open>client\<close>); the world \<open>'w\<close> is what a request may change, and what passes while waiting.
\<close>

section \<open>What the clients call\<close>

text \<open>The arguments of the requests.\<close>

datatype (plugins only: code) client_args =
    NoArgs
  | StatusArgs bytes
  | KvGetArgs bytes
  | KvQueryArgs bytes
  | KvPutArgs put_args
  | KvDisableArgs disable_args
  | KvTransferArgs transfer_args
  | BalanceArgs "address option" "symbol list option"
  | SendArgs send_args
  | SubmitTxArgs submit_args
  | ApproveArgs bytes
  | RevokeArgs bytes
  | ExecuteArgs bytes
  | InfoArgs bytes
  | SetDefaultsArgs defaults_args
  | TokenCreateArgs token_create_args
  | TokenUpdateArgs token_update_args
  | TokenAddExtArgs token_add_ext_args
  | TokenRemoveExtArgs token_remove_ext_args
  | TokenInfoArgs token_info_args
  | TokenMintArgs mint_args
  | TokenBurnArgs burn_args

text \<open>\<open>StatusReturn\<close>; \<open>StillOpen\<close> stands for the states in which there is no answer yet.\<close>

datatype 'e async_state = StillOpen | AnswerDone 'e | TokenExpired

record ('w, 'e, 'x) client =
  \<comment> \<open>\<open>call\<close>, \<open>call_\<close>, \<open>sleep\<close>\<close>
  cl_call :: "string \<Rightarrow> client_args \<Rightarrow> 'w \<Rightarrow> (many_error + 'x response_message) \<times> 'w"
  cl_call_data :: "string \<Rightarrow> client_args \<Rightarrow> 'w \<Rightarrow> (many_error + bytes) \<times> 'w"
  cl_sleep :: "'w \<Rightarrow> 'w"
  \<comment> \<open>what an answer holds\<close>
  async_attribute :: "'x response_message \<Rightarrow> bytes option"
  dec_status :: "bytes \<Rightarrow> string + 'e async_state"
  dec_kv_get :: "bytes \<Rightarrow> string + bytes option"
  dec_kv_query :: "bytes \<Rightarrow> string + kv_metadata"
  dec_ledger_info :: "bytes \<Rightarrow> string + symbols"
  dec_balance :: "bytes \<Rightarrow> string + (symbol \<times> nat) list"
  dec_return :: "string \<Rightarrow> bytes \<Rightarrow> string + string"  \<comment> \<open>decoded as the type of this name, and printed\<close>
  dec_submit_token :: "bytes \<Rightarrow> string + bytes"
  empty_response :: many_error
  \<comment> \<open>text\<close>
  parse_address :: "string \<Rightarrow> string + address"
  print_address :: "address \<Rightarrow> string"
  anonymous_address :: "address \<Rightarrow> bool"
  print_reason :: "reason \<Rightarrow> string"
  print_amount :: "nat \<Rightarrow> string"  \<comment> \<open>twelve columns\<close>
  hex_of :: "bytes \<Rightarrow> string"
  of_hex :: "string \<Rightarrow> string + bytes"
  memo_of :: "string \<Rightarrow> memo option"
  legacy_memo_of :: "string \<Rightarrow> string option"
  \<comment> \<open>extended information of tokens, and the files of images\<close>
  new_index :: "u32 \<Rightarrow> attr_index"
  new_ext_info :: ext_info
  info_with_memo :: "ext_info \<Rightarrow> memo \<Rightarrow> ext_info option"
  info_with_logo :: "ext_info \<Rightarrow> bytes \<Rightarrow> ext_info option"
  unicode_logo :: "nat \<Rightarrow> bytes"
  image_logo :: "string \<Rightarrow> bytes \<Rightarrow> bytes"
  mime_type :: "string \<Rightarrow> string option"
  file_bytes :: "string \<Rightarrow> string + bytes"

text \<open>What a command prints.\<close>

datatype printed =
    Silent
  | Line string
  | Raw bytes
  | Cbor bytes  \<comment> \<open>\<open>minicbor::display\<close>\<close>
  | Table "string list"

section \<open>Waiting for an answer\<close>

definition ask :: "('w, 'e, 'x) client \<Rightarrow> string \<Rightarrow> client_args \<Rightarrow> ('w, 'x response_message) op" where
  "ask C method args = (\<lambda>w. case cl_call C method args w of (r, w') \<Rightarrow> (from_many r, w'))"

definition ask_data :: "('w, 'e, 'x) client \<Rightarrow> string \<Rightarrow> client_args \<Rightarrow> ('w, bytes) op" where
  "ask_data C method args = (\<lambda>w. case cl_call_data C method args w of (r, w') \<Rightarrow> (from_many r, w'))"

text \<open>The loop over the state of an async token; \<open>None\<close> when it ran to its end.\<close>

datatype 'x polled = Answered "'x response_message" | Gone | Unanswered

definition done_message :: "('e, 'x) wire \<Rightarrow> 'e \<Rightarrow> 'x response_message res" where
  "done_message W envelope =
     rbind (case envelope_payload W envelope of
         None \<Rightarrow> Inl (Err (DeserializationError ''Empty payload. Expected ResponseMessage.''))
       | Some p \<Rightarrow> Inr p) (\<lambda>p. map_err DeserializationError (message_from_bytes W p))"

primrec poll :: "('w, 'e, 'x) client \<Rightarrow> ('e, 'x) wire \<Rightarrow> bytes \<Rightarrow> nat \<Rightarrow> ('w, 'x polled) op" where
  "poll C W tok 0 = ret Unanswered"
| "poll C W tok (Suc n) =
     bnd (ask C ''async.status'' (StatusArgs tok)) (\<lambda>response.
     bnd (lift (from_many (rm_data response))) (\<lambda>data.
     bnd (lift (map_err DeserializationError (dec_status C data))) (\<lambda>status.
     case status of
       AnswerDone envelope \<Rightarrow> bnd (lift (done_message W envelope)) (\<lambda>m. ret (Answered m))
     | TokenExpired \<Rightarrow> ret Gone
     | StillOpen \<Rightarrow> andthen (modify (cl_sleep C)) (poll C W tok n))))"

text \<open>
  \<open>wait_response\<close> calls itself with the answer that polling found: \<open>None\<close> if that never ends.
\<close>

partial_function (option) waiting :: "('w, 'e, 'x) client \<Rightarrow> ('e, 'x) wire \<Rightarrow> 'x response_message \<Rightarrow> 'w \<Rightarrow>
    (bytes res \<times> 'w) option" where
  "waiting C W response w =
     (case rm_data response of
        Inl e \<Rightarrow> Some (Inl (Err e), w)
      | Inr payload \<Rightarrow>
          if payload \<noteq> [] then Some (Inr payload, w)
          else (case async_attribute C response of
              None \<Rightarrow> Some (Inr [], w)
            | Some tok \<Rightarrow> (case poll C W tok 60 w of
                (Inl f, w') \<Rightarrow> Some (Inl f, w')
              | (Inr (Answered m), w') \<Rightarrow> waiting C W m w'
              | (Inr Gone, w') \<Rightarrow> Some (Inr [], w')
              | (Inr Unanswered, w') \<Rightarrow>
                  Some (Inl (Err (Unknown ''Transport timed out waiting for async result.'')), w'))))"

definition wait_response :: "('w, 'e, 'x) client \<Rightarrow> ('e, 'x) wire \<Rightarrow> 'x response_message \<Rightarrow> ('w, bytes) op" where
  "wait_response C W response = (\<lambda>w. case waiting C W response w of None \<Rightarrow> (Inl Diverges, w) | Some x \<Rightarrow> x)"

text \<open>\<open>let response = client.call(..)?; let payload = wait_response(client, response)?;\<close>\<close>

definition request :: "('w, 'e, 'x) client \<Rightarrow> ('e, 'x) wire \<Rightarrow> string \<Rightarrow> client_args \<Rightarrow> ('w, bytes) op" where
  "request C W method args = bnd (ask C method args) (wait_response C W)"

section \<open>The client of the key-value server\<close>

definition cli_get :: "('w, 'e, 'x) client \<Rightarrow> bytes \<Rightarrow> bool \<Rightarrow> ('w, printed) op" where
  "cli_get C key hex = bnd (ask_data C ''kvstore.get'' (KvGetArgs key)) (\<lambda>payload.
     if payload = [] then raise (empty_response C)
     else bnd (lift (map_err DeserializationError (dec_kv_get C payload))) (\<lambda>result.
       ret (case result of
           Some value \<Rightarrow> if hex then Line (hex_of C value) else Raw value
         | None \<Rightarrow> Line ''None'')))"

definition cli_query :: "('w, 'e, 'x) client \<Rightarrow> bytes \<Rightarrow> ('w, printed) op" where
  "cli_query C key = bnd (ask_data C ''kvstore.query'' (KvQueryArgs key)) (\<lambda>payload.
     if payload = [] then raise (empty_response C)
     else bnd (lift (map_err DeserializationError (dec_kv_query C payload))) (\<lambda>result.
       let own = print_address C (kv_owner result)
       in ret (Line (case kv_disabled result of
           Some (Inl True) \<Rightarrow> own @ '', disabled''
         | Some (Inr reason) \<Rightarrow> own @ '', disabled ('' @ print_reason C reason @ '')''
         | _ \<Rightarrow> own))))"

definition cli_put :: "('w, 'e, 'x) client \<Rightarrow> ('e, 'x) wire \<Rightarrow> address option \<Rightarrow> bytes \<Rightarrow> bytes \<Rightarrow>
    ('w, printed) op" where
  "cli_put C W alt_owner key value =
     bnd (request C W ''kvstore.put'' (KvPutArgs \<lparr>pa_key = key, pa_value = value, pa_owner = alt_owner\<rparr>))
       (\<lambda>payload. ret (Cbor payload))"

definition cli_disable :: "('w, 'e, 'x) client \<Rightarrow> ('e, 'x) wire \<Rightarrow> address option \<Rightarrow> bytes \<Rightarrow> reason option \<Rightarrow>
    ('w, printed) op" where
  "cli_disable C W alt_owner key rsn =
     bnd (request C W ''kvstore.disable'' (KvDisableArgs \<lparr>da_key = key, da_owner = alt_owner, da_reason = rsn\<rparr>))
       (\<lambda>payload. ret (Cbor payload))"

definition cli_transfer :: "('w, 'e, 'x) client \<Rightarrow> ('e, 'x) wire \<Rightarrow> address option \<Rightarrow> bytes \<Rightarrow> address \<Rightarrow>
    ('w, printed) op" where
  "cli_transfer C W alt_owner key new_owner =
     bnd (request C W ''kvstore.transfer''
        (KvTransferArgs \<lparr>ta_key = key, ta_owner = alt_owner, ta_new_owner = new_owner\<rparr>))
       (\<lambda>payload. ret (Cbor payload))"

datatype kv_subcommand =
    GetCmd string bool bool  \<comment> \<open>key, \<open>hex_key\<close>, \<open>hex\<close>\<close>
  | QueryCmd string bool
  | PutCmd string bool "string option" bool  \<comment> \<open>key, \<open>hex_key\<close>, value, \<open>stdin\<close>\<close>
  | DisableCmd string bool "string option"
  | TransferCmd string bool address

definition key_of_option :: "('w, 'e, 'x) client \<Rightarrow> string \<Rightarrow> bool \<Rightarrow> bytes res" where
  "key_of_option C key hex_key = (if hex_key then panic_on_err ''unwrap'' (of_hex C key) else Inr key)"

fun kv_command :: "('w, 'e, 'x) client \<Rightarrow> ('e, 'x) wire \<Rightarrow> address option \<Rightarrow> (string + bytes) \<Rightarrow> kv_subcommand \<Rightarrow>
    ('w, printed) op" where
  \<comment> \<open>the match of \<open>main\<close>; the fourth argument is what reading \<open>stdin\<close> gives\<close>
  "kv_command C W alt_owner input (GetCmd key hex_key hex) =
     bnd (lift (key_of_option C key hex_key)) (\<lambda>k. cli_get C k hex)"
| "kv_command C W alt_owner input (QueryCmd key hex_key) =
     bnd (lift (key_of_option C key hex_key)) (\<lambda>k. cli_query C k)"
| "kv_command C W alt_owner input (PutCmd key hex_key value stdin) =
     bnd (lift (key_of_option C key hex_key)) (\<lambda>k.
     bnd (lift (if stdin then panic_on_err ''unwrap'' input
           else (case value of None \<Rightarrow> Inl (Panic ''Must pass a value'') | Some v \<Rightarrow> Inr v))) (\<lambda>v.
     cli_put C W alt_owner k v))"
| "kv_command C W alt_owner input (DisableCmd key hex_key rsn) =
     bnd (lift (key_of_option C key hex_key)) (\<lambda>k.
     cli_disable C W alt_owner k (map_option (\<lambda>r. (123456, r)) rsn))"
| "kv_command C W alt_owner input (TransferCmd key hex_key new_owner) =
     bnd (lift (key_of_option C key hex_key)) (\<lambda>k. cli_transfer C W alt_owner k new_owner)"

section \<open>The client of the ledger\<close>

text \<open>\<open>minicbor::decode(&client.call_("ledger.info", ())?).unwrap()\<close>\<close>

definition local_names :: "('w, 'e, 'x) client \<Rightarrow> ('w, symbols) op" where
  "local_names C = bnd (ask_data C ''ledger.info'' NoArgs) (\<lambda>data.
     lift (panic_on_err ''unwrap'' (dec_ledger_info C data)))"

definition first_named :: "string \<Rightarrow> symbols \<Rightarrow> symbol option" where
  "first_named x names = map_option fst (find (\<lambda>(_, y). y = x) names)"

definition cli_resolve_symbol :: "('w, 'e, 'x) client \<Rightarrow> string \<Rightarrow> ('w, symbol) op" where
  "cli_resolve_symbol C x = (case parse_address C x of
     Inr a \<Rightarrow> ret a
   | Inl _ \<Rightarrow> bnd (local_names C) (\<lambda>names.
       lift (ok_or (Unknown (''Could not resolve symbol '' @ CHR 0x27 # x @ [CHR 0x27])) (first_named x names))))"

text \<open>The names of the symbols the other way round, as a \<open>BTreeMap\<close>.\<close>

definition by_name :: "symbols \<Rightarrow> (string \<times> symbol) list" where
  "by_name names = bt_collect (map (\<lambda>(x, y). (y, x)) names)"

definition named_symbol :: "('w, 'e, 'x) client \<Rightarrow> symbols \<Rightarrow> string \<Rightarrow> symbol res" where
  "named_symbol C names x = (case parse_address C x of
     Inr a \<Rightarrow> Inr a
   | Inl _ \<Rightarrow> ok_or (Unknown (''Could not resolve symbol '' @ CHR 0x27 # x @ [CHR 0x27])) (map_of (by_name names) x))"

primrec named_symbols :: "('w, 'e, 'x) client \<Rightarrow> symbols \<Rightarrow> string list \<Rightarrow> symbol list res" where
  "named_symbols C names [] = Inr []"
| "named_symbols C names (x # xs) =
     rbind (named_symbol C names x) (\<lambda>a. rbind (named_symbols C names xs) (\<lambda>as. Inr (a # as)))"

definition balance_line :: "('w, 'e, 'x) client \<Rightarrow> symbols \<Rightarrow> symbol \<times> nat \<Rightarrow> string" where
  "balance_line C names = (\<lambda>(x, amount). case map_of names x of
     Some n \<Rightarrow> print_amount C amount @ '' '' @ n @ '' ('' @ print_address C x @ '')''
   | None \<Rightarrow> print_amount C amount @ '' '' @ print_address C x)"

definition cli_balance :: "('w, 'e, 'x) client \<Rightarrow> address option \<Rightarrow> string list \<Rightarrow> ('w, printed) op" where
  "cli_balance C account symbs = bnd (local_names C) (\<lambda>names.
     bnd (lift (if symbs = [] then Inr None else rbind (named_symbols C names symbs) (\<lambda>xs. Inr (Some xs)))) (\<lambda>xs.
     bnd (ask_data C ''ledger.balance'' (BalanceArgs account xs)) (\<lambda>payload.
     if payload = [] then raise (empty_response C)
     else bnd (lift (panic_on_err ''unwrap'' (dec_balance C payload))) (\<lambda>balances.
       ret (Table (map (balance_line C names) balances))))))"

definition cli_send :: "('w, 'e, 'x) client \<Rightarrow> ('e, 'x) wire \<Rightarrow> address \<Rightarrow> address \<Rightarrow> nat \<Rightarrow> string \<Rightarrow> memo option \<Rightarrow>
    ('w, printed) op" where
  "cli_send C W frm to amount symb m = bnd (cli_resolve_symbol C symb) (\<lambda>x.
     if anonymous_address C frm then raise InvalidIdentity
     else bnd (request C W ''ledger.send'' (SendArgs \<lparr>send_from = Some frm, send_to = to, send_symbol = x,
         send_amount = amount, send_memo = m\<rparr>)) (\<lambda>payload. ret (Cbor payload)))"

text \<open>\<open>TargetCommandOpt\<close>\<close>

record target_opt =
  tg_account :: "address option"
  tg_identity :: address
  tg_amount :: nat
  tg_symbol :: string
  tg_memo :: "string option"

text \<open>\<open>memo.map(|m| Memo::try_from(m).unwrap())\<close>\<close>

definition memo_option :: "(string \<Rightarrow> 'm option) \<Rightarrow> string option \<Rightarrow> 'm option res" where
  "memo_option f m = (case m of None \<Rightarrow> Inr None
     | Some x \<Rightarrow> (case f x of None \<Rightarrow> Inl (Panic ''unwrap'') | Some y \<Rightarrow> Inr (Some y)))"

subsection \<open>\<open>tokens.rs\<close>\<close>

definition token_maybe_owner :: "('w, 'e, 'x) client \<Rightarrow> string \<Rightarrow> string + address + unit" where
  "token_maybe_owner C s = (if s = ''null'' then Inr (Inr ())
     else (case parse_address C s of Inl e \<Rightarrow> Inl e | Inr a \<Rightarrow> Inr (Inl a)))"

text \<open>\<open>str::parse\<close> of an unsigned integer of \<open>width\<close> bits\<close>

fun parse_digits :: "nat \<Rightarrow> nat \<Rightarrow> string \<Rightarrow> string + nat" where
  "parse_digits width n [] = Inr n"
| "parse_digits width n (c # cs) =
     (if CHR ''0'' \<le> c \<and> c \<le> CHR ''9'' then
        (let m = n * 10 + (of_char c - 48)
         in if m < 2 ^ width then parse_digits width m cs else Inl ''number too large to fit in target type'')
      else Inl ''invalid digit found in string'')"

definition parse_unsigned :: "nat \<Rightarrow> string \<Rightarrow> string + nat" where
  "parse_unsigned width s = (if s = [] then Inl ''cannot parse integer from empty string''
     else if s = ''+'' then Inl ''invalid digit found in string''
     else parse_digits width 0 (if hd s = CHR ''+'' then tl s else s))"

definition parse_u32 :: "string \<Rightarrow> string + u32" where
  "parse_u32 s = (case parse_unsigned 32 s of Inl e \<Rightarrow> Inl e | Inr n \<Rightarrow> Inr (word_of_nat n))"

definition attribute_related_index :: "('w, 'e, 'x) client \<Rightarrow> string \<Rightarrow> string + attr_index" where
  "attribute_related_index C s = (case parse_u32 s of Inl e \<Rightarrow> Inl e | Inr n \<Rightarrow> Inr (new_index C n))"

datatype ext_info_opt =
    MemoInfo memo
  | UnicodeLogo nat
  | ImageLogo string

definition create_ext_info :: "('w, 'e, 'x) client \<Rightarrow> ext_info_opt \<Rightarrow> ext_info res" where
  "create_ext_info C opt =
     (case opt of
        MemoInfo m \<Rightarrow> (case info_with_memo C (new_ext_info C) m of None \<Rightarrow> Inl (Panic ''unwrap'') | Some e \<Rightarrow> Inr e)
      | UnicodeLogo glyph \<Rightarrow>
          (case info_with_logo C (new_ext_info C) (unicode_logo C glyph) of
             None \<Rightarrow> Inl (Panic ''unwrap'') | Some e \<Rightarrow> Inr e)
      | ImageLogo path \<Rightarrow>
          (case mime_type C path of
             None \<Rightarrow> Inl (Panic ''Unable to guess the MIME type of image'')
           | Some content_type \<Rightarrow>
               rbind (panic_on_err ''Unable to read image'' (file_bytes C path)) (\<lambda>binary.
               case info_with_logo C (new_ext_info C) (image_logo C content_type binary) of
                 None \<Rightarrow> Inl (Panic ''unwrap'') | Some e \<Rightarrow> Inr e)))"

record create_token_opt =
  co_name :: string
  co_ticker :: string
  co_decimals :: u64
  co_owner :: "(address + unit) option"
  co_initial_distribution :: "distribution option"
  co_maximum_supply :: "u64 option"
  co_extended_info :: "ext_info_opt option"
  co_memo :: "memo option"

text \<open>A command whose answer is decoded, and printed or thrown away.\<close>

definition decoded :: "('w, 'e, 'x) client \<Rightarrow> string \<Rightarrow> bytes \<Rightarrow> ('w, string) op" where
  "decoded C ty payload = lift (map_err DeserializationError (dec_return C ty payload))"

definition cli_create_token :: "('w, 'e, 'x) client \<Rightarrow> ('e, 'x) wire \<Rightarrow> create_token_opt \<Rightarrow> ('w, printed) op" where
  "cli_create_token C W opts =
     bnd (lift (case co_extended_info opts of None \<Rightarrow> Inr None
         | Some o' \<Rightarrow> rbind (create_ext_info C o') (\<lambda>e. Inr (Some e)))) (\<lambda>info.
     bnd (request C W ''tokens.create'' (TokenCreateArgs
        \<lparr>tc_summary = \<lparr>name = co_name opts, ticker = co_ticker opts, decimals = co_decimals opts\<rparr>,
         tc_owner = co_owner opts, tc_distribution = co_initial_distribution opts,
         tc_maximum = map_option unat (co_maximum_supply opts), tc_extended_info = info,
         tc_memo = co_memo opts\<rparr>)) (\<lambda>payload.
     bnd (decoded C ''TokenCreateReturns'' payload) (\<lambda>result. ret (Line result))))"

definition cli_update_token :: "('w, 'e, 'x) client \<Rightarrow> ('e, 'x) wire \<Rightarrow> token_update_args \<Rightarrow> ('w, printed) op" where
  "cli_update_token C W args =
     bnd (request C W ''tokens.update'' (TokenUpdateArgs args)) (\<lambda>payload.
     bnd (decoded C ''TokenUpdateReturns'' payload) (\<lambda>_. ret Silent))"

definition cli_add_ext_info :: "('w, 'e, 'x) client \<Rightarrow> ('e, 'x) wire \<Rightarrow> symbol \<Rightarrow> ext_info_opt \<Rightarrow> memo option \<Rightarrow>
    ('w, printed) op" where
  "cli_add_ext_info C W x opt m =
     bnd (lift (create_ext_info C opt)) (\<lambda>info.
     bnd (request C W ''tokens.addExtendedInfo'' (TokenAddExtArgs
        \<lparr>ta_symbol = x, ta_extended_info = info, ta_memo = m\<rparr>)) (\<lambda>payload.
     bnd (decoded C ''TokenAddExtendedInfoReturns'' payload) (\<lambda>_. ret Silent)))"

definition cli_remove_ext_info :: "('w, 'e, 'x) client \<Rightarrow> ('e, 'x) wire \<Rightarrow> symbol \<Rightarrow> attr_index list \<Rightarrow> memo option \<Rightarrow>
    ('w, printed) op" where
  "cli_remove_ext_info C W x indices m =
     bnd (request C W ''tokens.removeExtendedInfo'' (TokenRemoveExtArgs
        \<lparr>tr_symbol = x, tr_extended_info = indices, tr_memo = m\<rparr>)) (\<lambda>payload.
     bnd (decoded C ''TokenRemoveExtendedInfoReturns'' payload) (\<lambda>_. ret Silent))"

definition cli_info_token :: "('w, 'e, 'x) client \<Rightarrow> ('e, 'x) wire \<Rightarrow> symbol \<Rightarrow> attr_index list option \<Rightarrow>
    ('w, printed) op" where
  "cli_info_token C W x indices =
     bnd (request C W ''tokens.info'' (TokenInfoArgs \<lparr>tia_symbol = x, tia_extended_info = indices\<rparr>)) (\<lambda>payload.
     bnd (decoded C ''TokenInfoReturns'' payload) (\<lambda>result. ret (Line result)))"

text \<open>\<open>mint\<close> and \<open>burn\<close> look a name up in the map turned round.\<close>

definition token_named :: "('w, 'e, 'x) client \<Rightarrow> string \<Rightarrow> ('w, symbol) op" where
  "token_named C x = (case parse_address C x of
     Inr a \<Rightarrow> ret a
   | Inl _ \<Rightarrow> bnd (local_names C) (\<lambda>names.
       lift (ok_or (Unknown ''Symbol address not found.'') (map_of (by_name names) x))))"

definition cli_mint_token :: "('w, 'e, 'x) client \<Rightarrow> ('e, 'x) wire \<Rightarrow> string \<Rightarrow> distribution \<Rightarrow> memo option \<Rightarrow>
    ('w, printed) op" where
  "cli_mint_token C W symb d m = bnd (token_named C symb) (\<lambda>x.
     bnd (request C W ''tokens.mint'' (TokenMintArgs
        \<lparr>mi_symbol = x, mi_distribution = d, mi_memo = m\<rparr>)) (\<lambda>payload.
     bnd (decoded C ''TokenMintReturns'' payload) (\<lambda>result. ret (Line result))))"

definition burn_request :: "symbol \<Rightarrow> distribution \<Rightarrow> memo option \<Rightarrow> bool \<Rightarrow> burn_args" where
  "burn_request x d m error_on_under_burn =
     \<lparr>bu_symbol = x, bu_distribution = d, bu_memo = m, bu_error_on_under_burn = Some error_on_under_burn\<rparr>"

definition cli_burn_token :: "('w, 'e, 'x) client \<Rightarrow> ('e, 'x) wire \<Rightarrow> string \<Rightarrow> distribution \<Rightarrow> memo option \<Rightarrow> bool \<Rightarrow>
    ('w, printed) op" where
  "cli_burn_token C W symb d m error_on_under_burn = bnd (token_named C symb) (\<lambda>x.
     bnd (request C W ''tokens.burn'' (TokenBurnArgs (burn_request x d m error_on_under_burn))) (\<lambda>payload.
     bnd (decoded C ''TokenBurnReturns'' payload) (\<lambda>result. ret (Line result))))"

datatype (plugins only: code) token_subcommand =
    CreateTokenCmd create_token_opt
  | UpdateTokenCmd token_update_args
  | AddExtInfoCmd symbol ext_info_opt "memo option"
  | RemoveExtInfoCmd symbol "attr_index list" "memo option"
  | TokenInfoCmd symbol "attr_index list option"
  | MintCmd string distribution "memo option"
  | BurnCmd string distribution "memo option" bool

fun tokens_command :: "('w, 'e, 'x) client \<Rightarrow> ('e, 'x) wire \<Rightarrow> token_subcommand \<Rightarrow> ('w, printed) op" where
  "tokens_command C W (CreateTokenCmd opts) = cli_create_token C W opts"
| "tokens_command C W (UpdateTokenCmd args) = cli_update_token C W args"
| "tokens_command C W (AddExtInfoCmd x opt m) = cli_add_ext_info C W x opt m"
| "tokens_command C W (RemoveExtInfoCmd x indices m) = cli_remove_ext_info C W x indices m"
| "tokens_command C W (TokenInfoCmd x indices) = cli_info_token C W x indices"
| "tokens_command C W (MintCmd x d m) = cli_mint_token C W x d m"
| "tokens_command C W (BurnCmd x d m e) = cli_burn_token C W x d m e"

subsection \<open>\<open>multisig.rs\<close>\<close>

text \<open>\<open>MultisigArgOpt\<close>; a duration in nanoseconds, of which \<open>as_secs\<close> keeps the seconds.\<close>

record multisig_opt =
  mo_threshold :: "u64 option"
  mo_timeout :: "nat option"
  mo_execute_automatically :: "bool option"

definition as_secs :: "nat \<Rightarrow> u64" where
  "as_secs d = word_of_nat (d div 10 ^ 9)"

definition parse_token :: "('w, 'e, 'x) client \<Rightarrow> string \<Rightarrow> string + bytes" where
  "parse_token C s = of_hex C s"

definition defaults_request :: "address \<Rightarrow> multisig_opt \<Rightarrow> defaults_args" where
  "defaults_request account opts =
     \<lparr>df_account = account, df_threshold = mo_threshold opts,
      df_timeout_in_secs = map_option as_secs (mo_timeout opts),
      df_execute_automatically = mo_execute_automatically opts\<rparr>"

definition submit_request :: "address \<Rightarrow> string option \<Rightarrow> multisig_tx \<Rightarrow> multisig_opt \<Rightarrow> memo option \<Rightarrow> submit_args" where
  "submit_request account legacy tx opts m =
     SubmitArgs account legacy tx (mo_threshold opts) (map_option as_secs (mo_timeout opts))
       (mo_execute_automatically opts) None m"

text \<open>The answer to a submission has the token, which is printed.\<close>

definition submitted_token :: "('w, 'e, 'x) client \<Rightarrow> bytes \<Rightarrow> ('w, printed) op" where
  "submitted_token C payload = bnd (lift (map_err DeserializationError (dec_submit_token C payload)))
     (\<lambda>tok. ret (Line (''Transaction Token: '' @ hex_of C tok)))"

definition cli_submit_send :: "('w, 'e, 'x) client \<Rightarrow> ('e, 'x) wire \<Rightarrow> address \<Rightarrow> multisig_opt \<Rightarrow> target_opt \<Rightarrow>
    string option \<Rightarrow> string option \<Rightarrow> ('w, printed) op" where
  "cli_submit_send C W account opts dest m legacy =
     bnd (cli_resolve_symbol C (tg_symbol dest)) (\<lambda>x.
     bnd (lift (memo_option (memo_of C) (tg_memo dest))) (\<lambda>send_m.
     let tx = TxSend \<lparr>send_from = (case tg_account dest of None \<Rightarrow> Some account | Some a \<Rightarrow> Some a),
          send_to = tg_identity dest, send_symbol = x, send_amount = tg_amount dest, send_memo = send_m\<rparr>
     in bnd (lift (memo_option (memo_of C) m)) (\<lambda>m'.
        bnd (lift (memo_option (legacy_memo_of C) legacy)) (\<lambda>legacy'.
        bnd (request C W ''account.multisigSubmitTransaction''
          (SubmitTxArgs (submit_request account legacy' tx opts m'))) (submitted_token C)))))"

definition cli_submit_set_defaults :: "('w, 'e, 'x) client \<Rightarrow> ('e, 'x) wire \<Rightarrow> address \<Rightarrow> multisig_opt \<Rightarrow> address \<Rightarrow>
    multisig_opt \<Rightarrow> ('w, printed) op" where
  "cli_submit_set_defaults C W account opts dest defaults =
     bnd (request C W ''account.multisigSubmitTransaction''
       (SubmitTxArgs (submit_request account None (TxMultisigSetDefaults (defaults_request dest defaults)) opts None)))
       (submitted_token C)"

definition cli_approve :: "('w, 'e, 'x) client \<Rightarrow> ('e, 'x) wire \<Rightarrow> bytes \<Rightarrow> ('w, printed) op" where
  "cli_approve C W tok = bnd (request C W ''account.multisigApprove'' (ApproveArgs tok)) (\<lambda>payload.
     bnd (decoded C ''ApproveReturn'' payload) (\<lambda>_. ret (Line ''Approved.'')))"

definition cli_revoke :: "('w, 'e, 'x) client \<Rightarrow> ('e, 'x) wire \<Rightarrow> bytes \<Rightarrow> ('w, printed) op" where
  "cli_revoke C W tok = bnd (request C W ''account.multisigRevoke'' (RevokeArgs tok)) (\<lambda>payload.
     bnd (decoded C ''RevokeReturn'' payload) (\<lambda>_. ret (Line ''Revoked.'')))"

definition cli_execute :: "('w, 'e, 'x) client \<Rightarrow> ('e, 'x) wire \<Rightarrow> bytes \<Rightarrow> ('w, printed) op" where
  "cli_execute C W tok = bnd (request C W ''account.multisigExecute'' (ExecuteArgs tok)) (\<lambda>payload.
     bnd (lift (map_err DeserializationError (message_from_bytes W payload))) (\<lambda>result.
     bnd (lift (from_many (rm_data result))) (\<lambda>data. ret (Cbor data))))"

definition cli_multisig_info :: "('w, 'e, 'x) client \<Rightarrow> ('e, 'x) wire \<Rightarrow> bytes \<Rightarrow> ('w, printed) op" where
  "cli_multisig_info C W tok = bnd (request C W ''account.multisigInfo'' (InfoArgs tok)) (\<lambda>payload.
     bnd (decoded C ''InfoReturn'' payload) (\<lambda>result. ret (Line result)))"

definition cli_set_defaults :: "('w, 'e, 'x) client \<Rightarrow> ('e, 'x) wire \<Rightarrow> address \<Rightarrow> multisig_opt \<Rightarrow> ('w, printed) op" where
  "cli_set_defaults C W account opts =
     bnd (request C W ''account.multisigSetDefaults'' (SetDefaultsArgs (defaults_request account opts))) (\<lambda>payload.
     bnd (decoded C ''SetDefaultsReturn'' payload) (\<lambda>_. ret (Line ''Defaults set.'')))"

datatype submit_subcommand =
    SubmitSend target_opt
  | SubmitSetDefaults address multisig_opt

datatype multisig_subcommand =
    SubmitCmd address "string option" "string option" multisig_opt submit_subcommand
      \<comment> \<open>account, memo, legacy memo, settings\<close>
  | ApproveCmd bytes
  | RevokeCmd bytes
  | ExecuteCmd bytes
  | MultisigInfoCmd bytes
  | SetDefaultsCmd address multisig_opt

definition cli_submit :: "('w, 'e, 'x) client \<Rightarrow> ('e, 'x) wire \<Rightarrow> address \<Rightarrow> multisig_opt \<Rightarrow> submit_subcommand \<Rightarrow>
    string option \<Rightarrow> string option \<Rightarrow> ('w, printed) op" where
  "cli_submit C W account opts what m legacy = (case what of
     SubmitSend dest \<Rightarrow> cli_submit_send C W account opts dest m legacy
   | SubmitSetDefaults dest defaults \<Rightarrow> cli_submit_set_defaults C W account opts dest defaults)"

fun multisig_command :: "('w, 'e, 'x) client \<Rightarrow> ('e, 'x) wire \<Rightarrow> multisig_subcommand \<Rightarrow> ('w, printed) op" where
  "multisig_command C W (SubmitCmd account m legacy opts what) = cli_submit C W account opts what m legacy"
| "multisig_command C W (ApproveCmd tok) = cli_approve C W tok"
| "multisig_command C W (RevokeCmd tok) = cli_revoke C W tok"
| "multisig_command C W (ExecuteCmd tok) = cli_execute C W tok"
| "multisig_command C W (MultisigInfoCmd tok) = cli_multisig_info C W tok"
| "multisig_command C W (SetDefaultsCmd account opts) = cli_set_defaults C W account opts"

subsection \<open>\<open>main\<close>\<close>

datatype ledger_subcommand =
    BalanceCmd "string option" "string list"
  | SendCmd target_opt
  | MultisigCmd multisig_subcommand
  | TokenCmd token_subcommand

text \<open>An identity on the command line is an address, or a file with the key of one.\<close>

definition identity_of_option :: "('w, 'e, 'x) client \<Rightarrow> (bytes \<Rightarrow> address option) \<Rightarrow> string \<Rightarrow> address res" where
  "identity_of_option C pem_address s = (case parse_address C s of
     Inr a \<Rightarrow> Inr a
   | Inl _ \<Rightarrow> (case file_bytes C s of
       Inl _ \<Rightarrow> Inl (Panic ''Unable to decode identity command-line argument'')
     | Inr b \<Rightarrow> (case pem_address b of None \<Rightarrow> Inl (Panic ''unwrap'') | Some a \<Rightarrow> Inr a)))"

fun ledger_command :: "('w, 'e, 'x) client \<Rightarrow> ('e, 'x) wire \<Rightarrow> (bytes \<Rightarrow> address option) \<Rightarrow> address \<Rightarrow> ledger_subcommand \<Rightarrow>
    ('w, printed) op" where
  \<comment> \<open>\<open>client_address\<close> is the address of the key\<close>
  "ledger_command C W pem_address client_address (BalanceCmd identity symbs) =
     bnd (lift (case identity of None \<Rightarrow> Inr None
         | Some s \<Rightarrow> rbind (identity_of_option C pem_address s) (\<lambda>a. Inr (Some a)))) (\<lambda>account.
     cli_balance C account symbs)"
| "ledger_command C W pem_address client_address (SendCmd dest) =
     bnd (lift (memo_option (memo_of C) (tg_memo dest))) (\<lambda>m.
     cli_send C W (case tg_account dest of None \<Rightarrow> client_address | Some a \<Rightarrow> a) (tg_identity dest)
       (tg_amount dest) (tg_symbol dest) m)"
| "ledger_command C W pem_address client_address (MultisigCmd c) = multisig_command C W c"
| "ledger_command C W pem_address client_address (TokenCmd c) = tokens_command C W c"

end
