(* ===== verification/Frames.thy ===== *)
theory Frames
  imports MintBurn IdStore
begin

text \<open>
  What each operation of the ledger writes. A property \<open>rests_on\<close> a set of keys when it
  survives every change of the state that leaves those keys alone, in the tree and on the
  disk; the lemmas say which keys the operations of each component may write, so a property
  that rests on other keys is kept by them. The theory of the server composes them.
\<close>

section \<open>Properties that rest on some keys\<close>

text \<open>
  With \<open>num\<close> the property may also need that the event numbers do not go back. A key on the
  disk may keep its value or take the one the tree had: a commit writes the tree to the disk.
\<close>

definition rests_on :: "('m, 'v, 'g) env \<Rightarrow> ('m \<Rightarrow> bytes \<rightharpoonup> 'v) \<Rightarrow> bool \<Rightarrow> bytes set \<Rightarrow>
    (('m, 'g) ledger \<Rightarrow> bool) \<Rightarrow> bool" where
  "rests_on E D num K I \<longleftrightarrow> env_ok E \<and> disk_ok E D \<and>
     (\<forall>s t. I s \<longrightarrow> migrations t = migrations s \<longrightarrow>
        (num \<longrightarrow> be_nat (latest_tid s) \<le> be_nat (latest_tid t)) \<longrightarrow>
        (\<forall>k \<in> K. view E t k = view E s k) \<longrightarrow>
        (\<forall>k \<in> K. D (persistent_store t) k = D (persistent_store s) k \<or>
           D (persistent_store t) k = view E s k) \<longrightarrow> I t)"

lemma rests_onD:
  assumes "rests_on E D num K I" and "I s" and "migrations t = migrations s"
    and "num \<Longrightarrow> be_nat (latest_tid s) \<le> be_nat (latest_tid t)"
    and "\<And>k. k \<in> K \<Longrightarrow> view E t k = view E s k"
    and "\<And>k. k \<in> K \<Longrightarrow> D (persistent_store t) k = D (persistent_store s) k \<or>
      D (persistent_store t) k = view E s k"
  shows "I t"
proof -
  have "I s \<longrightarrow> migrations t = migrations s \<longrightarrow>
      (num \<longrightarrow> be_nat (latest_tid s) \<le> be_nat (latest_tid t)) \<longrightarrow>
      (\<forall>k \<in> K. view E t k = view E s k) \<longrightarrow>
      (\<forall>k \<in> K. D (persistent_store t) k = D (persistent_store s) k \<or>
         D (persistent_store t) k = view E s k) \<longrightarrow> I t"
    using assms(1) unfolding rests_on_def by blast
  with assms(2-) show ?thesis by blast
qed

lemma rests_on_env:
  assumes "rests_on E D num K I"
  shows "env_ok E" "disk_ok E D" "store_ok E" "event_id_ok E"
  using assms by (auto simp: rests_on_def)

lemma rests_on_mono: "rests_on E D num K I \<Longrightarrow> K \<subseteq> L \<Longrightarrow> rests_on E D num L I"
  unfolding rests_on_def by (meson subsetD)

text \<open>The disk after a batch, and after a commit.\<close>

lemma disk_applied [simp]:
  "disk_ok E D \<Longrightarrow> D (persistent_store (applied E b s)) = D (persistent_store s)"
  by (simp add: disk_ok_def applied_def)

lemma disk_committed [simp]:
  "disk_ok E D \<Longrightarrow> D (persistent_store (committed E s)) = view E s"
  by (simp add: disk_ok_def committed_def view_def)

lemma disk_maybe_committed:
  "disk_ok E D \<Longrightarrow> D (persistent_store (maybe_committed E s)) k = D (persistent_store s) k \<or>
   D (persistent_store (maybe_committed E s)) k = view E s k"
  by (simp add: maybe_committed_def)

lemma rests_on_applied:
  assumes R: "rests_on E D num K I" and b: "batch_ok b" "fst ` set b \<inter> K = {}" and s: "I s"
  shows "I (applied E b s)"
proof -
  have "apply_batch b (view E s) k = view E s k" if "k \<in> K" for k
    using that b(2) by (intro apply_batch_other) blast
  then show ?thesis
    by (intro rests_onD [OF R s]) (use rests_on_env [OF R] b(1) in simp_all)
qed

lemma rests_on_maybe:
  assumes R: "rests_on E D num K I" and s: "I s"
  shows "I (maybe_committed E s)"
  by (rule rests_onD [OF R s])
    (use rests_on_env [OF R] disk_maybe_committed [of E D] in auto)

text \<open>The rules for the actions every operation is made of.\<close>

named_theorems frame_intro \<open>actions that write other keys keep the property\<close>

lemma frame_apply:
  "rests_on E D num K I \<Longrightarrow> fst ` set b \<inter> K = {} \<Longrightarrow> keeps I (db_apply E f b)"
  by (rule keeps_db_apply) (simp_all add: rests_on_env rests_on_applied)

lemma frame_maybe [frame_intro]: "rests_on E D num K I \<Longrightarrow> keeps I (maybe_commit E)"
  by (simp add: keeps_def maybe_commit_run rests_on_env rests_on_maybe)

lemma frame_new_event_id [frame_intro]:
  assumes R: "rests_on E D num K I"
  shows "keeps I (new_event_id E)"
  unfolding keeps_def
proof (intro allI impI)
  fix s assume "I s"
  then show "I (snd (new_event_id E s))"
    by (rule rests_onD [OF R]) (use rests_on_env [OF R] in \<open>simp_all add: new_event_id_run\<close>)
qed

lemma frame_set_time [frame_intro]:
  assumes R: "rests_on E D num K I"
  shows "keeps I (set_time t)"
  unfolding keeps_def set_time_def
proof (intro allI impI)
  fix s assume "I s"
  then show "I (snd (modify (\<lambda>s. s\<lparr>current_time := Some t\<rparr>) s))"
    by (rule rests_onD [OF R]) (simp_all add: run view_def)
qed

section \<open>The families of keys\<close>

definition event_keys :: "bytes set" where
  "event_keys = insert EVENT_COUNT_ROOT (range key_for_event)"

definition multisig_keys :: "bytes set" where
  "multisig_keys = {k. take (length MULTISIG_TRANSACTIONS_ROOT) k = MULTISIG_TRANSACTIONS_ROOT}"

definition account_keys :: "('m, 'v, 'g) env \<Rightarrow> bytes set" where
  "account_keys E = range (key_for_account E)"

definition counter_keys :: "('m, 'v, 'g) env \<Rightarrow> bytes set" where
  "counter_keys E = {key_for_subresource_counter E i b | i b. True}"

definition balance_keys :: "('m, 'v, 'g) env \<Rightarrow> bytes set" where
  "balance_keys E = {key_for_account_balance E a x | a x. True}"

definition all_token_keys :: "('m, 'v, 'g) env \<Rightarrow> bytes set" where
  "all_token_keys E = range (key_for_symbol E) \<union> range (key_for_ext_info E)"

definition idstore_keys :: "bytes set" where
  "idstore_keys = insert IDSTORE_SEED_ROOT {idstore_key sep k | sep k. True}"

lemma in_families [simp, intro]:
  "key_for_event i' \<in> event_keys" "EVENT_COUNT_ROOT \<in> event_keys"
  "key_for_multisig_transaction tok \<in> multisig_keys"
  "key_for_account E i \<in> account_keys E" "key_for_subresource_counter E i b \<in> counter_keys E"
  "key_for_account_balance E a x \<in> balance_keys E"
  "key_for_symbol E x \<in> all_token_keys E" "key_for_ext_info E x \<in> all_token_keys E"
  "idstore_key sep k \<in> idstore_keys" "IDSTORE_SEED_ROOT \<in> idstore_keys"
  by (auto simp: event_keys_def multisig_keys_def account_keys_def counter_keys_def balance_keys_def
      all_token_keys_def idstore_keys_def key_for_multisig_transaction_def)

lemma multisig_key_prefix:
  "key_for_account E i \<notin> multisig_keys" "key_for_event i' \<notin> multisig_keys"
  "EVENT_COUNT_ROOT \<notin> multisig_keys" "HEIGHT_ROOT \<notin> multisig_keys" "SYMBOLS_ROOT \<notin> multisig_keys"
  "DATA_ATTRIBUTES_KEY \<notin> multisig_keys" "IDENTITY_ROOT \<notin> multisig_keys"
  "ACCOUNT_IDENTITY_ROOT \<notin> multisig_keys" "TOKEN_IDENTITY_ROOT \<notin> multisig_keys"
  "key_for_subresource_counter E i b \<notin> multisig_keys" "key_for_account_balance E a x \<notin> multisig_keys"
  "key_for_symbol E x \<notin> multisig_keys" "key_for_ext_info E x \<notin> multisig_keys"
  "idstore_key sep k \<notin> multisig_keys" "IDSTORE_SEED_ROOT \<notin> multisig_keys"
  by (simp_all add: multisig_keys_def key_defs idstore_key_def IDSTORE_ROOT_def IDSTORE_SEED_ROOT_def)

lemma idstore_key_apart [key_apart, simp]:
  "idstore_key sep k \<noteq> key_for_account E i" "idstore_key sep k \<noteq> key_for_event i'"
  "idstore_key sep k \<noteq> EVENT_COUNT_ROOT" "idstore_key sep k \<noteq> HEIGHT_ROOT"
  "idstore_key sep k \<noteq> SYMBOLS_ROOT" "idstore_key sep k \<noteq> DATA_ATTRIBUTES_KEY"
  "idstore_key sep k \<noteq> IDENTITY_ROOT" "idstore_key sep k \<noteq> ACCOUNT_IDENTITY_ROOT"
  "idstore_key sep k \<noteq> TOKEN_IDENTITY_ROOT" "idstore_key sep k \<noteq> key_for_subresource_counter E i b"
  "idstore_key sep k \<noteq> key_for_account_balance E a x" "idstore_key sep k \<noteq> key_for_symbol E x"
  "idstore_key sep k \<noteq> key_for_ext_info E x" "idstore_key sep k \<noteq> key_for_multisig_transaction tok"
  by (simp_all add: key_defs idstore_key_def IDSTORE_ROOT_def)

lemma seed_key_apart [key_apart, simp]:
  "IDSTORE_SEED_ROOT \<noteq> key_for_account E i" "IDSTORE_SEED_ROOT \<noteq> key_for_event i'"
  "IDSTORE_SEED_ROOT \<noteq> EVENT_COUNT_ROOT" "IDSTORE_SEED_ROOT \<noteq> HEIGHT_ROOT"
  "IDSTORE_SEED_ROOT \<noteq> SYMBOLS_ROOT" "IDSTORE_SEED_ROOT \<noteq> DATA_ATTRIBUTES_KEY"
  "IDSTORE_SEED_ROOT \<noteq> IDENTITY_ROOT" "IDSTORE_SEED_ROOT \<noteq> ACCOUNT_IDENTITY_ROOT"
  "IDSTORE_SEED_ROOT \<noteq> key_for_subresource_counter E i b"
  "IDSTORE_SEED_ROOT \<noteq> key_for_account_balance E a x" "IDSTORE_SEED_ROOT \<noteq> key_for_symbol E x"
  "IDSTORE_SEED_ROOT \<noteq> key_for_ext_info E x" "IDSTORE_SEED_ROOT \<noteq> key_for_multisig_transaction tok"
  by (simp_all add: key_defs IDSTORE_SEED_ROOT_def)

lemmas idstore_apart_sym [simp] = idstore_key_apart [symmetric] seed_key_apart [symmetric]

lemmas family_defs = event_keys_def account_keys_def counter_keys_def balance_keys_def
  all_token_keys_def idstore_keys_def

lemma families_apart [simp]:
  "account_keys E \<inter> event_keys = {}" "account_keys E \<inter> counter_keys E' = {}"
  "account_keys E \<inter> balance_keys E' = {}" "account_keys E \<inter> all_token_keys E' = {}"
  "account_keys E \<inter> idstore_keys = {}" "account_keys E \<inter> multisig_keys = {}"
  "multisig_keys \<inter> event_keys = {}" "multisig_keys \<inter> account_keys E = {}"
  "multisig_keys \<inter> counter_keys E = {}" "multisig_keys \<inter> balance_keys E = {}"
  "multisig_keys \<inter> all_token_keys E = {}" "multisig_keys \<inter> idstore_keys = {}"
  "idstore_keys \<inter> event_keys = {}" "idstore_keys \<inter> account_keys E = {}"
  "idstore_keys \<inter> counter_keys E = {}" "idstore_keys \<inter> balance_keys E = {}"
  "idstore_keys \<inter> all_token_keys E = {}" "idstore_keys \<inter> multisig_keys = {}"
  "counter_keys E \<inter> event_keys = {}" "counter_keys E \<inter> account_keys E' = {}"
  "counter_keys E \<inter> balance_keys E' = {}" "counter_keys E \<inter> all_token_keys E' = {}"
  "counter_keys E \<inter> idstore_keys = {}" "counter_keys E \<inter> multisig_keys = {}"
  by (auto simp: family_defs multisig_key_prefix)

lemma roots_apart [simp]:
  "DATA_ATTRIBUTES_KEY \<notin> account_keys E" "SYMBOLS_ROOT \<notin> account_keys E" "HEIGHT_ROOT \<notin> account_keys E"
  "DATA_ATTRIBUTES_KEY \<notin> multisig_keys" "SYMBOLS_ROOT \<notin> multisig_keys" "HEIGHT_ROOT \<notin> multisig_keys"
  "DATA_ATTRIBUTES_KEY \<notin> idstore_keys" "SYMBOLS_ROOT \<notin> idstore_keys" "HEIGHT_ROOT \<notin> idstore_keys"
  "DATA_ATTRIBUTES_KEY \<notin> counter_keys E" "SYMBOLS_ROOT \<notin> counter_keys E" "HEIGHT_ROOT \<notin> counter_keys E"
  "key_for_account_balance E a x \<notin> account_keys E'" "key_for_symbol E x \<notin> account_keys E'"
  "key_for_account_balance E a x \<notin> multisig_keys" "key_for_symbol E x \<notin> multisig_keys"
  "key_for_account_balance E a x \<notin> idstore_keys" "key_for_symbol E x \<notin> idstore_keys"
  "key_for_account_balance E a x \<notin> counter_keys E'" "key_for_symbol E x \<notin> counter_keys E'"
  by (auto simp: family_defs multisig_key_prefix)

section \<open>The log and new addresses\<close>

lemma frame_log:
  assumes R: "rests_on E D num K I" and K: "K \<inter> event_keys = {}"
  shows "keeps I (log_event E c)"
proof -
  have "keeps I (nb_events E)"
    using rests_on_env [OF R] by (simp add: keeps_def nb_events_run)
  moreover have "fst ` set [(key_for_event i, Put v), (EVENT_COUNT_ROOT, Put w)] \<inter> K = {}" for i v w
    using K by auto
  ultimately show ?thesis unfolding log_event_def
    by (intro keeps_bnd keeps_andthen keeps_gets keeps_encode frame_intro [OF R] frame_apply [OF R])
qed

lemma frame_next:
  assumes R: "rests_on E D num K I" and K: "K \<inter> counter_keys E = {}"
  shows "keeps I (get_next_subresource E root)"
proof (rule keeps_get_next_subresource [OF rests_on_env(3) [OF R]])
  fix s i b v
  assume "I s"
  then show "I (applied E [(key_for_subresource_counter E i b, v)] s)"
    using K by (intro rests_on_applied [OF R]) auto
qed

section \<open>Transfers\<close>

lemma frame_account_count:
  assumes R: "rests_on E D num K I" and K: "DATA_ATTRIBUTES_KEY \<notin> K"
  shows "keeps I (update_account_count E frm to amount x)"
proof -
  have "keeps I (data_attributes E)"
    unfolding data_attributes_def
    by (intro keeps_bnd keeps_db_get keeps_option keeps_ret keeps_lift)
  then show ?thesis
    unfolding update_account_count_def Let_def
    by (intro keeps_bnd keeps_option keeps_ret keeps_lift keeps_db_get
        pure_act_keeps [OF pure_get_balance] frame_apply [OF R]) (use K in simp_all)
qed

lemma frame_send_keys:
  assumes R: "rests_on E D num K I" and K: "K \<inter> event_keys = {}" "DATA_ATTRIBUTES_KEY \<notin> K"
    "key_for_account_balance E frm x \<notin> K" "key_for_account_balance E to x \<notin> K"
  shows "keeps I (send E frm to x amount m)"
proof -
  have "fst ` set (if c then [(key_for_account_balance E frm x, p), (key_for_account_balance E to x, q)]
      else [(key_for_account_balance E to x, q), (key_for_account_balance E frm x, p)]) \<inter> K = {}" for c p q
    using K(3,4) by auto
  then show ?thesis unfolding send_def Let_def
    by (intro keeps_if keeps_throw keeps_bnd keeps_andthen pure_act_keeps [OF pure_get_balance]
        frame_account_count [OF R K(2)] frame_apply [OF R] frame_log [OF R K(1)] frame_intro [OF R])
qed

lemma frame_send:
  assumes R: "rests_on E D num K I" and K: "K \<inter> event_keys = {}" "K \<inter> balance_keys E = {}"
    "DATA_ATTRIBUTES_KEY \<notin> K"
  shows "keeps I (send E frm to x amount m)"
  by (rule frame_send_keys [OF R K(1,3)]) (use K(2) in auto)

section \<open>Accounts\<close>

lemma frame_commit_account:
  assumes R: "rests_on E D num K I" and K: "key_for_account E i \<notin> K"
  shows "keeps I (commit_account E i a)"
  unfolding commit_account_def
  by (intro keeps_bnd keeps_andthen keeps_encode frame_intro [OF R] frame_apply [OF R]) (use K in simp)

lemma frame_stores:
  assumes R: "rests_on E D num K I" and K: "K \<inter> event_keys = {}" "K \<inter> account_keys E = {}"
  shows "keeps I (store_description E a d)" "keeps I (store_add_roles E a r)"
    "keeps I (store_remove_roles E a r)" "keeps I (store_add_features E a f)" "keeps I (disable_account E i)"
    "keeps I (set_multisig_defaults E sender args)"
proof -
  have c: "keeps I (commit_account E i a)" for i a
    using K(2) by (intro frame_commit_account [OF R]) auto
  have even: "keeps I (get_account_even_disabled E i)" and ex: "keeps I (existing_account E j)" for j
    by (simp_all add: keeps_def get_account_even_disabled_pure existing_account_pure)
  note rules = keeps_bnd keeps_andthen keeps_lift keeps_if keeps_throw keeps_ret c
    frame_log [OF R K(1)] frame_intro [OF R]
  show "keeps I (store_description E a d)" "keeps I (store_add_roles E a r)"
    "keeps I (store_remove_roles E a r)" "keeps I (store_add_features E a f)" "keeps I (disable_account E i)"
    unfolding store_description_def store_add_roles_def store_remove_roles_def store_add_features_def
      disable_account_def Let_def
    by (intro rules even)+
  show "keeps I (set_multisig_defaults E sender args)"
    unfolding set_multisig_defaults_def by (intro rules ex keeps_sum)
qed

lemma frame_add_account:
  assumes R: "rests_on E D num K I"
    and K: "K \<inter> event_keys = {}" "K \<inter> account_keys E = {}" "K \<inter> counter_keys E = {}"
  shows "keeps I (add_account E a)"
proof -
  have c: "keeps I (commit_account E i a)" for i a
    using K(2) by (intro frame_commit_account [OF R]) auto
  show ?thesis
    unfolding add_account_def add_account_raw_def Let_def
    by (intro keeps_bnd keeps_andthen keeps_whenever keeps_ret c frame_log [OF R K(1)]
        frame_next [OF R K(3)])
qed

section \<open>Tokens\<close>

text \<open>What follows a step may use what the step returned, and where.\<close>

lemma keeps_bnd_result:
  assumes "keeps I m" and "\<And>s x t. I s \<Longrightarrow> m s = (Inr x, t) \<Longrightarrow> keeps I (f x)"
  shows "keeps I (bnd m f)"
  unfolding keeps_def
proof (intro allI impI)
  fix s assume s: "I s"
  obtain r t where r: "m s = (r, t)" by (cases "m s")
  then have t: "I t" using keepsD [OF assms(1) s] by blast
  show "I (snd (bnd m f s))"
  proof (cases r)
    case (Inl e)
    with r t show ?thesis by (simp add: run)
  next
    case (Inr x)
    with r t keeps_snd [OF assms(2) [OF s] t, of x t] show ?thesis by (simp add: run)
  qed
qed
lemma frame_update_symbols:
  "rests_on E D num K I \<Longrightarrow> SYMBOLS_ROOT \<notin> K \<Longrightarrow> keeps I (update_symbols E x tick)"
  unfolding update_symbols_def
  by (intro keeps_bnd keeps_encode pure_act_keeps [OF pure_symbols_and_tickers] frame_apply)
    (auto simp: symbols_key)

lemma frame_update_token:
  assumes R: "rests_on E D num K I" and K: "K \<inter> event_keys = {}" "key_for_symbol E (tu_symbol args) \<notin> K"
    "SYMBOLS_ROOT \<notin> K"
  shows "keeps I (update_token E args)"
  unfolding update_token_def update_ticker_def
  by (intro keeps_bnd keeps_db_get keeps_option keeps_throw keeps_lift keeps_andthen keeps_encode keeps_if
      keeps_ret frame_intro [OF R] frame_log [OF R K(1)] frame_update_symbols [OF R K(3)]
      pure_act_keeps [OF pure_symbols_and_tickers] frame_apply [OF R]) (use K(2) in auto)

lemma frame_ext_info:
  assumes R: "rests_on E D num K I" and K: "K \<inter> event_keys = {}"
  shows "key_for_ext_info E (ta_symbol a) \<notin> K \<Longrightarrow> keeps I (store_add_extended_info E a)"
    and "key_for_ext_info E (tr_symbol r) \<notin> K \<Longrightarrow> keeps I (store_remove_extended_info E r)"
proof -
  note rules = keeps_bnd keeps_db_get keeps_option keeps_throw keeps_lift keeps_andthen keeps_encode
    keeps_if keeps_fold_act keeps_decode keeps_ret frame_intro [OF R] frame_log [OF R K] frame_apply [OF R]
  show "key_for_ext_info E (ta_symbol a) \<notin> K \<Longrightarrow> keeps I (store_add_extended_info E a)"
    unfolding store_add_extended_info_def split_def by (intro rules) auto
  show "key_for_ext_info E (tr_symbol r) \<notin> K \<Longrightarrow> keeps I (store_remove_extended_info E r)"
    unfolding store_remove_extended_info_def remove_index_def by (intro rules) auto
qed

lemma create_token_at:
  assumes R: "rests_on E D num K I" and K: "K \<inter> event_keys = {}" "SYMBOLS_ROOT \<notin> K"
    and s: "I (snd (get_next_subresource E TOKEN_IDENTITY_ROOT s))"
    and x: "\<And>x t. get_next_subresource E TOKEN_IDENTITY_ROOT s = (Inr x, t) \<Longrightarrow>
      key_for_symbol E x \<notin> K \<and> key_for_ext_info E x \<notin> K \<and> (\<forall>a. key_for_account_balance E a x \<notin> K)"
  shows "I (snd (create_token E sender args s))"
proof -
  obtain r t where next': "get_next_subresource E TOKEN_IDENTITY_ROOT s = (r, t)" by fastforce
  let ?rest = "\<lambda>x. andthen (update_symbols E x (ticker (tc_summary args)))
     (bnd (encode (c_token_info E) (created_info sender args x)) (\<lambda>i.
      bnd (encode (c_ext_info E) (case tc_extended_info args of None \<Rightarrow> ext_info_default E | Some e \<Rightarrow> e)) (\<lambda>e.
      andthen (log_event E (EvTokenCreate (tc_summary args) x (tc_owner args) (tc_distribution args)
         (tc_maximum args) (tc_extended_info args) (tc_memo args)))
      (andthen (db_apply E apply_failed (sort_key fst (distribution_batch E x
            (case tc_distribution args of None \<Rightarrow> [] | Some d \<Rightarrow> d)
          @ [(key_for_symbol E x, Put i), (key_for_ext_info E x, Put e)])))
      (andthen (maybe_commit E) (ret (created_info sender args x)))))))"
  have run: "create_token E sender args s = (case r of Inl e \<Rightarrow> (Inl e, t) | Inr x \<Rightarrow> ?rest x t)"
    using next' by (simp add: create_token_def Let_def bnd_run split: sum.split)
  show ?thesis
  proof (cases r)
    case (Inl e)
    with run next' s show ?thesis by simp
  next
    case (Inr y)
    from x [OF next' [unfolded Inr]] have "fst ` set (sort_key fst (distribution_batch E y d @
        [(key_for_symbol E y, p), (key_for_ext_info E y, q)])) \<inter> K = {}" for d p q
      by (auto simp: distribution_batch_def)
    then have "keeps I (?rest y)"
      by (intro keeps_bnd keeps_andthen keeps_encode keeps_ret
          frame_update_symbols [OF R K(2)] frame_log [OF R K(1)] frame_apply [OF R] frame_intro [OF R])
    from keeps_snd [OF this] s next' run Inr show ?thesis by simp
  qed
qed

lemma frame_create_token_keys:
  assumes R: "rests_on E D num K I" and nx: "keeps I (get_next_subresource E TOKEN_IDENTITY_ROOT)"
    and K: "K \<inter> event_keys = {}" "SYMBOLS_ROOT \<notin> K"
    and x: "\<And>s x t. I s \<Longrightarrow> get_next_subresource E TOKEN_IDENTITY_ROOT s = (Inr x, t) \<Longrightarrow>
      key_for_symbol E x \<notin> K \<and> key_for_ext_info E x \<notin> K \<and> (\<forall>a. key_for_account_balance E a x \<notin> K)"
  shows "keeps I (create_token E sender args)"
  unfolding keeps_def
proof (intro allI impI)
  fix s assume s: "I s"
  show "I (snd (create_token E sender args s))"
    by (rule create_token_at [OF R K keeps_snd [OF nx s] x [OF s]])
qed

text \<open>A request on tokens is a change of a token behind checks.\<close>

lemma keeps_token_request:
  assumes "\<And>args. keeps I (create_token E sender args)" and "\<And>args. keeps I (update_token E args)"
    and "\<And>args. keeps I (store_add_extended_info E args)" and "\<And>args. keeps I (store_remove_extended_info E args)"
  shows "keeps I (run_token E sender req)"
proof (cases req)
  case (TokenCreate args)
  show ?thesis unfolding TokenCreate run_token.simps tokens_create_def
    by (intro keeps_bnd [where m = "andthen a b" for a b] keeps_andthen_guarded pure_needs_migration
        pure_bnd pure_token_identity pure_lift keeps_ret keeps_bnd keeps_if keeps_throw
        pure_act_keeps [OF pure_symbols_and_tickers] assms(1))
      (auto intro: pure_verify_acl pure_ret split: option.split sum.split)
qed (simp_all only: run_token.simps tokens_update_def tokens_add_extended_info_def tokens_remove_extended_info_def,
    (intro keeps_andthen_guarded pure_needs_migration pure_verify_token_owner keeps_bnd keeps_if keeps_throw
      pure_act_keeps [OF pure_get_symbols] assms)+)

lemma frame_token_request:
  assumes R: "rests_on E D num K I" and nx: "keeps I (get_next_subresource E TOKEN_IDENTITY_ROOT)"
    and K: "K \<inter> event_keys = {}" "K \<inter> all_token_keys E = {}" "K \<inter> balance_keys E = {}" "SYMBOLS_ROOT \<notin> K"
  shows "keeps I (run_token E sender req)"
proof -
  have keys: "key_for_symbol E x \<notin> K" "key_for_ext_info E x \<notin> K" "key_for_account_balance E a x \<notin> K" for a x
    using K(2,3) by auto
  show ?thesis
    by (intro keeps_token_request frame_create_token_keys [OF R nx K(1,4)] conjI allI keys
        frame_update_token [OF R K(1) keys(1) K(4)] frame_ext_info [OF R K(1) keys(2)])
qed

section \<open>Minting and burning\<close>

text \<open>Only the steps of a distribution put entries in the batch, each for a balance.\<close>

lemma fold_act_acc:
  assumes "\<And>acc x r t s. P acc \<Longrightarrow> f acc x s = (Inr r, t) \<Longrightarrow> P r"
    and "P acc" and "fold_act xs f acc s = (Inr r, t)"
  shows "P r"
  using assms
proof (induction xs arbitrary: acc s)
  case Nil
  then show ?case by (simp add: ret_ok)
next
  case (Cons x xs)
  from Cons.prems(3) obtain q u where q: "f acc x s = (Inr q, u)" and rest: "fold_act xs f q u = (Inr r, t)"
    by (auto simp only: fold_act.simps bnd_ok)
  have "P q" using Cons.prems(1) [OF Cons.prems(2) q] .
  with Cons.IH [of q u] Cons.prems(1) rest show ?case by blast
qed

lemma mint_step_keys:
  assumes "fst ` set (fst acc) \<subseteq> A" and "\<And>a. key_for_account_balance E a x \<in> A"
    and ok: "mint_step E x cs acc p s = (Inr r, t)"
  shows "fst ` set (fst r) \<subseteq> A"
proof -
  obtain b c a v where p: "acc = (b, c)" "p = (a, v)" by (cases acc; cases p)
  from ok have "\<exists>w. fst r = b @ [(key_for_account_balance E a x, w)]"
    unfolding p mint_step_def Let_def prod.case
    by (cases "v = 0") (auto simp only: simp_thms if_True if_False throw_run prod.inject sum.distinct andthen_ok bnd_ok ret_ok fst_conv sum.inject)
  with assms(1,2) p show ?thesis by (auto simp: image_subset_iff)
qed

lemma burn_step_keys:
  assumes "fst ` set (fst acc) \<subseteq> A" and "\<And>a. key_for_account_balance E a x \<in> A"
    and ok: "burn_step E x acc p s = (Inr r, t)"
  shows "fst ` set (fst r) \<subseteq> A"
proof -
  obtain b c a v where p: "acc = (b, c)" "p = (a, v)" by (cases acc; cases p)
  from ok have "\<exists>w. fst r = b @ [(key_for_account_balance E a x, w)]"
    unfolding p burn_step_def Let_def prod.case
    by (cases "v = 0") (auto simp only: simp_thms if_True if_False throw_run prod.inject sum.distinct andthen_ok bnd_ok ret_ok fst_conv sum.inject)
  with assms(1,2) p show ?thesis by (auto simp: image_subset_iff)
qed

lemma frame_mint_burn:
  assumes R: "rests_on E D num K I"
    and K: "\<And>a. key_for_account_balance E a x \<notin> K" "key_for_symbol E x \<notin> K"
  shows "keeps I (mint_token E x d)" and "keeps I (burn_token E x d)"
proof -
  let ?A = "- K"
  have tail: "keeps I (andthen (db_apply E apply_failed (b @ [(key_for_symbol E x, Put v)])) (maybe_commit E))"
    if "fst ` set b \<subseteq> ?A" for b v
    using that K by (intro keeps_andthen frame_apply [OF R] frame_intro [OF R]) auto
  have mf: "fst ` set (fst r) \<subseteq> ?A"
    if "fold_act d (mint_step E x cs) ([], 0) s = (Inr r, t)" for cs s r t
    using _ _ that by (rule fold_act_acc [where P = "\<lambda>acc. fst ` set (fst acc) \<subseteq> ?A"])
      (use mint_step_keys [of _ ?A E x cs] K in auto)
  have bf: "fst ` set (fst r) \<subseteq> ?A"
    if "fold_act d (burn_step E x) ([], 0) s = (Inr r, t)" for s r t
    using _ _ that by (rule fold_act_acc [where P = "\<lambda>acc. fst ` set (fst acc) \<subseteq> ?A"])
      (use burn_step_keys [of _ ?A E x] K in auto)
  note info = pure_act_keeps [OF pure_info_token]
  show "keeps I (mint_token E x d)"
    unfolding mint_token_def split_def Let_def
    by (intro keeps_bnd [OF pure_act_keeps [OF pure_token_supply]] keeps_bnd_result [OF pure_act_keeps [OF mint_fold_pure]]
        keeps_bnd [OF info] keeps_bnd [OF keeps_encode] tail mf)
  show "keeps I (burn_token E x d)"
    unfolding burn_token_def split_def Let_def
    by (intro keeps_bnd_result [OF pure_act_keeps [OF burn_fold_pure]]
        keeps_bnd [OF info] keeps_bnd [OF keeps_lift] keeps_bnd [OF keeps_encode] tail bf)
qed

lemma pure_mint_burn_allowed: "pure_act (mint_burn_allowed E m sender x)"
  unfolding mint_burn_allowed_def andthen_def
  by (intro pure_bnd pure_needs_migration pure_token_identity pure_lift pure_get_symbols)

text \<open>Requests to mint and burn, when the change of balances and the log entry keep the property.\<close>

lemma keeps_mint:
  assumes "keeps I (mint_token E (mi_symbol args) (mi_distribution args))" and "\<And>c. keeps I (log_event E c)"
  shows "keeps I (mint E sender args)"
  unfolding mint_def
  by (intro keeps_andthen pure_act_keeps [OF pure_mint_burn_allowed] assms)

lemma keeps_burn:
  assumes "keeps I (burn_token E (bu_symbol args) (bu_distribution args))" and "\<And>c. keeps I (log_event E c)"
  shows "keeps I (burn E sender args)"
  unfolding burn_def
  by (intro keeps_andthen keeps_unless keeps_ret pure_act_keeps [OF pure_mint_burn_allowed] assms)

section \<open>The identity store\<close>

lemma frame_inc_seed:
  assumes R: "rests_on E D num K I" and K: "IDSTORE_SEED_ROOT \<notin> K"
  shows "keeps I (inc_idstore_seed E)"
  unfolding inc_idstore_seed_def
  by (intro keeps_bnd keeps_db_get keeps_option keeps_ret keeps_lift keeps_andthen frame_apply [OF R]
      frame_intro [OF R]) (use K in simp)

lemma keeps_find:
  assumes "keeps I (inc_idstore_seed E)"
  shows "keeps I (find_phrase E n)"
proof (induction n)
  case 0
  then show ?case by (simp add: keeps_throw)
next
  case (Suc n)
  then show ?case
    by (auto intro!: keeps_bnd keeps_lift assms keeps_attempt keeps_sum keeps_ret
        pure_act_keeps [OF pure_recall])
qed

lemma frame_idstore:
  assumes R: "rests_on E D num K I" and K: "K \<inter> idstore_keys = {}"
  shows "keeps I (idstore_store E sender address cid pk)"
proof -
  have inc: "keeps I (inc_idstore_seed E)"
    using K by (intro frame_inc_seed [OF R]) auto
  have "fst ` set [(idstore_key SepRecallPhrase p, v), (idstore_key SepAddress q, w)] \<inter> K = {}" for p q v w
    using K by auto
  then have "keeps I (store_credential E phrase address cid pk)" for phrase
    unfolding store_credential_def
    by (intro keeps_bnd keeps_lift keeps_db_get keeps_if keeps_throw keeps_encode keeps_andthen
        frame_apply [OF R] frame_intro [OF R])
  then show ?thesis unfolding idstore_store_def
    by (intro keeps_if keeps_throw keeps_andthen keeps_lift keeps_bnd keeps_ret keeps_find inc)
qed

section \<open>Blocks\<close>

lemma frame_begin_block:
  assumes R: "rests_on E D num K I"
  shows "keeps I (begin_block E time)"
proof -
  have "keeps I (get_height E)"
    using rests_on_env [OF R] by (simp add: keeps_def get_height_run)
  then show ?thesis unfolding begin_block_def
    by (intro keeps_bnd keeps_option keeps_ret keeps_lift frame_intro [OF R])
qed

text \<open>Expiry writes multisig entries only; the disk keeps what it had, or takes what the tree has.\<close>

lemma expiry_disk:
  fixes E :: "('m, 'v, 'g) env" and s :: "('m, 'g) ledger"
  assumes E: "store_ok E" "disk_ok E D"
  defines "t \<equiv> snd (check_timed_out_multisig_transactions E s)"
  shows "D (persistent_store t) = D (persistent_store s) \<or> D (persistent_store t) = view E t"
proof -
  have db: "D (persistent_store (snd (db_apply E f b u))) = D (persistent_store u)" for f b and u :: "('m, 'g) ledger"
    using db_apply_run [OF E(1), of b f u] db_apply_bad [OF E(1), of b f u] E(2)
    by (cases "batch_ok b") auto
  have mc: "snd (maybe_commit E u) = maybe_committed E u" for u :: "('m, 'g) ledger"
    by (simp add: maybe_commit_run E(1))
  have upd: "D (persistent_store (maybe_committed E u)) = D (persistent_store u) \<or>
      D (persistent_store (maybe_committed E u)) = view E (maybe_committed E u)" for u :: "('m, 'g) ledger"
    using E by (simp add: maybe_committed_def)
  show ?thesis
  proof (cases "expire_loop E (now E s) (all_multisig E (persistent_store s) Descending)")
    case (Inl e)
    then show ?thesis by (simp add: t_def check_timed_out_multisig_transactions_def run)
  next
    case (Inr b)
    show ?thesis
    proof (cases "b = []")
      case True
      with Inr upd [of s] mc [of s] show ?thesis
        by (simp add: t_def check_timed_out_multisig_transactions_def run)
    next
      case False
      obtain r u where u: "db_apply E apply_failed (rev b) s = (r, u)" by fastforce
      with db [of apply_failed "rev b" s] have "D (persistent_store u) = D (persistent_store s)" by simp
      with u Inr False upd [of u] mc [of u] show ?thesis
        by (cases r) (auto simp: t_def check_timed_out_multisig_transactions_def run)
    qed
  qed
qed

text \<open>What expiry puts: for an entry of the disk that was open, that entry as expired.\<close>

definition expired_put :: "('m, 'v, 'g) env \<Rightarrow> 'v \<Rightarrow> 'v store_op \<Rightarrow> bool" where
  "expired_put E v p \<longleftrightarrow> (\<exists>x. dec (c_multisig E) v = Inr x \<and> \<not> ms_disabled x \<and>
     p = Put (enc_val (c_multisig E) (disable_storage Expired x)))"

lemma expire_loop_puts:
  assumes E: "env_ok E"
  shows "expire_loop E t (map Inr ps) = Inr b \<Longrightarrow> (k, p) \<in> set b \<Longrightarrow> \<exists>v. (k, v) \<in> set ps \<and> expired_put E v p"
proof (induction ps arbitrary: b)
  case Nil
  then show ?case by simp
next
  case (Cons q ps)
  from Cons.prems(1) obtain r where r: "expire_step E t q = Inr r"
    by (auto simp: okD)
  show ?case
  proof (cases r)
    case None
    with Cons.prems r show ?thesis by simp
  next
    case (Some w)
    show ?thesis
    proof (cases w)
      case None
      with Cons.prems r Some have "expire_loop E t (map Inr ps) = Inr b" by simp
      from Cons.IH [OF this Cons.prems(2)] show ?thesis by auto
    next
      case (Some u)
      with Cons.prems(1) r \<open>r = Some w\<close> obtain c where c: "expire_loop E t (map Inr ps) = Inr c" "b = u # c"
        by (auto simp: okD)
      show ?thesis
      proof (cases "u = (k, p)")
        case True
        have "expire_step E t q = Inr (Some (Some (k, p)))"
          using r \<open>r = Some w\<close> Some True by simp
        then have "fst q = k" and "expired_put E (snd q) p"
          using E by (auto simp: expire_step_def expired_put_def okD split: if_splits sum.splits)
        then show ?thesis by (cases q) auto
      next
        case False
        with c Cons.prems(2) have "(k, p) \<in> set c" by auto
        from Cons.IH [OF c(1) this] show ?thesis by auto
      qed
    qed
  qed
qed

lemma expiry_view:
  fixes E :: "('m, 'v, 'g) env" and s :: "('m, 'g) ledger"
  assumes E: "env_ok E" "disk_ok E D"
  defines "t \<equiv> snd (check_timed_out_multisig_transactions E s)"
  shows "view E t k = view E s k \<or> (k \<in> multisig_keys \<and>
    (\<exists>v x. D (persistent_store s) k = Some v \<and> dec (c_multisig E) v = Inr x \<and> \<not> ms_disabled x \<and>
       view E t k = Some (enc_val (c_multisig E) (disable_storage Expired x))))"
proof -
  have st: "store_ok E" using E(1) by simp
  from E(2) obtain es where
      l: "listing (D (persistent_store s)) (\<lambda>k. take (length MULTISIG_TRANSACTIONS_ROOT) k = MULTISIG_TRANSACTIONS_ROOT) es"
    and it: "merk_iter_prefix E (persistent_store s) MULTISIG_TRANSACTIONS_ROOT True = map Inr (rev es)"
    unfolding disk_ok_def by blast
  have desc: "sorted_wrt (>) (map fst (rev es))"
    using l by (simp add: listing_def rev_map [symmetric] sorted_wrt_rev)
  show ?thesis
  proof (cases "expire_loop E (now E s) (map Inr (rev es))")
    case (Inl e)
    then show ?thesis
      by (simp add: t_def check_timed_out_multisig_transactions_def run all_multisig_def from_end_def it)
  next
    case (Inr b)
    have ok: "batch_ok (rev b)"
      using expire_loop_keys [OF Inr desc] by (simp add: batch_ok_def rev_map [symmetric] sorted_wrt_rev)
    with Inr st have v: "view E t k = apply_batch (rev b) (view E s) k"
      by (simp add: t_def check_timed_out_multisig_transactions_def run all_multisig_def from_end_def it)
    show ?thesis
    proof (cases "k \<in> fst ` set b")
      case False
      then show ?thesis by (simp add: v apply_batch_other)
    next
      case True
      then obtain p where p: "(k, p) \<in> set b" by auto
      from expire_loop_puts [OF E(1) Inr p] obtain w where w: "(k, w) \<in> set es" "expired_put E w p" by auto
      have "distinct (map fst (rev b))" using ok by (simp add: batch_ok_def strict_sorted_iff)
      from apply_batch_in [OF this, of k p] p have "view E t k = op_value p" by (simp add: v)
      with w l show ?thesis by (auto simp: expired_put_def listing_def multisig_keys_def)
    qed
  qed
qed

lemma frame_expiry:
  assumes R: "rests_on E D num K I" and K: "K \<inter> multisig_keys = {}" and s: "I s"
  shows "I (snd (check_timed_out_multisig_transactions E s))"
proof -
  note fr = expiry_frame [OF rests_on_env(3,2) [OF R]]
  have v: "view E (snd (check_timed_out_multisig_transactions E s)) k = view E s k" if "k \<in> K" for k
    using that K by (intro fr(1)) (auto simp: multisig_keys_def)
  show ?thesis
    by (rule rests_onD [OF R s])
      (use fr(2,3) v expiry_disk [OF rests_on_env(3,2) [OF R], of s] in auto)
qed

definition no_migration :: "('m, 'v, 'g) env \<Rightarrow> 'g \<Rightarrow> u64 \<Rightarrow> bool" where
  \<comment> \<open>no migration starts at the height \<open>h\<close>\<close>
  "no_migration E g h \<longleftrightarrow> (\<forall>m. migration_update E g m h = (Inr (), g, m))"

lemma commit_block_state:
  fixes s :: "('m, 'g) ledger"
  assumes E: "store_ok E" "disk_ok E D" and ok: "commit_block E s = (Inr i, t)"
    and h: "counter_at E s HEIGHT_ROOT = Inr h" and nm: "no_migration E (migrations s) (h + 1)"
  shows "t = (committed E (height_raised E h (snd (check_timed_out_multisig_transactions E s))))
    \<lparr>current_hash := Some (app_hash i), latest_tid := event_id_from E (push_bit HEIGHT_EVENTID_SHIFT h)\<rparr>"
proof -
  let ?u = "snd (check_timed_out_multisig_transactions E s)"
  have root: "take (length MULTISIG_TRANSACTIONS_ROOT) HEIGHT_ROOT \<noteq> MULTISIG_TRANSACTIONS_ROOT"
    by (simp add: HEIGHT_ROOT_def MULTISIG_TRANSACTIONS_ROOT_def)
  have hu: "counter_at E ?u HEIGHT_ROOT = Inr h" and g: "migrations ?u = migrations s"
    using h expiry_frame [OF E] root by (simp_all add: counter_at_def)
  obtain x where x: "attempt (check_timed_out_multisig_transactions E) s = (Inr x, ?u)"
    using expiry_attempt [OF E(1)] by blast
  have inc: "inc_height E ?u = (Inr h, applied E [(HEIGHT_ROOT, Put (of_bytes E (u64_be (h + 1))))] ?u)"
    using E(1) hu by (simp add: inc_height_def run)
  let ?w = "height_raised E h ?u"
  have "update_migrations E (h + 1) ?w = (Inr (), ?w)"
    using nm g by (simp add: update_migrations_def no_migration_def height_raised_def)
  with ok x inc E(1) show ?thesis
    by (auto simp: commit_block_def run height_raised_def)
qed

lemma frame_commit_block:
  assumes R: "rests_on E D num K I" and K: "HEIGHT_ROOT \<notin> K"
    and ok: "commit_block E s = (Inr i, t)" and h: "counter_at E s HEIGHT_ROOT = Inr h"
    and nm: "no_migration E (migrations s) (h + 1)"
    and num: "num \<Longrightarrow> be_nat (latest_tid s) \<le> be_nat (latest_tid t)"
    and u: "I (snd (check_timed_out_multisig_transactions E s))"
  shows "I t"
proof -
  let ?u = "snd (check_timed_out_multisig_transactions E s)"
  have E: "store_ok E" "disk_ok E D" using rests_on_env [OF R] by simp_all
  have t: "t = (committed E (height_raised E h ?u))
      \<lparr>current_hash := Some (app_hash i), latest_tid := event_id_from E (push_bit HEIGHT_EVENTID_SHIFT h)\<rparr>"
    by (rule commit_block_state [OF E ok h nm])
  have g: "migrations t = migrations ?u" by (simp add: t height_raised_def)
  have v: "view E t k = view E ?u k" if "k \<noteq> HEIGHT_ROOT" for k
    using that E(1) by (simp add: t height_raised_def)
  have d: "D (persistent_store t) = view E t"
    using E by (simp add: t)
  have vK: "view E t k = view E ?u k" if "k \<in> K" for k
    using that K by (intro v) auto
  show ?thesis
    by (rule rests_onD [OF R u g]) (use vK d num expiry_frame(2) [OF E, of s] in auto)
qed

end
