(* ===== verification/Execution.thy ===== *)
theory Execution
  imports Frames
begin

text \<open>
  What the execution of multisig transactions keeps. An execution runs transfers, account and
  multisig operations, and other executions, to any depth. The interface \<open>ledger_part\<close> lists
  what a property of the state must survive, operation by operation; its clients show that it
  then survives every execution and every request of the multisig module.
\<close>

section \<open>Transactions that were decoded\<close>

text \<open>A role map is a \<open>BTreeMap\<close> in the code, so its keys are distinct, in a stored transaction too.\<close>

primrec tx_ok :: "multisig_tx \<Rightarrow> bool" and submit_ok :: "submit_args \<Rightarrow> bool" where
  "tx_ok (TxSend args) = True"
| "tx_ok (TxAccountCreate args) = True"
| "tx_ok (TxAccountDisable i) = True"
| "tx_ok (TxAccountSetDescription args) = True"
| "tx_ok (TxAccountAddRoles args) = True"
| "tx_ok (TxAccountRemoveRoles args) = bt_ok (ro_roles args)"
| "tx_ok (TxAccountAddFeatures args) = True"
| "tx_ok (TxMultisigSubmit arg) = submit_ok arg"
| "tx_ok (TxMultisigSetDefaults arg) = True"
| "tx_ok (TxMultisigApprove tok) = True"
| "tx_ok (TxMultisigRevoke tok) = True"
| "tx_ok (TxMultisigExecute tok) = True"
| "tx_ok (TxMultisigWithdraw tok) = True"
| "tx_ok (TxOther n) = True"
| "submit_ok (SubmitArgs a m tx th tm au d mm) = tx_ok tx"

lemma submit_ok_transaction [simp]: "tx_ok (su_transaction arg) = submit_ok arg"
  by (cases arg) simp

text \<open>Every entry, in the tree or on the disk, holds such a transaction.\<close>

definition txs_ok :: "('m, 'v, 'g) env \<Rightarrow> ('m \<Rightarrow> bytes \<rightharpoonup> 'v) \<Rightarrow> ('m, 'g) ledger \<Rightarrow> bool" where
  "txs_ok E D s \<longleftrightarrow> (\<forall>k \<in> multisig_keys. \<forall>v x.
     view E s k = Some v \<or> D (persistent_store s) k = Some v \<longrightarrow> dec (c_multisig E) v = Inr x \<longrightarrow>
     tx_ok (transaction (ms_info x)))"

lemma txs_ok_rests:
  fixes E :: "('m, 'v, 'g) env"
  assumes "env_ok E" and "disk_ok E D"
  shows "rests_on E D False multisig_keys (txs_ok E D)"
  unfolding rests_on_def
proof (intro conjI allI impI assms)
  fix s t :: "('m, 'g) ledger"
  assume s: "txs_ok E D s" and v: "\<forall>k \<in> multisig_keys. view E t k = view E s k"
    and d: "\<forall>k \<in> multisig_keys. D (persistent_store t) k = D (persistent_store s) k \<or>
      D (persistent_store t) k = view E s k"
  show "txs_ok E D t"
    unfolding txs_ok_def
  proof (intro ballI allI impI)
    fix k w x
    assume k: "k \<in> multisig_keys" and w: "view E t k = Some w \<or> D (persistent_store t) k = Some w"
      and x: "dec (c_multisig E) w = Inr x"
    have "view E s k = Some w \<or> D (persistent_store s) k = Some w"
      using bspec [OF v k] bspec [OF d k] w by auto
    with s k x show "tx_ok (transaction (ms_info x))" unfolding txs_ok_def by blast
  qed
qed

lemma txs_ok_stored:
  "txs_ok E D s \<Longrightarrow> stored_multisig E s tok = Some x \<Longrightarrow> tx_ok (transaction (ms_info x))"
  unfolding txs_ok_def stored_multisig_def
  by (auto split: option.splits sum.splits)

lemma txs_ok_put:
  assumes E: "env_ok E" "disk_ok E D" and s: "txs_ok E D s" and y: "tx_ok (transaction (ms_info y))"
  shows "txs_ok E D (applied E [(k, Put (enc_val (c_multisig E) y))] s)"
  using assms by (auto simp: txs_ok_def)

section \<open>The interface\<close>

text \<open>An open entry may be rewritten, and a new one made under the next event number.\<close>

definition entries_keep :: "('m, 'v, 'g) env \<Rightarrow> (('m, 'g) ledger \<Rightarrow> bool) \<Rightarrow> bool" where
  "entries_keep E I \<longleftrightarrow>
     (\<forall>s tok x v. I s \<longrightarrow> stored_multisig E s tok = Some x \<longrightarrow> \<not> ms_disabled x \<longrightarrow>
        I (applied E [(key_for_multisig_transaction tok, Put v)] s)) \<and>
     (\<forall>s v. I s \<longrightarrow> (let i = event_id_add E (latest_tid s) 1 in
        I (applied E [(key_for_multisig_transaction i, Put v)] (s\<lparr>latest_tid := i\<rparr>))))"

locale ledger_part =
  fixes ok :: "('m, 'v, 'g) env \<Rightarrow> ('m \<Rightarrow> bytes \<rightharpoonup> 'v) \<Rightarrow> bool"
    and I :: "('m, 'v, 'g) env \<Rightarrow> ('m \<Rightarrow> bytes \<rightharpoonup> 'v) \<Rightarrow> ('m, 'g) ledger \<Rightarrow> bool"
  assumes env: "ok E D \<Longrightarrow> env_ok E \<and> disk_ok E D"
    and log: "ok E D \<Longrightarrow> keeps (I E D) (log_event E c)"
    and new_id: "ok E D \<Longrightarrow> keeps (I E D) (new_event_id E)"
    and flush: "ok E D \<Longrightarrow> keeps (I E D) (maybe_commit E)"
    and sends: "ok E D \<Longrightarrow> keeps (I E D) (send E frm to x amount m)"
    and creates: "ok E D \<Longrightarrow> keeps (I E D) (add_account E a)"
    and stores: "ok E D \<Longrightarrow> I E D s \<Longrightarrow> stored_account E s i = Some a \<Longrightarrow> enabled a \<Longrightarrow>
      stores_keep E (I E D) i a s"
    and defaults: "ok E D \<Longrightarrow> keeps (I E D) (set_multisig_defaults E sender args)"
    and entries: "ok E D \<Longrightarrow> entries_keep E (I E D)"
begin

text \<open>The property together with well-formed transactions; every law holds for it as well.\<close>

definition J :: "('m, 'v, 'g) env \<Rightarrow> ('m \<Rightarrow> bytes \<rightharpoonup> 'v) \<Rightarrow> ('m, 'g) ledger \<Rightarrow> bool" where
  "J E D s \<longleftrightarrow> I E D s \<and> txs_ok E D s"

lemma J_part: "J E D s \<Longrightarrow> I E D s" "J E D s \<Longrightarrow> txs_ok E D s"
  by (simp_all add: J_def)

lemma txs_rests: "ok E D \<Longrightarrow> rests_on E D False multisig_keys (txs_ok E D)"
  using env [of E D] by (intro txs_ok_rests) auto

lemma J_keeps: "keeps (I E D) m \<Longrightarrow> keeps (txs_ok E D) m \<Longrightarrow> keeps (J E D) m"
  by (simp add: keeps_def J_def)

lemma J_log: "ok E D \<Longrightarrow> keeps (J E D) (log_event E c)"
  by (intro J_keeps log frame_log [OF txs_rests]) simp_all

lemma J_flush: "ok E D \<Longrightarrow> keeps (J E D) (maybe_commit E)"
  by (intro J_keeps flush frame_maybe [OF txs_rests])

lemma J_new_id: "ok E D \<Longrightarrow> keeps (J E D) (new_event_id E)"
  by (intro J_keeps new_id frame_new_event_id [OF txs_rests])

lemma J_send: "ok E D \<Longrightarrow> keeps (J E D) (send E frm to x amount m)"
  by (intro J_keeps sends frame_send [OF txs_rests]) simp_all

lemma J_create: "ok E D \<Longrightarrow> keeps (J E D) (add_account E a)"
  by (intro J_keeps creates frame_add_account [OF txs_rests]) simp_all

lemma J_defaults: "ok E D \<Longrightarrow> keeps (J E D) (set_multisig_defaults E sender args)"
  by (intro J_keeps defaults frame_stores [OF txs_rests]) simp_all

lemma J_stores:
  assumes "ok E D" and "J E D s" and "stored_account E s i = Some a" and "enabled a"
  shows "stores_keep E (J E D) i a s"
proof -
  note st = frame_stores [OF txs_rests [OF assms(1)] families_apart(7,8)]
  have "stores_keep E (I E D) i a s"
    using assms stores J_part by blast
  moreover have "stores_keep E (txs_ok E D) i a s"
    by (intro stores_keepI st keeps_snd [OF st(5)] J_part(2) [OF assms(2)])
  ultimately show ?thesis by (simp add: stores_keep_def J_def)
qed

lemma J_entry:
  assumes "ok E D" and "J E D s" and "stored_multisig E s tok = Some x" and "\<not> ms_disabled x"
    and "transaction (ms_info y) = transaction (ms_info x)"
  shows "J E D (applied E [(key_for_multisig_transaction tok, Put (enc_val (c_multisig E) y))] s)"
proof -
  have "tx_ok (transaction (ms_info y))"
    using assms(5) txs_ok_stored [OF J_part(2) [OF assms(2)] assms(3)] by simp
  moreover have "I E D (applied E [(key_for_multisig_transaction tok, Put v)] s)" for v
    using entries [OF assms(1)] J_part(1) [OF assms(2)] assms(3,4) unfolding entries_keep_def by blast
  ultimately show ?thesis
    using env [OF assms(1)] J_part(2) [OF assms(2)] by (simp add: J_def txs_ok_put)
qed

lemma J_new:
  assumes "ok E D" and "J E D s" and "tx_ok (transaction (ms_info y))"
  shows "J E D (applied E [(key_for_multisig_transaction (event_id_add E (latest_tid s) 1),
    Put (enc_val (c_multisig E) y))] (s\<lparr>latest_tid := event_id_add E (latest_tid s) 1\<rparr>))"
proof -
  have "I E D (applied E [(key_for_multisig_transaction (event_id_add E (latest_tid s) 1), Put v)]
      (s\<lparr>latest_tid := event_id_add E (latest_tid s) 1\<rparr>))" for v
    using entries [OF assms(1)] J_part(1) [OF assms(2)] unfolding entries_keep_def Let_def by blast
  moreover have "txs_ok E D (s\<lparr>latest_tid := event_id_add E (latest_tid s) 1\<rparr>)"
    using J_part(2) [OF assms(2)] by (simp add: txs_ok_def)
  ultimately show ?thesis
    using env [OF assms(1)] assms(3) by (simp add: J_def txs_ok_put)
qed

end

section \<open>Well-formed requests\<close>

fun multisig_request_ok :: "multisig_request \<Rightarrow> bool" where
  "multisig_request_ok (MultisigSubmit arg) = submit_ok arg"
| "multisig_request_ok _ = True"

section \<open>Entries\<close>

context ledger_part
begin

lemma ok_env:
  assumes "ok E D"
  shows "env_ok E" "disk_ok E D" "store_ok E"
  using env [OF assms] by auto

text \<open>Writing an open entry, and going on.\<close>

lemma commit_open_entry:
  assumes ok: "ok E D" and s: "J E D s" and x: "stored_multisig E s tok = Some x" "\<not> ms_disabled x"
    and y: "transaction (ms_info y) = transaction (ms_info x)"
  shows "J E D (snd (commit_multisig_transaction E tok y s))"
  using keeps_snd [OF J_flush [OF ok] J_entry [OF ok s x y]] ok_env [OF ok]
  by (simp add: commit_multisig_state maybe_commit_run)

lemma commit_entry_then:
  assumes ok: "ok E D" and s: "J E D s" and x: "stored_multisig E s tok = Some x" "\<not> ms_disabled x"
    and y: "transaction (ms_info y) = transaction (ms_info x)" and m: "keeps (J E D) m"
  shows "J E D (snd (andthen (commit_multisig_transaction E tok y) m s))"
proof -
  have "snd (andthen (commit_multisig_transaction E tok y) m s) =
      snd (m (snd (commit_multisig_transaction E tok y s)))"
    by (simp add: commit_multisig_state [OF ok_env(1) [OF ok]] run)
  with keeps_snd [OF m commit_open_entry [OF ok s x y]] show ?thesis by simp
qed

lemma keeps_disable_entry:
  assumes ok: "ok E D"
  shows "keeps (J E D) (disable_multisig_transaction E tok st)"
  unfolding disable_multisig_transaction_def
proof (rule keeps_guarded [OF pure_get_multisig_info])
  fix s x
  assume "get_multisig_info E tok s = (Inr x, s)" and s: "J E D s"
  then have x: "stored_multisig E s tok = Some x"
    using get_multisig_info_ok [of E tok s x s] ok_env [OF ok] by simp
  have "transaction (ms_info (disable_storage st x)) = transaction (ms_info x)"
    by (simp add: disable_storage_def)
  with commit_open_entry [OF ok s x] s
  show "J E D (snd ((if ms_disabled x then raise (MultisigError TransactionExpiredOrWithdrawn)
     else commit_multisig_transaction E tok (disable_storage st x)) s))"
    by (simp add: run)
qed

text \<open>An action on an open entry, which holds a well-formed transaction.\<close>

lemma keeps_on_open:
  assumes ok: "ok E D"
    and f: "\<And>s x a. J E D s \<Longrightarrow> stored_multisig E s tok = Some x \<Longrightarrow> \<not> ms_disabled x \<Longrightarrow>
      tx_ok (transaction (ms_info x)) \<Longrightarrow> J E D (snd (f (x, a) s))"
  shows "keeps (J E D) (bnd (open_multisig E tok) f)"
proof (rule keeps_guarded [OF pure_open_multisig])
  fix s p
  assume op: "open_multisig E tok s = (Inr p, s)" and s: "J E D s"
  obtain x a where p: "p = (x, a)" by (cases p)
  from op p have x: "stored_multisig E s tok = Some x" "\<not> ms_disabled x"
    using open_multisig_ok [of E tok s x a s] ok_env [OF ok] by simp_all
  with f [OF s x txs_ok_stored [OF J_part(2) [OF s] x(1)]] p show "J E D (snd (f p s))" by simp
qed

lemma keeps_internal:
  assumes ok: "ok E D" and ex: "keeps (J E D) (exec x)"
  shows "keeps (J E D) (execute_internal E exec tok x b)"
  unfolding execute_internal_def Let_def
  by (intro keeps_bnd keeps_andthen keeps_attempt ex keeps_disable_entry [OF ok] keeps_gets keeps_ret
      keeps_block_hotfix) (rule ok_env [OF ok])

lemma keeps_approve:
  assumes ok: "ok E D" and ex: "\<And>x. tx_ok (transaction (ms_info x)) \<Longrightarrow> keeps (J E D) (exec x)"
  shows "keeps (J E D) (approve_with E exec sender tok)"
  unfolding approve_with_def
proof (rule keeps_on_open [OF ok])
  fix s x a
  assume s: "J E D s" and x: "stored_multisig E s tok = Some x" "\<not> ms_disabled x"
    and tx: "tx_ok (transaction (ms_info x))"
  let ?x = "set_approval sender True x"
  have same: "transaction (ms_info ?x) = transaction (ms_info x)" by (simp add: set_approval_def)
  have "keeps (J E D) (andthen (log_event E (EvMultisigApprove (ms_account ?x) tok sender))
       (if execute_automatically (ms_info ?x) \<and> should_execute ?x
        then bnd (execute_internal E exec tok ?x True) (\<lambda>response.
          andthen (log_event E (EvMultisigExecute (ms_account ?x) tok None response)) (ret True))
        else ret False))"
    using tx same by (intro keeps_bnd keeps_andthen keeps_if keeps_ret keeps_internal [OF ok, of exec] ex J_log [OF ok]) simp
  from commit_entry_then [OF ok s x same this] s
  show "J E D (snd ((case (x, a) of (x, a) \<Rightarrow>
     if \<not> has_role E a sender CanMultisigApprove \<and> \<not> has_role E a sender CanMultisigSubmit
        \<and> \<not> has_role E a sender Owner
     then raise (MultisigError UserCannotApproveTransaction)
     else let x' = set_approval sender True x in
       andthen (commit_multisig_transaction E tok x')
       (andthen (log_event E (EvMultisigApprove (ms_account x') tok sender))
       (if execute_automatically (ms_info x') \<and> should_execute x'
        then bnd (execute_internal E exec tok x' True) (\<lambda>response.
          andthen (log_event E (EvMultisigExecute (ms_account x') tok None response)) (ret True))
        else ret False))) s))"
    by (simp add: Let_def run del: andthen_run)
qed

lemma keeps_revoke:
  assumes ok: "ok E D"
  shows "keeps (J E D) (revoke_multisig E sender tok)"
  unfolding revoke_multisig_def
proof (rule keeps_on_open [OF ok])
  fix s x a
  assume s: "J E D s" and x: "stored_multisig E s tok = Some x" "\<not> ms_disabled x"
  have same: "transaction (ms_info (set_approval sender False x)) = transaction (ms_info x)"
    by (simp add: set_approval_def)
  have "keeps (J E D) (andthen (log_event E (EvMultisigRevoke (ms_account x) tok sender)) (ret False))"
    by (intro keeps_andthen keeps_ret J_log [OF ok])
  from commit_entry_then [OF ok s x same this] s
  show "J E D (snd ((case (x, a) of (x, a) \<Rightarrow>
     if map_of (approvers (ms_info x)) sender \<noteq> None
        \<or> has_role E a sender CanMultisigSubmit \<or> has_role E a sender CanMultisigApprove
        \<or> has_role E a sender Owner
     then andthen (commit_multisig_transaction E tok (set_approval sender False x))
       (andthen (log_event E (EvMultisigRevoke (ms_account x) tok sender)) (ret False))
     else raise (MultisigError UserCannotApproveTransaction)) s))"
    by (simp add: throw_run)
qed

lemma keeps_execute:
  assumes ok: "ok E D" and ex: "\<And>x. tx_ok (transaction (ms_info x)) \<Longrightarrow> keeps (J E D) (exec x)"
  shows "keeps (J E D) (execute_with E exec sender tok)"
  unfolding execute_with_def
proof (rule keeps_on_open [OF ok])
  fix s a and x :: multisig_storage
  assume s: "J E D s" and tx: "tx_ok (transaction (ms_info x))"
  have "keeps (J E D) (if \<not> (has_role E a sender Owner \<or> submitter (ms_info x) = sender)
     then raise (MultisigError CannotExecuteTransaction)
     else if should_execute x then
       bnd (execute_internal E exec tok x False) (\<lambda>response.
       andthen (log_event E (EvMultisigExecute (ms_account x) tok (Some sender) response))
         (ret response))
     else raise (MultisigError CannotExecuteTransaction))"
    by (intro keeps_bnd keeps_andthen keeps_if keeps_throw keeps_ret keeps_internal [where exec = exec and x = x, OF ok ex [OF tx]]
        J_log [OF ok])
  from keeps_snd [OF this s] show "J E D (snd ((case (x, a) of (x, a) \<Rightarrow>
     if \<not> (has_role E a sender Owner \<or> submitter (ms_info x) = sender)
     then raise (MultisigError CannotExecuteTransaction)
     else if should_execute x then
       bnd (execute_internal E exec tok x False) (\<lambda>response.
       andthen (log_event E (EvMultisigExecute (ms_account x) tok (Some sender) response))
         (ret response))
     else raise (MultisigError CannotExecuteTransaction)) s))" by simp
qed

lemma keeps_withdraw:
  assumes ok: "ok E D"
  shows "keeps (J E D) (withdraw_multisig E sender tok)"
  unfolding withdraw_multisig_def split_def
  by (intro keeps_bnd keeps_if keeps_throw keeps_andthen keeps_disable_entry [OF ok] J_log [OF ok]
      pure_act_keeps [OF pure_open_multisig])

text \<open>
  Submission: the checks run after the event number was taken, in a state that is then known,
  and the entry is written in that state.
\<close>

lemma keeps_create_entry:
  assumes ok: "ok E D" and arg: "submit_ok arg"
  shows "keeps (J E D) (create_multisig_transaction E sender arg)"
  unfolding keeps_def
proof (intro allI impI)
  fix s assume s: "J E D s"
  let ?i = "event_id_add E (latest_tid s) 1"
  let ?s = "s\<lparr>latest_tid := ?i\<rparr>"
  define P where "P = (\<lambda>t. t = ?s)"
  have PI: "J E D t" if "P t" for t
    using keeps_snd [OF J_new_id [OF ok] s] that by (simp add: P_def new_event_id_run)
  have fin: "leads P (andthen (commit_multisig_transaction E ?i x)
        (andthen (log_event E ev) (ret ?i))) (J E D)" if x: "tx_ok (transaction (ms_info x))" for x ev
    unfolding leads_def P_def
  proof (intro allI impI)
    fix t assume t: "t = ?s"
    have "J E D (maybe_committed E (applied E [(key_for_multisig_transaction ?i,
        Put (enc_val (c_multisig E) x))] ?s))"
      using keeps_snd [OF J_flush [OF ok] J_new [OF ok s x]] ok_env [OF ok]
      by (simp add: maybe_commit_run)
    then have "J E D (snd (commit_multisig_transaction E ?i x ?s))"
      by (simp add: commit_multisig_state [OF ok_env(1) [OF ok]])
    moreover have "keeps (J E D) (andthen (log_event E ev) (ret ?i))"
      by (intro keeps_andthen keeps_ret J_log [OF ok])
    ultimately show "J E D (snd (andthen (commit_multisig_transaction E ?i x)
        (andthen (log_event E ev) (ret ?i)) t))"
      unfolding t andthen_run [of "commit_multisig_transaction E ?i x"]
        commit_multisig_state [OF ok_env(1) [OF ok]]
      by (simp add: keeps_snd)
  qed
  have "leads P (submitted_with E sender arg ?i) (J E D)"
    unfolding submitted_with_def Let_def
    by (intro leads_bnd leads_andthen PI pure_existing_account pure_lift pure_gets fin) (simp_all add: arg)
  then show "J E D (snd (create_multisig_transaction E sender arg s))"
    unfolding leads_def P_def create_multisig_transaction_def
    by (simp add: bnd_run [of "new_event_id E"] new_event_id_run)
qed

section \<open>Executions and requests\<close>

lemma keeps_owned:
  assumes ok: "ok E D"
    and f: "\<And>s a. J E D s \<Longrightarrow> stored_account E s i = Some a \<Longrightarrow> enabled a \<Longrightarrow> J E D (snd (f a s))"
  shows "keeps (J E D) (with_owned E sender i f)"
  unfolding with_owned_def
proof (rule keeps_existing [OF ok_env(3) [OF ok]])
  fix a s
  assume s: "J E D s" and a: "stored_account E s i = Some a" "enabled a"
  show "J E D (snd (andthen (lift (from_many (needs_role E a sender [Owner]))) (f a) s))"
    using s f [OF s a] by (cases "needs_role E a sender [Owner]") (simp_all add: run)
qed

lemma keeps_stores:
  assumes ok: "ok E D"
  shows "keeps (J E D) (with_owned E sender i (\<lambda>_. disable_account E i))"
    and "keeps (J E D) (with_owned E sender (de_account d) (\<lambda>a. store_description E a d))"
    and "keeps (J E D) (with_owned E sender (ro_account r) (\<lambda>a. store_add_roles E a r))"
    and "bt_ok (ro_roles r) \<Longrightarrow> keeps (J E D) (with_owned E sender (ro_account r) (\<lambda>a. store_remove_roles E a r))"
    and "keeps (J E D) (with_owned E sender (fe_account f) (\<lambda>a. store_add_features E a f))"
  using J_stores [OF ok] unfolding stores_keep_def by (blast intro: keeps_owned [OF ok])+

lemma keeps_body:
  assumes ok: "ok E D" and ex: "\<And>x. tx_ok (transaction (ms_info x)) \<Longrightarrow> keeps (J E D) (exec x)"
    and tx: "tx_ok tx"
  shows "keeps (J E D) (execute_body E exec sender tx)"
proof -
  note rules = keeps_returning keeps_bnd keeps_andthen keeps_lift keeps_throw keeps_existing_pure
    J_send [OF ok] J_create [OF ok] keeps_stores [OF ok] keeps_create_entry [OF ok] J_defaults [OF ok]
    keeps_approve [OF ok ex] keeps_revoke [OF ok] keeps_execute [OF ok ex] keeps_withdraw [OF ok]
  show ?thesis using tx
    by (cases "(E, exec, sender, tx)" rule: execute_body.cases) (auto simp: Let_def intro!: rules)
qed

lemma keeps_execution:
  assumes ok: "ok E D"
  shows "tx_ok (transaction (ms_info x)) \<Longrightarrow> keeps (J E D) (execute_tx E n x)"
proof (induction n arbitrary: x)
  case 0
  then show ?case by (simp add: keeps_throw)
next
  case (Suc n)
  then show ?case by (simp add: keeps_body [OF ok])
qed

lemma keeps_multisig_request:
  assumes ok: "ok E D" and req: "multisig_request_ok req"
  shows "keeps (J E D) (run_multisig E n sender req)"
proof -
  note rules = keeps_bnd keeps_ret keeps_create_entry [OF ok] J_defaults [OF ok]
    keeps_approve [OF ok keeps_execution [OF ok]] keeps_revoke [OF ok]
    keeps_execute [OF ok keeps_execution [OF ok]] keeps_withdraw [OF ok]
  show ?thesis using req
    by (cases req) (auto simp: multisig_submit_transaction_def approve_multisig_def execute_multisig_def
        intro!: rules)
qed

end

end
