(* ===== verification/Server.thy ===== *)
theory Server
  imports Execution
begin

text \<open>
  The ledger as one system: every state-changing endpoint of every module, in any order, by any
  sender and with any outcome, and the blocks between them (\<open>main.rs\<close> puts the modules over one
  storage). The interface \<open>server_part\<close> extends \<open>ledger_part\<close> by the modules that multisig
  transactions cannot reach and by blocks; a property that meets it holds in every state the
  server reaches. It is interpreted on the promises of the components: accounts own
  themselves, a disabled account stays, tickers are unique, closed entries stay closed, recall
  phrases keep their credential, the supply is what the holders hold.
\<close>

section \<open>Requests and blocks\<close>

datatype server_request =
    ReqSend send_args
  | ReqAccount account_request
  | ReqToken token_request
  | ReqMint mint_args
  | ReqBurn burn_args
  | ReqMultisig multisig_request
  | ReqStore address bytes bytes

text \<open>\<open>n\<close> is the depth allowed to nested executions.\<close>

fun run_request :: "('m, 'v, 'g) env \<Rightarrow> nat \<Rightarrow> address \<Rightarrow> server_request \<Rightarrow> ('m, 'g, unit) ledger_op" where
  "run_request E n sender (ReqSend args) = ledger_send E sender args"
| "run_request E n sender (ReqAccount req) = run_account E sender req"
| "run_request E n sender (ReqToken req) = run_token E sender req"
| "run_request E n sender (ReqMint args) = mint E sender args"
| "run_request E n sender (ReqBurn args) = bnd (burn E sender args) (\<lambda>_. ret ())"
| "run_request E n sender (ReqMultisig req) = run_multisig E n sender req"
| "run_request E n sender (ReqStore address cid pk) = bnd (idstore_store E sender address cid pk) (\<lambda>_. ret ())"

text \<open>Role maps are \<open>BTreeMap\<close>s in requests, too.\<close>

fun well_formed :: "server_request \<Rightarrow> bool" where
  "well_formed (ReqAccount req) = request_ok req"
| "well_formed (ReqMultisig req) = multisig_request_ok req"
| "well_formed _ = True"

text \<open>
  \<open>P\<close> restricts the requests considered, \<open>C\<close> the commits. A commit is a block at whose height
  no migration starts; what migrations do is the subject of \<open>Migrations\<close>.
\<close>

inductive server_steps :: "('m, 'v, 'g) env \<Rightarrow> (server_request \<Rightarrow> bool) \<Rightarrow>
    (('m, 'g) ledger \<Rightarrow> ('m, 'g) ledger \<Rightarrow> bool) \<Rightarrow> ('m, 'g) ledger \<Rightarrow> ('m, 'g) ledger \<Rightarrow> bool"
  for E P C s where
  start: "server_steps E P C s s"
| request: "server_steps E P C s t \<Longrightarrow> well_formed req \<Longrightarrow> P req \<Longrightarrow>
    run_request E n sender req t = (r, u) \<Longrightarrow> server_steps E P C s u"
| begins: "server_steps E P C s t \<Longrightarrow> begin_block E time t = (r, u) \<Longrightarrow> server_steps E P C s u"
| commit: "server_steps E P C s t \<Longrightarrow> commit_block E t = (Inr i, u) \<Longrightarrow>
    counter_at E t HEIGHT_ROOT = Inr h \<Longrightarrow> no_migration E (migrations t) (h + 1) \<Longrightarrow> C t u \<Longrightarrow>
    server_steps E P C s u"

inductive_cases server_steps_cases: "server_steps E P C s t"

lemma server_steps_one:
  assumes "well_formed req" and "P req"
  shows "server_steps E P C s (snd (run_request E n sender req s))"
  by (rule server_steps.request [where P = P and n = n and sender = sender, OF server_steps.start assms])
    (rule surjective_pairing)

text \<open>Fewer requests and fewer commits make fewer runs.\<close>

lemma server_steps_mono:
  assumes "server_steps E P C s t" and "\<And>req. P req \<Longrightarrow> P' req"
    and "\<And>u v i h. C u v \<Longrightarrow> commit_block E u = (Inr i, v) \<Longrightarrow> counter_at E u HEIGHT_ROOT = Inr h \<Longrightarrow> C' u v"
  shows "server_steps E P' C' s t"
  using assms(1)
proof (induction rule: server_steps.induct)
  case start
  show ?case by (rule server_steps.start)
next
  case (request t req n sender r u)
  from request.IH request.hyps(2) assms(2) [OF request.hyps(3)] request.hyps(4) show ?case
    by (rule server_steps.request)
next
  case (begins t time r u)
  from begins.IH begins.hyps(2) show ?case by (rule server_steps.begins)
next
  case (commit t i u h)
  from commit.IH commit.hyps(2-4) assms(3) [OF commit.hyps(5,2,3)] show ?case
    by (rule server_steps.commit)
qed

section \<open>The interface\<close>

locale server_part = ledger_part +
  fixes P :: "('a, 'b, 'c) env \<Rightarrow> server_request \<Rightarrow> bool"
    and C :: "('a, 'c) ledger \<Rightarrow> ('a, 'c) ledger \<Rightarrow> bool"
  assumes tokens: "ok E D \<Longrightarrow> P E (ReqToken treq) \<Longrightarrow> keeps (I E D) (run_token E sender treq)"
    and mints: "ok E D \<Longrightarrow> P E (ReqMint margs) \<Longrightarrow> keeps (I E D) (mint E sender margs)"
    and burns: "ok E D \<Longrightarrow> P E (ReqBurn bargs) \<Longrightarrow> keeps (I E D) (burn E sender bargs)"
    and credentials: "ok E D \<Longrightarrow> keeps (I E D) (idstore_store E sender address cid pk)"
    and blocks: "ok E D \<Longrightarrow> keeps (I E D) (begin_block E time)"
    and commits: "ok E D \<Longrightarrow> I E D s \<Longrightarrow> C s t \<Longrightarrow> commit_block E s = (Inr i, t) \<Longrightarrow>
      counter_at E s HEIGHT_ROOT = Inr h \<Longrightarrow> no_migration E (migrations s) (h + 1) \<Longrightarrow> I E D t"
begin

lemma keeps_accounts:
  assumes ok: "ok E D" and req: "request_ok areq"
  shows "keeps (J E D) (run_account E sender areq)"
  by (rule keeps_account_request [OF ok_env(3) [OF ok] J_create [OF ok] _ req]) (rule J_stores [OF ok])

lemma keeps_ledger_send:
  assumes ok: "ok E D"
  shows "keeps (J E D) (ledger_send E sender args)"
  unfolding ledger_send_def Let_def
  by (intro keeps_if keeps_throw keeps_andthen keeps_whenever keeps_bnd keeps_option keeps_lift
      pure_act_keeps [OF pure_get_account] J_send [OF ok])

lemma keeps_request:
  assumes ok: "ok E D" and wf: "well_formed req" and P: "P E req"
  shows "keeps (J E D) (run_request E n sender req)"
proof -
  note T = txs_rests [OF ok]
  note log = frame_log [OF T families_apart(7)]
  show ?thesis
  proof (cases req)
    case (ReqSend args)
    then show ?thesis by (simp add: keeps_ledger_send [OF ok])
  next
    case (ReqAccount areq)
    with wf show ?thesis by (simp add: keeps_accounts [OF ok])
  next
    case (ReqToken treq)
    with P have "keeps (I E D) (run_token E sender treq)" by (simp add: tokens [OF ok])
    moreover have "keeps (txs_ok E D) (run_token E sender treq)"
      by (intro frame_token_request [OF T] frame_next [OF T]) simp_all
    ultimately show ?thesis using ReqToken by (simp add: J_keeps)
  next
    case (ReqMint args)
    with P have "keeps (I E D) (mint E sender args)" by (simp add: mints [OF ok])
    moreover have "keeps (txs_ok E D) (mint E sender args)"
      by (intro keeps_mint log frame_mint_burn [OF T] roots_apart)
    ultimately show ?thesis using ReqMint by (simp add: J_keeps)
  next
    case (ReqBurn args)
    with P have "keeps (I E D) (burn E sender args)" by (simp add: burns [OF ok])
    moreover have "keeps (txs_ok E D) (burn E sender args)"
      by (intro keeps_burn log frame_mint_burn [OF T] roots_apart)
    ultimately show ?thesis using ReqBurn by (simp add: J_keeps keeps_bnd keeps_ret)
  next
    case (ReqMultisig mreq)
    with wf show ?thesis by (simp add: keeps_multisig_request [OF ok])
  next
    case (ReqStore address cid pk)
    have "keeps (J E D) (idstore_store E sender address cid pk)"
      by (intro J_keeps credentials [OF ok] frame_idstore [OF T]) simp
    then show ?thesis using ReqStore by (simp add: keeps_bnd keeps_ret)
  qed
qed

lemma txs_expiry:
  assumes ok: "ok E D" and s: "txs_ok E D s"
  shows "txs_ok E D (snd (check_timed_out_multisig_transactions E s))"
  unfolding txs_ok_def
proof (intro ballI allI impI)
  fix k v x
  let ?t = "snd (check_timed_out_multisig_transactions E s)"
  assume k: "k \<in> multisig_keys" and v: "view E ?t k = Some v \<or> D (persistent_store ?t) k = Some v"
    and x: "dec (c_multisig E) v = Inr x"
  have old: "tx_ok (transaction (ms_info y))"
    if "view E s k = Some w \<or> D (persistent_store s) k = Some w" and "dec (c_multisig E) w = Inr y" for w y
    using s k that unfolding txs_ok_def by blast
  have "view E ?t k = Some v \<or> D (persistent_store s) k = Some v"
    using v expiry_disk [OF ok_env(3,2) [OF ok], of s] by auto
  then show "tx_ok (transaction (ms_info x))"
  proof
    assume "D (persistent_store s) k = Some v"
    then show ?thesis using old x by blast
  next
    assume w: "view E ?t k = Some v"
    from expiry_view [OF ok_env(1,2) [OF ok], of s k] show ?thesis
    proof (elim disjE conjE exE)
      assume "view E ?t k = view E s k"
      with w have "view E s k = Some v" by simp
      then show ?thesis using old [OF disjI1 x] by blast
    next
      fix u y
      assume "D (persistent_store s) k = Some u" and y: "dec (c_multisig E) u = Inr y"
        and "view E ?t k = Some (enc_val (c_multisig E) (disable_storage Expired y))"
      with w x ok_env(1) [OF ok] have "x = disable_storage Expired y" by auto
      then have "transaction (ms_info x) = transaction (ms_info y)" by (simp add: disable_storage_def)
      with old [OF disjI2 y] \<open>D (persistent_store s) k = Some u\<close> show ?thesis by simp
    qed
  qed
qed

lemma keeps_commit:
  assumes ok: "ok E D" and s: "J E D s" and "C s t" and "commit_block E s = (Inr i, t)"
    and "counter_at E s HEIGHT_ROOT = Inr h" and "no_migration E (migrations s) (h + 1)"
  shows "J E D t"
proof -
  have "I E D t" by (rule commits [OF ok J_part(1) [OF s] assms(3-6)])
  moreover have "txs_ok E D t"
    by (rule frame_commit_block [OF txs_rests [OF ok] roots_apart(6) assms(4-6)])
      (simp_all add: txs_expiry [OF ok J_part(2) [OF s]])
  ultimately show ?thesis by (simp add: J_def)
qed

lemma reachable:
  assumes "server_steps E (P E) C s t" and ok: "ok E D" and s: "J E D s"
  shows "J E D t"
  using assms(1)
proof (induction rule: server_steps.induct)
  case start
  show ?case by (rule s)
next
  case (request t req n sender r u)
  show ?case
    by (rule keepsD [OF keeps_request [OF ok request.hyps(2,3)] request.IH request.hyps(4)])
next
  case (begins t time r u)
  have "keeps (J E D) (begin_block E time)"
    by (intro J_keeps blocks [OF ok] frame_begin_block [OF txs_rests [OF ok]])
  then show ?case using begins.IH begins.hyps(2) by (rule keepsD)
next
  case (commit t i u h)
  show ?case by (rule keeps_commit [OF ok commit.IH commit.hyps(5,2,3,4)])
qed

end

end
