(* ===== verification/ServerProps.thy ===== *)
theory ServerProps
  imports Server
begin

text \<open>
  The promises of the components, for the whole server: the interpretations of \<open>server_part\<close>
  on the model's own invariants, and the properties that follow.
\<close>

section \<open>Meeting the interface\<close>

text \<open>
  What a property has to survive from the operations on accounts and from those on tokens, and
  from a commit, when it rests on what they write.
\<close>

definition account_laws :: "('m, 'v, 'g) env \<Rightarrow> (('m, 'g) ledger \<Rightarrow> bool) \<Rightarrow> bool" where
  "account_laws E I \<longleftrightarrow> (\<forall>a. keeps I (add_account E a)) \<and>
     (\<forall>s i a. I s \<longrightarrow> stored_account E s i = Some a \<longrightarrow> enabled a \<longrightarrow> stores_keep E I i a s) \<and>
     (\<forall>sender args. keeps I (set_multisig_defaults E sender args))"

definition token_laws :: "('m, 'v, 'g) env \<Rightarrow> (server_request \<Rightarrow> bool) \<Rightarrow> (('m, 'g) ledger \<Rightarrow> bool) \<Rightarrow> bool" where
  "token_laws E P I \<longleftrightarrow> (\<forall>sender req. P (ReqToken req) \<longrightarrow> keeps I (run_token E sender req)) \<and>
     (\<forall>sender args. P (ReqMint args) \<longrightarrow> keeps I (mint E sender args)) \<and>
     (\<forall>sender args. P (ReqBurn args) \<longrightarrow> keeps I (burn E sender args))"

definition commit_law :: "('m, 'v, 'g) env \<Rightarrow> (('m, 'g) ledger \<Rightarrow> ('m, 'g) ledger \<Rightarrow> bool) \<Rightarrow>
    (('m, 'g) ledger \<Rightarrow> bool) \<Rightarrow> bool" where
  "commit_law E C I \<longleftrightarrow> (\<forall>s t i h. I s \<longrightarrow> C s t \<longrightarrow> commit_block E s = (Inr i, t) \<longrightarrow>
     counter_at E s HEIGHT_ROOT = Inr h \<longrightarrow> no_migration E (migrations s) (h + 1) \<longrightarrow> I t)"

lemma entries_keep_frame:
  assumes R: "rests_on E D num K I" and K: "K \<inter> multisig_keys = {}"
  shows "entries_keep E I"
  unfolding entries_keep_def Let_def
proof (intro conjI allI impI)
  fix s tok v
  assume s: "I s"
  show "I (applied E [(key_for_multisig_transaction tok, Put v)] s)"
    using K by (intro rests_on_applied [OF R _ _ s]) auto
next
  fix s v
  assume s: "I s"
  have "I (s\<lparr>latest_tid := event_id_add E (latest_tid s) 1\<rparr>)"
    using keeps_snd [OF frame_new_event_id [OF R] s] by (simp add: new_event_id_run)
  then show "I (applied E [(key_for_multisig_transaction (event_id_add E (latest_tid s) 1), Put v)]
      (s\<lparr>latest_tid := event_id_add E (latest_tid s) 1\<rparr>))"
    using K by (intro rests_on_applied [OF R]) auto
qed

lemma stores_keep_frame:
  assumes R: "rests_on E D num K I" and K: "K \<inter> event_keys = {}" "K \<inter> account_keys E = {}" and s: "I s"
  shows "stores_keep E I i a s"
  by (intro stores_keepI frame_stores(1-4) [OF R K] keeps_snd [OF frame_stores(5) [OF R K] s] s)

lemma frame_mint:
  assumes R: "rests_on E D num K I" and K: "K \<inter> event_keys = {}"
    and x: "\<And>a. key_for_account_balance E a (mi_symbol args) \<notin> K" "key_for_symbol E (mi_symbol args) \<notin> K"
  shows "keeps I (mint E sender args)"
  by (intro keeps_mint frame_mint_burn(1) [OF R x] frame_log [OF R K])

lemma frame_burn:
  assumes R: "rests_on E D num K I" and K: "K \<inter> event_keys = {}"
    and x: "\<And>a. key_for_account_balance E a (bu_symbol args) \<notin> K" "key_for_symbol E (bu_symbol args) \<notin> K"
  shows "keeps I (burn E sender args)"
  by (intro keeps_burn frame_mint_burn(2) [OF R x] frame_log [OF R K])

lemma frame_commit:
  assumes R: "rests_on E D False K I" and K: "HEIGHT_ROOT \<notin> K" "K \<inter> multisig_keys = {}"
    and s: "I s" and "commit_block E s = (Inr i, t)" and "counter_at E s HEIGHT_ROOT = Inr h"
    and "no_migration E (migrations s) (h + 1)"
  shows "I t"
  by (rule frame_commit_block [OF R K(1) assms(5-7) _ frame_expiry [OF R K(2) s]]) simp

lemma account_laws_frame:
  assumes R: "rests_on E D num K I" and ev: "K \<inter> event_keys = {}"
    and K: "K \<inter> account_keys E = {}" "K \<inter> counter_keys E = {}"
  shows "account_laws E I"
  unfolding account_laws_def
  by (intro conjI allI impI frame_add_account [OF R ev K] stores_keep_frame [OF R ev K(1)] frame_stores(6) [OF R ev K(1)])

lemma token_laws_frame:
  assumes R: "rests_on E D num K I" and ev: "K \<inter> event_keys = {}"
    and nx: "keeps I (get_next_subresource E TOKEN_IDENTITY_ROOT)"
    and K: "K \<inter> all_token_keys E = {}" "K \<inter> balance_keys E = {}" "SYMBOLS_ROOT \<notin> K"
  shows "token_laws E P I"
proof -
  have "key_for_account_balance E a x \<notin> K" "key_for_symbol E x \<notin> K" for a x
    using K(1,2) by auto
  then show ?thesis unfolding token_laws_def
    by (intro conjI allI impI frame_token_request [OF R nx ev K] frame_mint [OF R ev] frame_burn [OF R ev])
qed

text \<open>
  A property that rests on \<open>K\<close>, apart from the event log: for each part of the server, either
  \<open>K\<close> is apart from what the part writes, or the part keeps the property for its own reasons.
\<close>

lemma server_partI:
  fixes I :: "('m, 'v, 'g) env \<Rightarrow> ('m \<Rightarrow> bytes \<rightharpoonup> 'v) \<Rightarrow> ('m, 'g) ledger \<Rightarrow> bool"
  assumes R: "\<And>E D. ok E D \<Longrightarrow> rests_on E D num (K E) (I E D) \<and> K E \<inter> event_keys = {}"
    and send: "\<And>E D. ok E D \<Longrightarrow> K E \<inter> balance_keys E = {} \<and> DATA_ATTRIBUTES_KEY \<notin> K E \<or>
      (\<forall>frm to x amount m. keeps (I E D) (send E frm to x amount m))"
    and acc: "\<And>E D. ok E D \<Longrightarrow> K E \<inter> account_keys E = {} \<and> K E \<inter> counter_keys E = {} \<or>
      account_laws E (I E D)"
    and entry: "\<And>E D. ok E D \<Longrightarrow> K E \<inter> multisig_keys = {} \<or> entries_keep E (I E D)"
    and tok: "\<And>E D. ok E D \<Longrightarrow> (K E \<inter> counter_keys E = {} \<or>
      keeps (I E D) (get_next_subresource E TOKEN_IDENTITY_ROOT)) \<and> K E \<inter> all_token_keys E = {} \<and>
      K E \<inter> balance_keys E = {} \<and> SYMBOLS_ROOT \<notin> K E \<or> token_laws E (P E) (I E D)"
    and cred: "\<And>E D. ok E D \<Longrightarrow> K E \<inter> idstore_keys = {} \<or>
      (\<forall>sender a c pk. keeps (I E D) (idstore_store E sender a c pk))"
    and com: "\<And>E D. ok E D \<Longrightarrow> \<not> num \<and> HEIGHT_ROOT \<notin> K E \<and> K E \<inter> multisig_keys = {} \<or>
      commit_law E C (I E D)"
  shows "server_part ok I P C"
proof unfold_locales
  fix E :: "('m, 'v, 'g) env" and D
  assume ok: "ok E D"
  have r: "rests_on E D num (K E) (I E D)" and ev: "K E \<inter> event_keys = {}"
    using R [OF ok] by simp_all
  have acc': "account_laws E (I E D)" using acc [OF ok] account_laws_frame [OF r ev] by blast
  have tok': "token_laws E (P E) (I E D)" using tok [OF ok] token_laws_frame [OF r ev] frame_next [OF r] by blast
  have "commit_law E C (I E D)" if "\<not> num" "HEIGHT_ROOT \<notin> K E" "K E \<inter> multisig_keys = {}"
  proof -
    from r that(1) have "rests_on E D False (K E) (I E D)" by simp
    from frame_commit [OF this that(2,3)] show ?thesis unfolding commit_law_def by blast
  qed
  then have com': "commit_law E C (I E D)" using com [OF ok] by blast
  show "env_ok E \<and> disk_ok E D" using rests_on_env [OF r] by blast
  show "keeps (I E D) (log_event E c)" for c by (rule frame_log [OF r ev])
  show "keeps (I E D) (new_event_id E)" by (rule frame_new_event_id [OF r])
  show "keeps (I E D) (maybe_commit E)" by (rule frame_maybe [OF r])
  show "keeps (I E D) (begin_block E time)" for time by (rule frame_begin_block [OF r])
  show "keeps (I E D) (send E frm to x amount m)" for frm to x amount m
    using send [OF ok] frame_send [OF r ev] by blast
  show "keeps (I E D) (add_account E a)" "keeps (I E D) (set_multisig_defaults E sender args)" for a sender args
    using acc' unfolding account_laws_def by blast+
  show "stores_keep E (I E D) i a s" if "I E D s" "stored_account E s i = Some a" "enabled a" for s i a
    using acc' that unfolding account_laws_def by blast
  show "entries_keep E (I E D)" using entry [OF ok] entries_keep_frame [OF r] by blast
  show "keeps (I E D) (run_token E sender req)" if "P E (ReqToken req)" for sender req
    using tok' that unfolding token_laws_def by blast
  show "keeps (I E D) (mint E sender margs)" if "P E (ReqMint margs)" for sender margs
    using tok' that unfolding token_laws_def by blast
  show "keeps (I E D) (burn E sender bargs)" if "P E (ReqBurn bargs)" for sender bargs
    using tok' that unfolding token_laws_def by blast
  show "keeps (I E D) (idstore_store E sender address cid pk)" for sender address cid pk
    using cred [OF ok] frame_idstore [OF r] by blast
  show "I E D t" if "I E D s" "C s t" "commit_block E s = (Inr i, t)"
    "counter_at E s HEIGHT_ROOT = Inr h" "no_migration E (migrations s) (h + 1)" for s t i h
    using com' that unfolding commit_law_def by blast
qed

section \<open>Accounts own themselves\<close>

definition account_env :: "('m, 'v, 'g) env \<Rightarrow> ('m \<Rightarrow> bytes \<rightharpoonup> 'v) \<Rightarrow> bool" where
  "account_env E D \<longleftrightarrow> env_ok E \<and> disk_ok E D \<and> account_ok E"

lemma account_envD:
  "account_env E D \<Longrightarrow> env_ok E" "account_env E D \<Longrightarrow> disk_ok E D" "account_env E D \<Longrightarrow> account_ok E"
  by (simp_all add: account_env_def)

lemma self_owned_rests: "account_env E D \<Longrightarrow> rests_on E D False (account_keys E) (self_owned E)"
  by (auto simp: rests_on_def account_env_def self_owned_def account_keys_def)

lemma self_owned_defaults:
  assumes E: "env_ok E" "account_ok E"
  shows "keeps (self_owned E) (set_multisig_defaults E sender args)"
  unfolding set_multisig_defaults_def
proof (rule keeps_existing)
  fix a s
  assume s: "self_owned E s" and a: "stored_account E s (df_account args) = Some a"
  have "has_role E a (df_account args) Owner" using s a by (rule self_owned_stored)
  then have "keeps (self_owned E) (andthen (lift (from_many (needs_role E a sender [Owner])))
     (case get_multisig_feature E (features a) of
        Inl _ \<Rightarrow> ret ()
      | Inr m \<Rightarrow>
          andthen (log_event E (EvMultisigSetDefaults sender (df_account args) (df_threshold args)
             (map_option (\<lambda>t. min t MULTISIG_MAXIMUM_TIMEOUT_IN_SECS) (df_timeout_in_secs args))
             (df_execute_automatically args)))
          (commit_account E (df_account args) (a\<lparr>features := snd (insert_feature E
             (multisig_as_feature E (merge_defaults args m)) (features a))\<rparr>))))"
    using E by (intro keeps_andthen keeps_lift keeps_sum keeps_ret self_owned_commit) simp_all
  from keeps_snd [OF this s] show "self_owned E (snd (andthen (lift (from_many (needs_role E a sender [Owner])))
     (case get_multisig_feature E (features a) of
        Inl _ \<Rightarrow> ret ()
      | Inr m \<Rightarrow>
          andthen (log_event E (EvMultisigSetDefaults sender (df_account args) (df_threshold args)
             (map_option (\<lambda>t. min t MULTISIG_MAXIMUM_TIMEOUT_IN_SECS) (df_timeout_in_secs args))
             (df_execute_automatically args)))
          (commit_account E (df_account args) (a\<lparr>features := snd (insert_feature E
             (multisig_as_feature E (merge_defaults args m)) (features a))\<rparr>))) s))" .
qed (use E in simp)

lemma self_owned_laws:
  assumes E: "env_ok E" "account_ok E"
  shows "account_laws E (self_owned E)"
  unfolding account_laws_def add_account_def
  by (intro conjI allI impI self_owned_create [OF E] self_owned_stores [OF E] self_owned_defaults [OF E])

interpretation owned: server_part account_env "\<lambda>E D. self_owned E" "\<lambda>_ _. True" "\<lambda>_ _. True"
  by (rule server_partI [where K = account_keys and num = False])
    (simp_all add: self_owned_rests self_owned_laws account_envD)

section \<open>A disabled account stays as it is\<close>

definition disabled_env :: "account \<Rightarrow> ('m, 'v, 'g) env \<Rightarrow> ('m \<Rightarrow> bytes \<rightharpoonup> 'v) \<Rightarrow> bool" where
  "disabled_env a E D \<longleftrightarrow> account_env E D \<and> subresources_ok E \<and> \<not> enabled a"

definition still_stored :: "address \<Rightarrow> account \<Rightarrow> ('m, 'v, 'g) env \<Rightarrow> ('m, 'g) ledger \<Rightarrow> bool" where
  "still_stored i a E s \<longleftrightarrow> accounts_issued E s \<and> stored_account E s i = Some a"

definition issue_keys :: "('m, 'v, 'g) env \<Rightarrow> bytes set" where
  "issue_keys E = account_keys E \<union> counter_keys E \<union> {ACCOUNT_IDENTITY_ROOT, IDENTITY_ROOT}"

lemma issue_keys_apart:
  "issue_keys E \<inter> event_keys = {}" "issue_keys E \<inter> balance_keys E' = {}" "issue_keys E \<inter> all_token_keys E' = {}"
  "issue_keys E \<inter> idstore_keys = {}" "issue_keys E \<inter> multisig_keys = {}"
  "DATA_ATTRIBUTES_KEY \<notin> issue_keys E" "SYMBOLS_ROOT \<notin> issue_keys E" "HEIGHT_ROOT \<notin> issue_keys E"
proof -
  have "ACCOUNT_IDENTITY_ROOT \<noteq> DATA_ATTRIBUTES_KEY" "ACCOUNT_IDENTITY_ROOT \<noteq> HEIGHT_ROOT"
    by (simp_all add: root_defs)
  then show "issue_keys E \<inter> event_keys = {}" "issue_keys E \<inter> balance_keys E' = {}"
    "issue_keys E \<inter> all_token_keys E' = {}" "issue_keys E \<inter> idstore_keys = {}" "issue_keys E \<inter> multisig_keys = {}"
    "DATA_ATTRIBUTES_KEY \<notin> issue_keys E" "SYMBOLS_ROOT \<notin> issue_keys E" "HEIGHT_ROOT \<notin> issue_keys E"
    by (auto simp: issue_keys_def family_defs multisig_key_prefix)
qed

lemma still_stored_rests:
  fixes E :: "('m, 'v, 'g) env"
  assumes "env_ok E" and "disk_ok E D"
  shows "rests_on E D False (issue_keys E) (still_stored i a E)"
proof -
  have A: "accounts_issued E t" if s: "accounts_issued E s" and m: "migrations t = migrations s"
    and v: "\<forall>k \<in> issue_keys E. view E t k = view E s k" for s t :: "('m, 'g) ledger"
  proof -
    have "sub_identity E t ACCOUNT_IDENTITY_ROOT = sub_identity E s ACCOUNT_IDENTITY_ROOT"
      using v by (simp add: sub_identity_def issue_keys_def split: option.split)
    moreover have "sub_counter E t j = sub_counter E s j" for j
      using v m by (simp add: sub_counter_def token_migration_active_def issue_keys_def ball_Un)
    moreover have "view E t (key_for_account E j) = view E s (key_for_account E j)" for j
      using v by (simp add: issue_keys_def ball_Un)
    ultimately show ?thesis using s unfolding accounts_issued_def by simp
  qed
  have B: "stored_account E t i = stored_account E s i"
    if "\<forall>k \<in> issue_keys E. view E t k = view E s k" for s t :: "('m, 'g) ledger"
    using that by (simp add: stored_account_def issue_keys_def ball_Un)
  show ?thesis
    unfolding rests_on_def
  proof (intro conjI allI impI assms)
    fix s t :: "('m, 'g) ledger"
    assume s: "still_stored i a E s" and m: "migrations t = migrations s"
      and v: "\<forall>k \<in> issue_keys E. view E t k = view E s k"
    show "still_stored i a E t"
      using s A [OF _ m v] B [OF v] by (simp add: still_stored_def)
  qed
qed

lemma issued_taken:
  assumes E: "env_ok E" "subresources_ok E" and s: "accounts_issued E s"
    and i: "sub_identity E s root = Inr ident'" and c0: "sub_counter E s ident' = Inr c0"
    and c: "c0 \<le> c" "c \<le> max_subresource_id E"
  shows "accounts_issued E (subresource_taken E ident' c s)"
proof -
  let ?t = "subresource_taken E ident' c s"
  have st: "store_ok E" using E(1) by simp
  obtain ident n where id: "sub_identity E s ACCOUNT_IDENTITY_ROOT = Inr ident"
    and n: "sub_counter E s ident = Inr n"
    and iss: "\<And>j. view E s (key_for_account E j) \<noteq> None \<Longrightarrow> \<exists>d < n. with_subresource_id E ident d = Inr j"
    using s unfolding accounts_issued_def by blast
  have id': "sub_identity E ?t ACCOUNT_IDENTITY_ROOT = Inr ident"
    using sub_identity_taken [OF st] id by simp
  have keep: "view E ?t (key_for_account E j) = view E s (key_for_account E j)" for j
    using st by (simp add: subresource_taken_def)
  have "\<exists>m. sub_counter E ?t ident = Inr m \<and> n \<le> m"
  proof (cases "key_for_subresource_counter E ident (token_migration_active E s) =
      key_for_subresource_counter E ident' (token_migration_active E s)")
    case True
    then have "sub_counter E s ident = sub_counter E s ident'" by (simp add: sub_counter_def)
    with n c0 c(1) have "n \<le> c" by simp
    moreover have "c \<le> c + 1"
      using unat_step [OF c(2)] E(2) by (simp add: subresources_ok_def word_le_nat_alt)
    moreover have "sub_counter E ?t ident = Inr (c + 1)"
      using True st by (simp add: sub_counter_def subresource_taken_def)
    ultimately show ?thesis by (metis order_trans)
  next
    case False
    then have "sub_counter E ?t ident = Inr n"
      using n st by (simp add: sub_counter_def subresource_taken_def)
    then show ?thesis by auto
  qed
  then obtain m where "sub_counter E ?t ident = Inr m" "n \<le> m" by blast
  then have "\<exists>d < m. with_subresource_id E ident d = Inr j" if "view E ?t (key_for_account E j) \<noteq> None" for j
    using iss [of j] that keep [of j] by (auto intro: order_less_le_trans)
  then show ?thesis
    using id' \<open>sub_counter E ?t ident = Inr m\<close> unfolding accounts_issued_def by blast
qed

lemma issued_next_any:
  assumes E: "env_ok E" "subresources_ok E" and root: "\<And>i b. root \<noteq> key_for_subresource_counter E i b"
    and s: "accounts_issued E s"
  shows "accounts_issued E (snd (get_next_subresource E root s))"
proof -
  have st: "store_ok E" using E(1) by simp
  obtain r t where run: "get_next_subresource E root s = (r, t)" by fastforce
  show ?thesis
  proof (cases r)
    case (Inl e)
    with get_next_subresource_error [OF st E(2) root] run s show ?thesis by auto
  next
    case (Inr a)
    with run have "get_next_subresource E root s = (Inr a, t)" by simp
    then have "accounts_issued E t"
      by (rule get_next_subresource_ok [OF st E(2) _ root]) (simp add: issued_taken [OF E s])
    with run show ?thesis by simp
  qed
qed

lemma keeps_still_next:
  assumes E: "disabled_env a E D"
  shows "keeps (still_stored i a E) (get_next_subresource E TOKEN_IDENTITY_ROOT)"
proof -
  have e: "env_ok E" "subresources_ok E" using E by (simp_all add: disabled_env_def account_env_def)
  have "keeps (\<lambda>s. stored_account E s i = Some a) (get_next_subresource E TOKEN_IDENTITY_ROOT)"
    by (rule keeps_get_next_subresource) (use e in \<open>simp_all add: stored_account_def\<close>)
  then show ?thesis
    using issued_next_any [OF e, of TOKEN_IDENTITY_ROOT] by (simp add: keeps_def still_stored_def)
qed

text \<open>Operations on another account, which exists, leave the entry and the numbering alone.\<close>

definition still_with :: "address \<Rightarrow> address \<Rightarrow> account \<Rightarrow> ('m, 'v, 'g) env \<Rightarrow> ('m, 'g) ledger \<Rightarrow> bool" where
  "still_with j i a E s \<longleftrightarrow> (accounts_issued E s \<and> view E s (key_for_account E j) \<noteq> None) \<and>
     stored_account E s i = Some a"

lemma still_writes:
  fixes E :: "('m, 'v, 'g) env"
  assumes E: "env_ok E" and j: "j \<noteq> i"
  shows "account_writes E j (still_with j i a E :: ('m, 'g) ledger \<Rightarrow> bool)"
proof -
  have w: "log_free E (\<lambda>s :: ('m, 'g) ledger. accounts_issued E s \<and> view E s (key_for_account E j) \<noteq> None)"
    and put: "\<And>v (s :: ('m, 'g) ledger). accounts_issued E s \<and> view E s (key_for_account E j) \<noteq> None \<Longrightarrow>
      accounts_issued E (applied E [(key_for_account E j, Put v)] s) \<and>
      view E (applied E [(key_for_account E j, Put v)] s) (key_for_account E j) \<noteq> None"
    using writes_issued [OF E, of j] unfolding account_writes_def by blast+
  have "log_free E (\<lambda>s :: ('m, 'g) ledger. stored_account E s i = Some a)"
    by (simp add: log_free_def stored_account_def)
  from log_free_conj [OF w this] have free: "log_free E (still_with j i a E :: ('m, 'g) ledger \<Rightarrow> bool)"
    unfolding still_with_def .
  have "stored_account E (applied E [(key_for_account E j, Put v)] s) i = stored_account E s i"
    for v and s :: "('m, 'g) ledger"
    using E j by (simp add: stored_account_def)
  with put have "still_with j i a E (applied E [(key_for_account E j, Put v)] s)"
    if "still_with j i a E s" for v and s :: "('m, 'g) ledger"
    using that unfolding still_with_def by simp
  with free E show ?thesis unfolding account_writes_def by simp
qed

lemma still_with_keeps:
  assumes s: "still_stored i a E s" "stored_account E s j = Some b" and m: "keeps (still_with j i a E) m"
  shows "still_stored i a E (snd (m s))"
proof -
  have "still_with j i a E s"
    using s by (auto simp: still_with_def still_stored_def stored_account_def split: option.splits)
  from keeps_snd [OF m this] show ?thesis by (simp add: still_with_def still_stored_def)
qed

lemma still_stored_laws:
  assumes E: "disabled_env a E D"
  shows "account_laws E (still_stored i a E)"
  unfolding account_laws_def
proof (intro conjI allI impI)
  have e: "env_ok E" "subresources_ok E" and dis: "\<not> enabled a" and st: "store_ok E"
    using E by (simp_all add: disabled_env_def account_env_def)
  fix b
  show "keeps (still_stored i a E) (add_account E b)"
    unfolding keeps_def add_account_def
  proof (intro allI impI)
    fix s assume s: "still_stored i a E s"
    then have iss: "accounts_issued E s" and v: "view E s (key_for_account E i) \<noteq> None"
      by (auto simp: still_stored_def stored_account_def split: option.splits)
    from create_effect(1) [OF e iss] create_effect(2) [OF e iss v] s
    show "still_stored i a E (snd (add_account_raw E b True s))"
      by (simp add: still_stored_def stored_account_def)
  qed
next
  have e: "env_ok E" and dis: "\<not> enabled a"
    using E by (simp_all add: disabled_env_def account_env_def)
  fix s j b
  assume s: "still_stored i a E s" and j: "stored_account E s j = Some b" "enabled b"
  then have "j \<noteq> i" using dis by (auto simp: still_stored_def)
  note k = still_with_keeps [OF s j(1)]
  note w = still_writes [OF e \<open>j \<noteq> i\<close>, of a]
  show "stores_keep E (still_stored i a E) j b s"
    unfolding stores_keep_def
    by (intro conjI allI impI k; (rule writes_stores, simp add: w)?)
next
  have e: "env_ok E" "store_ok E" and dis: "\<not> enabled a"
    using E by (simp_all add: disabled_env_def account_env_def)
  fix sender args
  show "keeps (still_stored i a E) (set_multisig_defaults E sender args)"
    unfolding set_multisig_defaults_def
  proof (rule keeps_existing [OF e(2)])
    fix b s
    assume s: "still_stored i a E s" and j: "stored_account E s (df_account args) = Some b" "enabled b"
    then have "df_account args \<noteq> i" using dis by (auto simp: still_stored_def)
    note w = still_writes [OF e(1) this, of a]
    show "still_stored i a E (snd (andthen (lift (from_many (needs_role E b sender [Owner])))
     (case get_multisig_feature E (features b) of
        Inl _ \<Rightarrow> ret ()
      | Inr m \<Rightarrow>
          andthen (log_event E (EvMultisigSetDefaults sender (df_account args) (df_threshold args)
             (map_option (\<lambda>t. min t MULTISIG_MAXIMUM_TIMEOUT_IN_SECS) (df_timeout_in_secs args))
             (df_execute_automatically args)))
          (commit_account E (df_account args) (b\<lparr>features := snd (insert_feature E
             (multisig_as_feature E (merge_defaults args m)) (features b))\<rparr>))) s))"
      by (rule still_with_keeps [OF s j(1)])
        (intro keeps_andthen keeps_lift keeps_sum keeps_ret writes_log [OF w] writes_commit [OF w])
  qed
qed

interpretation disabled: server_part "disabled_env a" "\<lambda>E D. still_stored i a E" "\<lambda>_ _. True" "\<lambda>_ _. True"
  for i a
proof (rule server_partI [where K = issue_keys and num = False])
  fix E :: "('a, 'b, 'c) env" and D
  assume E: "disabled_env a E D"
  then have "env_ok E" "disk_ok E D" by (simp_all add: disabled_env_def account_env_def)
  then show "rests_on E D False (issue_keys E) (still_stored i a E) \<and> issue_keys E \<inter> event_keys = {}"
    by (simp add: still_stored_rests issue_keys_apart)
  show "issue_keys E \<inter> account_keys E = {} \<and> issue_keys E \<inter> counter_keys E = {} \<or> account_laws E (still_stored i a E)"
    using still_stored_laws [OF E] by blast
  show "(issue_keys E \<inter> counter_keys E = {} \<or> keeps (still_stored i a E) (get_next_subresource E TOKEN_IDENTITY_ROOT)) \<and>
      issue_keys E \<inter> all_token_keys E = {} \<and> issue_keys E \<inter> balance_keys E = {} \<and> SYMBOLS_ROOT \<notin> issue_keys E \<or>
      token_laws E (\<lambda>_. True) (still_stored i a E)"
    using keeps_still_next [OF E] by (simp add: issue_keys_apart)
qed (simp_all add: issue_keys_apart)

section \<open>Tickers are unique\<close>

definition plain_env :: "('m, 'v, 'g) env \<Rightarrow> ('m \<Rightarrow> bytes \<rightharpoonup> 'v) \<Rightarrow> bool" where
  "plain_env E D \<longleftrightarrow> env_ok E \<and> disk_ok E D"

lemma tickers_rests: "plain_env E D \<Longrightarrow> rests_on E D False {SYMBOLS_ROOT} (tickers_unique E)"
  by (simp add: plain_env_def rests_on_def tickers_unique_def symbols_at_def)

lemma symbols_root_apart:
  "{SYMBOLS_ROOT} \<inter> event_keys = {}" "{SYMBOLS_ROOT} \<inter> balance_keys E = {}" "{SYMBOLS_ROOT} \<inter> account_keys E = {}"
  "{SYMBOLS_ROOT} \<inter> counter_keys E = {}" "{SYMBOLS_ROOT} \<inter> multisig_keys = {}" "{SYMBOLS_ROOT} \<inter> idstore_keys = {}"
  "key_for_symbol E x \<notin> {SYMBOLS_ROOT}" "key_for_account_balance E a x \<notin> {SYMBOLS_ROOT}"
  by (auto simp: family_defs)

lemma tickers_laws:
  assumes E: "plain_env E D"
  shows "token_laws E P (tickers_unique E)"
proof -
  note R = tickers_rests [OF E]
  have e: "env_ok E" using E by (simp add: plain_env_def)
  show ?thesis unfolding token_laws_def
    by (intro conjI allI impI tickers_request [OF e] frame_mint [OF R] frame_burn [OF R] symbols_root_apart)
qed

interpretation tickers: server_part plain_env "\<lambda>E D. tickers_unique E" "\<lambda>_ _. True" "\<lambda>_ _. True"
proof (rule server_partI [where K = "\<lambda>_. {SYMBOLS_ROOT}" and num = False])
  fix E :: "('a, 'b, 'c) env" and D
  assume E: "plain_env E D"
  show "rests_on E D False {SYMBOLS_ROOT} (tickers_unique E) \<and> {SYMBOLS_ROOT} \<inter> event_keys = {}"
    using tickers_rests [OF E] symbols_root_apart by blast
  show "(({SYMBOLS_ROOT} \<inter> counter_keys E = {} \<or> keeps (tickers_unique E) (get_next_subresource E TOKEN_IDENTITY_ROOT)) \<and>
      {SYMBOLS_ROOT} \<inter> all_token_keys E = {} \<and> {SYMBOLS_ROOT} \<inter> balance_keys E = {} \<and> SYMBOLS_ROOT \<notin> {SYMBOLS_ROOT}) \<or>
      token_laws E (\<lambda>_. True) (tickers_unique E)"
    using tickers_laws [OF E] by blast
qed (simp_all only: symbols_root_apart, simp_all)

section \<open>Recall phrases keep their credential\<close>

definition phrase_keys :: "bytes set" where
  "phrase_keys = range (idstore_key SepRecallPhrase)"

lemma phrase_keys_apart:
  "phrase_keys \<inter> event_keys = {}" "phrase_keys \<inter> balance_keys E = {}" "phrase_keys \<inter> account_keys E = {}"
  "phrase_keys \<inter> counter_keys E = {}" "phrase_keys \<inter> multisig_keys = {}" "phrase_keys \<inter> all_token_keys E = {}"
  "SYMBOLS_ROOT \<notin> phrase_keys" "DATA_ATTRIBUTES_KEY \<notin> phrase_keys" "HEIGHT_ROOT \<notin> phrase_keys"
  by (auto simp: phrase_keys_def family_defs multisig_key_prefix)

definition phrase_env :: "('m, 'v, 'g) env \<Rightarrow> ('m \<Rightarrow> bytes \<rightharpoonup> 'v) \<Rightarrow> bool" where
  "phrase_env E D \<longleftrightarrow> plain_env E D \<and> codec_ok (c_credential E)"

lemma resolves_rests: "phrase_env E D \<Longrightarrow> rests_on E D False phrase_keys (\<lambda>s. resolves E s q c)"
  by (simp add: rests_on_def phrase_env_def plain_env_def resolves_iff phrase_keys_def)

interpretation phrases: server_part phrase_env "\<lambda>E D s. resolves E s q c" "\<lambda>_ _. True" "\<lambda>_ _. True"
  for q c
proof (rule server_partI [where K = "\<lambda>_. phrase_keys" and num = False])
  fix E :: "('a, 'b, 'c) env" and D
  assume E: "phrase_env E D"
  show "rests_on E D False phrase_keys (\<lambda>s. resolves E s q c) \<and> phrase_keys \<inter> event_keys = {}"
    using resolves_rests [OF E] phrase_keys_apart by blast
  have "store_ok E" "codec_ok (c_credential E)" using E by (simp_all add: phrase_env_def plain_env_def)
  then show "phrase_keys \<inter> idstore_keys = {} \<or>
      (\<forall>sender a cid pk. keeps (\<lambda>s. resolves E s q c) (idstore_store E sender a cid pk))"
    using keeps_resolves by blast
qed (simp_all add: phrase_keys_apart)

section \<open>Closed multisig entries stay closed\<close>

text \<open>
  Submission takes the next event number as the token of the entry, so entries, in the tree and
  on the disk, are numbered up to the latest one. The statements hold until the event numbers
  run out of their 32 bytes.
\<close>

definition entries_below :: "('m, 'v, 'g) env \<Rightarrow> ('m \<Rightarrow> bytes \<rightharpoonup> 'v) \<Rightarrow> ('m, 'g) ledger \<Rightarrow> bool" where
  "entries_below E D s \<longleftrightarrow> (\<forall>i. view E s (key_for_multisig_transaction i) \<noteq> None \<or>
     D (persistent_store s) (key_for_multisig_transaction i) \<noteq> None \<longrightarrow>
     be_nat (pad_id i) \<le> be_nat (latest_tid s))"

definition numbers_out :: "('m, 'g) ledger \<Rightarrow> bool" where
  "numbers_out s \<longleftrightarrow> event_id_limit \<le> be_nat (latest_tid s) + 1"

definition entry_holds :: "bytes \<Rightarrow> ('v \<Rightarrow> bool) \<Rightarrow> ('m, 'v, 'g) env \<Rightarrow> ('m \<Rightarrow> bytes \<rightharpoonup> 'v) \<Rightarrow>
    ('m, 'g) ledger \<Rightarrow> bool" where
  "entry_holds tok X E D s \<longleftrightarrow> numbers_out s \<or> (entries_below E D s \<and>
     (\<exists>v. view E s (key_for_multisig_transaction tok) = Some v \<and> X v))"

definition closed_value :: "('m, 'v, 'g) env \<Rightarrow> 'v \<Rightarrow> bool" where
  "closed_value E v \<longleftrightarrow> (\<exists>x. dec (c_multisig E) v = Inr x \<and> ms_disabled x)"

lemma numbers_out_mono: "numbers_out s \<Longrightarrow> be_nat (latest_tid s) \<le> be_nat (latest_tid t) \<Longrightarrow> numbers_out t"
  by (simp add: numbers_out_def)

lemma entry_holds_rests:
  fixes E :: "('m, 'v, 'g) env"
  assumes "plain_env E D"
  shows "rests_on E D True multisig_keys (entry_holds tok X E D)"
  unfolding rests_on_def
proof (intro conjI allI impI)
  show "env_ok E" "disk_ok E D" using assms by (simp_all add: plain_env_def)
  fix s t :: "('m, 'g) ledger"
  assume s: "entry_holds tok X E D s" and n: "True \<longrightarrow> be_nat (latest_tid s) \<le> be_nat (latest_tid t)"
    and v: "\<forall>k \<in> multisig_keys. view E t k = view E s k"
    and d: "\<forall>k \<in> multisig_keys. D (persistent_store t) k = D (persistent_store s) k \<or>
      D (persistent_store t) k = view E s k"
  have le: "be_nat (latest_tid s) \<le> be_nat (latest_tid t)" using n by simp
  have v': "view E t (key_for_multisig_transaction i) = view E s (key_for_multisig_transaction i)" for i
    using v by simp
  have "entries_below E D t" if b: "entries_below E D s"
    unfolding entries_below_def
  proof (intro allI impI)
    fix i
    assume i: "view E t (key_for_multisig_transaction i) \<noteq> None \<or>
      D (persistent_store t) (key_for_multisig_transaction i) \<noteq> None"
    have "view E s (key_for_multisig_transaction i) \<noteq> None \<or>
        D (persistent_store s) (key_for_multisig_transaction i) \<noteq> None"
      using i v' bspec [OF d in_families(3) [of i]] by auto
    with b have "be_nat (pad_id i) \<le> be_nat (latest_tid s)" unfolding entries_below_def by blast
    with le show "be_nat (pad_id i) \<le> be_nat (latest_tid t)" by simp
  qed
  with s v' show "entry_holds tok X E D t"
    using numbers_out_mono [OF _ le] by (auto simp: entry_holds_def)
qed

lemma entry_holds_entries:
  fixes E :: "('m, 'v, 'g) env"
  assumes E: "plain_env E D" and X: "\<And>v. X v \<Longrightarrow> closed_value E v"
  shows "entries_keep E (entry_holds tok X E D)"
  unfolding entries_keep_def Let_def
proof (intro conjI allI impI)
  have e: "env_ok E" "disk_ok E D" using E by (simp_all add: plain_env_def)
  fix s :: "('m, 'g) ledger" and tok' x w
  assume s: "entry_holds tok X E D s" and x: "stored_multisig E s tok' = Some x" "\<not> ms_disabled x"
  let ?t = "applied E [(key_for_multisig_transaction tok', Put w)] s"
  show "entry_holds tok X E D ?t"
  proof (cases "numbers_out s")
    case True
    then show ?thesis by (simp add: entry_holds_def numbers_out_def)
  next
    case False
    with s obtain v where b: "entries_below E D s"
      and v: "view E s (key_for_multisig_transaction tok) = Some v" "X v"
      by (auto simp: entry_holds_def)
    have "key_for_multisig_transaction tok' \<noteq> key_for_multisig_transaction tok"
      using x v X [OF v(2)] by (auto simp: stored_multisig_def closed_value_def)
    moreover have "view E s (key_for_multisig_transaction tok') \<noteq> None"
      using x(1) by (auto simp: stored_multisig_def split: option.splits)
    moreover from this have "entries_below E D ?t"
      using b e by (auto simp: entries_below_def multisig_key_pad)
    ultimately show ?thesis using v e by (auto simp: entry_holds_def)
  qed
next
  have e: "env_ok E" "disk_ok E D" using E by (simp_all add: plain_env_def)
  fix s :: "('m, 'g) ledger" and w
  assume s: "entry_holds tok X E D s"
  let ?i = "event_id_add E (latest_tid s) 1"
  let ?t = "applied E [(key_for_multisig_transaction ?i, Put w)] (s\<lparr>latest_tid := ?i\<rparr>)"
  have num: "be_nat ?i = be_nat (latest_tid s) + 1" using e by simp
  show "entry_holds tok X E D ?t"
  proof (cases "numbers_out s")
    case True
    then show ?thesis using num by (simp add: entry_holds_def numbers_out_def)
  next
    case False
    with s obtain v where b: "\<And>i. view E s (key_for_multisig_transaction i) \<noteq> None \<or>
        D (persistent_store s) (key_for_multisig_transaction i) \<noteq> None \<Longrightarrow>
        be_nat (pad_id i) \<le> be_nat (latest_tid s)"
      and v: "view E s (key_for_multisig_transaction tok) = Some v" "X v"
      by (auto simp: entry_holds_def entries_below_def)
    have "length ?i \<le> 32" using e False by (intro event_id_fits) (simp_all add: numbers_out_def)
    then have pad: "be_nat (pad_id ?i) = be_nat (latest_tid s) + 1" using num by (simp add: be_nat_pad_id)
    have ne: "pad_id ?i \<noteq> pad_id tok" using b [of tok] v pad by auto
    have "entries_below E D ?t"
      unfolding entries_below_def
    proof (intro allI impI)
      fix j
      assume j: "view E ?t (key_for_multisig_transaction j) \<noteq> None \<or>
        D (persistent_store ?t) (key_for_multisig_transaction j) \<noteq> None"
      have "be_nat (pad_id j) \<le> be_nat (latest_tid s) + 1"
      proof (cases "pad_id j = pad_id ?i")
        case True
        with pad show ?thesis by simp
      next
        case False
        with j e have "view E s (key_for_multisig_transaction j) \<noteq> None \<or>
            D (persistent_store s) (key_for_multisig_transaction j) \<noteq> None"
          by (auto simp: multisig_key_pad)
        from b [OF this] show ?thesis by simp
      qed
      then show "be_nat (pad_id j) \<le> be_nat (latest_tid ?t)" using num by simp
    qed
    then show ?thesis using v ne e by (simp add: entry_holds_def multisig_key_pad)
  qed
qed


text \<open>Expiry writes an entry that is on the disk, closed.\<close>

lemma entry_holds_expiry:
  fixes E :: "('m, 'v, 'g) env"
  assumes E: "plain_env E D" and s: "entry_holds tok (closed_value E) E D s"
  shows "entry_holds tok (closed_value E) E D (snd (check_timed_out_multisig_transactions E s))"
    (is "entry_holds _ _ _ _ ?t")
proof -
  have e: "env_ok E" "disk_ok E D" "store_ok E" using E by (auto simp: plain_env_def)
  have tid: "latest_tid ?t = latest_tid s" by (rule expiry_frame [OF e(3,2)])
  have new: "view E ?t k = view E s k \<or> D (persistent_store s) k \<noteq> None \<and>
      (\<exists>v. view E ?t k = Some v \<and> closed_value E v)" for k
    using expiry_view [OF e(1,2), of s k] e(1) by (auto simp: closed_value_def disable_storage_def)
  have "entries_below E D ?t" if b: "entries_below E D s"
    unfolding entries_below_def
  proof (intro allI impI)
    fix i
    let ?k = "key_for_multisig_transaction i"
    assume "view E ?t ?k \<noteq> None \<or> D (persistent_store ?t) ?k \<noteq> None"
    then have "view E s ?k \<noteq> None \<or> D (persistent_store s) ?k \<noteq> None"
      using new [of ?k] expiry_disk [OF e(3,2), of s] by auto
    with b have "be_nat (pad_id i) \<le> be_nat (latest_tid s)" unfolding entries_below_def by blast
    then show "be_nat (pad_id i) \<le> be_nat (latest_tid ?t)" by (simp only: tid)
  qed
  moreover have "\<exists>v. view E ?t (key_for_multisig_transaction tok) = Some v \<and> closed_value E v"
    if "view E s (key_for_multisig_transaction tok) = Some w" "closed_value E w" for w
    using new [of "key_for_multisig_transaction tok"] that by auto
  ultimately show ?thesis
    using s tid unfolding entry_holds_def numbers_out_def by auto
qed

definition numbers_grow :: "('m, 'g) ledger \<Rightarrow> ('m, 'g) ledger \<Rightarrow> bool" where
  "numbers_grow s t \<longleftrightarrow> be_nat (latest_tid s) \<le> be_nat (latest_tid t)"

lemma multisig_keys_apart:
  "multisig_keys \<inter> event_keys = {}" "multisig_keys \<inter> balance_keys E = {}" "multisig_keys \<inter> account_keys E = {}"
  "multisig_keys \<inter> counter_keys E = {}" "multisig_keys \<inter> all_token_keys E = {}" "multisig_keys \<inter> idstore_keys = {}"
  "SYMBOLS_ROOT \<notin> multisig_keys" "DATA_ATTRIBUTES_KEY \<notin> multisig_keys" "HEIGHT_ROOT \<notin> multisig_keys"
  by auto

interpretation closed: server_part plain_env "\<lambda>E D. entry_holds tok (closed_value E) E D" "\<lambda>_ _. True" numbers_grow
  for tok
proof (rule server_partI [where K = "\<lambda>_. multisig_keys" and num = True])
  fix E :: "('a, 'b, 'c) env" and D
  assume E: "plain_env E D"
  note R = entry_holds_rests [OF E, of tok "closed_value E"]
  show "rests_on E D True multisig_keys (entry_holds tok (closed_value E) E D) \<and> multisig_keys \<inter> event_keys = {}"
    using R multisig_keys_apart by blast
  show "multisig_keys \<inter> multisig_keys = {} \<or> entries_keep E (entry_holds tok (closed_value E) E D)"
    using entry_holds_entries [OF E] by blast
  have "entry_holds tok (closed_value E) E D t"
    if s: "entry_holds tok (closed_value E) E D s" and "numbers_grow s t" and "commit_block E s = (Inr i, t)"
      and "counter_at E s HEIGHT_ROOT = Inr h" and "no_migration E (migrations s) (h + 1)" for s t i h
    by (rule frame_commit_block [OF R multisig_keys_apart(9) that(3-5) _ entry_holds_expiry [OF E s]])
      (use that(2) in \<open>simp add: numbers_grow_def\<close>)
  then show "\<not> True \<and> HEIGHT_ROOT \<notin> multisig_keys \<and> multisig_keys \<inter> multisig_keys = {} \<or>
      commit_law E numbers_grow (entry_holds tok (closed_value E) E D)"
    unfolding commit_law_def by blast
qed (simp_all add: multisig_keys_apart)

text \<open>Within a block, an entry that is closed is not written at all.\<close>

definition kept_env :: "'v \<Rightarrow> ('m, 'v, 'g) env \<Rightarrow> ('m \<Rightarrow> bytes \<rightharpoonup> 'v) \<Rightarrow> bool" where
  "kept_env v E D \<longleftrightarrow> plain_env E D \<and> closed_value E v"

interpretation kept: server_part "kept_env (v :: 'b)" "\<lambda>E D. entry_holds tok ((=) v) E D" "\<lambda>_ _. True" "\<lambda>_ _. False"
  for tok and v :: 'b
proof (rule server_partI [where K = "\<lambda>_. multisig_keys" and num = True])
  fix E :: "('a, 'b, 'c) env" and D
  assume E: "kept_env v E D"
  then have e: "plain_env E D" and v: "\<And>w. v = w \<Longrightarrow> closed_value E w" by (simp_all add: kept_env_def)
  show "rests_on E D True multisig_keys (entry_holds tok ((=) v) E D) \<and> multisig_keys \<inter> event_keys = {}"
    using entry_holds_rests [OF e] multisig_keys_apart by blast
  show "multisig_keys \<inter> multisig_keys = {} \<or> entries_keep E (entry_holds tok ((=) v) E D)"
    using entry_holds_entries [OF e v] by blast
qed (simp_all add: multisig_keys_apart commit_law_def)

end
