(* ===== verification/Supply.thy ===== *)
theory Supply
  imports ServerProps
begin

text \<open>
  The supply of a token is what its holders hold, for the whole server: transfers move the
  balances, minting and burning change both sides, creating another token and updating this one
  change neither. Minting for the anonymous address raises the supply and no balance, so where
  that may happen the supply only covers what is held; the flag \<open>exact\<close> tells the claims apart. The statement is for a server on which the token migration is active and for
  a token that is on the disk, since new tokens get an address that no token on the disk has.
\<close>

section \<open>The property and what it rests on\<close>

definition supply_sound :: "bool \<Rightarrow> symbol \<Rightarrow> ('m, 'v, 'g) env \<Rightarrow> ('m \<Rightarrow> bytes \<rightharpoonup> 'v) \<Rightarrow> ('m, 'g) ledger \<Rightarrow> bool" where
  "supply_sound ex x E D s \<longleftrightarrow> token_migration_active E s \<and>
     D (persistent_store s) (key_for_symbol E x) \<noteq> None \<and> supply_by ex E s x"

text \<open>Addresses are printed as \<open>String\<close>s, which are UTF-8.\<close>

definition supply_env :: "('m, 'v, 'g) env \<Rightarrow> ('m \<Rightarrow> bytes \<rightharpoonup> 'v) \<Rightarrow> bool" where
  "supply_env E D \<longleftrightarrow> plain_env E D \<and> subresources_ok E \<and> (\<forall>a. valid_utf8 (show_address E a))"

definition supply_keys :: "symbol \<Rightarrow> ('m, 'v, 'g) env \<Rightarrow> bytes set" where
  "supply_keys x E = insert (key_for_symbol E x) (range (\<lambda>a. key_for_account_balance E a x))"

lemma in_supply_keys [simp, intro]:
  "key_for_symbol E x \<in> supply_keys x E" "key_for_account_balance E a x \<in> supply_keys x E"
  by (auto simp: supply_keys_def)

lemma supply_keys_apart:
  "supply_keys x E \<inter> event_keys = {}" "supply_keys x E \<inter> account_keys E' = {}"
  "supply_keys x E \<inter> counter_keys E' = {}" "supply_keys x E \<inter> multisig_keys = {}"
  "supply_keys x E \<inter> idstore_keys = {}" "DATA_ATTRIBUTES_KEY \<notin> supply_keys x E"
  "SYMBOLS_ROOT \<notin> supply_keys x E" "HEIGHT_ROOT \<notin> supply_keys x E"
  "key_for_ext_info E' y \<notin> supply_keys x E"
  by (auto simp: supply_keys_def family_defs multisig_key_prefix)

lemma supply_keys_symbol:
  assumes "env_ok E" and "y \<noteq> x"
  shows "key_for_symbol E y \<notin> supply_keys x E" "key_for_account_balance E a y \<notin> supply_keys x E"
  using assms by (auto simp: supply_keys_def)

lemma supply_exact_cong:
  assumes "\<And>k. k \<in> supply_keys x E \<Longrightarrow> view E t k = view E s k"
  shows "supply_by ex E t x = supply_by ex E s x"
proof -
  have "balance E t a x = balance E s a x" for a using assms by (simp add: balance_def)
  moreover have "holders E t x = holders E s x" "token_info_at E t x = token_info_at E s x"
    using assms by (simp_all add: holders_def token_info_at_def)
  ultimately show ?thesis by (simp add: supply_by_def)
qed

lemma supply_info: "supply_by ex E s x \<Longrightarrow> view E s (key_for_symbol E x) \<noteq> None"
  by (auto simp: supply_by_def token_info_at_def split: option.splits)

text \<open>The disk may take any later version of the token, so only the view has to be sound.\<close>

lemma supply_sound_step:
  assumes "supply_sound ex x E D s" and "supply_by ex E t x" and "migrations t = migrations s"
    and "D (persistent_store t) (key_for_symbol E x) = D (persistent_store s) (key_for_symbol E x) \<or>
      D (persistent_store t) (key_for_symbol E x) = view E t (key_for_symbol E x) \<or>
      D (persistent_store t) (key_for_symbol E x) = view E s (key_for_symbol E x)"
  shows "supply_sound ex x E D t"
  using assms supply_info [of ex E t x] supply_info [of ex E s x]
  by (auto simp: supply_sound_def token_migration_active_def)

lemma supply_rests:
  fixes E :: "('m, 'v, 'g) env"
  assumes "supply_env E D"
  shows "rests_on E D False (supply_keys x E) (supply_sound ex x E D)"
  unfolding rests_on_def
proof (intro conjI allI impI)
  show "env_ok E" "disk_ok E D" using assms by (simp_all add: supply_env_def plain_env_def)
  fix s t :: "('m, 'g) ledger"
  assume s: "supply_sound ex x E D s" and m: "migrations t = migrations s"
    and v: "\<forall>k \<in> supply_keys x E. view E t k = view E s k"
    and d: "\<forall>k \<in> supply_keys x E. D (persistent_store t) k = D (persistent_store s) k \<or>
      D (persistent_store t) k = view E s k"
  have "supply_by ex E t x = supply_by ex E s x" using v by (intro supply_exact_cong) blast
  moreover have "supply_by ex E s x" using s by (simp add: supply_sound_def)
  ultimately show "supply_sound ex x E D t"
    using m bspec [OF d in_supply_keys(1)] by (intro supply_sound_step [OF s]) auto
qed

text \<open>The property, and a fact about entries it rests on.\<close>

lemma rests_on_conj:
  fixes E :: "('m, 'v, 'g) env"
  assumes R: "rests_on E D num K I"
    and Q: "\<And>s t. \<forall>k \<in> K. view E t k = view E s k \<Longrightarrow> Q s \<Longrightarrow> Q t"
  shows "rests_on E D num K (\<lambda>s. I s \<and> Q s)"
  unfolding rests_on_def
proof (intro conjI allI impI)
  show "env_ok E" "disk_ok E D" using rests_on_env [OF R] by simp_all
  fix s t :: "('m, 'g) ledger"
  assume s: "I s \<and> Q s" and m: "migrations t = migrations s"
    and n: "num \<longrightarrow> be_nat (latest_tid s) \<le> be_nat (latest_tid t)"
    and v: "\<forall>k \<in> K. view E t k = view E s k"
    and d: "\<forall>k \<in> K. D (persistent_store t) k = D (persistent_store s) k \<or>
      D (persistent_store t) k = view E s k"
  show "Q t" using Q [OF v] s by blast
  have "I s" using s by blast
  then show "I t" by (rule rests_onD [OF R _ m]) (use n v d in auto)
qed

section \<open>Transfers\<close>

lemma leads_through:
  assumes "keeps P m" and "\<And>s. P s \<Longrightarrow> I s" and "\<And>x. leads P (f x) I"
  shows "leads P (bnd m f) I"
  unfolding leads_def
proof (intro allI impI)
  fix s assume "P s"
  obtain r t where r: "m s = (r, t)" by fastforce
  with keeps_snd [OF assms(1) \<open>P s\<close>] have "P t" by simp
  with r assms(2,3) show "I (snd (bnd m f s))" by (cases r) (simp_all add: bnd_run leads_def)
qed

lemma supply_transfer:
  assumes E: "env_ok E" and s: "supply_by ex E s x" and p: "frm \<noteq> to" "\<not> is_anonymous E to" "\<not> is_anonymous E frm"
    and le: "amount \<le> balance E s frm x"
  shows "supply_by ex E (applied E (transfer_batch E frm to x (balance E s frm x - amount)
    (balance E s to x + amount)) s) x" (is "supply_by ex E ?t x")
proof -
  let ?A = "holders E s x \<union> {frm, to}"
  have st: "store_ok E" and ad: "address_ok E" using E by simp_all
  have v: "view E ?t k = ((view E s)
      (key_for_account_balance E frm x \<mapsto> amount_to_vec E (balance E s frm x - amount),
       key_for_account_balance E to x \<mapsto> amount_to_vec E (balance E s to x + amount))) k" for k
    using st transfer_batch_ok [OF ad p(1)] by simp
  obtain info where i: "token_info_at E s x = Some info"
    and c: "agree ex (\<Sum>a \<in> holders E s x. balance E s a x) (circulating (ti_supply info))"
    and tot: "total (ti_supply info) = circulating (ti_supply info)"
    using s unfolding supply_by_def by blast
  have fin: "finite ?A" using s by (simp add: supply_by_def)
  have b: "balance E ?t a x = (if a = frm then balance E s frm x - amount
      else if a = to then balance E s to x + amount else balance E s a x)" for a
    using E p by (auto simp: balance_def [of E ?t] v) (auto simp: balance_def)
  have "(\<Sum>a \<in> ?A. balance E ?t a x) = (\<Sum>a \<in> ?A. balance E s a x)"
    using sum_two [OF fin, of frm to amount "\<lambda>a. balance E s a x"] p le by (simp add: b cong: if_cong)
  also have "\<dots> = (\<Sum>a \<in> holders E s x. balance E s a x)" using fin by (intro sum_holders) auto
  finally have "agree ex (\<Sum>a \<in> ?A. balance E ?t a x) (circulating (ti_supply info))" using c by simp
  moreover have "holders E ?t x \<subseteq> ?A" using E by (auto simp: holders_def v)
  moreover have "token_info_at E ?t x = Some info" using i by (simp add: token_info_at_def v)
  ultimately show ?thesis using tot by (intro supply_byI [OF fin])
qed

text \<open>A batch of the token's own keys, applied and flushed.\<close>

lemma supply_sound_applied:
  assumes E: "supply_env E D" and s: "supply_sound ex x E D s" and t: "supply_by ex E (applied E b s) x"
  shows "supply_sound ex x E D (applied E b s)"
  using assms by (intro supply_sound_step [OF s t]) (auto simp: supply_env_def plain_env_def)

lemma supply_send:
  fixes E :: "('m, 'v, 'g) env"
  assumes E: "supply_env E D"
  shows "keeps (supply_sound ex x E D) (send E frm to y amount m)"
proof (cases "y = x")
  case False
  have "env_ok E" using E by (simp add: supply_env_def plain_env_def)
  note k = supply_keys_symbol [OF this False]
  show ?thesis by (rule frame_send_keys [OF supply_rests [OF E] supply_keys_apart(1,6) k(2) k(2)])
next
  case True
  have e: "env_ok E" "store_ok E" "address_ok E" using E by (auto simp: supply_env_def plain_env_def)
  note R = supply_rests [OF E, of x]
  define P where "P = (\<lambda>n k s. supply_sound ex x E D s \<and> balance E s frm x = n \<and> balance E s to x = k)"
  have RP: "rests_on E D False (supply_keys x E) (P n k)" for n k
    unfolding P_def by (rule rests_on_conj [OF R]) (auto simp: balance_def)
  have log: "keeps (supply_sound ex x E D) (andthen (log_event E (EvSend frm to x amount m)) (maybe_commit E))"
    by (intro keeps_andthen frame_log [OF R supply_keys_apart(1)] frame_maybe [OF R])
  have fin: "leads (P n k) (andthen (db_apply E apply_failed (transfer_batch E frm to x (n - amount) (k + amount)))
      (andthen (log_event E (EvSend frm to x amount m)) (maybe_commit E))) (supply_sound ex x E D)"
    if "frm \<noteq> to" "\<not> is_anonymous E to" "\<not> is_anonymous E frm" "amount \<le> n" for n k
    unfolding leads_def
  proof (intro allI impI)
    fix s assume s: "P n k s"
    then have b: "balance E s frm x = n" "balance E s to x = k" and sd: "supply_sound ex x E D s"
      by (simp_all add: P_def)
    let ?b = "transfer_batch E frm to x (n - amount) (k + amount)"
    have "supply_by ex E (applied E ?b s) x"
      using supply_transfer [OF e(1), of ex s x frm to amount] sd that by (simp add: b supply_sound_def)
    from supply_sound_applied [OF E sd this] have "supply_sound ex x E D (applied E ?b s)" .
    from keeps_snd [OF log this]
    show "supply_sound ex x E D (snd (andthen (db_apply E apply_failed ?b)
        (andthen (log_event E (EvSend frm to x amount m)) (maybe_commit E)) s))"
      using db_apply_run [OF e(2), of ?b apply_failed s] transfer_batch_ok(1) [OF e(3) that(1)]
      by (simp add: andthen_run [of "db_apply E apply_failed ?b"])
  qed
  show ?thesis
    unfolding keeps_def
  proof (intro allI impI)
    fix s :: "('m, 'g) ledger"
    assume s: "supply_sound ex x E D s"
    let ?n = "balance E s frm x" and ?k = "balance E s to x"
    have ld: "leads (P ?n ?k) (andthen (update_account_count E frm to amount x)
        (andthen (db_apply E apply_failed (transfer_batch E frm to x (?n - amount) (?k + amount)))
        (andthen (log_event E (EvSend frm to x amount m)) (maybe_commit E)))) (supply_sound ex x E D)"
      if "frm \<noteq> to" "\<not> is_anonymous E to" "\<not> is_anonymous E frm" "amount \<le> ?n"
      unfolding andthen_def [of "update_account_count E frm to amount x"]
      by (intro leads_through frame_account_count [OF RP supply_keys_apart(6)] fin that) (simp add: P_def)
    have "snd (send E frm to x amount m s) = s \<or> (frm \<noteq> to \<and> \<not> is_anonymous E to \<and> \<not> is_anonymous E frm \<and>
        amount \<le> ?n \<and> snd (send E frm to x amount m s) = snd (andthen (update_account_count E frm to amount x)
        (andthen (db_apply E apply_failed (transfer_batch E frm to x (?n - amount) (?k + amount)))
        (andthen (log_event E (EvSend frm to x amount m)) (maybe_commit E))) s))"
      by (simp add: send_def throw_run bnd_run get_balance_run [OF e(2)] Let_def
          transfer_batch_def [symmetric, unfolded Let_def] not_less)
    then show "supply_sound ex x E D (snd (send E frm to y amount m s))"
      using s ld True by (auto simp: leads_def P_def)
  qed
qed

section \<open>Other tokens, and updates of this one\<close>

lemma collect_keeps: "collect_symbols E its acc = Inr syms \<Longrightarrow> set acc \<subseteq> set syms"
  by (induction its arbitrary: acc) (fastforce simp: rbind_ok)+

lemma collect_finds:
  assumes "address_ok E" and "valid_utf8 (show_address E x)"
  shows "collect_symbols E its acc = Inr syms \<Longrightarrow> Inr (key_for_symbol E x, v) \<in> set its \<Longrightarrow> x \<in> set syms"
proof (induction its arbitrary: acc)
  case (Cons i its)
  have key: "symbol_of_key E (key_for_symbol E x) = Inr x"
    using assms by (simp add: symbol_of_key_def key_for_symbol_def SYMBOLS_ROOT_DASH_def SYMBOLS_ROOT_def
        address_ok_def Let_def)
  show ?case
  proof (cases "i = Inr (key_for_symbol E x, v)")
    case True
    with Cons.prems(1) key have "collect_symbols E its (bs_insert x acc) = Inr syms" by (simp add: rbind_ok)
    from collect_keeps [OF this] show ?thesis by auto
  next
    case False
    with Cons show ?thesis by (auto simp: rbind_ok)
  qed
qed simp

lemma known_symbols_on_disk:
  assumes E: "supply_env E D" and s: "supply_sound ex x E D s" and ok: "get_symbols E s = (Inr syms, t)"
  shows "x \<in> set syms"
proof -
  have d: "disk_ok E D" and a: "address_ok E" "valid_utf8 (show_address E x)"
    using E by (simp_all add: supply_env_def plain_env_def)
  from s obtain v where v: "D (persistent_store s) (key_for_symbol E x) = Some v"
    by (auto simp: supply_sound_def)
  from d obtain es where l: "listing (D (persistent_store s)) (\<lambda>k. take (length SYMBOLS_ROOT_DASH) k = SYMBOLS_ROOT_DASH) es"
    and it: "merk_iter_prefix E (persistent_store s) SYMBOLS_ROOT_DASH False = map Inr es"
    unfolding disk_ok_def by blast
  have mem: "(key_for_symbol E x, v) \<in> set es"
    using l v by (simp add: listing_def key_for_symbol_def SYMBOLS_ROOT_DASH_def SYMBOLS_ROOT_def)
  have col: "collect_symbols E (map Inr es) [] = Inr syms"
    using ok s it by (simp add: get_symbols_def bnd_run gets_run reads_def supply_sound_def get_symbols_from_keys_def
        all_symbols_def from_end_def lift_run)
  show ?thesis by (rule collect_finds [OF a col, of v]) (use mem in simp)
qed

lemma supply_next:
  assumes E: "supply_env E D"
  shows "keeps (supply_sound ex x E D) (get_next_subresource E TOKEN_IDENTITY_ROOT)"
    and "supply_sound ex x E D s \<Longrightarrow> get_next_subresource E TOKEN_IDENTITY_ROOT s = (Inr y, t) \<Longrightarrow> y \<noteq> x"
proof -
  have e: "store_ok E" "subresources_ok E" using E by (simp_all add: supply_env_def plain_env_def)
  show "keeps (supply_sound ex x E D) (get_next_subresource E TOKEN_IDENTITY_ROOT)"
    by (rule frame_next [OF supply_rests [OF E] supply_keys_apart(3)])
  assume s: "supply_sound ex x E D s" and nx: "get_next_subresource E TOKEN_IDENTITY_ROOT s = (Inr y, t)"
  have "TOKEN_IDENTITY_ROOT \<noteq> key_for_subresource_counter E i b" for i b by simp
  from get_next_subresource_ok [OF e nx this] obtain syms where "get_symbols E s = (Inr syms, s)" "y \<notin> set syms"
    by metis
  with known_symbols_on_disk [OF E s] show "y \<noteq> x" by auto
qed

lemma updated_info_supply [simp]: "ti_supply (updated_info args info) = ti_supply info"
  by (simp add: updated_info_def Let_def split: option.split sum.split)

lemma encode_ret: "codec_ok c \<Longrightarrow> encode c v = ret (enc_val c v)"
  by (intro ext) (simp add: encode_run ret_run)

lemma supply_update:
  fixes E :: "('m, 'v, 'g) env"
  assumes E: "supply_env E D"
  shows "keeps (supply_sound ex x E D) (update_token E args)"
proof (cases "tu_symbol args = x")
  case False
  have "env_ok E" using E by (simp add: supply_env_def plain_env_def)
  note k = supply_keys_symbol [OF this False]
  show ?thesis by (rule frame_update_token [OF supply_rests [OF E] supply_keys_apart(1) k(1) supply_keys_apart(7)])
next
  case True
  have e: "env_ok E" "store_ok E" using E by (auto simp: supply_env_def plain_env_def)
  note R = supply_rests [OF E, of x]
  define P where "P = (\<lambda>info s. supply_sound ex x E D s \<and> token_info_at E s x = Some info)"
  have RP: "rests_on E D False (supply_keys x E) (P info)" for info
    unfolding P_def by (rule rests_on_conj [OF R]) (simp add: token_info_at_def)
  have tick: "keeps (P info) (case tu_ticker args of None \<Rightarrow> ret () | Some t \<Rightarrow> update_ticker E x t)" for info
    unfolding update_ticker_def
    by (intro keeps_option keeps_ret keeps_bnd keeps_if keeps_throw frame_update_symbols [OF RP supply_keys_apart(7)]
        pure_act_keeps [OF pure_symbols_and_tickers])
  have fin: "leads (P info) (andthen (db_apply E apply_failed [(key_for_symbol E x,
      Put (enc_val (c_token_info E) (updated_info args info)))]) (andthen (log_event E ev) (maybe_commit E)))
      (supply_sound ex x E D)" for info ev
    unfolding leads_def
  proof (intro allI impI)
    fix s assume s: "P info s"
    let ?b = "[(key_for_symbol E x, Put (enc_val (c_token_info E) (updated_info args info)))]"
    have v: "view E (applied E ?b s) k = (if k = key_for_symbol E x
        then Some (enc_val (c_token_info E) (updated_info args info)) else view E s k)" for k
      using e by simp
    have "token_info_at E (applied E ?b s) x = Some (updated_info args info)"
      using e(1) by (simp add: token_info_at_def v)
    moreover have "balance E (applied E ?b s) a x = balance E s a x" for a by (simp add: balance_def v)
    moreover have "holders E (applied E ?b s) x = holders E s x" by (simp add: holders_def v)
    ultimately have "supply_by ex E (applied E ?b s) x"
      using s by (auto simp: P_def supply_sound_def supply_by_def)
    then have "supply_sound ex x E D (applied E ?b s)"
      using s by (intro supply_sound_applied [OF E]) (simp_all add: P_def)
    moreover have "keeps (supply_sound ex x E D) (andthen (log_event E ev) (maybe_commit E))"
      by (intro keeps_andthen frame_log [OF R supply_keys_apart(1)] frame_maybe [OF R])
    ultimately show "supply_sound ex x E D (snd (andthen (db_apply E apply_failed ?b)
        (andthen (log_event E ev) (maybe_commit E)) s))"
      using db_apply_run [OF e(2), of ?b apply_failed s]
      by (simp add: andthen_run [of "db_apply E apply_failed ?b"] keeps_snd)
  qed
  show ?thesis
    unfolding keeps_def
  proof (intro allI impI)
    fix s :: "('m, 'g) ledger"
    assume s: "supply_sound ex x E D s"
    then obtain info v where i: "token_info_at E s x = Some info" and v: "view E s (key_for_symbol E x) = Some v"
      and dv: "dec (c_token_info E) v = Inr info"
      by (auto simp: supply_sound_def supply_by_def token_info_at_def split: option.splits sum.splits)
    have "leads (P info) (andthen (case tu_ticker args of None \<Rightarrow> ret () | Some t \<Rightarrow> update_ticker E x t)
        (andthen (db_apply E apply_failed [(key_for_symbol E x,
          Put (enc_val (c_token_info E) (updated_info args info)))])
        (andthen (log_event E (EvTokenUpdate x (tu_name args) (tu_ticker args) (tu_decimals args) (tu_owner args)
          (tu_memo args))) (maybe_commit E)))) (supply_sound ex x E D)"
      unfolding andthen_def [of "case tu_ticker args of None \<Rightarrow> ret () | Some t \<Rightarrow> update_ticker E x t"]
      by (intro leads_through tick fin) (simp add: P_def)
    then have "supply_sound ex x E D (snd (andthen (case tu_ticker args of None \<Rightarrow> ret () | Some t \<Rightarrow> update_ticker E x t)
        (andthen (db_apply E apply_failed [(key_for_symbol E x,
          Put (enc_val (c_token_info E) (updated_info args info)))])
        (andthen (log_event E (EvTokenUpdate x (tu_name args) (tu_ticker args) (tu_decimals args) (tu_owner args)
          (tu_memo args))) (maybe_commit E))) s))"
      using s i unfolding leads_def P_def by blast
    then show "supply_sound ex x E D (snd (update_token E args s))"
      using e True dv v
      by (simp add: update_token_def bnd_run [of "db_get E f k" for f k] db_get_run panic_on_err_def
          bnd_run [of "lift r" for r] lift_run encode_ret bnd_ret cong: option.case_cong)
  qed
qed

section \<open>Minting and burning\<close>

lemma pure_act_state: "pure_act m \<Longrightarrow> m s = (r, t) \<Longrightarrow> t = s"
  by (metis pure_act_def snd_conv)

lemma allowed_known:
  assumes ok: "mint_burn_allowed E m sender x s = (Inr u, t)"
  shows "known E s x"
proof -
  let ?check = "bnd (token_identity E) (\<lambda>i. lift (verify_tokens_sender sender i))"
  from ok obtain u1 s1 u2 s2 where m: "needs_migration E m s = (Inr u1, s1)"
    and c: "?check s1 = (Inr u2, s2)"
    and g: "bnd (get_symbols E) (\<lambda>syms. lift (check_symbol_exists x syms)) s2 = (Inr u, t)"
    unfolding mint_burn_allowed_def andthen_ok by blast
  have "pure_act ?check" by (intro pure_bnd pure_token_identity pure_lift)
  with m c have "s2 = s" using pure_act_state [OF pure_needs_migration] pure_act_state by metis
  with g obtain syms v where "get_symbols E s = (Inr syms, v)" and "x \<in> set syms"
    by (auto simp: bnd_ok lift_ok check_symbol_exists_def split: if_splits)
  then show ?thesis using get_symbols_eq [of E s "Inr syms" v] by (auto simp: known_def prod_eq_iff)
qed

text \<open>Requests that mint nothing for the anonymous address, where the claim is the exact one.\<close>

fun named_mints :: "bool \<Rightarrow> ('m, 'v, 'g) env \<Rightarrow> server_request \<Rightarrow> bool" where
  "named_mints exact E (ReqMint args) = (exact \<longrightarrow> (\<forall>a \<in> fst ` set (mi_distribution args). \<not> is_anonymous E a))"
| "named_mints exact E _ = True"

lemma any_mints: "named_mints False E = (\<lambda>_. True)"
proof
  show "named_mints False E req = True" for req by (cases req) simp_all
qed

lemma supply_change:
  assumes E: "supply_env E D" and s: "supply_sound ex x E D s" and k: "known E s x"
  shows "ex \<longrightarrow> (\<forall>a \<in> fst ` set d. \<not> is_anonymous E a) \<Longrightarrow> supply_sound ex x E D (snd (mint_token E x d s))"
    and "supply_sound ex x E D (snd (burn_token E x d s))"
proof -
  have e: "env_ok E" "store_ok E" "disk_ok E D" using E by (auto simp: supply_env_def plain_env_def)
  have sup: "supply_by ex E s x" using s by (simp add: supply_sound_def)
  have step: "supply_sound ex x E D (maybe_committed E (applied E b s))"
    if "supply_by ex E (maybe_committed E (applied E b s)) x" for b
    using disk_maybe_committed [OF e(3), of "applied E b s" "key_for_symbol E x"] e
    by (intro supply_sound_step [OF s that]) auto
  show "supply_sound ex x E D (snd (mint_token E x d s))" if "ex \<longrightarrow> (\<forall>a \<in> fst ` set d. \<not> is_anonymous E a)"
  proof (cases "fst (mint_token E x d s)")
    case (Inl er)
    then have "mint_token E x d s = (Inl er, snd (mint_token E x d s))" by (simp add: prod_eq_iff)
    from atomicD [OF mint_token_atomic [OF e(2)] this] s show ?thesis by simp
  next
    case (Inr u)
    then have "mint_token E x d s = (Inr u, snd (mint_token E x d s))" by (simp add: prod_eq_iff)
    from mint_token_ok [OF e(1) k this] step supply_minted [OF e(1) sup k that]
    show ?thesis by metis
  qed
  show "supply_sound ex x E D (snd (burn_token E x d s))"
  proof (cases "fst (burn_token E x d s)")
    case (Inl er)
    then have "burn_token E x d s = (Inl er, snd (burn_token E x d s))" by (simp add: prod_eq_iff)
    from atomicD [OF burn_token_atomic [OF e(2)] this] s show ?thesis by simp
  next
    case (Inr u)
    then have "burn_token E x d s = (Inr u, snd (burn_token E x d s))" by (simp add: prod_eq_iff)
    from burn_token_ok [OF e(1) k this] step supply_burnt [OF e(1) sup k]
    show ?thesis by metis
  qed
qed

text \<open>The request: checks that change nothing, then the change in a state where the checks held.\<close>

lemma kept_after: "I (snd (m s)) \<Longrightarrow> keeps I n \<Longrightarrow> I (snd (andthen m n s))"
  by (cases "m s"; cases "fst (m s)") (auto simp: run keeps_snd)

lemma supply_mint:
  assumes E: "supply_env E D" and P: "named_mints ex E (ReqMint args)"
  shows "keeps (supply_sound ex x E D) (mint E sender args)"
proof (cases "mi_symbol args = x")
  case False
  have "env_ok E" using E by (simp add: supply_env_def plain_env_def)
  note k = supply_keys_symbol [OF this False]
  show ?thesis by (rule frame_mint [OF supply_rests [OF E] supply_keys_apart(1) k(2,1)])
next
  case True
  note log = frame_log [OF supply_rests [OF E, of x] supply_keys_apart(1)]
  show ?thesis
    unfolding mint_def andthen_def [of "mint_burn_allowed E m sender x" for m x]
  proof (rule keeps_guarded [OF pure_mint_burn_allowed])
    fix s u
    assume a: "mint_burn_allowed E ''tokens.mint'' sender (mi_symbol args) s = (Inr u, s)"
      and s: "supply_sound ex x E D s"
    have "known E s x" using allowed_known [OF a] True by simp
    from supply_change(1) [OF E s this] P have "supply_sound ex x E D (snd (mint_token E x (mi_distribution args) s))"
      by simp
    then show "supply_sound ex x E D (snd (andthen (mint_token E (mi_symbol args)
        (mi_distribution args)) (log_event E (EvTokenMint (mi_symbol args) (mi_distribution args) (mi_memo args))) s))"
      unfolding True by (rule kept_after) (rule log)
  qed
qed

lemma supply_burn:
  assumes E: "supply_env E D"
  shows "keeps (supply_sound ex x E D) (burn E sender args)"
proof (cases "bu_symbol args = x")
  case False
  have "env_ok E" using E by (simp add: supply_env_def plain_env_def)
  note k = supply_keys_symbol [OF this False]
  show ?thesis by (rule frame_burn [OF supply_rests [OF E] supply_keys_apart(1) k(2,1)])
next
  case True
  note log = frame_log [OF supply_rests [OF E, of x] supply_keys_apart(1)]
  show ?thesis
    unfolding burn_def andthen_def [of "mint_burn_allowed E m sender x" for m x]
  proof (rule keeps_guarded [OF pure_mint_burn_allowed])
    fix s u
    assume a: "mint_burn_allowed E ''tokens.burn'' sender (bu_symbol args) s = (Inr u, s)"
      and s: "supply_sound ex x E D s"
    have "known E s x" using allowed_known [OF a] True by simp
    from supply_change(2) [OF E s this] have "supply_sound ex x E D (snd (andthen (burn_token E x (bu_distribution args))
        (andthen (log_event E (EvTokenBurn x (bu_distribution args) (bu_memo args)))
          (ret (bu_distribution args))) s))"
      by (rule kept_after) (intro keeps_andthen log keeps_ret)
    then show "supply_sound ex x E D (snd (andthen (unless (bu_error_on_under_burn args \<noteq> Some False)
        (Err (MintBurnError PartialBurnDisabled))) (andthen (burn_token E (bu_symbol args) (bu_distribution args))
        (andthen (log_event E (EvTokenBurn (bu_symbol args) (bu_distribution args) (bu_memo args)))
          (ret (bu_distribution args)))) s))"
      unfolding True using s by (simp add: unless_then throw_run)
  qed
qed

section \<open>The whole server\<close>

lemma supply_token_laws:
  assumes E: "supply_env E D"
  shows "token_laws E (named_mints ex E) (supply_sound ex x E D)"
proof -
  have "env_ok E" using E by (simp add: supply_env_def plain_env_def)
  note k = supply_keys_symbol [OF this]
  note R = supply_rests [OF E, of x]
  have "keeps (supply_sound ex x E D) (create_token E sender args)" for sender args
    using supply_next(2) [OF E] k supply_keys_apart(9)
    by (intro frame_create_token_keys [OF R supply_next(1) [OF E] supply_keys_apart(1,7)]) blast
  then have "keeps (supply_sound ex x E D) (run_token E sender req)" for sender req
    by (intro keeps_token_request supply_update [OF E] frame_ext_info [OF R supply_keys_apart(1)] supply_keys_apart(9))
  then show ?thesis
    unfolding token_laws_def using supply_mint [OF E] supply_burn [OF E] by blast
qed

interpretation sound: server_part supply_env "supply_sound ex x" "named_mints ex" "\<lambda>_ _. True" for ex x
proof (rule server_partI [where K = "supply_keys x" and num = False])
  fix E :: "('a, 'b, 'c) env" and D
  assume E: "supply_env E D"
  show "rests_on E D False (supply_keys x E) (supply_sound ex x E D) \<and> supply_keys x E \<inter> event_keys = {}"
    using supply_rests [OF E] supply_keys_apart by blast
  show "supply_keys x E \<inter> balance_keys E = {} \<and> DATA_ATTRIBUTES_KEY \<notin> supply_keys x E \<or>
      (\<forall>frm to y amount m. keeps (supply_sound ex x E D) (send E frm to y amount m))"
    using supply_send [OF E] by blast
  show "(supply_keys x E \<inter> counter_keys E = {} \<or> keeps (supply_sound ex x E D) (get_next_subresource E TOKEN_IDENTITY_ROOT)) \<and>
      supply_keys x E \<inter> all_token_keys E = {} \<and> supply_keys x E \<inter> balance_keys E = {} \<and> SYMBOLS_ROOT \<notin> supply_keys x E \<or>
      token_laws E (named_mints ex E) (supply_sound ex x E D)"
    using supply_token_laws [OF E] by blast
qed (simp_all add: supply_keys_apart)

end
