(* ===== verification/Promises.thy ===== *)
theory Promises
  imports Supply
begin

text \<open>
  The properties of the server as a whole. Each is about any sequence of requests to any module,
  multisig executions included, and of blocks at whose heights no migration starts; its proof is
  the reachability lemma of \<open>server_part\<close> at the interpretation for its promise. \<open>txs_ok\<close>
  says that the transactions in multisig entries are ones that can be decoded.
\<close>

section \<open>Properties\<close>

text \<open>
  C3. Accounts own themselves: if every account of the ledger has the owner role over itself, this is so
  in every state that the server reaches.
\<close>

theorem server_accounts_own_themselves:
  assumes "server_steps E (\<lambda>_. True) (\<lambda>_ _. True) s t"
    and "env_ok E" and "disk_ok E D" and "account_ok E" and "txs_ok E D s" and "self_owned E s"
  shows "self_owned E t"
  using owned.reachable [OF assms(1), of D] assms(2-6)
  by (simp add: owned.J_def account_env_def)

text \<open>
  C5. Disabling is final: the record of a disabled account is the same in every state that
  the server reaches, whoever asks for what.
\<close>

theorem server_disabled_account_stays:
  assumes "server_steps E (\<lambda>_. True) (\<lambda>_ _. True) s t"
    and "env_ok E" and "disk_ok E D" and "account_ok E" and "subresources_ok E" and "txs_ok E D s"
    and "accounts_issued E s" and "stored_account E s i = Some a" and "\<not> enabled a"
  shows "stored_account E t i = Some a"
  using disabled.reachable [OF assms(1), of a D i] assms(2-9)
  by (simp add: disabled.J_def account_env_def disabled_env_def still_stored_def)

text \<open>
  C7. Supply and balances agree on the whole server, whatever is asked of it. If a token's circulating
  and total supply are the sum of what its holders hold, then in every state the server reaches the two
  are equal and cover what the holders hold, and they are exactly that unless something was minted for the
  anonymous address, whose balance is always zero. The token migration is active and the token on
  the disk in the first state.
\<close>

theorem server_supply_exact:
  assumes "server_steps E (\<lambda>_. True) (\<lambda>_ _. True) s t"
    and "env_ok E" and "disk_ok E D" and "subresources_ok E" and "\<forall>a. valid_utf8 (show_address E a)"
    and "txs_ok E D s" and "token_migration_active E s"
    and "D (persistent_store s) (key_for_symbol E x) \<noteq> None" and "supply_exact E s x"
  shows "supply_covers E t x \<and>
    (server_steps E (named_mints True E) (\<lambda>_ _. True) s t \<longrightarrow> supply_exact E t x)"
proof -
  have r: "supply_by ex E t x" if "server_steps E (named_mints ex E) (\<lambda>_ _. True) s t" "supply_by ex E s x" for ex
    using sound.reachable [OF that(1), of D x] that(2) assms(2-8)
    by (simp add: sound.J_def supply_env_def plain_env_def supply_sound_def)
  show ?thesis
    using r [of False] r [of True] assms(1,9) supply_exact_covers [OF assms(9)] by (simp add: any_mints)
qed

text \<open>
  The commits of blocks that are not the first and logged at most \<open>2^32\<close> events: the event numbers,
  which name the multisig entries too, then go on from beyond the block. The first block's commit
  starts them anew (\<open>first_block_overwritten\<close>).
\<close>

definition later_block :: "('m, 'v, 'g) env \<Rightarrow> ('m, 'g) ledger \<Rightarrow> bool" where
  "later_block E s \<longleftrightarrow> (\<exists>h. counter_at E s HEIGHT_ROOT = Inr h \<and> unat h < 2 ^ 32 \<and>
     be_nat (latest_tid s) \<le> unat h * 2 ^ 32)"

lemma commit_number:
  assumes E: "env_ok E" "disk_ok E D" and c: "commit_block E s = (Inr i, t)"
    and h: "counter_at E s HEIGHT_ROOT = Inr h"
  shows "be_nat (latest_tid t) = unat (push_bit HEIGHT_EVENTID_SHIFT h)"
proof -
  have st: "store_ok E" and ev: "event_id_ok E" using E(1) by simp_all
  from c obtain u h' where u: "u = snd (check_timed_out_multisig_transactions E s)"
    and h': "counter_at E u HEIGHT_ROOT = Inr h'"
    and t: "latest_tid t = event_id_from E (push_bit HEIGHT_EVENTID_SHIFT h')"
    by (rule commit_block_ok [OF st])
  have root: "take (length MULTISIG_TRANSACTIONS_ROOT) HEIGHT_ROOT \<noteq> MULTISIG_TRANSACTIONS_ROOT"
    by (simp add: HEIGHT_ROOT_def MULTISIG_TRANSACTIONS_ROOT_def)
  have "h' = h"
    using h h' expiry_frame(1) [OF st E(2) root, of s] by (simp add: counter_at_def u)
  with t ev show ?thesis by simp
qed

lemma later_block_grows:
  assumes E: "env_ok E" "disk_ok E D" and c: "commit_block E s = (Inr i, t)" and l: "later_block E s"
  shows "numbers_grow s t"
proof -
  obtain h where h: "counter_at E s HEIGHT_ROOT = Inr h" "unat h < 2 ^ 32"
    and n: "be_nat (latest_tid s) \<le> unat h * 2 ^ 32"
    using l unfolding later_block_def by blast
  have "unat (push_bit HEIGHT_EVENTID_SHIFT h) = unat h * 2 ^ 32"
    using h(2) by (simp add: HEIGHT_EVENTID_SHIFT_def push_bit_eq_mult unat_word_ariths)
  with commit_number [OF E c h(1)] n show ?thesis by (simp add: numbers_grow_def)
qed

text \<open>
  C8. A multisig entry that is closed (executed, withdrawn or expired) stays closed, across requests and the
  blocks after the first, as long as a block logs at most \<open>2^32\<close> events and the event numbers, which name
  the entries, fit their 32 bytes. The commit of the first block is left out: it takes the event
  numbers back to the start, and a new entry can then replace a closed one (\<open>first_block_entry_replaced\<close>).
\<close>

theorem closed_entry_stays_closed:
  assumes "server_steps E (\<lambda>_. True) (\<lambda>u _. later_block E u) s t"
    and "env_ok E" and "disk_ok E D" and "txs_ok E D s" and "entries_below E D s"
    and "stored_multisig E s tok = Some x" and "ms_disabled x"
    and "be_nat (latest_tid t) + 1 < event_id_limit"
  shows "\<exists>y. stored_multisig E t tok = Some y \<and> ms_disabled y"
proof -
  have steps: "server_steps E (\<lambda>_. True) numbers_grow s t"
    by (rule server_steps_mono [OF assms(1)]) (auto intro: later_block_grows [OF assms(2,3)])
  have "entry_holds tok (closed_value E) E D s"
    using assms(5-7) by (auto simp: entry_holds_def closed_value_def stored_multisig_def
        split: option.splits sum.splits)
  then have "entry_holds tok (closed_value E) E D t"
    using closed.reachable [OF steps, of D tok] assms(2-4) by (simp add: closed.J_def plain_env_def)
  with assms(8) show ?thesis
    by (auto simp: entry_holds_def numbers_out_def closed_value_def stored_multisig_def)
qed

text \<open>
  What the first block's commit allows: the event number is back at the start, so the entry
  submitted next has the key of the first entry, and takes its place if that is closed.
\<close>

definition gives :: "('s, 'f, 'a) act \<Rightarrow> ('a \<Rightarrow> 's \<Rightarrow> bool) \<Rightarrow> bool" where
  "gives m Q \<longleftrightarrow> (\<forall>s r t. m s = (Inr r, t) \<longrightarrow> Q r t)"

lemma gives_bnd: "(\<And>x. gives (f x) Q) \<Longrightarrow> gives (bnd m f) Q"
  unfolding gives_def bnd_ok by blast

lemma gives_andthen: "gives n Q \<Longrightarrow> gives (andthen m n) Q"
  unfolding andthen_def by (rule gives_bnd)

lemma submitted_open:
  assumes E: "env_ok E"
  shows "gives (submitted_with E sender arg i)
    (\<lambda>tok t. tok = i \<and> (\<exists>y. stored_multisig E t i = Some y \<and> \<not> ms_disabled y))"
    (is "gives _ ?Q")
proof -
  have last: "gives (andthen (commit_multisig_transaction E i x) (andthen (log_event E ev) (ret i))) ?Q"
    if x: "\<not> ms_disabled x" for x ev
    unfolding gives_def
  proof (intro allI impI)
    fix s tok t
    assume "andthen (commit_multisig_transaction E i x) (andthen (log_event E ev) (ret i)) s = (Inr tok, t)"
    then have tok: "tok = i" and l: "log_event E ev (maybe_committed E (applied E
        [(key_for_multisig_transaction i, Put (enc_val (c_multisig E) x))] s)) = (Inr (), t)"
      by (auto simp: andthen_ok ret_ok commit_multisig_state [OF E])
    have "view E t (key_for_multisig_transaction i) = Some (enc_val (c_multisig E) x)"
      using log_event_frame [OF _ l, of "key_for_multisig_transaction i"] E by simp
    with x tok E show "?Q tok t" by (simp add: stored_multisig_def)
  qed
  show ?thesis
    unfolding submitted_with_def Let_def by (rule last gives_bnd gives_andthen)+ simp
qed

lemma first_block_entry_replaced:
  assumes E: "env_ok E" "disk_ok E D" and h: "counter_at E s HEIGHT_ROOT = Inr 0"
    and c: "commit_block E s = (Inr i, t)"
    and tok: "length tok \<le> 32" "be_nat tok = 1"
    and new: "create_multisig_transaction E sender arg t = (Inr tok', u)"
  shows "key_for_multisig_transaction tok' = key_for_multisig_transaction tok \<and>
    (\<exists>y. stored_multisig E u tok = Some y \<and> \<not> ms_disabled y)"
proof -
  have ev: "event_id_ok E" using E(1) by simp
  let ?i = "event_id_add E (latest_tid t) 1"
  have "be_nat (latest_tid t) = 0" using commit_number [OF E c h] by simp
  then have n: "be_nat ?i = 1" "length ?i \<le> 32"
    using ev by (auto intro!: event_id_fits simp: event_id_limit_def)
  from new have "submitted_with E sender arg ?i (t\<lparr>latest_tid := ?i\<rparr>) = (Inr tok', u)"
    by (simp add: create_multisig_transaction_def bnd_run new_event_id_run)
  with submitted_open [OF E(1), of sender arg ?i] obtain y where
      "tok' = ?i" "stored_multisig E u ?i = Some y" "\<not> ms_disabled y" unfolding gives_def by blast
  moreover have "key_for_multisig_transaction ?i = key_for_multisig_transaction tok"
    using n tok by (simp add: multisig_key_pad pad_id_eq_iff)
  ultimately show ?thesis by (simp add: stored_multisig_def)
qed

text \<open>
  Within a block a closed entry is not touched at all: its record, with its approvals, its
  response and the way it was closed, is the same until the next commit.
\<close>

lemma closed_entry_stays:
  assumes "server_steps E (\<lambda>_. True) (\<lambda>_ _. False) s t"
    and "env_ok E" and "disk_ok E D" and "txs_ok E D s" and "entries_below E D s"
    and "stored_multisig E s tok = Some x" and "ms_disabled x"
    and "be_nat (latest_tid t) + 1 < event_id_limit"
  shows "stored_multisig E t tok = Some x"
proof -
  obtain v where v: "view E s (key_for_multisig_transaction tok) = Some v" "dec (c_multisig E) v = Inr x"
    using assms(6) by (auto simp: stored_multisig_def split: option.splits sum.splits)
  then have "kept_env v E D" using assms(2,3,7) by (auto simp: kept_env_def plain_env_def closed_value_def)
  moreover have "entry_holds tok ((=) v) E D s" using v assms(5) by (auto simp: entry_holds_def)
  ultimately have "entry_holds tok ((=) v) E D t"
    using kept.reachable [OF assms(1), of v D tok] assms(4) by (simp add: kept.J_def)
  with v assms(8) show ?thesis by (auto simp: entry_holds_def numbers_out_def stored_multisig_def)
qed

text \<open>
  C16. No two tokens ever share a ticker: if the tickers of the symbols are distinct, they are in
  every state the server reaches.
\<close>

theorem server_tickers_unique:
  assumes "server_steps E (\<lambda>_. True) (\<lambda>_ _. True) s t"
    and "env_ok E" and "disk_ok E D" and "txs_ok E D s" and "tickers_unique E s"
  shows "tickers_unique E t"
  using tickers.reachable [OF assms(1), of D] assms(2-5)
  by (simp add: tickers.J_def plain_env_def)

text \<open>
  C23. A recall phrase that resolves to a credential resolves to it in every state the server reaches.
\<close>

theorem server_phrases_kept:
  assumes "server_steps E (\<lambda>_. True) (\<lambda>_ _. True) s t"
    and "env_ok E" and "disk_ok E D" and "codec_ok (c_credential E)" and "txs_ok E D s"
    and "resolves E s q c"
  shows "resolves E t q c"
  using phrases.reachable [OF assms(1), of D q c] assms(2-6)
  by (simp add: phrases.J_def phrase_env_def plain_env_def)

section \<open>Witnesses\<close>

lemma ref_txs_ok:
  assumes "\<forall>k \<in> fst ` set w. k \<notin> multisig_keys"
  shows "txs_ok ref_env (\<lambda>m. map_of (disk m)) (ref_ledger w g)"
  using assms by (auto simp: txs_ok_def dest: map_of_SomeD) (metis fst_conv image_eqI map_of_SomeD)+

lemma ref_txs:
  "txs_ok ref_env (\<lambda>m. map_of (disk m)) (ref_accounts d)"
  "txs_ok ref_env (\<lambda>m. map_of (disk m)) ref_tokens"
  "txs_ok ref_env (\<lambda>m. map_of (disk m)) ref_credential"
  unfolding ref_accounts_def ref_tokens_def ref_credential_def
  by (rule ref_txs_ok; simp add: multisig_keys_def root_defs key_defs idstore_key_def
      MULTISIG_TRANSACTIONS_ROOT_def IDSTORE_ROOT_def)+

lemma server_accounts_own_themselves_witness:
  "self_owned ref_env (snd (run_request ref_env 3 2 (ReqAccount (AccountDisable 600)) (ref_accounts None)))"
  by (rule server_accounts_own_themselves [OF server_steps_one ref_env_ok ref_disk_ok ref_account_ok
        ref_txs(1) ref_self_owned]) simp_all

lemma server_disabled_account_stays_witness:
  "stored_account ref_env (snd (run_request ref_env 3 2 (ReqAccount (AccountAddRoles \<lparr>ro_account = 600,
      ro_roles = [(3, [Owner])]\<rparr>)) (ref_accounts (Some (Inl True))))) 600 =
    Some (ref_account (Some (Inl True)))"
  by (rule server_disabled_account_stays [OF server_steps_one ref_env_ok ref_disk_ok ref_account_ok
        ref_subresources_ok ref_txs(1) ref_accounts_issued ref_stored_account])
    (simp_all add: ref_account_def enabled_def)

definition ref_supply_active :: "(ref_store, string list) ledger" where
  "ref_supply_active = ref_ledger [(SYMBOLS_ROOT, RSymbols [(7, ''MFX'')]),
     (key_for_symbol ref_env 7, RTokenInfo ref_info), (key_for_ext_info ref_env 7, RExtInfo []),
     (key_for_account_balance ref_env 2 7, RAmount 10)] [TOKEN_MIGRATION]"

lemma ref_supply_active_exact: "supply_exact ref_env ref_supply_active 7"
proof -
  have "view ref_env ref_supply_active k = view ref_env ref_supply k" for k
    by (simp add: ref_supply_active_def ref_supply_def)
  with ref_supply_exact show ?thesis
    by (metis supply_exact_cong)
qed

lemma server_supply_exact_witness:
  "supply_covers ref_env (snd (run_request ref_env 3 2 (ReqSend \<lparr>send_from = None, send_to = 3, send_symbol = 7,
     send_amount = 4, send_memo = None\<rparr>) ref_supply_active)) 7 \<and>
   supply_exact ref_env (snd (run_request ref_env 3 2 (ReqSend \<lparr>send_from = None, send_to = 3, send_symbol = 7,
     send_amount = 4, send_memo = None\<rparr>) ref_supply_active)) 7"
proof -
  let ?req = "ReqSend \<lparr>send_from = None, send_to = 3, send_symbol = 7, send_amount = 4, send_memo = None\<rparr>"
  have u: "\<forall>a. valid_utf8 (show_address ref_env a)" by (auto intro!: valid_utf8_ascii)
  have x: "txs_ok ref_env (\<lambda>m. map_of (disk m)) ref_supply_active"
    unfolding ref_supply_active_def
    by (rule ref_txs_ok) (simp add: multisig_keys_def root_defs key_defs MULTISIG_TRANSACTIONS_ROOT_def)
  have "server_steps ref_env (named_mints True ref_env) (\<lambda>_ _. True) ref_supply_active
      (snd (run_request ref_env 3 2 ?req ref_supply_active))"
    by (rule server_steps_one) simp_all
  moreover have "server_steps ref_env (\<lambda>_. True) (\<lambda>_ _. True) ref_supply_active
      (snd (run_request ref_env 3 2 ?req ref_supply_active))"
    by (rule server_steps_one) simp_all
  ultimately show ?thesis
    using server_supply_exact [OF _ ref_env_ok ref_disk_ok ref_subresources_ok u x _ _ ref_supply_active_exact]
    by (simp add: ref_supply_active_def token_migration_active_def del: run_request.simps)
qed

definition ref_closed :: "(ref_store, string list) ledger" where
  "ref_closed = ref_ledger [(key_for_multisig_transaction [CHR 0x01],
     RMultisig (disable_storage ExecutedManually (ref_due_entry 3)))] []"

lemma ref_closed_facts:
  shows "txs_ok ref_env (\<lambda>m. map_of (disk m)) ref_closed"
    and "entries_below ref_env (\<lambda>m. map_of (disk m)) ref_closed"
    and "stored_multisig ref_env ref_closed [CHR 0x01] = Some (disable_storage ExecutedManually (ref_due_entry 3))"
    and "ms_disabled (disable_storage ExecutedManually (ref_due_entry 3))"
    and "snd (run_request ref_env 3 2 (ReqMultisig (MultisigRevoke [CHR 0x01])) ref_closed) = ref_closed"
proof -
  show "txs_ok ref_env (\<lambda>m. map_of (disk m)) ref_closed"
    by (auto simp: txs_ok_def ref_closed_def ref_codecs tagged_def disable_storage_def ref_due_entry_def ref_ready_def ref_entry_def
        split: if_splits)
  show "entries_below ref_env (\<lambda>m. map_of (disk m)) ref_closed"
    by (auto simp: entries_below_def ref_closed_def multisig_key_pad be_nat_pad_id split: if_splits)
  show st: "stored_multisig ref_env ref_closed [CHR 0x01] = Some (disable_storage ExecutedManually (ref_due_entry 3))"
    by (simp add: stored_multisig_def ref_closed_def ref_codecs tagged_def)
  show dis: "ms_disabled (disable_storage ExecutedManually (ref_due_entry 3))" by (simp add: disable_storage_def)
  obtain r where r: "open_multisig ref_env [CHR 0x01] ref_closed = (r, ref_closed)"
    using pure_act_state [OF pure_open_multisig] by (cases "open_multisig ref_env [CHR 0x01] ref_closed") blast
  moreover have "r \<noteq> Inr (x, a)" for x a
    using r st dis by (auto simp: open_multisig_ok)
  then have "\<exists>e. r = Inl e" by (cases r) auto
  ultimately show "snd (run_request ref_env 3 2 (ReqMultisig (MultisigRevoke [CHR 0x01])) ref_closed) = ref_closed"
    by (auto simp: revoke_multisig_def run)
qed

lemma closed_entry_stays_closed_witness:
  "\<exists>y. stored_multisig ref_env (snd (run_request ref_env 3 2 (ReqMultisig (MultisigRevoke [CHR 0x01])) ref_closed))
     [CHR 0x01] = Some y \<and> ms_disabled y"
  by (rule closed_entry_stays_closed [OF server_steps_one ref_env_ok ref_disk_ok ref_closed_facts(1-4)])
    (simp_all add: ref_closed_facts(5) del: run_request.simps, simp add: ref_closed_def event_id_limit_def be_nat_def)

lemma closed_entry_stays_witness:
  "stored_multisig ref_env (snd (run_request ref_env 3 2 (ReqMultisig (MultisigRevoke [CHR 0x01])) ref_closed))
     [CHR 0x01] = Some (disable_storage ExecutedManually (ref_due_entry 3))"
  by (rule closed_entry_stays [OF server_steps_one ref_env_ok ref_disk_ok ref_closed_facts(1-4)])
    (simp_all add: ref_closed_facts(5) del: run_request.simps, simp add: ref_closed_def event_id_limit_def be_nat_def)

lemma server_tickers_unique_witness:
  "tickers_unique ref_env (snd (run_request ref_env 3 5 (ReqToken (TokenUpdate \<lparr>tu_symbol = 7, tu_name = None,
     tu_ticker = Some ''NEW'', tu_decimals = None, tu_owner = None, tu_memo = None\<rparr>)) ref_tokens))"
  by (rule server_tickers_unique [OF server_steps_one ref_env_ok ref_disk_ok ref_txs(2) ref_tokens_unique]) simp_all

lemma server_phrases_kept_witness:
  "resolves ref_env (snd (run_request ref_env 3 2 (ReqStore 3 (replicate 16 (CHR ''x'')) ''pk'') ref_credential))
     [''b''] (''c'', ''k'')"
  by (rule server_phrases_kept [OF server_steps_one ref_env_ok ref_disk_ok _ ref_txs(3) ref_credential_resolves])
    simp_all

end
