(* ===== verification/ClientProps.thy ===== *)
theory ClientProps
  imports Client Promises
begin

text \<open>
  What the clients promise: a command sent over the bridge is answered with what the server
  answered; waiting ends; names of symbols are resolved alike everywhere.
\<close>

section \<open>Polling\<close>

text \<open>The token has no answer yet; a second passes between two questions.\<close>

definition still_open :: "('w, 'e, 'x) client \<Rightarrow> bytes \<Rightarrow> 'w \<Rightarrow> bool" where
  "still_open C tok w \<longleftrightarrow> (\<exists>r data. fst (cl_call C ''async.status'' (StatusArgs tok) w) = Inr r \<and>
     rm_data r = Inr data \<and> dec_status C data = Inr StillOpen)"

definition second_later :: "('w, 'e, 'x) client \<Rightarrow> bytes \<Rightarrow> 'w \<Rightarrow> 'w" where
  "second_later C tok w = cl_sleep C (snd (cl_call C ''async.status'' (StatusArgs tok) w))"

lemma poll_again:
  assumes "still_open C tok w"
  shows "poll C W tok (Suc n) w = poll C W tok n (second_later C tok w)"
  using assms by (auto simp: still_open_def second_later_def ask_def run split: prod.splits)

lemma poll_open:
  assumes "k \<le> n" and "\<And>j. j < k \<Longrightarrow> still_open C tok ((second_later C tok ^^ j) w)"
  shows "poll C W tok n w = poll C W tok (n - k) ((second_later C tok ^^ k) w)"
  using assms
proof (induction k)
  case (Suc k)
  then have n: "n - k = Suc (n - Suc k)" by simp
  have "poll C W tok n w = poll C W tok (n - k) ((second_later C tok ^^ k) w)"
    using Suc by simp
  also have "\<dots> = poll C W tok (n - Suc k) ((second_later C tok ^^ Suc k) w)"
    unfolding n using poll_again [OF Suc.prems(2) [of k], of W "n - Suc k"] by simp
  finally show ?case .
qed simp

text \<open>An answer of the server itself: data, or an error, and no token to wait for.\<close>

definition answer_of :: "'x response_message \<Rightarrow> bytes res" where
  "answer_of m = from_many (rm_data m)"

lemma waiting_answer:
  assumes "async_attribute C m = None"
  shows "waiting C W m w = Some (answer_of m, w)"
  using assms by (subst waiting.simps) (auto simp: answer_of_def split: sum.split)

lemma waiting_polls:
  assumes "rm_data r = Inr []" and "async_attribute C r = Some tok"
    and "k < 60" and "\<And>j. j < k \<Longrightarrow> still_open C tok ((second_later C tok ^^ j) w)"
    and "poll C W tok (60 - k) ((second_later C tok ^^ k) w) = (Inr (Answered m), w')"
    and "async_attribute C m = None"
  shows "wait_response C W r w = (answer_of m, w')"
proof -
  have "poll C W tok 60 w = (Inr (Answered m), w')"
    using poll_open [of k 60 C tok w W] assms(3-5) by simp
  then have "waiting C W r w = waiting C W m w'"
    using assms(1,2) by (subst waiting.simps) simp
  then show ?thesis using waiting_answer [OF assms(6)] by (simp add: wait_response_def)
qed

section \<open>Over the bridge\<close>

text \<open>
  Messages survive being written and read. A response has the data it was made with; the token
  put in it is the one the client reads.
\<close>

definition wire_ok :: "('w, 'e, 'x) client \<Rightarrow> ('e, 'x) wire \<Rightarrow> bool" where
  "wire_ok C W \<longleftrightarrow>
     (\<forall>r k env. encode_response W r k = Inr env \<longrightarrow> decode_response W env = Inr r \<and>
        (\<exists>p. envelope_payload W env = Some p \<and> message_from_bytes W p = Inr r)) \<and>
     (\<forall>m b. message_to_bytes W m = Inr b \<longrightarrow> message_from_bytes W b = Inr m) \<and>
     (\<forall>env b. envelope_to_vec W env = Inr b \<longrightarrow> envelope_from_slice W b = Inr env) \<and>
     (\<forall>m a d. rm_data (from_request W m a d) = d) \<and>
     (\<forall>r tok. rm_data (with_async W r tok) = rm_data r) \<and>
     (\<forall>r tok. async_attribute C (with_async W r tok) = Some tok)"

text \<open>
  The client talks to a bridge: a request is put into an envelope and handed to the front end,
  the state of a token is asked of the module for it, which leaves the node as it is.
\<close>

definition over_bridge :: "('n, 'e, 'x) client \<Rightarrow> ('e, 'x) wire \<Rightarrow> frontend \<Rightarrow> 'n node \<Rightarrow>
    (string \<Rightarrow> client_args \<Rightarrow> 'e) \<Rightarrow> bool" where
  "over_bridge C W F N envelope_of \<longleftrightarrow>
     (\<forall>method args n env n'. method \<noteq> ''async.status'' \<longrightarrow>
        bridge_execute W F N (envelope_of method args) n = (Inr (Inr env), n') \<longrightarrow>
        cl_call C method args n = (decode_response W env, n')) \<and>
     (\<forall>tok n x. async_status W N tok n = Inr x \<longrightarrow>
        (\<exists>r data. cl_call C ''async.status'' (StatusArgs tok) n = (Inr r, n) \<and> rm_data r = Inr data \<and>
          dec_status C data = Inr (case x of None \<Rightarrow> StillOpen | Some env \<Rightarrow> AnswerDone env)))"

text \<open>What the front end answers to a command: no data, and the token.\<close>

definition queued :: "('e, 'x) wire \<Rightarrow> frontend \<Rightarrow> request_message \<Rightarrow> bytes \<Rightarrow> 'x response_message" where
  "queued W F m hsh = with_async W (from_request W m (fe_identity F) (Inr [])) hsh"

lemma bridge_sends:
  assumes "wire_ok C W" and "decode_request W e = Inr m" and "map_of (backend_endpoints F) (rq_method m) = Some True"
    and "addr_allowed F (rq_from m)" and "envelope_to_vec W e = Inr data"
    and "broadcast_tx_sync N data n = (Inr hsh, n')" and "encode_response W (queued W F m hsh) ServerKey = Inr env"
  shows "bridge_execute W F N e n = (Inr (Inr env), n')" and "decode_response W env = Inr (queued W F m hsh)"
proof -
  show "decode_response W env = Inr (queued W F m hsh)" using assms(1,7) unfolding wire_ok_def by blast
  have "execute_message W F N e n = (Inr env, n')"
    using assms(2-6) assms(7) [unfolded queued_def] by (simp add: execute_message_def run Let_def)
  then show "bridge_execute W F N e n = (Inr (Inr env), n')" by (simp add: bridge_execute_def run)
qed

lemma bridge_status_open:
  assumes B: "over_bridge C W F N envelope_of" and "length tok = 32" and "node_tx N tok n = Inl err"
  shows "still_open C tok n" and "second_later C tok n = cl_sleep C n"
proof -
  have "async_status W N tok n = Inr None" using assms(2,3) by (simp add: async_status_def)
  then obtain r data where "cl_call C ''async.status'' (StatusArgs tok) n = (Inr r, n)" "rm_data r = Inr data"
      "dec_status C data = Inr StillOpen"
    using B unfolding over_bridge_def by (metis option.simps(4))
  then show "still_open C tok n" and "second_later C tok n = cl_sleep C n"
    by (auto simp: still_open_def second_later_def)
qed

lemma bridge_status_done:
  assumes W: "wire_ok C W" and B: "over_bridge C W F N envelope_of" and "length tok = 32"
    and "node_tx N tok n = Inr tx" and "message_from_bytes W (ta_result_data tx) = Inr m"
    and "encode_response W m NoKey = Inr env"
  shows "poll C W tok (Suc j) n = (Inr (Answered m), n)"
proof -
  obtain p where env: "envelope_payload W env = Some p" "message_from_bytes W p = Inr m"
    using W assms(6) unfolding wire_ok_def by blast
  have "async_status W N tok n = Inr (Some env)"
    using assms(3-6) by (simp add: async_status_def)
  then obtain r data where "cl_call C ''async.status'' (StatusArgs tok) n = (Inr r, n)" "rm_data r = Inr data"
      "dec_status C data = Inr (AnswerDone env)"
    using B unfolding over_bridge_def by (metis option.simps(5))
  with env show ?thesis by (simp add: ask_def run done_message_def)
qed

section \<open>Names of symbols\<close>

lemma first_named_map_of: "first_named x names = map_of (map (\<lambda>(a, b). (b, a)) names) x"
  by (induction names) (auto simp: first_named_def)

lemma by_name_map_of:
  assumes "distinct (map snd names)"
  shows "map_of (by_name names) x = first_named x names"
proof -
  let ?r = "map (\<lambda>(a, b). (b, a)) names"
  have d: "distinct (map fst ?r)" using assms by (simp add: o_def split_def)
  have "distinct (map fst (by_name names))" unfolding by_name_def by (intro bt_ok_distinct) simp
  then have "map_of (by_name names) x = Some a \<longleftrightarrow> (x, a) \<in> set (by_name names)" for a by simp
  moreover have "set (by_name names) = set ?r" unfolding by_name_def using d by (rule set_bt_collect)
  moreover have "map_of ?r x = Some a \<longleftrightarrow> (x, a) \<in> set ?r" for a using d by simp
  ultimately show ?thesis unfolding first_named_map_of by (metis option.exhaust)
qed

section \<open>Properties\<close>

text \<open>
  Waiting ends: if sixty questions for the token find no answer, the client gives up with an
  error, after exactly sixty questions and sixty seconds.
\<close>

lemma waiting_gives_up:
  assumes "rm_data r = Inr []" and "async_attribute C r = Some tok"
    and "\<forall>j < 60. still_open C tok ((second_later C tok ^^ j) w)"
  shows "wait_response C W r w =
    (Inl (Err (Unknown ''Transport timed out waiting for async result.'')), (second_later C tok ^^ 60) w)"
proof -
  have "poll C W tok 60 w = (Inr Unanswered, (second_later C tok ^^ 60) w)"
    using poll_open [of 60 60 C tok w W] assms(3) by (simp add: ret_run del: funpow.simps)
  then have "waiting C W r w = Some (Inl (Err (Unknown ''Transport timed out waiting for async result.'')),
      (second_later C tok ^^ 60) w)"
    using assms(1,2) by (subst waiting.simps) (simp del: funpow.simps)
  then show ?thesis by (simp add: wait_response_def del: funpow.simps)
qed

text \<open>
  C32. A command over the bridge is answered with what the server answered, or given up after a minute.
  The client broadcasts it and asks for its token every second. When the node has the transaction
  before the sixtieth second, the client returns the data, or the error, that the server behind the
  bridge gave when the block was delivered; when the block comes later, the client has given up with an
  error after sixty questions, although the command was executed.
\<close>

theorem command_answered:
  assumes W: "wire_ok C W" and B: "over_bridge C W F N envelope_of" and "method \<noteq> ''async.status''"
    and cmd: "decode_request W (envelope_of method args) = Inr m"
      "map_of (backend_endpoints F) (rq_method m) = Some True" "addr_allowed F (rq_from m)"
      "envelope_to_vec W (envelope_of method args) = Inr data"
      "broadcast_tx_sync N data n = (Inr hsh, n1)" "encode_response W (queued W F m hsh) ServerKey = Inr env"
      "length hsh = 32"
    and wait: "\<forall>j < k. \<exists>e. node_tx N hsh ((cl_sleep C ^^ j) n1) = Inl e"
      "node_tx N hsh ((cl_sleep C ^^ k) n1) = Inr tx"
    and block: "ta_result_data tx = tr_data (fst (deliver_tx W S data u))" "tr_code (fst (deliver_tx W S data u)) = 0"
      "fst (srv_send S (envelope_of method args) u) = Inr reply"
      "async_attribute C (consensus_form W (received W reply)) = None"
      "encode_response W (consensus_form W (received W reply)) NoKey = Inr env'"
  shows "request C W method args n = (if k < 60 then (answer_of (received W reply), (cl_sleep C ^^ k) n1)
    else (Inl (Err (Unknown ''Transport timed out waiting for async result.'')), (cl_sleep C ^^ 60) n1))"
proof -
  let ?c = "consensus_form W (received W reply)"
  let ?r = "queued W F m hsh"
  note env = bridge_sends [OF W cmd(1-6)]
  have ask: "ask C method args n = (Inr ?r, n1)"
    using B env assms(3) unfolding over_bridge_def by (simp add: ask_def)
  have r: "rm_data ?r = Inr []" "async_attribute C ?r = Some hsh" using W by (simp_all add: wire_ok_def queued_def)
  have "envelope_from_slice W data = Inr (envelope_of method args)" using W cmd(4) unfolding wire_ok_def by blast
  then obtain b where b: "message_to_bytes W ?c = Inr b" "tr_data (fst (deliver_tx W S data u)) = b"
    using block(2,3) by (auto simp: deliver_tx_def split: prod.splits sum.splits)
  then have m: "message_from_bytes W (ta_result_data tx) = Inr ?c"
    using W block(1) unfolding wire_ok_def by simp
  have later: "(second_later C hsh ^^ j) n1 = (cl_sleep C ^^ j) n1" if "j \<le> k" for j
    using that
  proof (induction j)
    case (Suc j)
    then obtain e where "node_tx N hsh ((cl_sleep C ^^ j) n1) = Inl e" using wait(1) by fastforce
    from bridge_status_open(2) [OF B cmd(7) this] Suc show ?case by simp
  qed simp
  have op: "still_open C hsh ((second_later C hsh ^^ j) n1)" if "j < k" for j
  proof -
    obtain e where "node_tx N hsh ((cl_sleep C ^^ j) n1) = Inl e" using wait(1) \<open>j < k\<close> by blast
    from bridge_status_open(1) [OF B cmd(7) this] later [of j] that show ?thesis by simp
  qed
  show ?thesis
  proof (cases "k < 60")
    case False
    then have "\<forall>j < 60. still_open C hsh ((second_later C hsh ^^ j) n1)" using op by simp
    from waiting_gives_up [OF r this] later [of 60] False ask show ?thesis
      by (simp add: request_def bnd_run del: funpow.simps)
  next
    case True
    have n: "60 - k = Suc (59 - k)" using True by simp
    have "poll C W hsh (60 - k) ((second_later C hsh ^^ k) n1) = (Inr (Answered ?c), (cl_sleep C ^^ k) n1)"
      unfolding n using bridge_status_done [OF W B cmd(7) wait(2) m block(5)] later [of k] by simp
    from waiting_polls [OF r True op this block(4)]
    have "wait_response C W ?r n1 = (answer_of ?c, (cl_sleep C ^^ k) n1)" by simp
    moreover have "answer_of ?c = answer_of (received W reply)" by (simp add: answer_of_def consensus_form_def)
    ultimately show ?thesis using ask True by (simp add: request_def bnd_run)
  qed
qed

text \<open>
  Names of symbols mean the same everywhere: \<open>send\<close> takes the first symbol of a name, \<open>balance\<close>,
  \<open>mint\<close> and \<open>burn\<close> look it up in the inverted map, and as the ledger's tickers are unique they
  all find the symbol that has the ticker.
\<close>

lemma names_resolve_alike:
  assumes "env_ok E" and "tickers_unique E s" and "symbols_at E s = Some names"
    and "cl_call_data C ''ledger.info'' NoArgs w = (Inr data, w')" and "dec_ledger_info C data = Inr names"
    and "parse_address C x = Inl e"
  shows "(fst (cli_resolve_symbol C x w) = Inr a \<longleftrightarrow> (a, x) \<in> set names) \<and>
    (fst (token_named C x w) = Inr a \<longleftrightarrow> (a, x) \<in> set names) \<and>
    (named_symbol C names x = Inr a \<longleftrightarrow> (a, x) \<in> set names)"
proof -
  have d: "distinct (map snd names)" using assms(2,3) by (auto simp: tickers_unique_def)
  then have "distinct (map fst (map (\<lambda>(a, b). (b, a)) names))" by (simp add: o_def split_def)
  then have f: "first_named x names = Some a \<longleftrightarrow> (a, x) \<in> set names"
    unfolding first_named_map_of by (subst map_of_eq_Some_iff) auto
  note b = by_name_map_of [OF d, of x]
  have names: "local_names C w = (Inr names, w')"
    using assms(4,5) by (simp add: local_names_def ask_data_def run)
  show ?thesis
    using names assms(6) f b by (cases "first_named x names")
      (auto simp: cli_resolve_symbol_def token_named_def named_symbol_def bnd_run lift_run ok_or_def)
qed

text \<open>
  C38. A burn without the flag \<open>--error-on-under-burn\<close> can never succeed: the client sends \<open>false\<close>
  when the flag is absent, and the server refuses every burn that asks for partial burning.
\<close>

theorem burn_needs_flag:
  "\<exists>e. burn E sender (burn_request x d m False) s = (Inl e, s)"
proof -
  obtain r t where r: "mint_burn_allowed E ''tokens.burn'' sender x s = (r, t)" by fastforce
  with pure_act_state [OF pure_mint_burn_allowed] have "t = s" .
  with r have "mint_burn_allowed E ''tokens.burn'' sender x s = (r, s)" by simp
  then show ?thesis
    by (cases r) (simp_all add: burn_def burn_request_def andthen_run [of "mint_burn_allowed E m' i y" for m' i y]
      andthen_run [of "unless c f" for c f] unless_run)
qed

section \<open>Witnesses\<close>

text \<open>
  A bridge whose envelopes are a request or the bytes of a response, a node that counts the seconds
  and has every transaction in a block after three, and a server that answers every envelope with
  the same data. Other transactions are in no block. A response is written as its sender, whether it has a time and a token, and its data.
\<close>

type_synonym ex_envelope = "request_message + bytes"
type_synonym ex_response = "bytes option response_message"

definition ex_reply :: "nat \<Rightarrow> timestamp option \<Rightarrow> bytes option \<Rightarrow> bytes \<Rightarrow> ex_response" where
  "ex_reply a t tok d = \<lparr>rm_version = None, rm_from = a, rm_data = Inr d, rm_timestamp = t, rm_rest = tok\<rparr>"

definition ex_write :: "ex_response \<Rightarrow> string + bytes" where
  "ex_write m = (case (rm_data m, rm_rest m) of
     (Inr d, None) \<Rightarrow>
       if m = ex_reply (of_char (char_of (rm_from m))) (Some 0) None d
       then Inr (char_of (rm_from m) # CHR 0x00 # d) else Inl ''unsupported''
   | (Inr d, Some tok) \<Rightarrow>
       if m = ex_reply (of_char (char_of (rm_from m))) None (Some tok) [] \<and> d = []
       then Inr (char_of (rm_from m) # CHR 0x01 # tok) else Inl ''unsupported''
   | _ \<Rightarrow> Inl ''unsupported'')"

definition ex_read :: "bytes \<Rightarrow> string + ex_response" where
  "ex_read b = (case b of
     a # k # d \<Rightarrow> Inr (if k = CHR 0x00 then ex_reply (of_char a) (Some 0) None d
       else ex_reply (of_char a) None (Some d) [])
   | _ \<Rightarrow> Inl ''eof'')"

definition ex_bridge :: "(ex_envelope, bytes option) wire" where
  "ex_bridge = \<lparr>decode_request = (\<lambda>e. case e of Inl m \<Rightarrow> Inr m | Inr _ \<Rightarrow> Inl InvalidIdentity),
     decode_response = (\<lambda>e. case e of Inl _ \<Rightarrow> Inl InvalidIdentity
       | Inr b \<Rightarrow> (case ex_read b of Inl x \<Rightarrow> Inl (Unknown x) | Inr m \<Rightarrow> Inr m)),
     encode_request = (\<lambda>m. Inr (Inl m)),
     encode_response = (\<lambda>m _. case ex_write m of Inl x \<Rightarrow> Inl (Unknown x) | Inr b \<Rightarrow> Inr (Inr b)),
     from_request = (\<lambda>_ a d. \<lparr>rm_version = None, rm_from = a, rm_data = d, rm_timestamp = None, rm_rest = None\<rparr>),
     with_async = (\<lambda>m tok. m\<lparr>rm_rest := Some tok\<rparr>),
     error_message = (\<lambda>a e. \<lparr>rm_version = None, rm_from = a, rm_data = Inl e, rm_timestamp = None, rm_rest = None\<rparr>),
     envelope_to_vec = (\<lambda>e. case e of Inl m \<Rightarrow>
         if rq_from m = of_char (char_of (rq_from m) :: char) then Inr (char_of (rq_from m) # rq_method m) else Inl ''unsupported''
       | Inr _ \<Rightarrow> Inl ''unsupported''),
     envelope_from_slice = (\<lambda>b. case b of [] \<Rightarrow> Inl ''eof''
       | c # x \<Rightarrow> Inr (Inl \<lparr>rq_from = of_char c, rq_method = x\<rparr>)),
     envelope_payload = (\<lambda>e. case e of Inl _ \<Rightarrow> None | Inr b \<Rightarrow> Some b),
     message_from_bytes = ex_read, message_to_bytes = ex_write,
     message_default = ex_reply 0 None None [],
     dec_init = (\<lambda>_. Inl ''eof''), dec_info = (\<lambda>_. Inl ''eof''), dec_commit = (\<lambda>_. Inl ''eof''),
     unexpected_transport_error = Unknown, abci_transport_error = Unknown, unknown_block = InvalidIdentity,
     many_error_show = (\<lambda>_. ''error''), anonymous = 0, epoch = 0, new_timestamp = (\<lambda>t. Inr (unat t)),
     sha256 = id, genesis = ([], 0), abci_attribute_id = 1000, pkg_version = ''0.1.0''\<rparr>"

definition ex_backend :: "(ex_envelope, unit) server" where
  "ex_backend = \<lparr>srv_call = (\<lambda>_ w. (Inl InvalidIdentity, w)),
     srv_send = (\<lambda>_ w. (Inr (Inr (CHR 0x05 # CHR 0x00 # ''done'')), w))\<rparr>"

definition ex_frontend :: frontend where
  "ex_frontend = \<lparr>backend_status = \<lparr>st_name = ''many-ledger'', st_version = 1, st_identity = 7, st_public_key = None,
       st_attributes = [], st_server_version = ''0.1.0''\<rparr>,
     fe_identity = 9, fe_public_key = None, backend_endpoints = [(''ledger.send'', True)], fe_allow_addrs = None\<rparr>"

definition ex_hash :: bytes where
  "ex_hash = replicate 32 (CHR ''h'')"

definition ex_chain :: "nat node" where
  "ex_chain = \<lparr>broadcast_tx_sync = (\<lambda>_ n. (Inr ex_hash, n)), abci_query = (\<lambda>_ n. (Inl ''closed'', n)),
     node_tx = (\<lambda>h n. if h \<noteq> ex_hash \<or> n < 3 then Inl ''not found''
       else Inr \<lparr>ta_hash = ex_hash, ta_tx = [], ta_result_data = CHR 0x00 # CHR 0x00 # ''done''\<rparr>),
     node_status = (\<lambda>_. Inl ''closed''), node_block_by_hash = (\<lambda>_ _. Inl ''closed''),
     node_block = (\<lambda>_ _. Inl ''closed''), node_block_search = (\<lambda>_ _ _ _ _. Inl ''closed'')\<rparr>"

definition ex_envelope_of :: "string \<Rightarrow> client_args \<Rightarrow> ex_envelope" where
  "ex_envelope_of method args = Inl \<lparr>rq_from = 2, rq_method = method\<rparr>"

definition ex_call :: "string \<Rightarrow> client_args \<Rightarrow> nat \<Rightarrow> (many_error + ex_response) \<times> nat" where
  "ex_call method args n =
     (if method = ''async.status'' then
        (case args of
           StatusArgs tok \<Rightarrow> (case async_status ex_bridge ex_chain tok n of
               Inr None \<Rightarrow> (Inr (ex_reply 9 None None ''0''), n)
             | Inr (Some (Inr b)) \<Rightarrow> (Inr (ex_reply 9 None None (CHR ''1'' # b)), n)
             | _ \<Rightarrow> (Inl InvalidIdentity, n))
         | _ \<Rightarrow> (Inl InvalidIdentity, n))
      else (case bridge_execute ex_bridge ex_frontend ex_chain (ex_envelope_of method args) n of
          (Inr (Inr env), n') \<Rightarrow> (decode_response ex_bridge env, n') | (_, n') \<Rightarrow> (Inl InvalidIdentity, n')))"

definition ex_client :: "(nat, ex_envelope, bytes option) client" where
  "ex_client = \<lparr>cl_call = ex_call, cl_call_data = (\<lambda>_ _ n. (Inr ''info'', n)), cl_sleep = Suc, async_attribute = rm_rest,
     dec_status = (\<lambda>b. case b of [] \<Rightarrow> Inl ''eof''
       | c # x \<Rightarrow> Inr (if c = CHR ''0'' then StillOpen else AnswerDone (Inr x))),
     dec_kv_get = (\<lambda>b. if b = [] then Inl ''eof'' else Inr (if hd b = CHR ''0'' then None else Some (tl b))),
     dec_kv_query = (\<lambda>_. Inl ''eof''), dec_ledger_info = (\<lambda>_. Inr [(7, ''MFX'')]), dec_balance = (\<lambda>_. Inl ''eof''),
     dec_return = (\<lambda>_ b. Inr b), dec_submit_token = Inr, empty_response = InvalidIdentity,
     parse_address = (\<lambda>_. Inl ''invalid''), print_address = (\<lambda>_. ''m''), anonymous_address = (\<lambda>a. a = 0),
     print_reason = snd, print_amount = (\<lambda>_. ''1''), hex_of = id, of_hex = Inr, memo_of = (\<lambda>_. None),
     legacy_memo_of = Some, new_index = (\<lambda>n. [unat n]), new_ext_info = [], info_with_memo = (\<lambda>_ _. None),
     info_with_logo = (\<lambda>_ _. None), unicode_logo = (\<lambda>_. []), image_logo = (\<lambda>_ b. b), mime_type = (\<lambda>_. None),
     file_bytes = (\<lambda>_. Inl ''not found'')\<rparr>"

lemma ex_write_read: "ex_write m = Inr b \<Longrightarrow> ex_read b = Inr m"
  by (auto simp: ex_write_def ex_read_def split: sum.splits option.splits if_splits)

lemma ex_bridge_ok: "wire_ok ex_client ex_bridge"
  unfolding wire_ok_def ex_bridge_def ex_client_def
  by (auto simp: ex_write_read split: sum.splits if_splits)

lemma ex_over_bridge: "over_bridge ex_client ex_bridge ex_frontend ex_chain ex_envelope_of"
proof -
  have "\<exists>b. x = Some (Inr b)" if "async_status ex_bridge ex_chain tok n = Inr x" "x \<noteq> None" for tok n x
    using that by (auto simp: async_status_def ex_bridge_def rbind_ok map_err_ok split: if_splits sum.splits)
  then have "\<exists>r data. ex_call ''async.status'' (StatusArgs tok) n = (Inr r, n) \<and> rm_data r = Inr data \<and>
      dec_status ex_client data = Inr (case x of None \<Rightarrow> StillOpen | Some env \<Rightarrow> AnswerDone env)"
    if "async_status ex_bridge ex_chain tok n = Inr x" for tok n x
    using that by (cases x) (fastforce simp: ex_call_def ex_reply_def ex_client_def)+
  moreover have "cl_call ex_client = ex_call" by (simp add: ex_client_def)
  ultimately show ?thesis unfolding over_bridge_def by (simp add: ex_call_def)
qed

lemma ex_received: "received ex_bridge (Inr (CHR 0x05 # CHR 0x00 # ''done'')) = ex_reply 5 (Some 0) None ''done''"
  by (simp add: received_def ex_bridge_def ex_read_def)

lemma ex_consensus: "consensus_form ex_bridge (ex_reply 5 (Some 0) None ''done'') = ex_reply 0 (Some 0) None ''done''"
  by (simp add: consensus_form_def ex_bridge_def ex_reply_def)

lemma ex_encode: "encode_response ex_bridge m k = (case ex_write m of Inl x \<Rightarrow> Inl (Unknown x) | Inr b \<Rightarrow> Inr (Inr b))"
  by (simp add: ex_bridge_def)

lemma ex_write_answer: "ex_write (ex_reply 0 (Some 0) None ''done'') = Inr (CHR 0x00 # CHR 0x00 # ''done'')"
  by (simp add: ex_write_def ex_reply_def char_of_def bit_0)

lemma ex_write_queued: "ex_write (queued ex_bridge ex_frontend m ex_hash) = Inr (CHR 0x09 # CHR 0x01 # ex_hash)"
  by (simp add: queued_def ex_bridge_def ex_write_def ex_reply_def ex_frontend_def char_of_def bit_0)

lemma ex_deliver: "deliver_tx ex_bridge ex_backend (CHR 0x02 # ''ledger.send'') () =
    (\<lparr>tr_code = 0, tr_data = CHR 0x00 # CHR 0x00 # ''done'', tr_log = []\<rparr>, ())"
proof -
  have "envelope_from_slice ex_bridge (CHR 0x02 # ''ledger.send'') = Inr (Inl \<lparr>rq_from = 2, rq_method = ''ledger.send''\<rparr>)"
    "\<And>m. message_to_bytes ex_bridge m = ex_write m"
    by (simp_all add: ex_bridge_def)
  then show ?thesis by (simp add: deliver_tx_def ex_backend_def ex_received ex_consensus ex_write_answer)
qed

theorem command_answered_witness:
  "request ex_client ex_bridge ''ledger.send'' NoArgs 0 = (Inr ''done'', 3)"
proof -
  have "request ex_client ex_bridge ''ledger.send'' NoArgs 0 = (if (3 :: nat) < 60
      then (answer_of (received ex_bridge (Inr (CHR 0x05 # CHR 0x00 # ''done''))), (cl_sleep ex_client ^^ 3) 0)
      else (Inl (Err (Unknown ''Transport timed out waiting for async result.'')), (cl_sleep ex_client ^^ 60) 0))"
  proof (rule command_answered [OF ex_bridge_ok ex_over_bridge, where S = ex_backend and u = "()" and hsh = ex_hash
        and m = "\<lparr>rq_from = 2, rq_method = ''ledger.send''\<rparr>" and data = "CHR 0x02 # ''ledger.send''"
        and tx = "\<lparr>ta_hash = ex_hash, ta_tx = [], ta_result_data = CHR 0x00 # CHR 0x00 # ''done''\<rparr>"
        and env = "Inr (CHR 0x09 # CHR 0x01 # ex_hash)" and reply = "Inr (CHR 0x05 # CHR 0x00 # ''done'')"
        and env' = "Inr (CHR 0x00 # CHR 0x00 # ''done'')"])
    show "encode_response ex_bridge (queued ex_bridge ex_frontend \<lparr>rq_from = 2, rq_method = ''ledger.send''\<rparr> ex_hash)
        ServerKey = Inr (Inr (CHR 0x09 # CHR 0x01 # ex_hash))"
      by (simp add: ex_encode ex_write_queued)
    show "encode_response ex_bridge
        (consensus_form ex_bridge (received ex_bridge (Inr (CHR 0x05 # CHR 0x00 # ''done'')))) NoKey =
        Inr (Inr (CHR 0x00 # CHR 0x00 # ''done''))"
      by (simp add: ex_received ex_consensus ex_encode ex_write_answer)
    show "async_attribute ex_client
        (consensus_form ex_bridge (received ex_bridge (Inr (CHR 0x05 # CHR 0x00 # ''done'')))) = None"
      unfolding ex_received ex_consensus by (simp add: ex_client_def ex_reply_def)
    show "\<forall>j<3. \<exists>e. node_tx ex_chain ex_hash ((cl_sleep ex_client ^^ j) 0) = Inl e"
      by (simp add: less_Suc_eq numeral_3_eq_3 ex_chain_def ex_client_def)
    show "fst (srv_send ex_backend (ex_envelope_of ''ledger.send'' NoArgs) ()) = Inr (Inr (CHR 0x05 # CHR 0x00 # ''done''))"
      by (simp add: ex_backend_def)
    show "decode_request ex_bridge (ex_envelope_of ''ledger.send'' NoArgs) = Inr \<lparr>rq_from = 2, rq_method = ''ledger.send''\<rparr>"
      "envelope_to_vec ex_bridge (ex_envelope_of ''ledger.send'' NoArgs) = Inr (CHR 0x02 # ''ledger.send'')"
      by (simp_all add: ex_envelope_of_def ex_bridge_def char_of_def bit_0)
  qed (simp_all add: ex_deliver ex_frontend_def addr_allowed_def ex_chain_def ex_client_def, simp_all add: ex_hash_def)
  then show ?thesis unfolding ex_received
    by (simp add: answer_of_def ex_reply_def ex_client_def numeral_3_eq_3)
qed

lemma waiting_gives_up_witness:
  "wait_response ex_client ex_bridge (ex_reply 9 None (Some (replicate 32 (CHR ''g''))) []) 0 =
    (Inl (Err (Unknown ''Transport timed out waiting for async result.'')),
     (second_later ex_client (replicate 32 (CHR ''g'')) ^^ 60) 0)"
proof (rule waiting_gives_up)
  have "replicate 32 (CHR ''g'') \<noteq> ex_hash" by (simp add: ex_hash_def numeral_eq_Suc)
  then have "node_tx ex_chain (replicate 32 (CHR ''g'')) n = Inl ''not found''" for n by (simp add: ex_chain_def)
  then show "\<forall>j<60. still_open ex_client (replicate 32 (CHR ''g''))
      ((second_later ex_client (replicate 32 (CHR ''g'')) ^^ j) 0)"
    using bridge_status_open(1) [OF ex_over_bridge] by simp
qed (simp_all add: ex_client_def ex_reply_def)

lemma names_resolve_alike_witness:
  "fst (cli_resolve_symbol ex_client ''MFX'' 0) = Inr 7 \<and> fst (token_named ex_client ''MFX'' 0) = Inr 7 \<and>
    named_symbol ex_client [(7, ''MFX'')] ''MFX'' = Inr 7"
  using names_resolve_alike [OF ref_env_ok ref_tokens_unique, of "[(7, ''MFX'')]" ex_client 0 "''info''" 0 "''MFX''" "''invalid''" 7]
  by (simp add: symbols_at_def ref_tokens_def ref_codecs tagged_def ex_client_def)

end
