(* ===== verification/KvProps.thy ===== *)
theory KvProps
  imports KvSafety
begin

text \<open>
  The properties of the key-value server: commands refine a pair of maps, a key changes by its
  owner only, a disabled key is refused, accounts own themselves, a restart continues from a
  commit. The interface \<open>account_storage\<close> is the part of an account storage that both servers
  share; it is interpreted on both.
\<close>

section \<open>An account storage\<close>

text \<open>
  \<open>look\<close> reads an account even if it is disabled; logging an event leaves every account alone,
  and saving an account changes that one.
\<close>

locale account_storage =
  fixes ok :: "'e \<Rightarrow> bool"
    and look :: "'e \<Rightarrow> 's \<Rightarrow> address \<Rightarrow> account option"
    and logs :: "'e \<Rightarrow> event_info \<Rightarrow> ('s, unit) op"
    and saves :: "'e \<Rightarrow> address \<Rightarrow> account \<Rightarrow> ('s, unit) op"
  assumes logs_look: "ok e \<Longrightarrow> look e (snd (logs e c s)) = look e s"
    and saves_look: "ok e \<Longrightarrow> look e (snd (saves e j a s)) = (look e s)(j \<mapsto> a)"
begin

definition all_accounts :: "'e \<Rightarrow> (address \<Rightarrow> account \<Rightarrow> bool) \<Rightarrow> 's \<Rightarrow> bool" where
  "all_accounts e P s \<longleftrightarrow> (\<forall>i a. look e s i = Some a \<longrightarrow> P i a)"

lemma keeps_logs: "ok e \<Longrightarrow> keeps (all_accounts e P) (logs e c)"
  by (simp add: keeps_def all_accounts_def logs_look)

lemma keeps_saves: "ok e \<Longrightarrow> P j a \<Longrightarrow> keeps (all_accounts e P) (saves e j a)"
  by (simp add: keeps_def all_accounts_def saves_look)

lemma keeps_logged_save: "ok e \<Longrightarrow> P j a \<Longrightarrow> keeps (all_accounts e P) (andthen (logs e c) (saves e j a))"
  by (intro keeps_andthen keeps_logs keeps_saves)

lemma logged_save_look:
  assumes "ok e"
  shows "look e (snd (andthen (logs e c) (saves e j a) s)) i = look e s i \<or>
    i = j \<and> look e (snd (andthen (logs e c) (saves e j a) s)) i = Some a"
  using logs_look [OF assms, of c s] saves_look [OF assms, of j a "snd (logs e c s)"]
  by (cases "logs e c s") (auto simp: run split: sum.split)

end

lemma stored_account_logged:
  assumes "store_ok E"
  shows "stored_account E (snd (log_event E c s)) = stored_account E s"
proof
  fix i
  have "keeps (\<lambda>t. view E t (key_for_account E i) = view E s (key_for_account E i)) (log_event E c)"
    by (rule entry_log [OF assms])
  then show "stored_account E (snd (log_event E c s)) i = stored_account E s i"
    by (simp add: keeps_def stored_account_def)
qed

lemma stored_account_saved:
  assumes "env_ok E"
  shows "stored_account E (snd (commit_account E j a s)) = (stored_account E s)(j \<mapsto> a)"
  using assms by (auto simp: commit_account_def run encode_run stored_account_def [abs_def] intro!: ext)

interpretation ledger_accounts: account_storage env_ok stored_account log_event commit_account
  by unfold_locales (simp_all add: stored_account_logged stored_account_saved)

lemma kv_look_view:
  assumes "store_ok E"
  shows "kv_account_even_disabled E s i = (case view E s (key_for_account E i) of None \<Rightarrow> None
     | Some v \<Rightarrow> (case dec (c_account E) v of Inr a \<Rightarrow> Some a | Inl _ \<Rightarrow> None))"
  using merk_get_view [OF assms] by (simp add: kv_account_even_disabled_def view_def split: option.split)

lemma kv_look_cong:
  assumes "store_ok E" and "\<And>i. view E t (key_for_account E i) = view E s (key_for_account E i)"
  shows "kv_account_even_disabled E t = kv_account_even_disabled E s"
  using assms by (auto simp: kv_look_view intro!: ext)

lemma keeps_look_log:
  assumes "kv_env_ok E"
  shows "keeps (\<lambda>s. kv_account_even_disabled E s = L) (kv_log_event E c)"
proof -
  have m: "keeps (\<lambda>s. kv_account_even_disabled E s = L) (kv_maybe_commit E)"
    using assms by (auto simp: keeps_def run kv_look_view intro!: ext)
  have w: "kv_account_even_disabled E (applied E b s) = kv_account_even_disabled E s"
    if "batch_ok b" "\<forall>k \<in> fst ` set b. \<forall>i. k \<noteq> key_for_account E i" for b s
  proof (rule kv_look_cong)
    fix i
    have "key_for_account E i \<notin> fst ` set b" using that(2) by blast
    then show "view E (applied E b s) (key_for_account E i) = view E s (key_for_account E i)"
      using assms that(1) by (simp add: apply_batch_other)
  qed (use assms in simp)
  have "keeps (\<lambda>s. kv_account_even_disabled E s = L) (modify (\<lambda>s. s\<lparr>latest_event_id := f s\<rparr>))" for f
    using assms by (auto simp: keeps_def run kv_look_view intro!: ext)
  then show ?thesis unfolding kv_log_event_def kv_nb_events_def kv_new_event_id_def
    using assms by (intro keepsI m) (simp_all add: w)
qed

lemma kv_look_saved:
  assumes "kv_env_ok E"
  shows "kv_account_even_disabled E (snd (kv_commit_account E j a s)) = (kv_account_even_disabled E s)(j \<mapsto> a)"
  using assms by (auto simp: kv_commit_account_def run encode_run kv_look_view intro!: ext)

interpretation kv_accounts: account_storage kv_env_ok kv_account_even_disabled kv_log_event kv_commit_account
  using keeps_look_log by unfold_locales (auto simp: kv_look_saved keeps_def)

section \<open>Every account owns itself\<close>

abbreviation kv_self_owned :: "('m, 'v, 'g) env \<Rightarrow> 'm kv \<Rightarrow> bool" where
  "kv_self_owned E \<equiv> kv_accounts.all_accounts E (\<lambda>i a. has_role E a i Owner)"

lemma self_owned_frame:
  assumes "store_ok E" and "kv_self_owned E s"
    and "\<And>i. view E t (key_for_account E i) = view E s (key_for_account E i)"
  shows "kv_self_owned E t"
  using assms kv_look_cong [OF assms(1,3)] by (simp add: kv_accounts.all_accounts_def)

lemma self_owned_look: "kv_self_owned E s \<Longrightarrow> kv_account_even_disabled E s i = Some a \<Longrightarrow> has_role E a i Owner"
  by (simp add: kv_accounts.all_accounts_def)

lemma kv_get_account_Some:
  "kv_get_account E s i = Some a \<longleftrightarrow> kv_account_even_disabled E s i = Some a \<and> enabled a"
  by (auto simp: kv_get_account_def enabled_def split: option.split)

lemma kv_keeps_existing:
  assumes "\<And>a s. I s \<Longrightarrow> kv_account_even_disabled E s i = Some a \<Longrightarrow> I (snd (f a s))"
  shows "keeps I (bnd (kv_existing_account E i) f)"
  using assms by (auto simp: keeps_def run kv_existing_account_def ok_or_def kv_get_account_Some
      split: option.split)

lemma self_owned_new [keepsI]:
  assumes "kv_env_ok E"
  shows "keeps (kv_self_owned E) (new_subresource_id E)"
  unfolding keeps_def
proof (intro allI impI)
  fix s assume "kv_self_owned E s"
  then show "kv_self_owned E (snd (new_subresource_id E s))"
    using assms by (rule_tac self_owned_frame) (simp_all add: new_subresource_id_run)
qed

lemma self_owned_kv_maybe:
  assumes "kv_env_ok E"
  shows "keeps (kv_self_owned E) (kv_maybe_commit E)"
  using assms by (auto simp: keeps_def run intro: self_owned_frame)

lemma self_owned_create_kv:
  assumes E: "kv_env_ok E" "account_ok E"
  shows "keeps (kv_self_owned E) (kv_account_create E sender args)"
  unfolding kv_account_create_def kv_add_account_def kv_add_account_raw_def Let_def
  using E by (intro keepsI self_owned_new kv_accounts.keeps_logs kv_accounts.keeps_saves) simp_all


lemma self_owned_saved:
  assumes "kv_env_ok E" and "has_role E a j Owner"
  shows "keeps (kv_self_owned E) (andthen (kv_log_event E c) (kv_commit_account E j a))"
  using assms by (intro kv_accounts.keeps_logged_save)

lemma self_owned_disable:
  assumes E: "kv_env_ok E" "account_ok E"
  shows "keeps (kv_self_owned E) (kv_disable_account E j)"
  unfolding keeps_def
proof (intro allI impI)
  fix s assume s: "kv_self_owned E s"
  show "kv_self_owned E (snd (kv_disable_account E j s))"
  proof (cases "kv_account_even_disabled E s j")
    case None
    with s show ?thesis by (simp add: kv_disable_account_def run ok_or_def)
  next
    case (Some a)
    then have "has_role E (a\<lparr>disabled := Some (Inl True)\<rparr>) j Owner"
      using s E(2) by (simp add: self_owned_look)
    then have "keeps (kv_self_owned E) (andthen (kv_commit_account E j (a\<lparr>disabled := Some (Inl True)\<rparr>))
       (andthen (kv_log_event E (EvAccountDisable j)) (kv_maybe_commit E)))"
      using E by (intro keeps_andthen kv_accounts.keeps_saves kv_accounts.keeps_logs self_owned_kv_maybe)
    from keeps_snd [OF this s] Some s show ?thesis
      by (simp add: kv_disable_account_def run ok_or_def)
  qed
qed

lemma self_owned_account_request:
  assumes E: "kv_env_ok E" "account_ok E" and "request_ok req"
  shows "keeps (kv_self_owned E) (kv_run_account E sender req)"
proof (cases req)
  case (AccountCreate args)
  then show ?thesis by (simp add: keeps_bnd keeps_ret self_owned_create_kv E)
next
  case (AccountSetDescription args)
  then show ?thesis using E
    by (auto simp: kv_set_description_def kv_store_description_def self_owned_look
        intro!: kv_keeps_existing keeps_snd [where I = "kv_self_owned E"] keeps_andthen keeps_unless
          kv_accounts.keeps_logs kv_accounts.keeps_saves)
next
  case (AccountAddRoles args)
  then show ?thesis using E
    by (auto simp: kv_add_roles_def kv_store_add_roles_def self_owned_look has_role_each_add
        intro!: kv_keeps_existing keeps_snd [where I = "kv_self_owned E"] keeps_andthen keeps_unless
          kv_accounts.keeps_logs kv_accounts.keeps_saves)
next
  case (AccountRemoveRoles args)
  have "distinct (map fst (ro_roles args))"
    using assms(3) AccountRemoveRoles by (simp add: bt_ok_distinct)
  with AccountRemoveRoles E show ?thesis
    by (auto simp: kv_remove_roles_def kv_store_remove_roles_def self_owned_look split: option.split
        intro!: kv_keeps_existing keeps_snd [where I = "kv_self_owned E"] keeps_andthen keeps_unless
          keeps_if keeps_throw kv_accounts.keeps_logs kv_accounts.keeps_saves has_role_each_remove)
next
  case (AccountDisable i)
  then show ?thesis using self_owned_disable [OF E, of i]
    by (auto simp: kv_account_disable_def
        intro!: kv_keeps_existing keeps_snd [where I = "kv_self_owned E"] keeps_andthen keeps_unless)
next
  case (AccountAddFeatures args)
  have "keeps (kv_self_owned E) (kv_store_add_features E a args)"
    if a: "has_role E a (fe_account args) Owner" for a
  proof (cases "insert_features E (fe_features args) a")
    case (Inl e)
    then show ?thesis by (simp add: kv_store_add_features_def keeps_def run)
  next
    case (Inr b)
    let ?c = "case fe_roles args of None \<Rightarrow> b
               | Some rm \<Rightarrow> fold (\<lambda>(i, rs) a. entry_roles i rs a) rm b"
    have "has_role E ?c (fe_account args) Owner"
      using a E Inr by (auto simp: has_role_entries has_role_insert_features split: option.split)
    then have "keeps (kv_self_owned E) (andthen (lift (kv_validate_account E ?c))
       (andthen (kv_log_event E (EvAccountAddFeatures (fe_account args)
          (case fe_roles args of None \<Rightarrow> [] | Some rm \<Rightarrow> rm) (fe_features args)))
       (kv_commit_account E (fe_account args) ?c)))"
      using E by (intro keeps_andthen keeps_lift kv_accounts.keeps_logs kv_accounts.keeps_saves)
    with Inr show ?thesis by (simp add: kv_store_add_features_def keeps_def run Let_def)
  qed
  with AccountAddFeatures show ?thesis
    by (auto simp: kv_add_features_def self_owned_look
        intro!: kv_keeps_existing keeps_snd [where I = "kv_self_owned E"] keeps_andthen keeps_lift
          keeps_if keeps_throw)
qed

text \<open>Commands and blocks leave the accounts alone.\<close>

lemma look_stable:
  assumes "kv_env_ok E"
  shows "client_stable E (\<lambda>s. kv_account_even_disabled E s = L)"
proof -
  have "kv_account_even_disabled E (applied E [(acl_key k, Put u)] s) = kv_account_even_disabled E s"
    "kv_account_even_disabled E (applied E [(acl_key k, Put u), (value_key k, Put x)] s) = kv_account_even_disabled E s"
    "kv_account_even_disabled E (committed E s) = kv_account_even_disabled E s" for k u x s
    using assms by (intro kv_look_cong; simp)+
  with assms show ?thesis by (simp add: client_stable_def keeps_look_log)
qed

lemma self_owned_request_kv:
  assumes E: "kv_env_ok E" "account_ok E" and "kv_request_ok req"
  shows "keeps (kv_self_owned E) (kv_run E sender req)"
proof (cases "is_command req")
  case True
  then show ?thesis
    using keeps_snd [OF stable_command [OF look_stable [OF E(1)] True]]
    by (auto simp: keeps_def kv_accounts.all_accounts_def)
next
  case False
  then obtain a where "req = KvAccount a" by (cases req) auto
  with assms show ?thesis by (simp add: self_owned_account_request)
qed

lemma self_owned_commit_kv:
  assumes "kv_env_ok E" and "kv_self_owned E s"
  shows "kv_self_owned E (snd (kv_commit E s))"
proof -
  have w: "kv_account_even_disabled E (applied E [(HEIGHT_ROOT, Put u)] s) = kv_account_even_disabled E s"
    "kv_account_even_disabled E (applied E [(LATEST_EVENT_ID_KEY, Put u)] s) = kv_account_even_disabled E s"
    "kv_account_even_disabled E (committed E s) = kv_account_even_disabled E s"
    "kv_account_even_disabled E (s\<lparr>current_hash := h\<rparr>) = kv_account_even_disabled E s" for u s h
    using assms(1) by - (rule kv_look_cong, simp, simp)+
  then have h: "keeps (\<lambda>s. kv_account_even_disabled E s = L) (modify (\<lambda>s. s\<lparr>current_hash := h\<rparr>))" for L h
    by (simp add: keeps_def run)
  have "keeps (\<lambda>s. kv_account_even_disabled E s = L) (kv_commit E)" for L
    unfolding kv_commit_def kv_inc_height_def kv_get_height_def
    using assms(1) by (intro keepsI h) (simp_all add: w)
  from keeps_snd [OF this refl] assms(2) show ?thesis by (simp add: kv_accounts.all_accounts_def)
qed

lemma self_owned_steps_kv:
  assumes "kv_steps E s t" and E: "kv_env_ok E" "account_ok E" and "kv_self_owned E s"
  shows "kv_self_owned E t"
  using assms(1,4)
proof (induction rule: kv_steps.induct)
  case (start s)
  then show ?case by simp
next
  case (request s t req sender r u)
  then show ?case using keepsD [OF self_owned_request_kv [OF E]] by blast
next
  case (block s t time r u)
  then obtain time' where "u = t\<lparr>current_time := time'\<rparr>"
    using kv_begin_block_state [of E time t] E(1) by auto
  then have "kv_account_even_disabled E u = kv_account_even_disabled E t"
    using E(1) by (intro kv_look_cong) simp_all
  with block show ?case by (simp add: kv_accounts.all_accounts_def)
next
  case (commit s t r u)
  then show ?case using self_owned_commit_kv [OF E(1), of t] by simp
qed


section \<open>The store and the fields\<close>

text \<open>
  What a restart reads: the root identity, the next subresource number and, after a commit, the
  latest event number.
\<close>

definition kv_synced :: "('m, 'v, 'g) env \<Rightarrow> 'm kv \<Rightarrow> bool" where
  "kv_synced E s \<longleftrightarrow> view E s IDENTITY_ROOT = Some (address_to_vec E (root_identity s)) \<and>
     (case view E s SUBRESOURCE_ID_KEY of None \<Rightarrow> Inr 0 | Some v \<Rightarrow> u32_of E v) = Inr (next_subresource s)"

lemma kv_synced_cong:
  assumes "kv_synced E s" and "root_identity t = root_identity s" and "next_subresource t = next_subresource s"
    and "view E t IDENTITY_ROOT = view E s IDENTITY_ROOT" and "view E t SUBRESOURCE_ID_KEY = view E s SUBRESOURCE_ID_KEY"
  shows "kv_synced E t"
  using assms by (simp add: kv_synced_def)

lemma synced_applied:
  assumes "store_ok E" and "kv_synced E s" and "batch_ok b"
    and "IDENTITY_ROOT \<notin> fst ` set b" and "SUBRESOURCE_ID_KEY \<notin> fst ` set b"
  shows "kv_synced E (applied E b s)"
  using assms by (intro kv_synced_cong [OF assms(2)]) (simp_all add: apply_batch_other)

lemma synced_log:
  assumes "kv_env_ok E"
  shows "keeps (kv_synced E) (kv_log_event E c)"
proof -
  have m: "keeps (kv_synced E) (kv_maybe_commit E)"
    using assms by (auto simp: keeps_def run kv_synced_def)
  have "keeps (kv_synced E) (modify (\<lambda>s. s\<lparr>latest_event_id := f s\<rparr>))" for f
    by (simp add: keeps_def run kv_synced_def)
  then show ?thesis unfolding kv_log_event_def kv_nb_events_def kv_new_event_id_def
    using assms by (intro keepsI m) (auto intro!: synced_applied)
qed

lemma synced_stable:
  assumes "kv_env_ok E"
  shows "client_stable E (kv_synced E)" and "account_stable E (kv_synced E)"
proof -
  have c: "kv_synced E s \<Longrightarrow> kv_synced E (committed E s)" for s
    using assms by (simp add: kv_synced_def)
  show "client_stable E (kv_synced E)"
    using assms by (auto simp: client_stable_def synced_log c intro: synced_applied)
  have "keeps (kv_synced E) (new_subresource_id E)"
    using assms by (simp add: keeps_def new_subresource_id_run kv_synced_def)
  then show "account_stable E (kv_synced E)"
    using assms by (auto simp: account_stable_def synced_log c intro: synced_applied)
qed

lemma synced_commit:
  assumes "kv_env_ok E"
  shows "keeps (kv_synced E) (kv_commit E)"
proof -
  have h: "keeps (kv_synced E) (modify (\<lambda>s. s\<lparr>current_hash := h\<rparr>))" for h
    by (simp add: keeps_def run kv_synced_def)
  show ?thesis unfolding kv_commit_def kv_inc_height_def kv_get_height_def
    using assms by (intro keepsI h) (auto intro!: synced_applied simp: kv_synced_def)
qed

lemma synced_steps:
  assumes "kv_steps E s t" and E: "kv_env_ok E" and "kv_synced E s"
  shows "kv_synced E t"
  using assms(1,3)
proof (induction rule: kv_steps.induct)
  case (start s)
  then show ?case by simp
next
  case (request s t req sender r u)
  then show ?case using keepsD [OF stable_request [OF synced_stable [OF E]]] by blast
next
  case (block s t time r u)
  then obtain time' where "u = t\<lparr>current_time := time'\<rparr>"
    using kv_begin_block_state [of E time t] E by auto
  with block show ?case using kv_synced_cong [of E t u] by simp
next
  case (commit s t r u)
  then show ?case using keepsD [OF synced_commit [OF E]] by blast
qed

lemma acl_batch_keys: "acl_batch E acl = Inr b \<Longrightarrow> fst ` set b \<subseteq> range acl_key"
  by (induction acl arbitrary: b) (force simp: okD)+

lemma kv_new_synced:
  assumes E: "kv_env_ok E" and "kv_new E (Inr m) acl ident bc = Inr s" and "mview E m SUBRESOURCE_ID_KEY = None"
  shows "kv_synced E s" and "latest_event_id s = [char_of (0 :: nat)]"
    and "view E s LATEST_EVENT_ID_KEY = Some (enc_val (c_event_id E) (latest_event_id s))"
proof -
  have st: "store_ok E" using E by simp
  define s0 where "s0 = \<lparr>persistent_store = m, blockchain = bc, current_time = None, current_hash = None,
     latest_event_id = [char_of (0 :: nat)], next_subresource = 0, root_identity = ident\<rparr>"
  from assms(2) obtain b where b: "acl_batch E acl = Inr b"
    by (cases "acl_batch E acl") (simp_all add: kv_new_def)
  with assms(2) have r: "andthen (db_apply E Unknown ((IDENTITY_ROOT, Put (address_to_vec E ident)) # b))
      (bnd (expecting ''Unable to encode event id'' (encode (c_event_id E) [char_of (0 :: nat)])) (\<lambda>v.
       andthen (expecting ''unwrap'' (db_apply E Unknown [(LATEST_EVENT_ID_KEY, Put v)]))
       (db_commit E Unknown))) s0 = (Inr (), s)"
    by (simp add: kv_new_def Let_def s0_def [symmetric] split: prod.splits sum.splits)
  let ?b = "(IDENTITY_ROOT, Put (address_to_vec E ident)) # b"
  have ok: "batch_ok ?b"
  proof (rule ccontr)
    assume "\<not> batch_ok ?b"
    then obtain e where "db_apply E Unknown ?b s0 = (Inl (Err (Unknown e)), s0)"
      using db_apply_bad [OF st, of ?b Unknown s0] by blast
    with r show False by (simp add: run)
  qed
  have s: "s = committed E (applied E [(LATEST_EVENT_ID_KEY, Put (enc_val (c_event_id E) [char_of (0 :: nat)]))] (applied E ?b s0))"
    using r E ok by (simp add: run)
  have "IDENTITY_ROOT \<notin> fst ` set b" "SUBRESOURCE_ID_KEY \<notin> fst ` set ?b"
    using acl_batch_keys [OF b] by auto
  then have "view E s IDENTITY_ROOT = Some (address_to_vec E ident)" "view E s SUBRESOURCE_ID_KEY = None"
    using st ok assms(3) unfolding s by (simp_all add: apply_batch_other) (simp add: view_def s0_def)
  moreover have "root_identity s = ident" "next_subresource s = 0" unfolding s by (simp_all add: s0_def)
  ultimately show "kv_synced E s" by (simp add: kv_synced_def)
  show "latest_event_id s = [char_of (0 :: nat)]" unfolding s by (simp add: s0_def)
  then show "view E s LATEST_EVENT_ID_KEY = Some (enc_val (c_event_id E) (latest_event_id s))"
    using st unfolding s by (simp add: s0_def)
qed

lemma kv_load_synced:
  assumes E: "kv_env_ok E" and "kv_synced E s"
    and "view E s LATEST_EVENT_ID_KEY = Some (enc_val (c_event_id E) i)"
  shows "kv_load E (Inr (persistent_store s)) bc = Inr \<lparr>persistent_store = persistent_store s, blockchain = bc,
     current_time = None, current_hash = None, latest_event_id = i, next_subresource = next_subresource s,
     root_identity = root_identity s\<rparr>"
  using assms by (simp add: kv_load_def merk_get_view view_def kv_synced_def)


section \<open>Who acts for the owner of a key\<close>

fun request_role :: "kv_request \<Rightarrow> role" where
  "request_role (KvPut _) = CanKvStorePut"
| "request_role (KvDisable _) = CanKvStoreDisable"
| "request_role (KvTransfer _) = CanKvStoreTransfer"
| "request_role (KvAccount _) = Owner"

lemma kv_auth_ok:
  assumes "account_ok E" and "kv_auth E s sender alt rs = Inr own"
  shows "sender = own \<or> (\<exists>a. kv_get_account E s own = Some a \<and> (\<exists>r \<in> set rs. has_role E a sender r))"
proof (cases alt)
  case None
  with assms(2) show ?thesis by (simp add: kv_auth_def kv_acting_def run)
next
  case (Some o')
  show ?thesis
  proof (cases "kv_get_account E s o'")
    case None
    with Some assms(2) show ?thesis
      by (simp add: kv_auth_def kv_acting_def validate_alternative_owner_def run split: if_splits)
  next
    case (Some a)
    with \<open>alt = Some o'\<close> assms(2) have "own = o'" "needs_role E a sender rs = Inr ()"
      by (auto simp: kv_auth_def kv_acting_def validate_alternative_owner_def run from_many_ok
          split: sum.splits)
    with Some needs_role_ok [OF assms(1)] show ?thesis by blast
  qed
qed

text \<open>A command that changes a key acts for the owner that its metadata names.\<close>

lemma spec_acl_ok: "spec_acl A own k = Inr () \<Longrightarrow> fst A k = Some m \<Longrightarrow> kv_owner m = own"
  by (simp add: spec_acl_def split: if_splits)

lemma spec_changes_own:
  assumes "kv_spec acting anon A req = Inr B" and "fst A k = Some m"
    and "(fst B k, snd B k) \<noteq> (fst A k, snd A k)"
  shows "\<exists>alt. acting alt [request_role req, Owner] = Inr (kv_owner m)"
proof (cases req)
  case (KvPut a)
  then obtain own where "acting (pa_owner a) [CanKvStorePut, Owner] = Inr own" "spec_acl A own (pa_key a) = Inr ()"
    and B: "B = set_value (pa_key a) (pa_value a) (set_meta (pa_key a) \<lparr>kv_owner = own, kv_disabled = Some (Inl False)\<rparr> A)"
    using assms(1) by (auto simp: okD)
  moreover from assms(3) have "k = pa_key a" by (auto simp: B set_value_def set_meta_def split: if_splits)
  ultimately show ?thesis using spec_acl_ok assms(2) KvPut by fastforce
next
  case (KvDisable a)
  then obtain own meta where "acting (da_owner a) [CanKvStoreDisable, Owner] = Inr own" "spec_acl A own (da_key a) = Inr ()"
    and B: "B = set_meta (da_key a) meta A"
    using assms(1) by (auto simp: okD split: if_splits)
  moreover from assms(3) have "k = da_key a" by (auto simp: B set_meta_def split: if_splits)
  ultimately show ?thesis using spec_acl_ok assms(2) KvDisable by fastforce
next
  case (KvTransfer a)
  then obtain own meta where "acting (ta_owner a) [CanKvStoreTransfer, Owner] = Inr own" "spec_acl A own (ta_key a) = Inr ()"
    and B: "B = set_meta (ta_key a) meta A"
    using assms(1) by (auto simp: okD split: if_splits option.splits)
  moreover from assms(3) have "k = ta_key a" by (auto simp: B set_meta_def split: if_splits)
  ultimately show ?thesis using spec_acl_ok assms(2) KvTransfer by fastforce
next
  case (KvAccount a)
  with assms show ?thesis by simp
qed

section \<open>Properties\<close>

text \<open>
  C19. The key-value server implements a pair of maps: on every command, its answer and the maps
  after it are those of the specification (whom the sender acts for, the owner of the key, the
  disabled keys, in the order of the checks); a refused command changes nothing at all.
\<close>

theorem kv_refines_map:
  assumes "kv_env_ok E" and "kv_ok E s" and "is_command req"
  shows "case kv_spec (kv_auth E s sender) (is_anonymous E) (kv_abs E s) req of
      Inl e \<Rightarrow> kv_run E sender req s = (Inl e, s)
    | Inr A \<Rightarrow> fst (kv_run E sender req s) = Inr () \<and> kv_abs E (snd (kv_run E sender req s)) = A"
  using agrees_command [OF assms, of sender] by (auto simp: agrees_def split: sum.split)

text \<open>
  What is put is found: after a put that was answered without an error, a get returns the
  value and a query says who owns the key and that it is enabled; every other key answers as
  before.
\<close>

lemma kv_put_then_get:
  assumes "kv_env_ok E" and "kv_ok E s" and "kv_run E sender (KvPut a) s = (Inr (), t)"
  shows "fst (kv_get_op E (pa_key a) t) = Inr (Some (pa_value a)) \<and>
    (\<exists>own. kv_auth E s sender (pa_owner a) [CanKvStorePut, Owner] = Inr own \<and>
       fst (kv_query E (pa_key a) t) = Inr \<lparr>kv_owner = own, kv_disabled = Some (Inl False)\<rparr>) \<and>
    (\<forall>k. k \<noteq> pa_key a \<longrightarrow> fst (kv_get_op E k t) = fst (kv_get_op E k s) \<and> fst (kv_query E k t) = fst (kv_query E k s))"
proof -
  from agrees_command [OF assms(1,2), of "KvPut a" sender] assms(3)
  obtain A where spec: "kv_spec (kv_auth E s sender) (is_anonymous E) (kv_abs E s) (KvPut a) = Inr A"
    and ok: "kv_ok E t" and A: "kv_abs E t = A" by (auto simp: agrees_def split: sum.splits)
  from spec obtain own where "kv_auth E s sender (pa_owner a) [CanKvStorePut, Owner] = Inr own"
    and "A = set_value (pa_key a) (pa_value a) (set_meta (pa_key a) \<lparr>kv_owner = own, kv_disabled = Some (Inl False)\<rparr> (kv_abs E s))"
    by (auto simp: okD)
  moreover from this have "kv_meta E t = (kv_meta E s)(pa_key a \<mapsto> \<lparr>kv_owner = own, kv_disabled = Some (Inl False)\<rparr>)"
    "kv_value E t = (kv_value E s)(pa_key a \<mapsto> pa_value a)"
    using A by (simp_all add: kv_abs_def set_value_def set_meta_def)
  ultimately show ?thesis using assms(1,2) ok
    by (simp add: kv_get_op_run kv_query_run spec_get_def kv_abs_def key_enabled_def split: option.split)
qed

text \<open>
  C21. A key changes by its owner's authority only: when any request changes the metadata or the
  value of a key that has an owner, then the sender is that owner, or the owner is an enabled
  account in which the sender has the request's role or the owner role.
\<close>

theorem kv_key_changed_by_owner:
  assumes "kv_env_ok E" and "account_ok E" and "kv_ok E s" and "kv_meta E s k = Some m"
    and "(kv_meta E (snd (kv_run E sender req s)) k, kv_value E (snd (kv_run E sender req s)) k) \<noteq>
      (kv_meta E s k, kv_value E s k)"
  shows "sender = kv_owner m \<or>
    (\<exists>a. kv_get_account E s (kv_owner m) = Some a \<and> (has_role E a sender (request_role req) \<or> has_role E a sender Owner))"
proof (cases "is_command req")
  case False
  then obtain a where "req = KvAccount a" by (cases req) auto
  with kv_abs_account_request [OF assms(1), of sender a s] assms(5) show ?thesis by (simp add: kv_abs_def)
next
  case True
  let ?A = "kv_abs E s" and ?B = "kv_abs E (snd (kv_run E sender req s))"
  have ne: "(fst ?B k, snd ?B k) \<noteq> (fst ?A k, snd ?A k)" using assms(5) by (simp add: kv_abs_def)
  with agrees_command [OF assms(1,3) True, of sender]
  have "kv_spec (kv_auth E s sender) (is_anonymous E) ?A req = Inr ?B"
    by (auto simp: agrees_def split: sum.splits)
  moreover have "fst ?A k = Some m" using assms(4) by (simp add: kv_abs_def)
  ultimately obtain alt where "kv_auth E s sender alt [request_role req, Owner] = Inr (kv_owner m)"
    using spec_changes_own ne by blast
  with kv_auth_ok [OF assms(2)] show ?thesis by fastforce
qed

text \<open>
  C22. A disabled key is refused: a get, a disable and a transfer of it, by whomever, are answered
  with the error for a disabled key and change nothing. Only a put by its owner enables it again.
\<close>

theorem kv_disabled_key_refused:
  assumes "kv_env_ok E" and "kv_ok E s" and "kv_meta E s k = Some m" and "\<not> key_enabled m"
    and "req = KvDisable \<lparr>da_key = k, da_owner = alt, da_reason = reason\<rparr> \<or>
      req = KvTransfer \<lparr>ta_key = k, ta_owner = alt, ta_new_owner = to\<rparr>"
  shows "kv_run E sender req s = (Inl (Err (KvError KeyDisabled)), s) \<and>
    kv_get_op E k s = (Inl (Err (KvError KeyDisabled)), s)"
  using assms(3-5) by (auto simp: kv_disable_def kv_transfer_def kv_get_op_def run
      kv_get_run [OF assms(1,2)])

text \<open>
  C39. The server's state stays well-formed: over any requests, blocks and commits, with whatever
  outcomes, its counters keep their width and every metadata entry decodes.
\<close>

theorem kv_stays_well_formed:
  assumes "kv_env_ok E" and "kv_ok E s" and "kv_steps E s t"
  shows "kv_ok E t"
  using assms(3,1,2) by (rule kv_ok_steps)

text \<open>
  Every account of the key-value server owns itself, over any requests, blocks and commits.
\<close>

theorem kv_accounts_own_themselves:
  assumes "kv_env_ok E" and "account_ok E" and "kv_steps E s t"
    and "\<forall>i a. kv_account_even_disabled E s i = Some a \<longrightarrow> has_role E a i Owner"
    and "kv_account_even_disabled E t i = Some a"
  shows "has_role E a i Owner"
  using self_owned_steps_kv [OF assms(3,1,2)] assms(4,5) by (auto simp: kv_accounts.all_accounts_def)

text \<open>
  A restart after a commit continues where the server was: for a server that was made over a
  fresh store and ran any requests and blocks, loading the store that a commit left gives its
  state back, but for the block's time and the cached hash.
\<close>

lemma kv_load_after_commit:
  assumes "kv_env_ok E" and "kv_new E (Inr m) acl ident bc = Inr s0" and "mview E m SUBRESOURCE_ID_KEY = None"
    and "kv_steps E s0 s" and "kv_commit E s = (Inr i, t)"
  shows "kv_load E (Inr (persistent_store t)) (blockchain t) = Inr (t\<lparr>current_time := None, current_hash := None\<rparr>)"
proof -
  have st: "store_ok E" using assms(1) by simp
  have sync: "kv_synced E t"
    using keepsD [OF synced_commit [OF assms(1)] synced_steps [OF assms(4,1) kv_new_synced(1) [OF assms(1-3)]] assms(5)] .
  obtain h where h: "kv_counter E s HEIGHT_ROOT = Inr h"
    using assms(5) st by (cases "kv_counter E s HEIGHT_ROOT") (simp_all add: kv_commit_def kv_inc_height_def run)
  have "view E t LATEST_EVENT_ID_KEY = Some (enc_val (c_event_id E) (latest_event_id t))"
    using assms(5) st by (auto simp: kv_commit_run [OF assms(1) h] kv_closed_def)
  from kv_load_synced [OF assms(1) sync this] show ?thesis by simp
qed

text \<open>
  Without commits of blocks the number of the latest event is only in memory: a server that is
  loaded again after a request numbers its events from where the last block ended, over those
  that the request logged.
\<close>

lemma restart_forgets_event_numbers:
  assumes E: "kv_env_ok E" and "kv_synced E s"
    and latest: "view E s LATEST_EVENT_ID_KEY = Some (enc_val (c_event_id E) (latest_event_id s))"
    and "kv_load E (Inr (persistent_store (snd (kv_run E sender req s)))) bc = Inr u"
  shows "latest_event_id u = latest_event_id s"
proof -
  let ?I = "\<lambda>t. view E t LATEST_EVENT_ID_KEY = view E s LATEST_EVENT_ID_KEY"
  have m: "keeps ?I (kv_maybe_commit E)" using E by (simp add: keeps_def run)
  have "keeps ?I (modify (\<lambda>s. s\<lparr>latest_event_id := f s\<rparr>))" for f by (simp add: keeps_def run)
  then have log: "keeps ?I (kv_log_event E c)" for c
    unfolding kv_log_event_def kv_nb_events_def kv_new_event_id_def
    using E by (intro keepsI m) simp_all
  have "keeps ?I (new_subresource_id E)" using E by (simp add: keeps_def new_subresource_id_run)
  then have "client_stable E ?I" "account_stable E ?I"
    using E log by (simp_all add: client_stable_def account_stable_def)
  from keeps_snd [OF stable_request [OF this], of s sender req] latest
  have "view E (snd (kv_run E sender req s)) LATEST_EVENT_ID_KEY = Some (enc_val (c_event_id E) (latest_event_id s))"
    by simp
  moreover have "kv_synced E (snd (kv_run E sender req s))"
    using keeps_snd [OF stable_request [OF synced_stable [OF E]] assms(2)] .
  ultimately show ?thesis using kv_load_synced [OF E, of "snd (kv_run E sender req s)"] assms(4) by auto
qed


section \<open>Witnesses\<close>

lemma ref_kv_env_ok: "kv_env_ok ref_env"
proof -
  have "c_event_id ref_env = tagged REventId (\<lambda>v. case v of REventId x \<Rightarrow> Some x | _ \<Rightarrow> None)"
    by (simp add: ref_env_def)
  then show ?thesis by (simp add: kv_env_ok_def ref_codecs tagged_ok)
qed

text \<open>A key of the account 101, in which 5 may put, and a disabled key of 2.\<close>

definition ref_kv :: "ref_store kv" where
  "ref_kv = (let w = [(acl_key ''k'', RKvMetadata \<lparr>kv_owner = 101, kv_disabled = Some (Inl False)\<rparr>), (value_key ''k'', RBytes ''old''),
       (acl_key ''d'', RKvMetadata \<lparr>kv_owner = 2, kv_disabled = Some (Inr (1, ''x''))\<rparr>), (value_key ''d'', RBytes ''v''),
       (key_for_account ref_env 101, RAccount \<lparr>description = None, roles = [(5, [CanKvStorePut]), (101, [Owner])],
          features = [], disabled = None\<rparr>)]
     in \<lparr>persistent_store = \<lparr>work = w, disk = w\<rparr>, blockchain = True, current_time = Some 5, current_hash = None,
         latest_event_id = [CHR 0x01], next_subresource = 1, root_identity = 0\<rparr>)"

lemma kv_roots_differ [simp]: "KVSTORE_ROOT \<noteq> KVSTORE_ACL_ROOT" "KVSTORE_ACL_ROOT \<noteq> KVSTORE_ROOT"
  by (simp_all add: KVSTORE_ROOT_def KVSTORE_ACL_ROOT_def)

lemma ref_kv_view:
  "view ref_env ref_kv = [acl_key ''k'' \<mapsto> RKvMetadata \<lparr>kv_owner = 101, kv_disabled = Some (Inl False)\<rparr>, value_key ''k'' \<mapsto> RBytes ''old'',
     acl_key ''d'' \<mapsto> RKvMetadata \<lparr>kv_owner = 2, kv_disabled = Some (Inr (1, ''x''))\<rparr>, value_key ''d'' \<mapsto> RBytes ''v'',
     key_for_account ref_env 101 \<mapsto> RAccount \<lparr>description = None, roles = [(5, [CanKvStorePut]), (101, [Owner])],
          features = [], disabled = None\<rparr>]"
  unfolding ref_view by (rule ext) (auto simp: ref_kv_def Let_def)

lemma ref_kv_ok: "kv_ok ref_env ref_kv"
  unfolding kv_ok_def kv_counter_def ref_kv_view
  by (auto simp: ref_codecs tagged_def split: if_splits)

lemma ref_kv_meta:
  "kv_meta ref_env ref_kv ''k'' = Some \<lparr>kv_owner = 101, kv_disabled = Some (Inl False)\<rparr>"
  "kv_meta ref_env ref_kv ''d'' = Some \<lparr>kv_owner = 2, kv_disabled = Some (Inr (1, ''x''))\<rparr>"
  "kv_value ref_env ref_kv ''k'' = Some ''old''"
  unfolding kv_meta_def kv_value_def ref_kv_view
  by (simp_all add: ref_codecs tagged_def)

lemma ref_kv_account:
  "kv_account_even_disabled ref_env ref_kv i = (if i = 101 then
     Some \<lparr>description = None, roles = [(5, [CanKvStorePut]), (101, [Owner])], features = [], disabled = None\<rparr> else None)"
proof -
  have "key_for_account ref_env i = key_for_account ref_env 101 \<longleftrightarrow> i = 101"
    using ref_env_ok by (intro account_key_inj) simp
  then show ?thesis
    unfolding kv_look_view [OF ref_store_ok] ref_kv_view by (simp add: ref_codecs tagged_def)
qed

abbreviation ref_put :: put_args where
  "ref_put \<equiv> \<lparr>pa_key = ''k'', pa_value = ''new'', pa_owner = Some 101\<rparr>"

lemma ref_kv_auth: "kv_auth ref_env ref_kv 5 (Some 101) [CanKvStorePut, Owner] = Inr 101"
proof -
  let ?a = "\<lparr>description = None, roles = [(5, [CanKvStorePut]), (101, [Owner])], features = [], disabled = None\<rparr> :: account"
  have "kv_get_account ref_env ref_kv 101 = Some ?a"
    by (simp add: kv_get_account_def ref_kv_account)
  moreover have "has_role ref_env ?a 5 CanKvStorePut"
    using has_role_map_of [OF ref_account_ok] by simp
  then have "needs_role ref_env ?a 5 [CanKvStorePut, Owner] = Inr ()"
    using needs_role_ok [OF ref_account_ok] by simp
  ultimately show ?thesis by (simp add: kv_auth_def kv_acting_def validate_alternative_owner_def run)
qed

lemma ref_kv_spec: "kv_spec (kv_auth ref_env ref_kv 5) (is_anonymous ref_env) (kv_abs ref_env ref_kv) (KvPut ref_put) =
    Inr (set_value ''k'' ''new'' (set_meta ''k'' \<lparr>kv_owner = 101, kv_disabled = Some (Inl False)\<rparr> (kv_abs ref_env ref_kv)))"
  by (simp add: ref_kv_auth spec_acl_def kv_abs_def ref_kv_meta)

lemma ref_kv_put:
  "\<exists>t. kv_run ref_env 5 (KvPut ref_put) ref_kv = (Inr (), t) \<and> kv_value ref_env t ''k'' = Some ''new''"
  using agrees_command [OF ref_kv_env_ok ref_kv_ok, of "KvPut ref_put" 5]
  unfolding ref_kv_spec by (auto simp: agrees_def set_value_def kv_abs_def)

lemma kv_refines_map_witness:
  "fst (kv_run ref_env 5 (KvPut ref_put) ref_kv) = Inr () \<and>
   kv_abs ref_env (snd (kv_run ref_env 5 (KvPut ref_put) ref_kv)) =
     set_value ''k'' ''new'' (set_meta ''k'' \<lparr>kv_owner = 101, kv_disabled = Some (Inl False)\<rparr> (kv_abs ref_env ref_kv))"
  using kv_refines_map [OF ref_kv_env_ok ref_kv_ok, of "KvPut ref_put" 5] unfolding ref_kv_spec by simp

lemma kv_put_then_get_witness:
  "\<exists>t. kv_run ref_env 5 (KvPut ref_put) ref_kv = (Inr (), t) \<and> fst (kv_get_op ref_env ''k'' t) = Inr (Some ''new'')"
proof -
  obtain t where t: "kv_run ref_env 5 (KvPut ref_put) ref_kv = (Inr (), t)" using ref_kv_put by blast
  from kv_put_then_get [OF ref_kv_env_ok ref_kv_ok t] t show ?thesis by simp
qed

lemma kv_key_changed_by_owner_witness:
  "\<exists>a. kv_get_account ref_env ref_kv 101 = Some a \<and> (has_role ref_env a 5 CanKvStorePut \<or> has_role ref_env a 5 Owner)"
proof -
  have "(kv_meta ref_env (snd (kv_run ref_env 5 (KvPut ref_put) ref_kv)) ''k'',
      kv_value ref_env (snd (kv_run ref_env 5 (KvPut ref_put) ref_kv)) ''k'') \<noteq>
    (kv_meta ref_env ref_kv ''k'', kv_value ref_env ref_kv ''k'')"
    using ref_kv_put by (auto simp: ref_kv_meta simp del: kv_run.simps)
  from kv_key_changed_by_owner [OF ref_kv_env_ok ref_account_ok ref_kv_ok ref_kv_meta(1) this]
  show ?thesis by simp
qed

lemma kv_disabled_key_refused_witness:
  "kv_run ref_env 2 (KvTransfer \<lparr>ta_key = ''d'', ta_owner = None, ta_new_owner = 3\<rparr>) ref_kv = (Inl (Err (KvError KeyDisabled)), ref_kv) \<and>
   kv_get_op ref_env ''d'' ref_kv = (Inl (Err (KvError KeyDisabled)), ref_kv)"
  by (rule kv_disabled_key_refused [OF ref_kv_env_ok ref_kv_ok ref_kv_meta(2), where alt = None and to = 3])
    (simp_all add: key_enabled_def)

lemma kv_stays_well_formed_witness: "kv_ok ref_env (snd (kv_run ref_env 5 (KvPut ref_put) ref_kv))"
proof (rule kv_stays_well_formed [OF ref_kv_env_ok ref_kv_ok])
  show "kv_steps ref_env ref_kv (snd (kv_run ref_env 5 (KvPut ref_put) ref_kv))"
    by (rule kv_steps.request [OF kv_steps.start _ prod.collapse [symmetric]]) simp
qed

lemma kv_accounts_own_themselves_witness:
  "\<exists>a. kv_account_even_disabled ref_env ref_kv 101 = Some a \<and> has_role ref_env a 101 Owner"
proof -
  have all: "\<forall>i a. kv_account_even_disabled ref_env ref_kv i = Some a \<longrightarrow> has_role ref_env a i Owner"
    using has_role_map_of [OF ref_account_ok] by (auto simp: ref_kv_account split: if_splits)
  obtain a where a: "kv_account_even_disabled ref_env ref_kv 101 = Some a" by (simp add: ref_kv_account)
  from kv_accounts_own_themselves [OF ref_kv_env_ok ref_account_ok kv_steps.start all a] a
  show ?thesis by blast
qed

lemma ref_kv_new: "\<exists>s0. kv_new ref_env (Inr \<lparr>work = [], disk = []\<rparr>) [] 2 True = Inr s0"
  using ref_kv_env_ok by (simp add: kv_new_def Let_def run)

lemma kv_load_after_commit_witness:
  "\<exists>s0 i t. kv_new ref_env (Inr \<lparr>work = [], disk = []\<rparr>) [] 2 True = Inr s0 \<and> kv_commit ref_env s0 = (Inr i, t) \<and>
    kv_load ref_env (Inr (persistent_store t)) (blockchain t) = Inr (t\<lparr>current_time := None, current_hash := None\<rparr>)"
proof -
  obtain s0 where s0: "kv_new ref_env (Inr \<lparr>work = [], disk = []\<rparr>) [] 2 True = Inr s0" using ref_kv_new by blast
  then have "kv_counter ref_env s0 HEIGHT_ROOT = Inr 0"
    using ref_kv_env_ok
    by (auto simp: kv_new_def Let_def run kv_counter_def simp del: ref_view) simp
  from kv_commit_run [OF ref_kv_env_ok this] obtain i t where c: "kv_commit ref_env s0 = (Inr i, t)" by blast
  have "mview ref_env \<lparr>work = [], disk = []\<rparr> SUBRESOURCE_ID_KEY = None" by simp
  from kv_load_after_commit [OF ref_kv_env_ok s0 this kv_steps.start c] s0 c show ?thesis by blast
qed

end
