(* ===== verification/Startup.thy ===== *)
theory Startup
  imports ClientProps KvProps
begin

text \<open>
  The programs themselves: how \<open>main\<close> of \<open>many-ledger\<close>, \<open>many-kvstore\<close> and \<open>many-abci\<close> read their
  options, decide between a new store and the one that is there, put the modules over the
  storage and wait for the other programs. Files are a parameter (record \<open>host\<close>).
\<close>

section \<open>The level of logging\<close>

datatype log_filter = LogOff | LogError | LogWarn | LogInfo | LogDebug | LogTrace

text \<open>
  The same in all four programs: \<open>verbose\<close> and \<open>quiet\<close> are \<open>i8\<close>. The last arm is \<open>unreachable!()\<close>.
\<close>

definition log_level :: "8 word \<Rightarrow> 8 word \<Rightarrow> log_filter option" where
  "log_level verbose quiet =
     (let x = sint (2 + verbose - quiet)
      in if x > 3 then Some LogTrace else if x = 3 then Some LogDebug else if x = 2 then Some LogInfo
         else if x = 1 then Some LogWarn else if x = 0 then Some LogError else if x < 0 then Some LogOff
         else None)"

lemma log_level_total: "log_level verbose quiet \<noteq> None"
  by (auto simp: log_level_def Let_def)

section \<open>Files and options\<close>

datatype removal = Removed | NotFound | RemoveFailed string

record ('w, 'm, 'g, 'i) host =
  dir_exists :: "'w \<Rightarrow> bool"  \<comment> \<open>\<open>persistent.exists()\<close>\<close>
  remove_dir_all :: "'w \<Rightarrow> removal \<times> 'w"
  open_store :: "'w \<Rightarrow> (string + 'm) \<times> 'w"
  read_pem :: "'w \<Rightarrow> string + bytes"
  key_of_pem :: "bytes \<Rightarrow> string + address"
  read_initial :: "string \<Rightarrow> 'w \<Rightarrow> string + 'i"
  read_migrations :: "string \<Rightarrow> 'w \<Rightarrow> string + (u64 \<Rightarrow> many_error + 'g)"
  read_addresses :: "string \<Rightarrow> 'w \<Rightarrow> string + address list"

record options =
  opt_state :: "string option"
  opt_clean :: bool
  opt_abci :: bool
  opt_migrations :: "string option"
  opt_allow_addrs :: "string option"

text \<open>An optional file.\<close>

definition optional_file :: "string \<Rightarrow> (string \<Rightarrow> 'w \<Rightarrow> string + 'a) \<Rightarrow> string option \<Rightarrow> ('w, 'a option) op" where
  "optional_file msg f path = (case path of None \<Rightarrow> ret None
     | Some p \<Rightarrow> reads (\<lambda>w. rbind (panic_on_err msg (f p w)) (\<lambda>x. Inr (Some x))))"

text \<open>\<open>.unwrap()\<close> on the result of making a module.\<close>

definition unwrapped :: "'a res \<Rightarrow> 'a res" where
  "unwrapped r = (case r of Inl (Err _) \<Rightarrow> Inl (Panic ''unwrap'') | _ \<Rightarrow> r)"

lemma unwrapped_ok [simp]: "unwrapped r = Inr x \<longleftrightarrow> r = Inr x"
  by (auto simp: unwrapped_def split: sum.split fault.split)

definition over_store :: "('w, 'm, 'g, 'i) host \<Rightarrow> (string + 'm \<Rightarrow> 'a res) \<Rightarrow> ('w, 'a) op" where
  "over_store F load = (\<lambda>w. case open_store F w of (opened, w') \<Rightarrow> (unwrapped (load opened), w'))"

section \<open>\<open>many-ledger\<close>\<close>

text \<open>With \<open>--clean\<close> the store is removed; without it an existing store makes the initial state void.\<close>

definition ledger_prepare :: "('w, 'm, 'g, 'i) host \<Rightarrow> options \<Rightarrow> ('w, string option) op" where
  "ledger_prepare F opts =
     (if opt_clean opts then (\<lambda>w. case remove_dir_all F w of
         (Removed, w') \<Rightarrow> (Inr (opt_state opts), w')
       | (NotFound, w') \<Rightarrow> (Inr (opt_state opts), w')
       | (RemoveFailed e, w') \<Rightarrow> (Inl (Panic (''Error: '' @ e)), w'))
      else reads (\<lambda>w. Inr (if dir_exists F w then None else opt_state opts)))"

definition ledger_start :: "('w, 'm, 'g, initial_state) host \<Rightarrow> ('m, 'v, 'g) env \<Rightarrow>
    (json \<Rightarrow> string + multisig_arg) \<Rightarrow> options \<Rightarrow> ('w, ('m, 'g) ledger) op" where
  "ledger_start F E parse opts =
     bnd (ledger_prepare F opts) (\<lambda>state_file.
     bnd (reads (\<lambda>w. panic_on_err ''Could not read PEM file.'' (read_pem F w))) (\<lambda>pem.
     bnd (lift (panic_on_err ''Could not generate identity from PEM file.'' (key_of_pem F pem))) (\<lambda>key.
     bnd (optional_file ''Could not read state file.'' (read_initial F) state_file) (\<lambda>initial.
     bnd (optional_file ''Could not read file passed to --migrations_config'' (read_migrations F) (opt_migrations opts)) (\<lambda>migs.
     bnd (gets (dir_exists F)) (\<lambda>there.
     if there then over_store F (\<lambda>opened. ledger_load E migs opened (opt_abci opts))
     else (case initial of
         Some st \<Rightarrow> over_store F (\<lambda>opened. ledger_new E parse st migs opened (opt_abci opts))
       | None \<Rightarrow> throw (Panic ''Persistent store or staging file not found.''))))))))"

text \<open>The modules in their order, each with the list that guards it.\<close>

definition ledger_modules :: "address list option \<Rightarrow> bool \<Rightarrow> (string \<times> address list option) list" where
  "ledger_modules allow abci =
     [(''LedgerModule'', None), (''LedgerCommandsModule'', allow), (''EventsModule'', None),
      (''LedgerTokensModule'', None), (''LedgerMintBurnModule'', None), (''IdStoreModule'', None),
      (''AccountModule'', None), (''AccountMultisigModule'', None), (''DataModule'', None)]
     @ (if abci then [(''AbciModule'', None)] else [])"

text \<open>
  \<open>AccountFeatureModule::new\<close> adds the features of accounts to the attribute of the module, if it
  has one; what it answers is what the module it wraps answers.
\<close>

definition account_module_info :: "(nat \<times> int list) option \<Rightarrow> u32 list \<Rightarrow> (nat \<times> int list) option" where
  "account_module_info attribute feature_ids =
     map_option (\<lambda>(i, arguments). (i, arguments @ map uint feature_ids)) attribute"

definition ledger_account_info :: "(nat \<times> int list) option \<Rightarrow> (nat \<times> int list) option" where
  "ledger_account_info attribute = account_module_info attribute [0, 1]"

text \<open>The module that has the endpoint of a request.\<close>

fun ledger_module_of :: "server_request \<Rightarrow> string" where
  "ledger_module_of (ReqSend args) = ''LedgerCommandsModule''"
| "ledger_module_of (ReqAccount req) = ''AccountModule''"
| "ledger_module_of (ReqToken req) = ''LedgerTokensModule''"
| "ledger_module_of (ReqMint args) = ''LedgerMintBurnModule''"
| "ledger_module_of (ReqBurn args) = ''LedgerMintBurnModule''"
| "ledger_module_of (ReqMultisig req) = ''AccountMultisigModule''"
| "ledger_module_of (ReqStore address cid pk) = ''IdStoreModule''"

definition ledger_serve :: "('m, 'v, 'g) env \<Rightarrow> nat \<Rightarrow> (string \<times> address list option) list \<Rightarrow> address \<Rightarrow>
    server_request \<Rightarrow> ('m, 'g, unit) ledger_op" where
  "ledger_serve E n modules sender req = (case map_of modules (ledger_module_of req) of
     Some (Some allow) \<Rightarrow> allow_addrs_execute allow (\<lambda>sender. run_request E n sender req) sender
   | _ \<Rightarrow> run_request E n sender req)"

text \<open>The ledger and its modules; the list of allowed senders is read last.\<close>

definition ledger_program :: "('w, 'm, 'g, initial_state) host \<Rightarrow> ('m, 'v, 'g) env \<Rightarrow>
    (json \<Rightarrow> string + multisig_arg) \<Rightarrow> options \<Rightarrow> ('w, ('m, 'g) ledger \<times> (string \<times> address list option) list) op" where
  "ledger_program F E parse opts =
     bnd (ledger_start F E parse opts) (\<lambda>s.
     bnd (optional_file ''unwrap'' (read_addresses F) (opt_allow_addrs opts)) (\<lambda>allow.
     ret (s, ledger_modules allow (opt_abci opts))))"

section \<open>\<open>many-kvstore\<close>\<close>

text \<open>Here the result of the removal is dropped.\<close>

definition kv_prepare :: "('w, 'm, 'g, 'i) host \<Rightarrow> options \<Rightarrow> ('w, string option) op" where
  "kv_prepare F opts =
     (if opt_clean opts then (\<lambda>w. (Inr (opt_state opts), snd (remove_dir_all F w)))
      else reads (\<lambda>w. Inr (if dir_exists F w then None else opt_state opts)))"

definition kv_start :: "('w, 'm, 'g, kv_initial) host \<Rightarrow> ('m, 'v, 'g) env \<Rightarrow> options \<Rightarrow> ('w, 'm kv) op" where
  "kv_start F E opts =
     bnd (kv_prepare F opts) (\<lambda>state_file.
     bnd (reads (\<lambda>w. panic_on_err ''unwrap'' (read_pem F w))) (\<lambda>pem.
     bnd (lift (panic_on_err ''unwrap'' (key_of_pem F pem))) (\<lambda>key.
     bnd (optional_file ''unwrap'' (read_initial F) state_file) (\<lambda>initial.
     bnd (gets (dir_exists F)) (\<lambda>there.
     if there then over_store F (\<lambda>opened. kv_module_load E opened (opt_abci opts))
     else (case initial of
         Some st \<Rightarrow> over_store F (\<lambda>opened. kv_module_new E st opened (opt_abci opts))
       | None \<Rightarrow> throw (Panic ''Persistent store or staging file not found.'')))))))"

definition kv_modules :: "address list option \<Rightarrow> bool \<Rightarrow> (string \<times> address list option) list" where
  "kv_modules allow abci =
     [(''KvStoreModule'', None), (''KvStoreCommandsModule'', allow), (''KvStoreTransferModule'', None),
      (''EventsModule'', None), (''AccountModule'', None)]
     @ (if abci then [(''AbciModule'', None)] else [])"

fun kv_module_of :: "kv_request \<Rightarrow> string" where
  "kv_module_of (KvPut args) = ''KvStoreCommandsModule''"
| "kv_module_of (KvDisable args) = ''KvStoreCommandsModule''"
| "kv_module_of (KvTransfer args) = ''KvStoreTransferModule''"
| "kv_module_of (KvAccount req) = ''AccountModule''"

definition kv_serve :: "('m, 'v, 'g) env \<Rightarrow> (string \<times> address list option) list \<Rightarrow> address \<Rightarrow>
    kv_request \<Rightarrow> ('m, unit) kv_op" where
  "kv_serve E modules sender req = (case map_of modules (kv_module_of req) of
     Some (Some allow) \<Rightarrow> kv_allow_addrs allow (\<lambda>sender. kv_run E sender req) sender
   | _ \<Rightarrow> kv_run E sender req)"

definition kv_program :: "('w, 'm, 'g, kv_initial) host \<Rightarrow> ('m, 'v, 'g) env \<Rightarrow> options \<Rightarrow>
    ('w, 'm kv \<times> (string \<times> address list option) list) op" where
  "kv_program F E opts =
     bnd (kv_start F E opts) (\<lambda>s.
     bnd (optional_file ''unwrap'' (read_addresses F) (opt_allow_addrs opts)) (\<lambda>allow.
     ret (s, kv_modules allow (opt_abci opts))))"

section \<open>\<open>many-abci\<close>\<close>

text \<open>
  The loops that wait for the server and for tendermint. The clock counts nanoseconds; the result
  is \<open>None\<close> when the program gives up. \<open>elapsed().unwrap()\<close> panics when the clock went back.
\<close>

partial_function (option) awaiting :: "('w \<Rightarrow> nat) \<Rightarrow> ('w \<Rightarrow> 'w) \<Rightarrow> ('w \<Rightarrow> ('f + 'a) \<times> 'w) \<Rightarrow> nat \<Rightarrow> nat \<Rightarrow> 'w \<Rightarrow>
    ('a option res \<times> 'w) option" where
  "awaiting clock sleep question limit start w = (case question w of
     (Inr x, w') \<Rightarrow> Some (Inr (Some x), w')
   | (Inl _, w') \<Rightarrow>
       if clock w' < start then Some (Inl (Panic ''unwrap''), w')
       else if (clock w' - start) div 1000000000 > limit then Some (Inr None, w')
       else awaiting clock sleep question limit start (sleep w'))"

text \<open>What the program uses before its server runs.\<close>

record 'n startup =
  first_client :: "string + unit"  \<comment> \<open>\<open>ManyClient::new\<close>\<close>
  clock :: "'n \<Rightarrow> nat"
  sleep_second :: "'n \<Rightarrow> 'n"
  backend_asked :: "'n \<Rightarrow> (many_error + base_status) \<times> 'n"  \<comment> \<open>\<open>many_client.status()\<close>\<close>
  abci_client :: "string + unit"  \<comment> \<open>\<open>into_url\<close> and \<open>ManyClient::new\<close>\<close>
  abci_bound :: "string + unit"  \<comment> \<open>\<open>ServerBuilder::bind\<close>\<close>
  tendermint_client :: "string + unit"  \<comment> \<open>\<open>HttpClient::new\<close>\<close>
  tendermint_asked :: "'n \<Rightarrow> (string + unit) \<times> 'n"  \<comment> \<open>\<open>abci_client.abci_info()\<close>\<close>
  own_key :: "'n \<Rightarrow> string + address \<times> bytes option"
  own_list :: "'n \<Rightarrow> string + address list option"

definition awaited :: "'n startup \<Rightarrow> ('n \<Rightarrow> ('f + 'a) \<times> 'n) \<Rightarrow> nat \<Rightarrow> ('n, 'a option) op" where
  "awaited P question limit = (\<lambda>n.
     case awaiting (clock P) (sleep_second P) question limit (clock P n) n of None \<Rightarrow> (Inl Diverges, n) | Some x \<Rightarrow> x)"

text \<open>\<open>AbciApp::create\<close> asks the server once more, for its name.\<close>

definition app_create :: "'n startup \<Rightarrow> ('e, 'x) wire \<Rightarrow> 'n \<Rightarrow> (string + string) \<times> 'n" where
  "app_create P W n = (case abci_client P of
     Inl e \<Rightarrow> (Inl e, n)
   | Inr _ \<Rightarrow> (case backend_asked P n of
       (Inl x, n') \<Rightarrow> (Inl (many_error_show W x), n')
     | (Inr status, n') \<Rightarrow> (Inr (st_name status), n')))"

text \<open>The key, the list of allowed senders and the front end.\<close>

definition bridge_serve :: "'n startup \<Rightarrow> ('e, 'x) wire \<Rightarrow> 'n node \<Rightarrow> base_status \<Rightarrow> string \<Rightarrow>
    ('n, (string \<times> frontend) option) op" where
  "bridge_serve P W N status app_name =
     bnd (reads (\<lambda>n. panic_on_err ''unwrap'' (own_key P n))) (\<lambda>key.
     bnd (reads (\<lambda>n. panic_on_err ''unwrap'' (own_list P n))) (\<lambda>allow.
     bnd (frontend_new W N status (fst key) (snd key) allow) (\<lambda>backend.
     ret (Some (app_name, backend)))))"

text \<open>\<open>None\<close> is the program's exit with status 1.\<close>

definition bridge_start :: "'n startup \<Rightarrow> ('e, 'x) wire \<Rightarrow> 'n node \<Rightarrow> ('n, (string \<times> frontend) option) op" where
  "bridge_start P W N =
     andthen (lift (panic_on_err ''unwrap'' (first_client P)))
     (bnd (awaited P (backend_asked P) 60) (\<lambda>x. case x of None \<Rightarrow> ret None | Some status \<Rightarrow>
     bnd (\<lambda>n. case app_create P W n of (r, n') \<Rightarrow> (panic_on_err ''unwrap'' r, n')) (\<lambda>app_name.
     andthen (lift (panic_on_err ''unwrap'' (abci_bound P)))
     (andthen (lift (panic_on_err ''unwrap'' (tendermint_client P)))
     (bnd (awaited P (tendermint_asked P) 300) (\<lambda>y. case y of None \<Rightarrow> ret None | Some _ \<Rightarrow>
     bridge_serve P W N status app_name))))))"

section \<open>Starting over a store\<close>

text \<open>Without \<open>--clean\<close>, where there is a store it is loaded, whatever the initial state.\<close>

lemma ledger_start_existing:
  assumes "\<not> opt_clean opts" and "dir_exists F w" and "read_pem F w = Inr pem" and "key_of_pem F pem = Inr key"
    and "optional_file ''Could not read file passed to --migrations_config'' (read_migrations F) (opt_migrations opts) w =
      (Inr migs, w)"
  shows "ledger_start F E parse opts w = over_store F (\<lambda>opened. ledger_load E migs opened (opt_abci opts)) w"
  using assms by (simp add: ledger_start_def ledger_prepare_def optional_file_def run)

lemma kv_start_existing:
  assumes "\<not> opt_clean opts" and "dir_exists F w" and "read_pem F w = Inr pem" and "key_of_pem F pem = Inr key"
  shows "kv_start F E opts w = over_store F (\<lambda>opened. kv_load E opened (opt_abci opts)) w"
  using assms by (simp add: kv_start_def kv_prepare_def optional_file_def kv_module_load_def run)

text \<open>
  The lists of allowed senders guard one module of each server; all other requests are
  answered as without a list.
\<close>

lemma ledger_list_guards_sends:
  "ledger_serve E n (ledger_modules (Some allow) abci) sender req =
    (case req of
       ReqSend args \<Rightarrow> if sender \<in> set allow then run_request E n sender req else raise InvalidFromIdentity
     | _ \<Rightarrow> run_request E n sender req)"
  by (cases req) (simp_all add: ledger_serve_def ledger_modules_def allow_addrs_execute_def)

lemma kv_list_guards_commands:
  "kv_serve E (kv_modules (Some allow) abci) sender req =
    (case req of
       KvPut args \<Rightarrow> if sender \<in> set allow then kv_run E sender req else raise InvalidFromIdentity
     | KvDisable args \<Rightarrow> if sender \<in> set allow then kv_run E sender req else raise InvalidFromIdentity
     | _ \<Rightarrow> kv_run E sender req)"
  by (cases req) (simp_all add: kv_serve_def kv_modules_def kv_allow_addrs_def)

section \<open>Waiting\<close>

text \<open>The clock goes on, and a pause takes a second at least.\<close>

definition steady :: "('w \<Rightarrow> nat) \<Rightarrow> ('w \<Rightarrow> 'w) \<Rightarrow> ('w \<Rightarrow> 'r \<times> 'w) \<Rightarrow> bool" where
  "steady clk sleep question \<longleftrightarrow>
     (\<forall>w. clk w \<le> clk (snd (question w))) \<and> (\<forall>w. clk w + 1000000000 \<le> clk (sleep w))"

lemma awaiting_returns:
  assumes "steady clk sleep question" and "start \<le> clk w"
  shows "\<exists>r w'. awaiting clk sleep question limit start w = Some (Inr r, w') \<and> clk w \<le> clk w' \<and>
    (r = None \<longrightarrow> limit < (clk w' - start) div 1000000000)"
  using assms(2)
proof (induction "start + (limit + 1) * 1000000000 - clk w" arbitrary: w rule: less_induct)
  case less
  obtain q w1 where q: "question w = (q, w1)" by fastforce
  have on: "clk w \<le> clk w1" "clk w1 + 1000000000 \<le> clk (sleep w1)"
    using assms(1) q unfolding steady_def by (metis snd_conv)+
  have start: "\<not> clk w1 < start" using less.prems on(1) by simp
  show ?case
  proof (cases q)
    case (Inr x)
    then show ?thesis using q on(1) by (subst awaiting.simps) simp
  next
    case (Inl e)
    show ?thesis
    proof (cases "(clk w1 - start) div 1000000000 > limit")
      case True
      then show ?thesis using q Inl start on(1) by (subst awaiting.simps) simp
    next
      case False
      then have "clk w1 < start + (limit + 1) * 1000000000" using start by (simp add: div_less_iff_less_mult not_less less_Suc_eq_le [symmetric])
      then have "start + (limit + 1) * 1000000000 - clk (sleep w1) < start + (limit + 1) * 1000000000 - clk w"
        using on by linarith
      from less.hyps [OF this] on start less.prems obtain r w'
        where "awaiting clk sleep question limit start (sleep w1) = Some (Inr r, w')" "clk (sleep w1) \<le> clk w'"
          "r = None \<longrightarrow> limit < (clk w' - start) div 1000000000"
        by fastforce
      then show ?thesis using q Inl start False on by (subst awaiting.simps) simp
    qed
  qed
qed

lemma awaited_returns:
  assumes "steady (clock P) (sleep_second P) question"
  shows "\<exists>r n'. awaited P question limit n = (Inr r, n') \<and> clock P n \<le> clock P n' \<and>
    (r = None \<longrightarrow> limit < (clock P n' - clock P n) div 1000000000)"
  using awaiting_returns [OF assms order_refl, of limit n] by (auto simp: awaited_def)

text \<open>Nothing that makes the front end fails to return.\<close>

definition returning :: "('s, 'a) op \<Rightarrow> bool" where
  "returning m \<longleftrightarrow> (\<forall>s. fst (m s) \<noteq> Inl Diverges)"

named_theorems returningI

lemma returning_bnd [returningI]: "returning m \<Longrightarrow> (\<And>x. returning (f x)) \<Longrightarrow> returning (bnd m f)"
  unfolding returning_def bnd_run by (auto split: prod.splits sum.splits) (metis fst_conv)+

lemma returning_expecting [returningI]: "returning m \<Longrightarrow> returning (expecting msg m)"
  unfolding returning_def expecting_def
  by (auto split: prod.splits sum.splits fault.splits) (metis fst_conv)+

lemma returning_basic [returningI]:
  "returning (ret x)" "returning (lift (from_many q))" "returning (lift (panic_on_err msg y))"
  "returning (\<lambda>n. case h n of (r, n') \<Rightarrow> (panic_on_err msg r, n'))" "returning (reads (\<lambda>n. panic_on_err msg (k n)))"
  by (simp_all add: returning_def run from_many_def panic_on_err_def split: sum.split prod.split)

lemma returning_frontend_new: "returning (frontend_new W N status identity key allow_addrs)"
  unfolding frontend_new_def by (intro returningI)

section \<open>Properties\<close>

text \<open>
  C33. A restarted ledger continues where it was: after a commit, \<open>main\<close> without \<open>--clean\<close> loads the
  store, whatever initial state it is given, and the ledger has the event number, the height
  and the hash it would have had (the agreement that \<open>load\<close> restores by taking one off the height).
\<close>

theorem ledger_resumes:
  assumes E: "store_ok E" "disk_ok E D" "migrations_ok E"
    and c: "commit_block E s = (Inr i, t)" "counter_at E s HEIGHT_ROOT = Inr h" "h + 1 \<noteq> 0"
    and start: "\<not> opt_clean opts" "dir_exists F w" "read_pem F w = Inr pem" "key_of_pem F pem = Inr key"
      "optional_file ''Could not read file passed to --migrations_config'' (read_migrations F) (opt_migrations opts) w =
        (Inr migs, w)"
      "(case migs of None \<Rightarrow> migration_empty E | Some f \<Rightarrow> f (h + 1)) = Inr g"
    and store: "open_store F w = (Inr (persistent_store t), w')" "opt_abci opts = blockchain t"
  shows "\<exists>t'. ledger_start F E parse opts w = (Inr t', w') \<and> latest_tid t' = latest_tid t \<and> view E t' = view E t \<and>
    blockchain t' = blockchain t \<and> migrations t' = g \<and> fst (abci_info_op E t') = fst (abci_info_op E t) \<and>
    fst (abci_info_op E t) = Inr \<lparr>info_height = h + 1, info_hash = app_hash i\<rparr>"
proof -
  note v = commit_block_view [OF E c(1,2)]
  have "height_in E (persistent_store t) = Inr (h + 1)"
    using v(1) E(1) by (simp add: height_in_def merk_get_view view_def)
  then obtain t' where l: "storage_load E (Inr (persistent_store t)) (blockchain t) migs = Inr t'" "migrations t' = g"
    using start(6) by (simp add: storage_load_def)
  have "unwrapped (ledger_load E migs (Inr (persistent_store t)) (blockchain t)) = Inr t'" by (simp add: ledger_load_def l(1))
  then have "ledger_start F E parse opts w = (Inr t', w')"
    using ledger_start_existing [OF start(1-5), of E parse] store by (simp add: over_store_def)
  with load_after_commit [OF E c l(1)] l(2) show ?thesis by blast
qed

text \<open>
  A restarted key-value server continues where it was: for a server made over a fresh store that
  ran any requests and blocks, \<open>main\<close> without \<open>--clean\<close> gives the state of the last commit back,
  but for the block's time and the cached hash, whatever initial state it is given.
\<close>

lemma kv_resumes:
  assumes kv: "kv_env_ok E" "kv_new E (Inr m) acl ident bc = Inr s0" "mview E m SUBRESOURCE_ID_KEY = None"
      "kv_steps E s0 s" "kv_commit E s = (Inr i, t)"
    and start: "\<not> opt_clean opts" "dir_exists F w" "read_pem F w = Inr pem" "key_of_pem F pem = Inr key"
    and store: "open_store F w = (Inr (persistent_store t), w')" "opt_abci opts = blockchain t"
  shows "kv_start F E opts w = (Inr (t\<lparr>current_time := None, current_hash := None\<rparr>), w')"
  using kv_load_after_commit [OF kv] kv_start_existing [OF start, of E] store
  by (simp add: over_store_def unwrapped_def)

text \<open>
  The key-value server does not look whether the removal worked: where it fails, the old store is
  served, and the state file is not used.
\<close>

lemma kv_clean_serves_old:
  assumes "opt_clean opts" and "remove_dir_all F w = (RemoveFailed e, u)" and "dir_exists F u"
    and "read_pem F u = Inr pem" and "key_of_pem F pem = Inr key"
    and "optional_file ''unwrap'' (read_initial F) (opt_state opts) u = (Inr st, u)"
  shows "kv_start F E opts w = over_store F (\<lambda>opened. kv_load E opened (opt_abci opts)) u"
  using assms by (simp add: kv_start_def kv_prepare_def kv_module_load_def run)

text \<open>
  What a removal and an opening do: there is no directory after a removal that worked, and opening
  where there is none makes the empty store \<open>m0\<close> (\<open>create_if_missing\<close> of RocksDB). The files
  that a start reads are not in that directory, so two disks may have the same ones.
\<close>

definition removal_ok :: "('w, 'm, 'g, 'i) host \<Rightarrow> bool" where
  "removal_ok F \<longleftrightarrow>
     (\<forall>w u. remove_dir_all F w = (Removed, u) \<or> remove_dir_all F w = (NotFound, u) \<longrightarrow> \<not> dir_exists F u)"

definition opens_empty :: "('m, 'v, 'g) env \<Rightarrow> ('w, 'm, 'g, 'i) host \<Rightarrow> 'm \<Rightarrow> bool" where
  "opens_empty E F m0 \<longleftrightarrow> mview E m0 = Map.empty \<and>
     (\<forall>u m u'. \<not> dir_exists F u \<and> open_store F u = (Inr m, u') \<longrightarrow> m = m0)"

definition same_files :: "('w, 'm, 'g, 'i) host \<Rightarrow> 'w \<Rightarrow> 'w \<Rightarrow> bool" where
  "same_files F u v \<longleftrightarrow>
     (\<forall>p. read_initial F p u = read_initial F p v \<and> read_migrations F p u = read_migrations F p v)"

text \<open>A ledger that started with \<open>--clean\<close> is what the two files make of the empty store.\<close>

lemma clean_ledger:
  assumes "opt_clean opts" and "removal_ok F" and "opens_empty E F m0"
    and started: "ledger_start F E parse opts w = (Inr s, w')" and u: "u = snd (remove_dir_all F w)"
  shows "\<exists>path initial migs. opt_state opts = Some path \<and> read_initial F path u = Inr initial \<and>
    optional_file ''Could not read file passed to --migrations_config'' (read_migrations F) (opt_migrations opts) u =
      (Inr migs, u) \<and>
    ledger_new E parse initial migs (Inr m0) (opt_abci opts) = Inr s"
proof -
  obtain r where r: "remove_dir_all F w = (r, u)" using u by (metis prod.collapse)
  have "r = Removed \<or> r = NotFound"
    using started assms(1) r by (cases r) (auto simp: ledger_start_def ledger_prepare_def run)
  then have gone: "\<not> dir_exists F u" and prep: "ledger_prepare F opts w = (Inr (opt_state opts), u)"
    using assms(1,2) r unfolding removal_ok_def by (auto simp: ledger_prepare_def run)
  obtain path where path: "opt_state opts = Some path"
    using started prep gone
    by (cases "opt_state opts") (auto simp: ledger_start_def optional_file_def okD split: if_splits option.splits)
  from started prep gone path obtain initial migs where
    i: "read_initial F path u = Inr initial" and
    m: "optional_file ''Could not read file passed to --migrations_config'' (read_migrations F) (opt_migrations opts) u =
      (Inr migs, u)" and
    s: "over_store F (\<lambda>opened. ledger_new E parse initial migs opened (opt_abci opts)) u = (Inr s, w')"
    by (auto simp: ledger_start_def okD panic_on_err_def optional_file_def split: sum.splits option.splits)
  obtain opened u' where o: "open_store F u = (opened, u')" by fastforce
  have "ledger_new E parse initial migs opened (opt_abci opts) = Inr s" using s o by (simp add: over_store_def)
  moreover from this have "\<exists>m. opened = Inr m"
    by (cases opened) (auto simp: ledger_new_def storage_new_def Let_def okD split: if_splits)
  ultimately have "ledger_new E parse initial migs (Inr m0) (opt_abci opts) = Inr s"
    using assms(3) o gone unfolding opens_empty_def by blast
  with path i m show ?thesis by blast
qed

text \<open>
  C37. \<open>--clean\<close>: a ledger that starts with it holds nothing of the old store. Two disks with the same
  state file and the same migration file but whatever old stores, or none, start the same ledger,
  and that ledger is what the state file makes of the empty store: a failing removal starts no
  ledger. Assumed of the file system and RocksDB: a removed directory does not exist, and opening
  a store where there is no directory makes an empty one.
\<close>

theorem clean_start:
  assumes "opt_clean opts" and "removal_ok F" and "opens_empty E F m0"
    and "ledger_start F E parse opts w = (Inr s, w')" and "ledger_start F E parse opts v = (Inr t, v')"
    and "same_files F (snd (remove_dir_all F w)) (snd (remove_dir_all F v))"
  shows "s = t \<and> (\<exists>path initial migs. opt_state opts = Some path \<and>
      read_initial F path (snd (remove_dir_all F w)) = Inr initial \<and>
      ledger_new E parse initial migs (Inr m0) (opt_abci opts) = Inr s)"
proof -
  note one = clean_ledger [OF assms(1-4) refl] and two = clean_ledger [OF assms(1-3,5) refl]
  let ?u = "snd (remove_dir_all F w)" and ?v = "snd (remove_dir_all F v)"
  have "read_initial F p ?v = read_initial F p ?u" "read_migrations F p ?v = read_migrations F p ?u" for p
    using assms(6) unfolding same_files_def by metis+
  with one two show ?thesis by (fastforce simp: optional_file_def run split: option.splits)
qed

text \<open>
  C36. The bridge decides: with a clock that goes on, waiting for the server and for tendermint ends,
  and the bridge gives up only after more than a minute without an answer.
\<close>

theorem bridge_start_decides:
  assumes "steady (clock P) (sleep_second P) (backend_asked P)" and "steady (clock P) (sleep_second P) (tendermint_asked P)"
  shows "fst (bridge_start P W N n) \<noteq> Inl Diverges \<and>
    (fst (bridge_start P W N n) = Inr None \<longrightarrow>
      60 < (clock P (snd (bridge_start P W N n)) - clock P n) div 1000000000)"
proof (cases "first_client P")
  case (Inl e)
  then show ?thesis by (simp add: bridge_start_def run)
next
  case client: (Inr u)
  obtain r n1 where r: "awaited P (backend_asked P) 60 n = (Inr r, n1)" "clock P n \<le> clock P n1"
      "r = None \<longrightarrow> 60 < (clock P n1 - clock P n) div 1000000000"
    using awaited_returns [OF assms(1), of 60 n] by blast
  show ?thesis
  proof (cases r)
    case None
    with r client show ?thesis by (simp add: bridge_start_def run)
  next
    case (Some status)
    obtain a n2 where a: "app_create P W n1 = (a, n2)" by fastforce
    have "clock P n1 \<le> clock P (snd (backend_asked P n1))" using assms(1) by (simp add: steady_def)
    with a have n2: "clock P n1 \<le> clock P n2"
      by (auto simp: app_create_def split: sum.splits prod.splits)
    obtain q n3 where q: "awaited P (tendermint_asked P) 300 n2 = (Inr q, n3)" "clock P n2 \<le> clock P n3"
        "q = None \<longrightarrow> 300 < (clock P n3 - clock P n2) div 1000000000"
      using awaited_returns [OF assms(2), of 300 n2] by blast
    show ?thesis
    proof (cases q)
      case None
      have "(clock P n3 - clock P n2) div 1000000000 \<le> (clock P n3 - clock P n) div 1000000000"
        using r(2) n2 by (intro div_le_mono) simp
      with None q(1,3) r(1) Some a client show ?thesis
        by (cases a; cases "abci_bound P"; cases "tendermint_client P") (simp_all add: bridge_start_def run)
    next
      case new: (Some x)
      have "returning (bridge_serve P W N status app_name)" for app_name
        unfolding bridge_serve_def by (intro returningI returning_frontend_new)
      moreover have "fst (bridge_serve P W N status app_name n3) \<noteq> Inr None" for app_name
        by (auto simp: bridge_serve_def bnd_run ret_run split: prod.split sum.split)
      ultimately show ?thesis using new q(1) r(1) Some a client
        by (cases a; cases "abci_bound P"; cases "tendermint_client P")
          (simp_all add: bridge_start_def bnd_run andthen_run lift_run returning_def)
    qed
  qed
qed

section \<open>Witnesses\<close>

text \<open>A directory with a store or none; the state file is the same one whatever its path.\<close>

definition ref_host :: "string + 'i \<Rightarrow> (ref_store option, ref_store, string list, 'i) host" where
  "ref_host initial = \<lparr>dir_exists = (\<lambda>w. w \<noteq> None),
     remove_dir_all = (\<lambda>w. case w of None \<Rightarrow> (NotFound, None) | Some _ \<Rightarrow> (Removed, None)),
     open_store = (\<lambda>w. case w of None \<Rightarrow> (Inr \<lparr>work = [], disk = []\<rparr>, Some \<lparr>work = [], disk = []\<rparr>) | Some m \<Rightarrow> (Inr m, Some m)),
     read_pem = (\<lambda>_. Inr ''pem''), key_of_pem = (\<lambda>_. Inr 9), read_initial = (\<lambda>_ _. initial),
     read_migrations = (\<lambda>_ _. Inl ''not found''), read_addresses = (\<lambda>_ _. Inl ''not found'')\<rparr>"

definition ref_options :: options where
  "ref_options = \<lparr>opt_state = Some ''state.json5'', opt_clean = False, opt_abci = True, opt_migrations = None,
     opt_allow_addrs = None\<rparr>"

definition ref_initial :: initial_state where
  "ref_initial = \<lparr>is_identity = 5, is_initial = [], is_token_identity = None, is_account_identity = None,
     is_token_next_subresource = None, is_symbols = [(7, ''MFX'')], is_symbols_meta = None, is_accounts = None,
     is_id_store_seed = None, is_id_store_keys = None, is_hash = None\<rparr>"

theorem ledger_resumes_witness:
  "\<exists>i t t'. commit_block ref_env (ref_block 3 [CHR 0x07]) = (Inr i, t) \<and>
    ledger_start (ref_host (Inl ''not found'')) ref_env (\<lambda>_. Inl ''json'') ref_options (Some (persistent_store t)) =
      (Inr t', Some (persistent_store t)) \<and> latest_tid t' = latest_tid t"
proof -
  obtain i t where c: "commit_block ref_env (ref_block 3 [CHR 0x07]) = (Inr i, t)"
    using ref_block_height by (rule ref_commits)
  note v = commit_block_view [OF ref_store_ok ref_disk_ok ref_migrations_ok c ref_block_height]
  have b: "opt_abci ref_options = blockchain t" using v(5) by (simp add: ref_block_def ref_options_def)
  have m: "(case None of None \<Rightarrow> migration_empty ref_env | Some f \<Rightarrow> f (3 + 1)) = Inr []" by (simp add: ref_env_def)
  have o: "optional_file ''Could not read file passed to --migrations_config''
      (read_migrations (ref_host (Inl ''not found'' :: string + initial_state)))
      (opt_migrations ref_options) (Some (persistent_store t)) = (Inr None, Some (persistent_store t))"
    by (simp add: optional_file_def ref_options_def run)
  from ledger_resumes [OF ref_store_ok ref_disk_ok ref_migrations_ok c ref_block_height _ _ _ _ _ o m _ b,
      where w' = "Some (persistent_store t)" and pem = "''pem''" and key = 9 and parse = "\<lambda>_. Inl ''json''"] c
  show ?thesis by (fastforce simp: ref_host_def ref_options_def)
qed

lemma kv_resumes_witness:
  "\<exists>s0 i t. kv_new ref_env (Inr \<lparr>work = [], disk = []\<rparr>) [] 2 True = Inr s0 \<and> kv_commit ref_env s0 = (Inr i, t) \<and>
    kv_start (ref_host (Inl ''not found'')) ref_env (ref_options\<lparr>opt_abci := blockchain t\<rparr>) (Some (persistent_store t)) =
      (Inr (t\<lparr>current_time := None, current_hash := None\<rparr>), Some (persistent_store t))"
proof -
  obtain s0 where s0: "kv_new ref_env (Inr \<lparr>work = [], disk = []\<rparr>) [] 2 True = Inr s0" using ref_kv_new by blast
  then have "kv_counter ref_env s0 HEIGHT_ROOT = Inr 0"
    using ref_kv_env_ok
    by (auto simp: kv_new_def Let_def run kv_counter_def simp del: ref_view) simp
  from kv_commit_run [OF ref_kv_env_ok this] obtain i t where c: "kv_commit ref_env s0 = (Inr i, t)" by blast
  have "mview ref_env \<lparr>work = [], disk = []\<rparr> SUBRESOURCE_ID_KEY = None" by simp
  from kv_resumes [OF ref_kv_env_ok s0 this kv_steps.start c, of "ref_options\<lparr>opt_abci := blockchain t\<rparr>"
      "ref_host (Inl ''not found'')" "Some (persistent_store t)" "''pem''" 9 "Some (persistent_store t)"] s0 c
  show ?thesis by (fastforce simp: ref_host_def ref_options_def)
qed

lemma ref_initial_fields:
  "is_identity ref_initial = 5" "is_initial ref_initial = []" "is_token_identity ref_initial = None"
  "is_account_identity ref_initial = None" "is_token_next_subresource ref_initial = None"
  "is_symbols ref_initial = [(7, ''MFX'')]" "is_symbols_meta ref_initial = None" "is_accounts ref_initial = None"
  "is_id_store_seed ref_initial = None" "is_id_store_keys ref_initial = None" "is_hash ref_initial = None"
  by (simp_all add: ref_initial_def)

lemma ref_no_migrations: "migration_empty ref_env = Inr []"
  by (simp add: ref_env_def)

lemma ref_storage_new: "\<exists>s0. storage_new ref_env (Inr \<lparr>work = [], disk = []\<rparr>) [(7, ''MFX'')] 5 True = Inr s0 \<and> migrations s0 = [] \<and>
    view ref_env s0 HEIGHT_ROOT = None"
proof -
  let ?b = "\<lparr>persistent_store = \<lparr>work = [], disk = []\<rparr>, blockchain = True, current_time = None, current_hash = None\<rparr>"
  let ?kvs = "[(IDENTITY_ROOT, Put (RAddress 5)), (SYMBOLS_ROOT, Put (RSymbols [(7, ''MFX'')]))]"
  have sorted: "batch_ok ?kvs" by (simp add: batch_ok_def key_defs)
  have e: "enc (c_symbols ref_env) [(7, ''MFX'')] = Inr (RSymbols [(7, ''MFX'')])"
    by (simp add: ref_codecs tagged_def)
  have v: "view ref_env (committed ref_env (applied ref_env ?kvs ?b)) HEIGHT_ROOT = None"
    using ref_store_ok sorted by (simp add: key_defs del: ref_view) (simp add: view_def)
  show ?thesis
    using ref_store_ok sorted v
    by (auto simp: storage_new_def e run ref_no_migrations view_def simp del: ref_view)
qed

lemma ref_ledger_new: "\<exists>s. ledger_new ref_env parse ref_initial None (Inr \<lparr>work = [], disk = []\<rparr>) True = Inr s"
proof -
  obtain s0 where s0: "storage_new ref_env (Inr \<lparr>work = [], disk = []\<rparr>) [(7, ''MFX'')] 5 True = Inr s0" "migrations s0 = []"
      "view ref_env s0 HEIGHT_ROOT = None"
    using ref_storage_new by blast
  have ok: "store_ok ref_env" by simp
  have empty: "db_apply ref_env apply_failed [] s = (Inr (), applied ref_env [] s)" for s
    using ok by (simp add: run)
  let ?t = "committed ref_env (applied ref_env [] (applied ref_env [] (s0\<lparr>migrations := []\<rparr>)))"
  have "with_migrations ref_env None s0 = (Inr (), s0\<lparr>migrations := []\<rparr>)"
    by (simp add: with_migrations_def ref_no_migrations run)
  moreover have "with_balances ref_env [(7, ''MFX'')] [] s = (Inr (), applied ref_env [] s)" for s
    by (simp add: with_balances_def run empty)
  moreover have "with_idstore ref_env None None s = (Inr (), applied ref_env [] s)" for s
    by (simp add: with_idstore_def run empty)
  moreover have "with_tokens ref_env [(7, ''MFX'')] None None None [] s = (Inr (), s)"
    and "with_account ref_env None None s = (Inr (), s)" if "migrations s = []" for s
    using that by (simp_all add: with_tokens_def with_account_def token_migration_active_def run)
  moreover have "migrations (applied ref_env b s) = migrations s" for b and s :: "(ref_store, string list) ledger"
    by simp
  ultimately have "andthen (with_migrations ref_env None)
         (andthen (with_balances ref_env [(7, ''MFX'')] [])
         (andthen (with_idstore ref_env None None)
         (andthen (with_tokens ref_env [(7, ''MFX'')] None None None [])
         (andthen (with_account ref_env None None) (storage_build ref_env))))) s0 = (Inr (), ?t)"
    using ok by (simp add: andthen_run storage_build_def db_commit_run)
  moreover have "view ref_env ?t HEIGHT_ROOT = None"
    using ok s0(3) by (simp del: ref_view)
  then have "fst (get_height ref_env ?t) = Inr 0"
    using ok by (simp add: get_height_def run del: ref_view)
  ultimately show ?thesis
    by (simp add: ledger_new_def ref_initial_fields Let_def s0)
qed


text \<open>A disk with an old store and a disk with none.\<close>

theorem clean_start_witness:
  "\<exists>s u. ledger_start (ref_host (Inr ref_initial)) ref_env (\<lambda>_. Inl ''json'') (ref_options\<lparr>opt_clean := True\<rparr>)
      (Some (persistent_store ref_kv)) = (Inr s, u) \<and>
    ledger_start (ref_host (Inr ref_initial)) ref_env (\<lambda>_. Inl ''json'') (ref_options\<lparr>opt_clean := True\<rparr>) None = (Inr s, u) \<and>
    (\<exists>initial migs. ledger_new ref_env (\<lambda>_. Inl ''json'') initial migs (Inr \<lparr>work = [], disk = []\<rparr>) True = Inr s)"
proof -
  let ?opts = "ref_options\<lparr>opt_clean := True\<rparr>"
  let ?F = "ref_host (Inr ref_initial)"
  let ?empty = "\<lparr>work = [], disk = []\<rparr>"
  obtain s where s: "ledger_new ref_env (\<lambda>_. Inl ''json'') ref_initial None (Inr ?empty) True = Inr s"
    using ref_ledger_new by blast
  have started: "ledger_start ?F ref_env (\<lambda>_. Inl ''json'') ?opts w = (Inr s, Some ?empty)" for w
    using s by (cases w) (simp_all add: ledger_start_def ledger_prepare_def optional_file_def over_store_def ref_host_def
        ref_options_def run)
  have "removal_ok ?F" by (auto simp: removal_ok_def ref_host_def split: option.splits)
  moreover have "opens_empty ref_env ?F ?empty"
    by (auto simp: opens_empty_def ref_host_def ref_env_def mview_def split: option.splits)
  moreover have "same_files ?F (snd (remove_dir_all ?F (Some (persistent_store ref_kv)))) (snd (remove_dir_all ?F None))"
    by (simp add: same_files_def ref_host_def)
  ultimately have "\<exists>initial migs. ledger_new ref_env (\<lambda>_. Inl ''json'') initial migs (Inr ?empty) (opt_abci ?opts) = Inr s"
    using clean_start [of ?opts ?F ref_env ?empty "\<lambda>_. Inl ''json''" "Some (persistent_store ref_kv)" s "Some ?empty" None s
        "Some ?empty"] started by (auto simp: ref_options_def)
  then show ?thesis using started by (auto simp: ref_options_def)
qed

text \<open>A directory that cannot be removed: the key-value server serves what is in it.\<close>

definition ref_stuck :: "(ref_store option, ref_store, string list, kv_initial) host" where
  "ref_stuck = (ref_host (Inr \<lparr>init_acl = [], init_identity = 2, init_hash = None\<rparr>))
     \<lparr>remove_dir_all := (\<lambda>w. (RemoveFailed ''permission denied'', w))\<rparr>"

lemma kv_clean_serves_old_witness:
  "kv_start ref_stuck ref_env (ref_options\<lparr>opt_clean := True\<rparr>) (Some (persistent_store ref_kv)) =
    over_store ref_stuck (\<lambda>opened. kv_load ref_env opened (opt_abci (ref_options\<lparr>opt_clean := True\<rparr>)))
      (Some (persistent_store ref_kv))"
  by (rule kv_clean_serves_old [where e = "''permission denied''" and pem = "''pem''" and key = 9
        and st = "Some \<lparr>init_acl = [], init_identity = 2, init_hash = None\<rparr>"])
    (simp_all add: ref_options_def ref_stuck_def ref_host_def optional_file_def run)

text \<open>A server that answers after three seconds and a tendermint that never does.\<close>

definition ref_startup :: "nat startup" where
  "ref_startup = \<lparr>first_client = Inr (), clock = id, sleep_second = (\<lambda>n. n + 1000000000),
     backend_asked = (\<lambda>n. (if n < 3000000000 then Inl InvalidIdentity else Inr \<lparr>st_name = ''many-ledger'', st_version = 1,
        st_identity = 7, st_public_key = None, st_attributes = [], st_server_version = ''0.1.0''\<rparr>, n)),
     abci_client = Inr (), abci_bound = Inr (), tendermint_client = Inr (), tendermint_asked = (\<lambda>n. (Inl ''connection refused'', n)),
     own_key = (\<lambda>_. Inr (9, None)), own_list = (\<lambda>_. Inr None)\<rparr>"

theorem bridge_start_decides_witness: "fst (bridge_start ref_startup ex_bridge ex_chain 0) \<noteq> Inl Diverges"
proof -
  have "steady (clock ref_startup) (sleep_second ref_startup) (backend_asked ref_startup)"
    and "steady (clock ref_startup) (sleep_second ref_startup) (tendermint_asked ref_startup)"
    by (simp_all add: steady_def ref_startup_def)
  from bridge_start_decides [OF this] show ?thesis by blast
qed

end
