(* ===== verification/Programs.thy ===== *)
theory Programs
  imports Startup
begin

text \<open>
  The programs from end to end: the key that a client signs with, how a failing command is
  reported, the amounts of the \<open>ledger\<close> client on the wire, the list of migrations, the servers
  until they exit, the features of a state file as a set, and the build of the ledger with testing
  features. The hardware module, files and the HTTP servers are parameters.
\<close>

text \<open>\<open>.expect(msg)\<close> on what an action gives, and on a result with a \<open>ManyError\<close>.\<close>

definition must :: "string \<Rightarrow> ('w \<Rightarrow> (string + 'a) \<times> 'w) \<Rightarrow> ('w, 'a) op" where
  "must msg f = (\<lambda>w. case f w of (r, w') \<Rightarrow> (panic_on_err msg r, w'))"

lemma must_run [run]: "must msg f w = (case f w of (r, w') \<Rightarrow> (panic_on_err msg r, w'))"
  by (simp add: must_def)

lemma must_ok [okD]: "must msg f w = (Inr x, w') \<longleftrightarrow> f w = (Inr x, w')"
  by (auto simp: must_def panic_on_err_def split: prod.split sum.split)

definition expect_many :: "string \<Rightarrow> many_error + 'a \<Rightarrow> 'a res" where
  "expect_many msg r = (case r of Inl _ \<Rightarrow> Inl (Panic msg) | Inr x \<Rightarrow> Inr x)"

lemma expect_many_ok [okD]: "expect_many msg r = Inr x \<longleftrightarrow> r = Inr x"
  by (simp add: expect_many_def split: sum.split)

section \<open>The key of a client\<close>

text \<open>\<open>Hsm\<close>, \<open>rpassword\<close> and \<open>CoseKeyIdentity\<close>.\<close>

record ('w, 'k) keyring =
  prompt_pin :: "'w \<Rightarrow> (string + string) \<times> 'w"
  hsm_instance :: "'w \<Rightarrow> string + unit"
  hsm_init :: "string \<Rightarrow> bytes \<Rightarrow> 'w \<Rightarrow> (string + unit) \<times> 'w"
  hsm_open_session :: "u64 \<Rightarrow> string \<Rightarrow> 'w \<Rightarrow> (string + unit) \<times> 'w"
  hsm_identity :: "'w \<Rightarrow> string + 'k"
  hex_bytes :: "string \<Rightarrow> string + bytes"
  pem_text :: "string \<Rightarrow> 'w \<Rightarrow> string + bytes"
  pem_identity :: "bytes \<Rightarrow> string + 'k"
  anonymous_identity :: 'k
  identity_address :: "'k \<Rightarrow> address"

record client_options =
  co_pem :: "string option"
  co_module :: "string option"
  co_slot :: "u64 option"
  co_keyid :: "string option"

definition pem_key :: "('w, 'k) keyring \<Rightarrow> string option \<Rightarrow> ('w, 'k) op" where
  "pem_key K pem = (case pem of None \<Rightarrow> ret (anonymous_identity K)
     | Some p \<Rightarrow> bnd (reads (\<lambda>w. panic_on_err ''unwrap'' (pem_text K p w)))
         (\<lambda>t. lift (panic_on_err ''unwrap'' (pem_identity K t))))"

definition hsm_key :: "('w, 'k) keyring \<Rightarrow> string \<Rightarrow> u64 \<Rightarrow> string \<Rightarrow> ('w, 'k) op" where
  "hsm_key K modul slot keyid =
     bnd (must ''I/O error when reading HSM PIN'' (prompt_pin K)) (\<lambda>pin.
     bnd (lift (panic_on_err ''Failed to decode keyid to hex'' (hex_bytes K keyid))) (\<lambda>key.
     andthen (reads (\<lambda>w. panic_on_err ''HSM mutex poisoned'' (hsm_instance K w)))
     (andthen (must ''Failed to initialize HSM module'' (hsm_init K modul key))
     (andthen (must ''Failed to open HSM session'' (hsm_open_session K slot pin))
       (reads (\<lambda>w. panic_on_err ''Unable to create CoseKeyIdentity from HSM'' (hsm_identity K w)))))))"

definition ledger_client_key :: "('w, 'k) keyring \<Rightarrow> client_options \<Rightarrow> ('w, 'k) op" where
  "ledger_client_key K opts = (case (co_module opts, co_slot opts, co_keyid opts) of
     (Some modul, Some slot, Some keyid) \<Rightarrow> hsm_key K modul slot keyid
   | _ \<Rightarrow> pem_key K (co_pem opts))"

text \<open>
  What the attributes of \<open>Opts\<close> let through: the three options of the hardware module come
  together, and not with a PEM file.
\<close>

definition options_accepted :: "client_options \<Rightarrow> bool" where
  "options_accepted opts \<longleftrightarrow>
     ((co_module opts = None) = (co_slot opts = None)) \<and> ((co_slot opts = None) = (co_keyid opts = None)) \<and>
     (co_pem opts = None \<or> co_module opts = None)"

text \<open>Then every option that is given is used.\<close>

lemma client_key_used:
  assumes "options_accepted opts"
  shows "ledger_client_key K opts =
    (case co_pem opts of Some p \<Rightarrow> pem_key K (Some p)
     | None \<Rightarrow> (case co_module opts of None \<Rightarrow> ret (anonymous_identity K)
         | Some modul \<Rightarrow> hsm_key K modul (the (co_slot opts)) (the (co_keyid opts))))"
  using assms by (auto simp: options_accepted_def ledger_client_key_def pem_key_def split: option.split)

section \<open>Reporting a failure\<close>

text \<open>\<open>str::split\<close> at a character, and \<open>join\<close>.\<close>

fun split_char :: "char \<Rightarrow> string \<Rightarrow> string list" where
  "split_char c [] = [[]]"
| "split_char c (x # xs) = (if x = c then [] # split_char c xs
     else (case split_char c xs of [] \<Rightarrow> [[x]] | p # ps \<Rightarrow> (x # p) # ps))"

fun join :: "string \<Rightarrow> string list \<Rightarrow> string" where
  "join sep [] = []"
| "join sep [p] = p"
| "join sep (p # q # ps) = p @ sep @ join sep (q # ps)"

abbreviation "newline \<equiv> CHR 0x0A"

definition error_report :: "string \<Rightarrow> string" where
  "error_report message = ''Error returned by server:'' @ newline # ''|  '' @
     join (newline # ''|  '') (split_char newline message) @ [newline]"

lemma split_char_nonempty [simp]: "split_char c s \<noteq> []"
  by (cases s) (auto split: list.split)

lemma join_Cons: "ps \<noteq> [] \<Longrightarrow> join sep (p # ps) = p @ sep @ join sep ps"
  by (cases ps) simp_all

lemma join_longer: "join sep ((x # p) # ps) = x # join sep (p # ps)"
  by (cases ps) simp_all

text \<open>Splitting and joining replaces the character by the separator.\<close>

lemma join_split: "join sep (split_char c s) = concat (map (\<lambda>x. if x = c then sep else [x]) s)"
proof (induction s)
  case (Cons x s)
  show ?case
  proof (cases "x = c")
    case True
    then show ?thesis using Cons.IH by (simp add: join_Cons)
  next
    case False
    obtain p ps where "split_char c s = p # ps" by (cases "split_char c s") auto
    then show ?thesis using Cons.IH False by (simp add: join_longer)
  qed
qed simp

lemma join_split_same: "join [c] (split_char c s) = s"
proof -
  have "concat (map (\<lambda>x. if x = c then [c] else [x]) s) = s" by (induction s) auto
  then show ?thesis by (simp add: join_split)
qed

text \<open>No line of a report but the first and the empty last one lacks the bar.\<close>

lemma split_join_lines:
  assumes "\<forall>p \<in> set ps. c \<notin> set p" and "ps \<noteq> []"
  shows "split_char c (join [c] ps) = ps"
  using assms
proof (induction ps)
  case (Cons p ps)
  have one: "split_char c p = [p]" and more: "split_char c (p @ c # q) = p # split_char c q" if "c \<notin> set p" for p q
    using that by (induction p) auto
  show ?case
  proof (cases ps)
    case Nil
    then show ?thesis using Cons.prems one by simp
  next
    case (Cons q qs)
    then show ?thesis using Cons.IH Cons.prems more by (auto simp: join_Cons)
  qed
qed simp

text \<open>A program that ends: with what it has done, or with the status 1 and the report.\<close>

datatype 'a ended = Done 'a | Failed string

definition ended_with :: "(many_error \<Rightarrow> string) \<Rightarrow> ('w, 'a) op \<Rightarrow> ('w, 'a ended) op" where
  "ended_with shown m = bnd (attempt m) (\<lambda>r. ret (case r of
     Inl e \<Rightarrow> Failed (error_report (shown e)) | Inr x \<Rightarrow> Done x))"

definition ledger_client_main :: "('w, 'k) keyring \<Rightarrow> ('k \<Rightarrow> string + ('w, 'e, 'x) client) \<Rightarrow> ('e, 'x) wire \<Rightarrow>
    (bytes \<Rightarrow> address option) \<Rightarrow> client_options \<Rightarrow> ledger_subcommand \<Rightarrow> ('w, printed ended) op" where
  "ledger_client_main K new_client W pem_address opts sub =
     bnd (ledger_client_key K opts) (\<lambda>key.
     bnd (lift (panic_on_err ''unwrap'' (new_client key))) (\<lambda>C.
     ended_with (many_error_show W) (ledger_command C W pem_address (identity_address K key) sub)))"

definition kv_client_main :: "('w, 'k) keyring \<Rightarrow> ('k \<Rightarrow> string + ('w, 'e, 'x) client) \<Rightarrow> ('e, 'x) wire \<Rightarrow>
    string option \<Rightarrow> address option \<Rightarrow> (string + bytes) \<Rightarrow> kv_subcommand \<Rightarrow> ('w, printed ended) op" where
  "kv_client_main K new_client W pem alt_owner input sub =
     bnd (pem_key K pem) (\<lambda>key.
     bnd (lift (panic_on_err ''unwrap'' (new_client key))) (\<lambda>C.
     ended_with (many_error_show W) (kv_command C W alt_owner input sub)))"

text \<open>The status is 1 exactly when the command ended in an error; the world is as it left it.\<close>

lemma ended_with_outcome:
  "ended_with shown m w = (case m w of (r, w') \<Rightarrow> (case r of
     Inr x \<Rightarrow> Inr (Done x) | Inl (Err e) \<Rightarrow> Inr (Failed (error_report (shown e))) | Inl f \<Rightarrow> Inl f, w'))"
  by (simp add: ended_with_def run split: prod.split sum.split fault.split)

section \<open>Amounts on the wire\<close>

text \<open>
  \<open>Amount\<close> writes a tagged byte string: the items of the encoder, one constructor for those the
  code reads. \<open>BigUint::to_bytes_be\<close> gives at least one byte.
\<close>

datatype cbor_item = CborTag nat | CborBytes bytes | CborOther nat

fun to_bytes_be :: "nat \<Rightarrow> bytes" where
  "to_bytes_be n = (if n < 256 then [char_of n] else to_bytes_be (n div 256) @ [char_of (n mod 256)])"

declare to_bytes_be.simps [simp del]

definition encode_amount :: "nat \<Rightarrow> cbor_item list" where
  "encode_amount n = [CborTag 2, CborBytes (to_bytes_be n)]"

fun decode_amount :: "cbor_item list \<Rightarrow> string + nat \<times> cbor_item list" where
  "decode_amount (CborTag t # rest) = (if t \<noteq> 2 then Inl ''Invalid tag.''
     else (case rest of CborBytes b # after \<Rightarrow> Inr (be_nat b, after) | _ \<Rightarrow> Inl ''unexpected type''))"
| "decode_amount items = Inl ''unexpected type''"

lemma be_nat_to_bytes: "be_nat (to_bytes_be n) = n"
proof (induction n rule: to_bytes_be.induct)
  case (1 n)
  show ?case
  proof (cases "n < 256")
    case True
    then show ?thesis by (subst to_bytes_be.simps) (simp add: be_nat_def)
  next
    case False
    then have "be_nat (to_bytes_be n) = be_nat (to_bytes_be (n div 256)) * 256 + n mod 256"
      by (subst to_bytes_be.simps) (simp add: be_nat_def)
    also have "\<dots> = n" using 1 False by simp
    finally show ?thesis .
  qed
qed

lemma wire_amount_roundtrip: "decode_amount (encode_amount n @ rest) = Inr (n, rest)"
  by (simp add: encode_amount_def be_nat_to_bytes)

section \<open>The servers until they exit\<close>

text \<open>\<open>--list-migrations\<close>: names and descriptions of the registry.\<close>

definition migration_lines :: "(string \<times> string) list \<Rightarrow> string list" where
  "migration_lines registry = concat (map (\<lambda>(n, d). [''Name: '' @ n, ''Description: '' @ d]) registry)"

datatype 's server_end = Listed "string list" | Stopped 's

text \<open>
  \<open>pem\<close> and \<open>persistent\<close> are the options of this name, \<open>bind\<close> is the HTTP server, which ends when a
  signal stops it.
\<close>

definition ledger_main :: "('w, 'm, 'g, initial_state) host \<Rightarrow> ('m, 'v, 'g) env \<Rightarrow> (json \<Rightarrow> string + multisig_arg) \<Rightarrow>
    (string \<times> string) list \<Rightarrow> bool \<Rightarrow> string option \<Rightarrow> string option \<Rightarrow> options \<Rightarrow>
    (('m, 'g) ledger \<times> (string \<times> address list option) list \<Rightarrow> 'w \<Rightarrow> (string + unit) \<times> 'w) \<Rightarrow>
    ('w, (('m, 'g) ledger \<times> (string \<times> address list option) list) server_end) op" where
  "ledger_main F E parse registry list_migrations pem persistent opts bind =
     (if list_migrations then ret (Listed (migration_lines registry))
      else if pem = None \<or> persistent = None then throw (Panic ''unwrap'')
      else bnd (ledger_program F E parse opts) (\<lambda>server.
        andthen (must ''unwrap'' (bind server)) (ret (Stopped server))))"

definition kv_main :: "('w, 'm, 'g, kv_initial) host \<Rightarrow> ('m, 'v, 'g) env \<Rightarrow> options \<Rightarrow>
    ('m kv \<times> (string \<times> address list option) list \<Rightarrow> 'w \<Rightarrow> (string + unit) \<times> 'w) \<Rightarrow>
    ('w, 'm kv \<times> (string \<times> address list option) list) op" where
  "kv_main F E opts bind =
     bnd (kv_program F E opts) (\<lambda>server. andthen (must ''unwrap'' (bind server)) (ret server))"

text \<open>The status with which the bridge exits.\<close>

definition bridge_main :: "'n startup \<Rightarrow> ('e, 'x) wire \<Rightarrow> 'n node \<Rightarrow>
    (string \<times> frontend \<Rightarrow> 'n \<Rightarrow> (string + unit) \<times> 'n) \<Rightarrow> ('n, nat) op" where
  "bridge_main P W N bind = bnd (bridge_start P W N) (\<lambda>x. case x of
     None \<Rightarrow> ret 1
   | Some server \<Rightarrow> andthen (must ''Error happened in many'' (bind server)) (ret 0))"

text \<open>Listing the migrations neither reads nor changes anything.\<close>

lemma listing_touches_nothing:
  "ledger_main F E parse registry True pem persistent opts bind w = (Inr (Listed (migration_lines registry)), w)"
  by (simp add: ledger_main_def run)

text \<open>The bridge exits with 0 or 1; with 0 only after it has served.\<close>

lemma bridge_status:
  assumes "bridge_main P W N bind n = (Inr status, n')"
  shows "status = 1 \<and> bridge_start P W N n = (Inr None, n') \<or>
    status = 0 \<and> (\<exists>server n1. bridge_start P W N n = (Inr (Some server), n1) \<and> bind server n1 = (Inr (), n'))"
proof -
  obtain x n1 where x: "bridge_start P W N n = (Inr x, n1)"
    using assms by (auto simp: bridge_main_def bnd_ok)
  with assms show ?thesis by (cases x) (auto simp: bridge_main_def okD)
qed

section \<open>The features of a state file\<close>

text \<open>
  \<open>FeatureJson\<close> is compared by its number alone, so a set of features keeps one for each number;
  an element that is there is not replaced by an equal one.
\<close>

definition feature_json_eq :: "feature_json \<Rightarrow> feature_json \<Rightarrow> bool" where
  "feature_json_eq f g \<longleftrightarrow> fj_id f = fj_id g"

definition feature_json_less :: "feature_json \<Rightarrow> feature_json \<Rightarrow> bool" where
  "feature_json_less f g \<longleftrightarrow> fj_id f < fj_id g"

fun feature_json_insert :: "feature_json \<Rightarrow> feature_json list \<Rightarrow> feature_json list" where
  "feature_json_insert f [] = [f]"
| "feature_json_insert f (g # gs) =
     (if feature_json_less f g then f # g # gs
      else if feature_json_eq f g then g # gs
      else g # feature_json_insert f gs)"

definition feature_json_set :: "feature_json list \<Rightarrow> feature_json list" where
  "feature_json_set fs = fold feature_json_insert fs []"

abbreviation feature_found :: "nat \<Rightarrow> feature_json list \<Rightarrow> feature_json option" where
  "feature_found i \<equiv> find (\<lambda>g. fj_id g = i)"

lemma set_feature_insert: "set (feature_json_insert f gs) \<subseteq> insert f (set gs)"
  by (induction f gs rule: feature_json_insert.induct) auto

lemma feature_inserted: "sorted_wrt feature_json_less gs \<Longrightarrow> sorted_wrt feature_json_less (feature_json_insert f gs)"
proof (induction f gs rule: feature_json_insert.induct)
  case (2 f g gs)
  consider "fj_id f < fj_id g" | "fj_id f = fj_id g" | "fj_id g < fj_id f" by linarith
  then show ?case
  proof cases
    case 3
    then have "\<forall>x \<in> set (feature_json_insert f gs). feature_json_less g x"
      using 2(2) set_feature_insert [of f gs] by (auto simp: feature_json_less_def)
    with 2 3 show ?thesis by (simp add: feature_json_less_def feature_json_eq_def)
  next
    case 1
    then have "\<forall>x \<in> set gs. fj_id f < fj_id x"
      using 2(2) by (meson feature_json_less_def less_trans list.set_intros sorted_wrt.simps(2))
    with 2 1 show ?thesis by (simp add: feature_json_less_def)
  qed (use 2 in \<open>simp add: feature_json_less_def feature_json_eq_def\<close>)
qed simp

lemma feature_insert_found:
  assumes "sorted_wrt feature_json_less gs"
  shows "feature_found i (feature_json_insert f gs) =
    (case feature_found i gs of None \<Rightarrow> if fj_id f = i then Some f else None | Some g \<Rightarrow> Some g)"
  using assms
proof (induction f gs rule: feature_json_insert.induct)
  case (2 f g gs)
  have none: "feature_found (fj_id f) gs = None" if "fj_id f < fj_id g"
  proof -
    have "\<forall>x \<in> set gs. fj_id g < fj_id x" using 2(2) by (simp add: feature_json_less_def)
    then show ?thesis using that unfolding find_None_iff by (metis less_irrefl order_less_trans)
  qed
  show ?case
  proof (cases "fj_id f < fj_id g \<or> fj_id f = fj_id g")
    case True
    show ?thesis
    proof (cases "fj_id f < fj_id g")
      case True
      then show ?thesis using none by (cases "fj_id f = i") (simp_all add: feature_json_less_def split: option.split)
    next
      case False
      then show ?thesis using True
        by (cases "fj_id f = i") (simp_all add: feature_json_less_def feature_json_eq_def split: option.split)
    qed
  next
    case False
    with 2 show ?thesis by (simp add: feature_json_less_def feature_json_eq_def)
  qed
qed simp

lemma features_fold_found:
  assumes "sorted_wrt feature_json_less gs"
  shows "sorted_wrt feature_json_less (fold feature_json_insert fs gs) \<and>
    feature_found i (fold feature_json_insert fs gs) =
      (case feature_found i gs of None \<Rightarrow> feature_found i fs | Some g \<Rightarrow> Some g)"
  using assms
proof (induction fs arbitrary: gs)
  case (Cons f fs)
  then show ?case using feature_inserted [of gs f] feature_insert_found [of gs i f]
    by (auto split: option.split)
qed (simp split: option.split)

text \<open>Of the features with one number the first in the file counts.\<close>

lemma first_feature_counts:
  "sorted_wrt feature_json_less (feature_json_set fs) \<and> feature_found i (feature_json_set fs) = feature_found i fs"
  using features_fold_found [of "[]" fs i] by (simp add: feature_json_set_def)

text \<open>\<open>InitialStateJson::read\<close>: the file, the parser \<open>json5\<close>, and the check of the identities.\<close>

definition read_state :: "(string \<Rightarrow> string + string) \<Rightarrow> (string \<Rightarrow> string + initial_state) \<Rightarrow> string \<Rightarrow>
    string + initial_state" where
  "read_state file json5 path = (case file path of
     Inl e \<Rightarrow> Inl e
   | Inr content \<Rightarrow> (case json5 content of
       Inl e \<Rightarrow> Inl e
     | Inr s \<Rightarrow> (case read_check s of
         Inl (Err (Unknown m)) \<Rightarrow> Inl m | Inl _ \<Rightarrow> Inl [] | Inr s \<Rightarrow> Inr s)))"

lemma read_state_identities:
  assumes "read_state file json5 path = Inr s" and "is_token_identity s = Some t" and "is_account_identity s = Some a"
  shows "t \<noteq> a"
  using assms
  by (auto simp: read_state_def read_check_def split: sum.splits option.splits if_splits fault.splits many_error.splits)

section \<open>The ledger with testing features\<close>

text \<open>
  \<open>--balance-only-for-testing\<close>: \<open>str::splitn(3, ':')\<close> and the parsers of its parts.
\<close>

fun splitn :: "nat \<Rightarrow> char \<Rightarrow> string \<Rightarrow> string list" where
  "splitn 0 c s = []"
| "splitn (Suc 0) c s = [s]"
| "splitn (Suc (Suc n)) c s = (case dropWhile (\<lambda>x. x \<noteq> c) s of
     [] \<Rightarrow> [s] | _ # after \<Rightarrow> takeWhile (\<lambda>x. x \<noteq> c) s # splitn (Suc n) c after)"

definition testing_balance :: "('m, 'v, 'g) env \<Rightarrow> string \<Rightarrow> (address \<times> u64 \<times> symbol) res" where
  "testing_balance E argument = (case splitn 3 (CHR '':'') argument of
     [] \<Rightarrow> Inl (Panic ''unwrap'')
   | [_] \<Rightarrow> Inl (Panic ''No amount.'')
   | [_, _] \<Rightarrow> Inl (Panic ''No symbol.'')
   | identity # amount # symb # _ \<Rightarrow>
       rbind (expect_many ''Invalid identity.'' (address_from_str E identity)) (\<lambda>a.
       rbind (panic_on_err ''Invalid amount.'' (parse_unsigned 64 amount)) (\<lambda>n.
       rbind (expect_many ''Invalid symbol.'' (address_from_str E symb)) (\<lambda>x.
       Inr (a, word_of_nat n, x)))))"

text \<open>
  The amount is put and committed at once. Both conditions are assertions: the symbol is known,
  and no block was committed.
\<close>

definition set_balance_only_for_testing :: "('m, 'v, 'g) env \<Rightarrow> address \<Rightarrow> u64 \<Rightarrow> symbol \<Rightarrow> ('m, 'g, unit) ledger_op" where
  "set_balance_only_for_testing E a amount x = bnd (get_symbols E) (\<lambda>syms.
     andthen (unless (x \<in> set syms) (Panic ''assertion failed''))
     (bnd (gets current_hash) (\<lambda>h.
     andthen (unless (h = None) (Panic ''assertion failed''))
     (andthen (db_apply E apply_failed [(key_for_account_balance E a x, Put (amount_to_vec E (unat amount)))])
       (commit_storage E)))))"

definition set_testing_balances :: "('m, 'v, 'g) env \<Rightarrow> string list \<Rightarrow> ('m, 'g, unit) ledger_op" where
  "set_testing_balances E balances = for_each balances (\<lambda>b.
     bnd (lift (testing_balance E b)) (\<lambda>(a, n, x).
     expecting ''Unable to set balance for testing.'' (set_balance_only_for_testing E a n x)))"

text \<open>A new ledger of this build; a store that is there is loaded without the balances.\<close>

definition ledger_new_testing :: "('m, 'v, 'g) env \<Rightarrow> (json \<Rightarrow> string + multisig_arg) \<Rightarrow> initial_state \<Rightarrow>
    (u64 \<Rightarrow> many_error + 'g) option \<Rightarrow> string list option \<Rightarrow> string + 'm \<Rightarrow> bool \<Rightarrow> ('m, 'g) ledger res" where
  "ledger_new_testing E parse st migs balances opened bc =
     rbind (unwrapped (ledger_new E parse st migs opened bc)) (\<lambda>s.
     case set_testing_balances E (case balances of None \<Rightarrow> [] | Some bs \<Rightarrow> bs) s of
       (Inl e, _) \<Rightarrow> Inl e | (Inr _, t) \<Rightarrow> Inr t)"

text \<open>\<open>--disable-webauthn-only-for-testing\<close>: which check the identity store's module makes.\<close>

definition idstore_module_validate :: "bool \<Rightarrow> (many_error \<Rightarrow> bool) \<Rightarrow> many_error + unit \<Rightarrow> unit res" where
  "idstore_module_validate disable_webauthn is_non_webauthn inner =
     (if disable_webauthn then webauthn_validate is_non_webauthn False inner else from_many inner)"

text \<open>One balance is set and nothing else, and the store has it after a restart.\<close>

lemma set_balance_exact:
  assumes E: "store_ok E" and set: "set_balance_only_for_testing E a n x s = (Inr (), t)"
  shows "view E t = (view E s)(key_for_account_balance E a x \<mapsto> amount_to_vec E (unat n))"
    and "current_hash s = None" and "\<exists>syms. fst (get_symbols E s) = Inr syms \<and> x \<in> set syms"
proof -
  obtain syms where syms: "get_symbols E s = (Inr syms, s)"
    using set pure_actD [OF pure_get_symbols, of E s] by (auto simp: set_balance_only_for_testing_def okD)
  with set E show "view E t = (view E s)(key_for_account_balance E a x \<mapsto> amount_to_vec E (unat n))"
    and "current_hash s = None" and "\<exists>syms. fst (get_symbols E s) = Inr syms \<and> x \<in> set syms"
    by (auto simp: set_balance_only_for_testing_def commit_storage_def run split: if_splits)
qed

text \<open>Where the sender of a request is no WebAuthn identity, only this option lets it through.\<close>

lemma webauthn_needed:
  "is_non_webauthn e \<Longrightarrow> idstore_module_validate off is_non_webauthn (Inl e) = Inr () \<longleftrightarrow> off"
  by (simp add: idstore_module_validate_def webauthn_validate_def)

lemma splitn_three:
  assumes "c \<notin> set a" and "c \<notin> set b"
  shows "splitn 3 c (a @ c # b @ c # d) = [a, b, d]"
proof -
  have "takeWhile (\<lambda>x. x \<noteq> c) (p @ c # q) = p" and "dropWhile (\<lambda>x. x \<noteq> c) (p @ c # q) = c # q" if "c \<notin> set p" for p q
    using that by (induction p) auto
  then show ?thesis using assms by (simp add: numeral_3_eq_3)
qed

end
