(* ===== verification/Proxy.thy ===== *)
theory Proxy
  imports Client KvProps
begin

text \<open>
  Two programs that read what the servers wrote: \<open>http_proxy\<close>, which answers web requests from a
  key-value server, and \<open>ledger-db\<close>, which prints the store of a ledger. What the proxy answers
  is a function of the values the server holds; what the dump prints of an entry names the
  account, symbol, event or transaction the ledger stored it for.
\<close>

section \<open>\<open>http_proxy\<close>\<close>

datatype http_method = GetMethod | OtherMethod string

text \<open>\<open>hr_sent\<close>: whether \<open>respond\<close> returns no error.\<close>

record http_request =
  hr_method :: http_method
  hr_url :: string
  hr_sent :: bool

record http_response =
  ht_status :: nat
  ht_body :: bytes
  ht_type :: "string option"  \<comment> \<open>the header \<open>Content-Type\<close>\<close>

definition empty_answer :: "nat \<Rightarrow> http_response" where
  "empty_answer n = \<lparr>ht_status = n, ht_body = [], ht_type = None\<rparr>"

text \<open>\<open>request.respond(..).unwrap()\<close>, and \<open>let _ = request.respond(..)\<close>.\<close>

definition respond_unwrap :: "http_request \<Rightarrow> http_response \<Rightarrow> ('w, http_response option) op" where
  "respond_unwrap r x = (if hr_sent r then ret (Some x) else throw (Panic ''unwrap''))"

definition respond_ignore :: "http_request \<Rightarrow> http_response \<Rightarrow> ('w, http_response option) op" where
  "respond_ignore r x = ret (if hr_sent r then Some x else None)"

definition proxy_key :: "string \<Rightarrow> bytes" where
  "proxy_key path = ''http/'' @ path"

text \<open>
  One turn of the loop of \<open>main\<close>; \<open>mime\<close> is what is guessed from a path. The answer is \<open>None\<close> when
  it could not be sent.
\<close>

definition proxy_serve :: "('w, 'e, 'x) client \<Rightarrow> (string \<Rightarrow> string option) \<Rightarrow> http_request \<Rightarrow>
    ('w, http_response option) op" where
  "proxy_serve C mime r =
     (case hr_method r of
        GetMethod \<Rightarrow> (\<lambda>w. case cl_call_data C ''kvstore.get'' (KvGetArgs (proxy_key (hr_url r))) w of
          (Inr result, w') \<Rightarrow>
            bnd (lift (panic_on_err ''unwrap'' (dec_kv_get C result))) (\<lambda>found.
              case found of
                None \<Rightarrow> respond_unwrap r (empty_answer 404)
              | Some v \<Rightarrow> respond_ignore r \<lparr>ht_status = 200, ht_body = v, ht_type = mime (hr_url r)\<rparr>) w'
        | (Inl _, w') \<Rightarrow> respond_unwrap r (empty_answer 500) w')
      | OtherMethod x \<Rightarrow> respond_ignore r (empty_answer 405))"

primrec proxy_run :: "('w, 'e, 'x) client \<Rightarrow> (string \<Rightarrow> string option) \<Rightarrow> http_request list \<Rightarrow>
    ('w, http_response option list) op" where
  "proxy_run C mime [] = ret []"
| "proxy_run C mime (r # rs) = bnd (proxy_serve C mime r) (\<lambda>x. bnd (proxy_run C mime rs) (\<lambda>xs. ret (x # xs)))"

text \<open>What a site is to answer, given the values and metadata of the keys.\<close>

definition site_answer :: "kv_maps \<Rightarrow> (string \<Rightarrow> string option) \<Rightarrow> http_request \<Rightarrow> http_response" where
  "site_answer A mime r = (case hr_method r of
      OtherMethod x \<Rightarrow> empty_answer 405
    | GetMethod \<Rightarrow> (case spec_get A (proxy_key (hr_url r)) of
        Inl _ \<Rightarrow> empty_answer 500
      | Inr None \<Rightarrow> empty_answer 404
      | Inr (Some v) \<Rightarrow> \<lparr>ht_status = 200, ht_body = v, ht_type = mime (hr_url r)\<rparr>))"

text \<open>
  The client talks to a key-value server: a value is read and written the same, an error stays
  an error.
\<close>

definition before_kv :: "('m kv, 'e, 'x) client \<Rightarrow> ('m, 'v, 'g) env \<Rightarrow> bool" where
  "before_kv C E \<longleftrightarrow>
     (\<forall>k s x t. kv_get_op E k s = (Inr x, t) \<longrightarrow>
        (\<exists>data. cl_call_data C ''kvstore.get'' (KvGetArgs k) s = (Inr data, t) \<and> dec_kv_get C data = Inr x)) \<and>
     (\<forall>k s e t. kv_get_op E k s = (Inl (Err e), t) \<longrightarrow>
        (\<exists>e'. cl_call_data C ''kvstore.get'' (KvGetArgs k) s = (Inl e', t)))"

text \<open>An answer whose sending must not fail.\<close>

definition stops_proxy :: "kv_maps \<Rightarrow> (string \<Rightarrow> string option) \<Rightarrow> http_request \<Rightarrow> bool" where
  "stops_proxy A mime r \<longleftrightarrow> \<not> hr_sent r \<and> ht_status (site_answer A mime r) \<in> {404, 500}"

lemma proxy_serve_run:
  assumes C: "before_kv C E" and E: "kv_env_ok E" "kv_ok E s"
  shows "proxy_serve C mime r s =
    (if stops_proxy (kv_abs E s) mime r then Inl (Panic ''unwrap'')
     else Inr (if hr_sent r then Some (site_answer (kv_abs E s) mime r) else None), s)"
proof (cases "hr_method r")
  case (OtherMethod x)
  then show ?thesis
    by (simp add: proxy_serve_def respond_ignore_def stops_proxy_def site_answer_def empty_answer_def run)
next
  case GetMethod
  let ?k = "proxy_key (hr_url r)"
  note get = kv_get_op_run [OF E, of ?k]
  show ?thesis
  proof (cases "spec_get (kv_abs E s) ?k")
    case (Inl f)
    then obtain e where f: "f = Err e" by (auto simp: spec_get_def split: option.splits if_splits)
    with C get Inl obtain e' where "cl_call_data C ''kvstore.get'' (KvGetArgs ?k) s = (Inl e', s)"
      unfolding before_kv_def by fastforce
    then show ?thesis using GetMethod Inl
      by (simp add: proxy_serve_def respond_unwrap_def stops_proxy_def site_answer_def empty_answer_def run)
  next
    case (Inr x)
    with C get obtain data where "cl_call_data C ''kvstore.get'' (KvGetArgs ?k) s = (Inr data, s)"
        "dec_kv_get C data = Inr x"
      unfolding before_kv_def by fastforce
    then show ?thesis using GetMethod Inr
      by (cases x) (simp_all add: proxy_serve_def respond_unwrap_def respond_ignore_def stops_proxy_def
          site_answer_def empty_answer_def run)
  qed
qed

section \<open>\<open>ledger-db\<close>\<close>

text \<open>What is printed of an entry; numbers are printed as such.\<close>

datatype 'l dumped =
    DumpEvent string 'l
  | DumpBalance string nat string
  | DumpMultisig string string
  | DumpText string string
  | DumpBytes string string

text \<open>\<open>split('/')\<close>\<close>

fun split_slash :: "string \<Rightarrow> string list" where
  "split_slash [] = [[]]"
| "split_slash (c # cs) = (if c = CHR ''/'' then [] # split_slash cs
     else (case split_slash cs of [] \<Rightarrow> [[c]] | x # xs \<Rightarrow> (c # x) # xs))"

definition starts_with :: "bytes \<Rightarrow> bytes \<Rightarrow> bool" where
  "starts_with k p \<longleftrightarrow> take (length p) k = p"

text \<open>
  The decoders of events and amounts, \<open>hex::encode\<close>, \<open>from_utf8\<close> and \<open>from_utf8_lossy\<close> are
  arguments; a value is the one that \<open>Tree::decode\<close> takes out of a node.
\<close>

definition dump_entry :: "(bytes \<Rightarrow> string + 'l) \<Rightarrow> (bytes \<Rightarrow> nat) \<Rightarrow> (bytes \<Rightarrow> string) \<Rightarrow>
    (bytes \<Rightarrow> string + string) \<Rightarrow> (bytes \<Rightarrow> string) \<Rightarrow> bytes \<times> bytes \<Rightarrow> 'l dumped res" where
  "dump_entry dec_log amount hex utf8 lossy = (\<lambda>(k, v).
     if starts_with k ''/events/'' then
       rbind (panic_on_err ''unwrap'' (dec_log v)) (\<lambda>log. Inr (DumpEvent (hex (drop 8 k)) log))
     else if starts_with k ''/balances/'' then
       (case split_slash (lossy (drop 10 k)) of
          i # symb # _ \<Rightarrow> Inr (DumpBalance i (amount v) symb)
        | _ \<Rightarrow> Inl (Panic ''unwrap''))
     else if starts_with k ''/multisig/'' then Inr (DumpMultisig (hex (drop 10 k)) (hex v))
     else (case utf8 k of
         Inr t \<Rightarrow> Inr (DumpText t (hex v))
       | Inl _ \<Rightarrow> Inr (DumpBytes (hex k) (hex v))))"

text \<open>The loop; the first entry that cannot be printed ends it.\<close>

primrec dump_store :: "('kv \<Rightarrow> 'l dumped res) \<Rightarrow> 'kv list \<Rightarrow> 'l dumped list res" where
  "dump_store f [] = Inr []"
| "dump_store f (kv # kvs) = rbind (f kv) (\<lambda>x. rbind (dump_store f kvs) (\<lambda>xs. Inr (x # xs)))"

lemma split_slash_none: "CHR ''/'' \<notin> set a \<Longrightarrow> split_slash a = [a]"
  by (induction a) auto

lemma split_slash_append: "CHR ''/'' \<notin> set a \<Longrightarrow> split_slash (a @ CHR ''/'' # b) = a # split_slash b"
  by (induction a) auto

text \<open>What an entry was stored for: the keys the ledger writes.\<close>

datatype stored_for =
    ForEvent event_id
  | ForBalance address symbol
  | ForMultisig bytes
  | ForToken symbol
  | ForExtInfo symbol
  | ForAccount address

fun stored_key :: "('m, 'v, 'g) env \<Rightarrow> stored_for \<Rightarrow> bytes" where
  "stored_key E (ForEvent i) = key_for_event i"
| "stored_key E (ForBalance a x) = key_for_account_balance E a x"
| "stored_key E (ForMultisig tok) = key_for_multisig_transaction tok"
| "stored_key E (ForToken x) = key_for_symbol E x"
| "stored_key E (ForExtInfo x) = key_for_ext_info E x"
| "stored_key E (ForAccount a) = key_for_account E a"

text \<open>What is to be printed of it.\<close>

fun dump_of :: "('m, 'v, 'g) env \<Rightarrow> (bytes \<Rightarrow> string + 'l) \<Rightarrow> (bytes \<Rightarrow> nat) \<Rightarrow> (bytes \<Rightarrow> string) \<Rightarrow>
    stored_for \<Rightarrow> bytes \<Rightarrow> 'l dumped res" where
  "dump_of E dec_log amount hex (ForEvent i) v =
     rbind (panic_on_err ''unwrap'' (dec_log v)) (\<lambda>log. Inr (DumpEvent (hex (pad_id i)) log))"
| "dump_of E dec_log amount hex (ForBalance a x) v = Inr (DumpBalance (show_address E a) (amount v) (show_address E x))"
| "dump_of E dec_log amount hex (ForMultisig tok) v = Inr (DumpMultisig (hex (pad_id tok)) (hex v))"
| "dump_of E dec_log amount hex (ForToken x) v = Inr (DumpText (''/config/symbols/'' @ show_address E x) (hex v))"
| "dump_of E dec_log amount hex (ForExtInfo x) v = Inr (DumpText (''/config/ext_info/'' @ show_address E x) (hex v))"
| "dump_of E dec_log amount hex (ForAccount a) v = Inr (DumpText (''/accounts/'' @ show_address E a) (hex v))"

text \<open>Text without special characters reads as itself.\<close>

definition ascii :: "string \<Rightarrow> bool" where
  "ascii x \<longleftrightarrow> (\<forall>c \<in> set x. of_char c < (128 :: nat))"

lemma ascii_append [simp]: "ascii (x @ y) \<longleftrightarrow> ascii x \<and> ascii y"
  by (auto simp: ascii_def)

lemma ascii_Cons [simp]: "ascii (c # x) \<longleftrightarrow> of_char c < (128 :: nat) \<and> ascii x"
  by (auto simp: ascii_def)

lemma dump_stored:
  assumes E: "address_ok E" and plain: "\<And>a. ascii (show_address E a)"
    and utf8: "\<And>x. ascii x \<Longrightarrow> utf8 x = Inr x" and lossy: "\<And>x. ascii x \<Longrightarrow> lossy x = x"
  shows "dump_entry dec_log amount hex utf8 lossy (stored_key E i, v) = dump_of E dec_log amount hex i v"
proof -
  have slash: "CHR ''/'' \<notin> set (show_address E a)" for a using E by (simp add: address_ok_def)
  have ascii_nil: "ascii []" by (simp add: ascii_def)
  show ?thesis
    by (cases i)
      (simp_all add: dump_entry_def starts_with_def key_defs split_slash_append [OF slash]
        split_slash_none [OF slash] utf8 lossy plain ascii_nil)
qed

section \<open>Properties\<close>

text \<open>
  C35. The proxy is a web site of the key-value server: every request is answered, in order, by the
  value under \<open>http/\<close> and its path (200), 404 for a key without a value, 500 for a disabled key
  and 405 for other methods, and the server's state stays. Only an answer 404 or 500 that cannot
  be sent stops it.
\<close>

theorem proxy_serves_site:
  assumes "before_kv C E" and "kv_env_ok E" and "kv_ok E s"
  shows "proxy_run C mime rs s =
    (if filter (stops_proxy (kv_abs E s) mime) rs \<noteq> [] then Inl (Panic ''unwrap'')
     else Inr (map (\<lambda>r. if hr_sent r then Some (site_answer (kv_abs E s) mime r) else None) rs), s)"
  by (induction rs) (simp_all add: proxy_serve_run [OF assms] run del: filter_empty_conv)

text \<open>
  The dump names what the ledger stored: printing the store shows each balance with its account
  and its symbol, each event and each multisig transaction under its padded number, and everything
  else as text, and it stops at an event that does not decode.
\<close>

lemma dump_names_entries:
  assumes "address_ok E" and "\<forall>a. ascii (show_address E a)"
    and "\<forall>x. ascii x \<longrightarrow> utf8 x = Inr x \<and> lossy x = x"
  shows "dump_store (dump_entry dec_log amount hex utf8 lossy) (map (\<lambda>(i, v). (stored_key E i, v)) entries) =
    dump_store (\<lambda>(i, v). dump_of E dec_log amount hex i v) entries"
  using assms by (induction entries) (auto simp: dump_stored)

section \<open>Witnesses\<close>

text \<open>A client in front of the example's server; a value is written after \<open>1\<close>, no value as \<open>0\<close>.\<close>

definition ref_site_call :: "string \<Rightarrow> client_args \<Rightarrow> ref_store kv \<Rightarrow> (many_error + bytes) \<times> ref_store kv" where
  "ref_site_call method args s = (case args of
     KvGetArgs k \<Rightarrow> (case kv_get_op ref_env k s of
         (Inr None, t) \<Rightarrow> (Inr ''0'', t)
       | (Inr (Some v), t) \<Rightarrow> (Inr (CHR ''1'' # v), t)
       | (Inl (Err e), t) \<Rightarrow> (Inl e, t)
       | (Inl _, t) \<Rightarrow> (Inl InvalidIdentity, t))
   | _ \<Rightarrow> (Inl InvalidIdentity, s))"

definition ref_site :: "(ref_store kv, unit, unit) client" where
  "ref_site = \<lparr>cl_call = (\<lambda>_ _ s. (Inl InvalidIdentity, s)), cl_call_data = ref_site_call, cl_sleep = id,
     async_attribute = (\<lambda>_. None), dec_status = (\<lambda>_. Inl ''eof''),
     dec_kv_get = (\<lambda>b. if b = [] then Inl ''eof'' else Inr (if hd b = CHR ''0'' then None else Some (tl b))),
     dec_kv_query = (\<lambda>_. Inl ''eof''), dec_ledger_info = (\<lambda>_. Inl ''eof''), dec_balance = (\<lambda>_. Inl ''eof''),
     dec_return = (\<lambda>_ b. Inr b), dec_submit_token = Inr, empty_response = InvalidIdentity,
     parse_address = (\<lambda>_. Inl ''invalid''), print_address = (\<lambda>_. ''m''), anonymous_address = (\<lambda>a. a = 0),
     print_reason = snd, print_amount = (\<lambda>_. ''1''), hex_of = id, of_hex = Inr, memo_of = (\<lambda>_. None),
     legacy_memo_of = Some, new_index = (\<lambda>n. [unat n]), new_ext_info = [], info_with_memo = (\<lambda>_ _. None),
     info_with_logo = (\<lambda>_ _. None), unicode_logo = (\<lambda>_. []), image_logo = (\<lambda>_ b. b), mime_type = (\<lambda>_. None),
     file_bytes = (\<lambda>_. Inl ''not found'')\<rparr>"

lemma ref_site_before: "before_kv ref_site ref_env"
  unfolding before_kv_def
proof (intro conjI allI impI)
  fix k and s t :: "ref_store kv" and x
  assume "kv_get_op ref_env k s = (Inr x, t)"
  then show "\<exists>data. cl_call_data ref_site ''kvstore.get'' (KvGetArgs k) s = (Inr data, t) \<and> dec_kv_get ref_site data = Inr x"
    by (cases x) (simp_all add: ref_site_def ref_site_call_def)
next
  fix k and s t :: "ref_store kv" and e
  assume "kv_get_op ref_env k s = (Inl (Err e), t)"
  then show "\<exists>e'. cl_call_data ref_site ''kvstore.get'' (KvGetArgs k) s = (Inl e', t)"
    by (simp add: ref_site_def ref_site_call_def)
qed

text \<open>A page that is there, one that is not, one that is disabled, and a method that is not served.\<close>

definition ref_pages :: "ref_store kv" where
  "ref_pages = (let w = [(acl_key ''http//a.html'', RKvMetadata \<lparr>kv_owner = 2, kv_disabled = Some (Inl False)\<rparr>),
       (value_key ''http//a.html'', RBytes ''<p>''),
       (acl_key ''http//d'', RKvMetadata \<lparr>kv_owner = 2, kv_disabled = Some (Inl True)\<rparr>), (value_key ''http//d'', RBytes ''x'')]
     in \<lparr>persistent_store = \<lparr>work = w, disk = w\<rparr>, blockchain = True, current_time = Some 5, current_hash = None,
         latest_event_id = [CHR 0x01], next_subresource = 1, root_identity = 0\<rparr>)"

lemma ref_pages_view:
  "view ref_env ref_pages = [acl_key ''http//a.html'' \<mapsto> RKvMetadata \<lparr>kv_owner = 2, kv_disabled = Some (Inl False)\<rparr>,
     value_key ''http//a.html'' \<mapsto> RBytes ''<p>'',
     acl_key ''http//d'' \<mapsto> RKvMetadata \<lparr>kv_owner = 2, kv_disabled = Some (Inl True)\<rparr>, value_key ''http//d'' \<mapsto> RBytes ''x'']"
  unfolding ref_view by (rule ext) (auto simp: ref_pages_def Let_def)

lemma ref_pages_ok: "kv_ok ref_env ref_pages"
  unfolding kv_ok_def kv_counter_def ref_pages_view
  by (auto simp: ref_codecs tagged_def split: if_splits)

lemma ref_pages_get:
  "spec_get (kv_abs ref_env ref_pages) ''http//a.html'' = Inr (Some ''<p>'')"
  "spec_get (kv_abs ref_env ref_pages) ''http//b'' = Inr None"
  "spec_get (kv_abs ref_env ref_pages) ''http//d'' = Inl (Err (KvError KeyDisabled))"
  unfolding spec_get_def kv_abs_def kv_meta_def kv_value_def ref_pages_view
  by (simp_all add: ref_codecs tagged_def key_enabled_def)

theorem proxy_serves_site_witness:
  "proxy_run ref_site (\<lambda>_. Some ''text/html'')
      [\<lparr>hr_method = GetMethod, hr_url = ''/a.html'', hr_sent = True\<rparr>, \<lparr>hr_method = GetMethod, hr_url = ''/b'', hr_sent = True\<rparr>,
       \<lparr>hr_method = GetMethod, hr_url = ''/d'', hr_sent = True\<rparr>, \<lparr>hr_method = OtherMethod ''PUT'', hr_url = ''/a.html'', hr_sent = False\<rparr>]
      ref_pages =
    (Inr [Some \<lparr>ht_status = 200, ht_body = ''<p>'', ht_type = Some ''text/html''\<rparr>, Some (empty_answer 404),
       Some (empty_answer 500), None], ref_pages)"
  unfolding proxy_serves_site [OF ref_site_before ref_kv_env_ok ref_pages_ok]
  by (simp add: stops_proxy_def site_answer_def proxy_key_def ref_pages_get empty_answer_def)

lemma dump_names_entries_witness:
  "dump_store (dump_entry (\<lambda>b. Inr b) length id Inr id)
      (map (\<lambda>(i, v). (stored_key ref_env i, v)) [(ForBalance 0 1, ''abc''), (ForAccount 0, ''x'')]) =
    Inr [DumpBalance ''m'' 3 ''mm'', DumpText ''/accounts/m'' ''x'']"
proof -
  have "\<forall>a. ascii (show_address ref_env a)" by (simp add: ascii_def)
  from dump_names_entries [OF ref_address_ok this, of Inr id "\<lambda>b. Inr b" length id "[(ForBalance 0 1, ''abc''), (ForAccount 0, ''x'')]"]
  show ?thesis by simp
qed

end
