(* ===== verification/Mains.thy ===== *)
theory Mains
  imports Programs Proxy
begin

text \<open>
  The functions \<open>main\<close> of the six programs, from their parsed options: logging is set up, then the
  program of \<open>Programs\<close> or \<open>Proxy\<close> runs. Logging never stops a program but where the system log
  cannot be opened.
\<close>

section \<open>Logging\<close>

datatype log_strategy = Terminal | Syslog

datatype program = ManyLedger | ManyKvstore | ManyAbci | LedgerClient | KvstoreClient | HttpProxy

fun syslog_identity :: "program \<Rightarrow> bytes" where
  "syslog_identity ManyLedger = ''many-ledger'' @ [CHR 0x00]"
| "syslog_identity ManyKvstore = ''many-kvstore'' @ [CHR 0x00]"
| "syslog_identity ManyAbci = ''many-abci'' @ [CHR 0x00]"
| "syslog_identity LedgerClient = ''ledger'' @ [CHR 0x00]"
| "syslog_identity KvstoreClient = ''kvstore'' @ [CHR 0x00]"
| "syslog_identity HttpProxy = ''http_proxy'' @ [CHR 0x00]"

text \<open>\<open>CStr::from_bytes_with_nul\<close>: one zero, at the end.\<close>

definition c_string :: "bytes \<Rightarrow> string + string" where
  "c_string b = (if b \<noteq> [] \<and> last b = CHR 0x00 \<and> CHR 0x00 \<notin> set (butlast b) then Inr (butlast b)
     else Inl ''data provided is not nul terminated'')"

record log_options =
  lo_verbose :: "8 word"
  lo_quiet :: "8 word"
  lo_logmode :: log_strategy

definition log_setup :: "program \<Rightarrow> (string \<Rightarrow> string + unit) \<Rightarrow> log_options \<Rightarrow> log_filter res" where
  "log_setup program open_syslog opts = (case log_level (lo_verbose opts) (lo_quiet opts) of
     None \<Rightarrow> Inl (Panic ''unreachable'')
   | Some level \<Rightarrow> (case lo_logmode opts of
       Terminal \<Rightarrow> Inr level
     | Syslog \<Rightarrow>
         rbind (panic_on_err ''unwrap'' (c_string (syslog_identity program))) (\<lambda>identity.
         rbind (panic_on_err ''unwrap'' (open_syslog identity)) (\<lambda>_. Inr level))))"

definition with_logging :: "program \<Rightarrow> (string \<Rightarrow> string + unit) \<Rightarrow> log_options \<Rightarrow> ('w, 'a) op \<Rightarrow> ('w, 'a) op" where
  "with_logging program open_syslog opts m = bnd (lift (log_setup program open_syslog opts)) (\<lambda>_. m)"

lemma syslog_identity_c_string: "\<exists>s. c_string (syslog_identity program) = Inr s"
  by (cases program) (simp_all add: c_string_def)

text \<open>No level and no identity is out of reach.\<close>

lemma log_setup_succeeds:
  "lo_logmode opts = Terminal \<or> (\<forall>s. open_syslog s = Inr ()) \<Longrightarrow> \<exists>level. log_setup program open_syslog opts = Inr level"
  using log_level_total [of "lo_verbose opts" "lo_quiet opts"] syslog_identity_c_string [of program]
  by (cases "lo_logmode opts") (auto simp: log_setup_def)

lemma with_logging_runs:
  assumes "lo_logmode opts = Terminal \<or> (\<forall>s. open_syslog s = Inr ())"
  shows "with_logging program open_syslog opts m = m"
proof -
  obtain level where "log_setup program open_syslog opts = Inr level" using log_setup_succeeds [OF assms] by blast
  then show ?thesis by (simp add: with_logging_def fun_eq_iff run)
qed

section \<open>\<open>main\<close>\<close>

definition many_ledger_entry :: "(string \<Rightarrow> string + unit) \<Rightarrow> log_options \<Rightarrow> ('w, 'm, 'g, initial_state) host \<Rightarrow>
    ('m, 'v, 'g) env \<Rightarrow> (json \<Rightarrow> string + multisig_arg) \<Rightarrow> (string \<times> string) list \<Rightarrow> bool \<Rightarrow> string option \<Rightarrow>
    string option \<Rightarrow> options \<Rightarrow>
    (('m, 'g) ledger \<times> (string \<times> address list option) list \<Rightarrow> 'w \<Rightarrow> (string + unit) \<times> 'w) \<Rightarrow>
    ('w, (('m, 'g) ledger \<times> (string \<times> address list option) list) server_end) op" where
  "many_ledger_entry open_syslog log F E parse registry list_migrations pem persistent opts bind =
     with_logging ManyLedger open_syslog log (ledger_main F E parse registry list_migrations pem persistent opts bind)"

definition many_kvstore_entry :: "(string \<Rightarrow> string + unit) \<Rightarrow> log_options \<Rightarrow> ('w, 'm, 'g, kv_initial) host \<Rightarrow>
    ('m, 'v, 'g) env \<Rightarrow> options \<Rightarrow> ('m kv \<times> (string \<times> address list option) list \<Rightarrow> 'w \<Rightarrow> (string + unit) \<times> 'w) \<Rightarrow>
    ('w, 'm kv \<times> (string \<times> address list option) list) op" where
  "many_kvstore_entry open_syslog log F E opts bind = with_logging ManyKvstore open_syslog log (kv_main F E opts bind)"

definition many_abci_entry :: "(string \<Rightarrow> string + unit) \<Rightarrow> log_options \<Rightarrow> 'n startup \<Rightarrow> ('e, 'x) wire \<Rightarrow> 'n node \<Rightarrow>
    (string \<times> frontend \<Rightarrow> 'n \<Rightarrow> (string + unit) \<times> 'n) \<Rightarrow> ('n, nat) op" where
  "many_abci_entry open_syslog log P W N bind = with_logging ManyAbci open_syslog log (bridge_main P W N bind)"

definition ledger_entry :: "(string \<Rightarrow> string + unit) \<Rightarrow> log_options \<Rightarrow> ('w, 'k) keyring \<Rightarrow>
    ('k \<Rightarrow> string + ('w, 'e, 'x) client) \<Rightarrow> ('e, 'x) wire \<Rightarrow> (bytes \<Rightarrow> address option) \<Rightarrow> client_options \<Rightarrow>
    ledger_subcommand \<Rightarrow> ('w, printed ended) op" where
  "ledger_entry open_syslog log K new_client W pem_address opts sub =
     with_logging LedgerClient open_syslog log (ledger_client_main K new_client W pem_address opts sub)"

definition kvstore_entry :: "(string \<Rightarrow> string + unit) \<Rightarrow> log_options \<Rightarrow> ('w, 'k) keyring \<Rightarrow>
    ('k \<Rightarrow> string + ('w, 'e, 'x) client) \<Rightarrow> ('e, 'x) wire \<Rightarrow> string option \<Rightarrow> address option \<Rightarrow> (string + bytes) \<Rightarrow>
    kv_subcommand \<Rightarrow> ('w, printed ended) op" where
  "kvstore_entry open_syslog log K new_client W pem alt_owner input sub =
     with_logging KvstoreClient open_syslog log (kv_client_main K new_client W pem alt_owner input sub)"

text \<open>\<open>http\<close> is what opening the web server gives: the requests that will come.\<close>

definition http_proxy_entry :: "(string \<Rightarrow> string + unit) \<Rightarrow> log_options \<Rightarrow> ('w, 'k) keyring \<Rightarrow>
    ('k \<Rightarrow> string + ('w, 'e, 'x) client) \<Rightarrow> (string \<Rightarrow> string option) \<Rightarrow> string option \<Rightarrow>
    string + http_request list \<Rightarrow> ('w, http_response option list) op" where
  "http_proxy_entry open_syslog log K new_client mime pem http = with_logging HttpProxy open_syslog log
     (bnd (pem_key K pem) (\<lambda>key.
      bnd (lift (panic_on_err ''unwrap'' (new_client key))) (\<lambda>C.
      bnd (lift (panic_on_err ''unwrap'' http)) (\<lambda>requests. proxy_run C mime requests))))"

text \<open>A proxy that logs to the terminal and needs no key file serves its requests as \<open>proxy_run\<close> does.\<close>

lemma http_proxy_serves:
  assumes "lo_logmode log = Terminal" and "new_client (anonymous_identity K) = Inr C"
  shows "http_proxy_entry open_syslog log K new_client mime None (Inr requests) = proxy_run C mime requests"
proof -
  have "bnd (lift (Inr x)) f = f x" for x and f :: "'d \<Rightarrow> ('w, 'e) op" by (simp add: fun_eq_iff run)
  then show ?thesis
    using with_logging_runs [of log open_syslog HttpProxy] assms
    by (simp add: http_proxy_entry_def pem_key_def bnd_ret fun_eq_iff run)
qed

section \<open>The account module of the key-value server\<close>

text \<open>\<open>AccountFeatureModule\<close> as in the ledger; the key-value server has the feature 2.\<close>

definition kv_account_module_info :: "(nat \<times> int list) option \<Rightarrow> u32 list \<Rightarrow> (nat \<times> int list) option" where
  "kv_account_module_info attribute feature_ids =
     map_option (\<lambda>(i, arguments). (i, arguments @ map uint feature_ids)) attribute"

definition kvstore_account_info :: "(nat \<times> int list) option \<Rightarrow> (nat \<times> int list) option" where
  "kvstore_account_info attribute = kv_account_module_info attribute [2]"

lemma account_modules_agree: "kv_account_module_info = account_module_info"
  by (simp add: fun_eq_iff kv_account_module_info_def account_module_info_def)

end
