(* ===== verification/TestSupport.thy ===== *)
theory TestSupport
  imports Programs
begin

text \<open>
  The support for the tests of the ledger (\<open>many-ledger/test-utils\<close>): \<open>Setup\<close>, a ledger with an
  identity and a clock, its operations, the transactions made for each kind of event, and the worlds
  of the feature files. What the operations do is what the server would do with the same requests:
  a test that does not panic and does not set balances reaches only states that the server reaches.
  Identities, memos, files and random keys are parameters (record \<open>test_crates\<close>).
\<close>

section \<open>What the tests use of other crates\<close>

record ('m, 'g) test_crates =
  test_identity :: "u32 \<Rightarrow> address"  \<comment> \<open>\<open>many_identity::testing::identity\<close>\<close>
  anonymous_id :: address
  memo_try :: "string \<Rightarrow> many_error + memo"
  unicode_front :: "nat \<Rightarrow> bytes"  \<comment> \<open>a \<open>VisualTokenLogo\<close> with one character\<close>
  account_ledger_feature :: feature  \<comment> \<open>\<open>as_feature()\<close>\<close>
  token_account_feature :: feature
  random_id :: address  \<comment> \<open>the next key that is drawn\<close>
  random_key :: "string + bytes"
  temp_dir :: "string + unit"
  read_text :: "string \<Rightarrow> string + string"
  json5_state :: "string \<Rightarrow> string + initial_state"
  json_migrations :: "string \<Rightarrow> string + (u64 \<Rightarrow> many_error + 'g)"
  open_merk :: "string + 'm"

definition mfx_symbol :: "('m, 'v, 'g) env \<Rightarrow> symbol res" where
  "mfx_symbol E = expect_many ''unwrap''
     (address_from_str E ''mqbfbahksdwaqeenayy2gxke32hgb7aq4ao4wt745lsfs6wiaaaaqnz'')"

definition default_token_create_args :: "('m, 'v, 'g) env \<Rightarrow> ('m, 'g) test_crates \<Rightarrow> (address + unit) option \<Rightarrow>
    nat option \<Rightarrow> token_create_args res" where
  "default_token_create_args E X own maximum_supply =
     rbind (expect_many ''unwrap'' (memo_try X ''Foofoo'')) (\<lambda>m.
     rbind (expect_many ''unwrap'' (ext_info_with_memo E (ext_info_new E) m)) (\<lambda>i.
     rbind (expect_many ''unwrap'' (ext_info_with_logo E i (unicode_front X 0x2211))) (\<lambda>info.
     Inr \<lparr>tc_summary = \<lparr>name = ''Test Token'', ticker = ''TT'', decimals = 9\<rparr>, tc_owner = own,
       tc_distribution = Some (bt_collect [(test_identity X 1, 123), (test_identity X 2, 456), (test_identity X 3, 789)]),
       tc_maximum = maximum_supply, tc_extended_info = Some info, tc_memo = None\<rparr>)))"

datatype account_type = MultisigAccount | LedgerAccount | TokensAccount

definition create_account_args :: "('m, 'v, 'g) env \<Rightarrow> ('m, 'g) test_crates \<Rightarrow> account_type \<Rightarrow> create_args" where
  "create_account_args E X account_type =
     (case (case account_type of
         MultisigAccount \<Rightarrow> (bt_collect [(test_identity X 2, [CanMultisigApprove]), (test_identity X 3, [CanMultisigSubmit])],
           [multisig_as_feature E \<lparr>arg_threshold = None, arg_timeout_in_secs = None, arg_execute_automatically = None\<rparr>])
       | LedgerAccount \<Rightarrow> ([(test_identity X 2, [CanLedgerTransact])], [account_ledger_feature X])
       | TokensAccount \<Rightarrow> ([(test_identity X 2, [CanTokensCreate])], [token_account_feature X])) of
      (rs, fs) \<Rightarrow> \<lparr>cr_description = Some ''Foobar'', cr_roles = rs, cr_features = fs\<rparr>)"

section \<open>The configuration of migrations\<close>

record migration_harness =
  mh_name :: string
  mh_block_height :: u64
  mh_enabled :: bool

text \<open>\<open>Display\<close> of an unsigned integer.\<close>

fun decimal :: "nat \<Rightarrow> string" where
  "decimal n = (if n < 10 then [char_of (48 + n)] else decimal (n div 10) @ [char_of (48 + n mod 10)])"

declare decimal.simps [simp del]

definition quoted :: "string \<Rightarrow> string" where
  "quoted s = CHR 0x22 # s @ [CHR 0x22]"

definition harness_of :: "u64 \<Rightarrow> string \<Rightarrow> migration_harness" where
  "harness_of height n = \<lparr>mh_name = n, mh_block_height = height, mh_enabled = True\<rparr>"

definition to_json_str :: "migration_harness \<Rightarrow> string" where
  "to_json_str h = ''{ '' @ quoted ''name'' @ '': '' @ quoted (mh_name h) @ '', '' @ quoted ''block_height'' @ '': '' @
     decimal (unat (mh_block_height h)) @ '', '' @ quoted ''issue'' @ '': '' @ quoted [] @ '' '' @
     (if mh_enabled h then [] else '', '' @ quoted ''disabled'' @ '': true'') @ '' }''"

definition migrations_json :: "migration_harness list \<Rightarrow> string" where
  "migrations_json ms = ''{ '' @ quoted ''migrations'' @ '': ['' @ join '','' (map to_json_str ms) @ ''] }''"

text \<open>A height is written so that it is read back.\<close>

lemma parse_digit:
  "d < 10 \<Longrightarrow> n * 10 + d < 2 ^ width \<Longrightarrow> parse_digits width n (char_of (48 + d) # cs) = parse_digits width (n * 10 + d) cs"
  by (simp add: less_eq_char_def Let_def)

lemma decimal_nonempty [simp]: "decimal n \<noteq> []"
  by (subst decimal.simps) simp

lemma parse_decimal: "n < 2 ^ width \<Longrightarrow> parse_digits width 0 (decimal n @ cs) = parse_digits width n cs"
proof (induction n arbitrary: cs rule: decimal.induct)
  case (1 n)
  show ?case
  proof (cases "n < 10")
    case True
    then show ?thesis using 1(2) parse_digit [of n 0 width cs] by (subst decimal.simps) simp
  next
    case False
    have "n div 10 < 2 ^ width" using 1(2) by (meson div_le_dividend le_less_trans)
    from 1(1) [OF False this, of "char_of (48 + n mod 10) # cs"]
    show ?thesis using 1(2) False parse_digit [of "n mod 10" "n div 10" width cs] by (subst decimal.simps) simp
  qed
qed

lemma digit_char: "(d::nat) < 10 \<Longrightarrow> char_of (48 + d) \<noteq> CHR ''+''"
proof -
  have "\<forall>d \<in> set [0..<10]. char_of (48 + d) \<noteq> CHR ''+''" by code_simp
  then show "d < 10 \<Longrightarrow> char_of (48 + d) \<noteq> CHR ''+''" by simp
qed

lemma hd_decimal: "hd (decimal n) \<noteq> CHR ''+''"
proof (induction n rule: decimal.induct)
  case (1 n)
  then show ?case using digit_char [of n] by (subst decimal.simps) simp
qed

lemma decimal_parsed: "n < 2 ^ width \<Longrightarrow> parse_unsigned width (decimal n) = Inr n"
  using parse_decimal [of n width "[]"] hd_decimal [of n] by (auto simp: parse_unsigned_def)

section \<open>\<open>Setup\<close>\<close>

record ('m, 'g) test_setup =
  se_module :: "('m, 'g) ledger"
  se_id :: address
  se_cred_id :: bytes
  se_public_key :: bytes
  se_time :: "u64 option"

type_synonym ('m, 'g, 'a) test_op = "(('m, 'g) test_setup, 'a) op"

definition on_module :: "('m, 'g, 'a) ledger_op \<Rightarrow> ('m, 'g, 'a) test_op" where
  "on_module m = (\<lambda>s. case m (se_module s) of (r, l) \<Rightarrow> (r, s\<lparr>se_module := l\<rparr>))"

text \<open>The state file is looked for in two places.\<close>

definition staging_state :: "('m, 'g) test_crates \<Rightarrow> string + initial_state" where
  "staging_state X = (case read_state (read_text X) (json5_state X) ''../../staging/ledger_state.json5'' of
     Inl _ \<Rightarrow> read_state (read_text X) (json5_state X) ''staging/ledger_state.json5''
   | Inr s \<Rightarrow> Inr s)"

definition setup_make :: "('m, 'v, 'g) env \<Rightarrow> (json \<Rightarrow> string + multisig_arg) \<Rightarrow> ('m, 'g) test_crates \<Rightarrow> bool \<Rightarrow>
    (u64 \<Rightarrow> many_error + 'g) option \<Rightarrow> bool \<Rightarrow> ('m, 'g) test_setup res" where
  \<comment> \<open>\<open>_new\<close>\<close>
  "setup_make E parse X bc migration_config skip_hash_check =
     rbind (panic_on_err ''unwrap'' (random_key X)) (\<lambda>pk.
     rbind (panic_on_err ''Could not create a temporary dir.'' (temp_dir X)) (\<lambda>_.
     rbind (panic_on_err ''Could not read initial state.'' (staging_state X)) (\<lambda>st.
     rbind (unwrapped (ledger_new E parse (if skip_hash_check then st\<lparr>is_hash := None\<rparr> else st)
         migration_config (open_merk X) bc)) (\<lambda>l.
     Inr \<lparr>se_module = l, se_id = random_id X, se_cred_id = replicate 16 (CHR 0x01), se_public_key = pk,
       se_time = Some 1000000\<rparr>))))"

definition setup_new :: "('m, 'v, 'g) env \<Rightarrow> (json \<Rightarrow> string + multisig_arg) \<Rightarrow> ('m, 'g) test_crates \<Rightarrow> bool \<Rightarrow>
    ('m, 'g) test_setup res" where
  "setup_new E parse X bc = setup_make E parse X bc None False"

definition setup_with_migrations :: "('m, 'v, 'g) env \<Rightarrow> (json \<Rightarrow> string + multisig_arg) \<Rightarrow> ('m, 'g) test_crates \<Rightarrow>
    bool \<Rightarrow> migration_harness list \<Rightarrow> bool \<Rightarrow> ('m, 'g) test_setup res" where
  "setup_with_migrations E parse X bc ms skip_hash_check =
     rbind (panic_on_err ''unwrap'' (json_migrations X (migrations_json ms))) (\<lambda>config.
     setup_make E parse X bc (Some config) skip_hash_check)"

definition setup_default :: "('m, 'v, 'g) env \<Rightarrow> (json \<Rightarrow> string + multisig_arg) \<Rightarrow> ('m, 'g) test_crates \<Rightarrow>
    ('m, 'g) test_setup res" where
  "setup_default E parse X = setup_new E parse X False"

definition setup_set_balance :: "('m, 'v, 'g) env \<Rightarrow> address \<Rightarrow> u64 \<Rightarrow> symbol \<Rightarrow> ('m, 'g, unit) test_op" where
  "setup_set_balance E i amount x =
     expecting ''Unable to set balance for testing.'' (on_module (set_balance_only_for_testing E i amount x))"

definition setup_balance :: "('m, 'v, 'g) env \<Rightarrow> address \<Rightarrow> symbol \<Rightarrow> ('m, 'g, nat) test_op" where
  "setup_balance E account x = bnd (on_module (ledger_balance E account None (Some [x]))) (\<lambda>balances.
     ret (case map_of balances x of None \<Rightarrow> 0 | Some n \<Rightarrow> n))"

definition setup_mfx_balance :: "('m, 'v, 'g) env \<Rightarrow> address \<Rightarrow> ('m, 'g, nat) test_op" where
  "setup_mfx_balance E account = bnd (lift (mfx_symbol E)) (\<lambda>x. expecting ''unwrap'' (setup_balance E account x))"

definition setup_send_as :: "('m, 'v, 'g) env \<Rightarrow> address \<Rightarrow> address \<Rightarrow> address \<Rightarrow> nat \<Rightarrow> symbol \<Rightarrow> ('m, 'g, unit) test_op" where
  "setup_send_as E sender frm to amount x = on_module (ledger_send E sender
     \<lparr>send_from = Some frm, send_to = to, send_symbol = x, send_amount = amount, send_memo = None\<rparr>)"

definition setup_send :: "('m, 'v, 'g) env \<Rightarrow> address \<Rightarrow> address \<Rightarrow> nat \<Rightarrow> symbol \<Rightarrow> ('m, 'g, unit) test_op" where
  "setup_send E frm to amount x = setup_send_as E frm frm to amount x"

definition setup_send_mfx :: "('m, 'v, 'g) env \<Rightarrow> address \<Rightarrow> address \<Rightarrow> nat \<Rightarrow> ('m, 'g, unit) test_op" where
  "setup_send_mfx E frm to amount = bnd (lift (mfx_symbol E)) (\<lambda>x.
     expecting ''Could not send tokens'' (setup_send E frm to amount x))"

definition setup_create_account_as :: "('m, 'v, 'g) env \<Rightarrow> ('m, 'g) test_crates \<Rightarrow> address \<Rightarrow> account_type \<Rightarrow>
    ('m, 'g, address) test_op" where
  "setup_create_account_as E X i account_type = on_module (account_create_op E i (create_account_args E X account_type))"

definition setup_create_account :: "('m, 'v, 'g) env \<Rightarrow> ('m, 'g) test_crates \<Rightarrow> account_type \<Rightarrow> ('m, 'g, address) test_op" where
  "setup_create_account E X account_type = bnd (gets se_id) (\<lambda>i. setup_create_account_as E X i account_type)"

text \<open>The tests are built with overflow checks.\<close>

definition add_time :: "u64 \<Rightarrow> u64 \<Rightarrow> u64 res" where
  "add_time t amount = (if unat t + unat amount < 2 ^ 64 then Inr (t + amount)
     else Inl (Panic ''attempt to add with overflow''))"

definition setup_inc_time :: "u64 \<Rightarrow> ('m, 'g, unit) test_op" where
  "setup_inc_time amount = bnd (reads (\<lambda>s. add_time (case se_time s of None \<Rightarrow> 0 | Some t \<Rightarrow> t) amount))
     (\<lambda>t. modify (\<lambda>s. s\<lparr>se_time := Some t\<rparr>))"

definition tick :: "('m, 'g, u64 option) test_op" where
  "tick = bnd (gets se_time) (\<lambda>time. case time of
     None \<Rightarrow> ret None
   | Some t \<Rightarrow> bnd (lift (add_time t 1)) (\<lambda>t'. andthen (modify (\<lambda>s. s\<lparr>se_time := Some t'\<rparr>)) (ret (Some t'))))"

text \<open>A block; \<open>end_block\<close> is the default of its trait, which does nothing.\<close>

definition setup_block :: "('m, 'v, 'g) env \<Rightarrow> ('m, 'g, 'r) test_op \<Rightarrow> ('m, 'g, u64 \<times> 'r) test_op" where
  "setup_block E inner = bnd tick (\<lambda>time.
     andthen (expecting ''Could not begin block'' (on_module (begin_block E time)))
     (bnd inner (\<lambda>r.
     andthen (expecting ''Could not commit block'' (on_module (abci_commit E)))
     (bnd (expecting ''Could not get info.'' (on_module (abci_info_op E))) (\<lambda>i.
       ret (info_height i, r))))))"

definition setup_add_roles_as :: "('m, 'v, 'g) env \<Rightarrow> address \<Rightarrow> address \<Rightarrow> role_map \<Rightarrow> ('m, 'g, unit) test_op" where
  "setup_add_roles_as E i account rs =
     expecting ''unwrap'' (on_module (add_roles E i \<lparr>ro_account = account, ro_roles = rs\<rparr>))"

definition setup_add_roles :: "('m, 'v, 'g) env \<Rightarrow> address \<Rightarrow> role_map \<Rightarrow> ('m, 'g, unit) test_op" where
  "setup_add_roles E account rs = bnd (gets se_id) (\<lambda>i. setup_add_roles_as E i account rs)"

definition setup_create_multisig_as :: "('m, 'v, 'g) env \<Rightarrow> ('m, 'g) test_crates \<Rightarrow> address \<Rightarrow> address \<Rightarrow> multisig_tx \<Rightarrow>
    ('m, 'g, bytes) test_op" where
  "setup_create_multisig_as E X i account tx = bnd (lift (expect_many ''unwrap'' (memo_try X ''Foo''))) (\<lambda>m.
     on_module (multisig_submit_transaction E i (SubmitArgs account None tx None None None None (Some m))))"

definition setup_create_multisig :: "('m, 'v, 'g) env \<Rightarrow> ('m, 'g) test_crates \<Rightarrow> address \<Rightarrow> multisig_tx \<Rightarrow>
    ('m, 'g, bytes) test_op" where
  "setup_create_multisig E X account tx = bnd (gets se_id) (\<lambda>i. setup_create_multisig_as E X i account tx)"

definition setup_multisig_send :: "('m, 'v, 'g) env \<Rightarrow> ('m, 'g) test_crates \<Rightarrow> address \<Rightarrow> address \<Rightarrow> nat \<Rightarrow> symbol \<Rightarrow>
    ('m, 'g, bytes) test_op" where
  "setup_multisig_send E X account to amount x = setup_create_multisig E X account (TxSend
     \<lparr>send_from = Some account, send_to = to, send_symbol = x, send_amount = amount, send_memo = None\<rparr>)"

definition setup_multisig_send_mfx :: "('m, 'v, 'g) env \<Rightarrow> ('m, 'g) test_crates \<Rightarrow> address \<Rightarrow> address \<Rightarrow> nat \<Rightarrow>
    ('m, 'g, bytes) test_op" where
  "setup_multisig_send_mfx E X account to amount = bnd (lift (mfx_symbol E)) (\<lambda>x.
     expecting ''unwrap'' (setup_multisig_send E X account to amount x))"

definition setup_multisig_approve :: "('m, 'v, 'g) env \<Rightarrow> nat \<Rightarrow> address \<Rightarrow> bytes \<Rightarrow> ('m, 'g, unit) test_op" where
  "setup_multisig_approve E n i tok = bnd (on_module (approve_multisig E n i tok)) (\<lambda>_. ret ())"

definition setup_multisig_execute_as :: "('m, 'v, 'g) env \<Rightarrow> nat \<Rightarrow> address \<Rightarrow> bytes \<Rightarrow> ('m, 'g, response) test_op" where
  "setup_multisig_execute_as E n i tok = on_module (execute_multisig E n i tok)"

definition setup_multisig_execute :: "('m, 'v, 'g) env \<Rightarrow> nat \<Rightarrow> bytes \<Rightarrow> ('m, 'g, response) test_op" where
  "setup_multisig_execute E n tok = bnd (gets se_id) (\<lambda>i. setup_multisig_execute_as E n i tok)"

definition setup_assert_multisig_info :: "('m, 'v, 'g) env \<Rightarrow> bytes \<Rightarrow> (multisig_info \<Rightarrow> unit res) \<Rightarrow> ('m, 'g, unit) test_op" where
  "setup_assert_multisig_info E tok assert_f =
     bnd (expecting ''Could not find multisig info'' (on_module (multisig_info_op E tok))) (\<lambda>i. lift (assert_f i))"

text \<open>The variants with \<open>unwrap\<close>.\<close>

definition setup_must_create_account_as :: "('m, 'v, 'g) env \<Rightarrow> ('m, 'g) test_crates \<Rightarrow> address \<Rightarrow> account_type \<Rightarrow>
    ('m, 'g, address) test_op" where
  "setup_must_create_account_as E X i account_type = expecting ''unwrap'' (setup_create_account_as E X i account_type)"

definition setup_must_create_account :: "('m, 'v, 'g) env \<Rightarrow> ('m, 'g) test_crates \<Rightarrow> account_type \<Rightarrow>
    ('m, 'g, address) test_op" where
  "setup_must_create_account E X account_type = expecting ''unwrap'' (setup_create_account E X account_type)"

definition setup_must_create_multisig :: "('m, 'v, 'g) env \<Rightarrow> ('m, 'g) test_crates \<Rightarrow> address \<Rightarrow> multisig_tx \<Rightarrow>
    ('m, 'g, bytes) test_op" where
  "setup_must_create_multisig E X account tx = expecting ''unwrap'' (setup_create_multisig E X account tx)"

definition setup_must_approve :: "('m, 'v, 'g) env \<Rightarrow> nat \<Rightarrow> address \<Rightarrow> bytes \<Rightarrow> ('m, 'g, unit) test_op" where
  "setup_must_approve E n i tok = expecting ''Could not approve multisig'' (setup_multisig_approve E n i tok)"

definition setup_must_execute_as :: "('m, 'v, 'g) env \<Rightarrow> nat \<Rightarrow> address \<Rightarrow> bytes \<Rightarrow> ('m, 'g, response) test_op" where
  "setup_must_execute_as E n i tok = expecting ''unwrap'' (setup_multisig_execute_as E n i tok)"

definition setup_must_execute :: "('m, 'v, 'g) env \<Rightarrow> nat \<Rightarrow> bytes \<Rightarrow> ('m, 'g, response) test_op" where
  "setup_must_execute E n tok = expecting ''Could not execute multisig'' (setup_multisig_execute E n tok)"

section \<open>Fixtures\<close>

text \<open>\<open>SetupWithArgs\<close>, \<open>SetupWithAccount\<close> and \<open>SetupWithAccountAndTx\<close> as tuples.\<close>

definition setup_with_args :: "('m, 'v, 'g) env \<Rightarrow> (json \<Rightarrow> string + multisig_arg) \<Rightarrow> ('m, 'g) test_crates \<Rightarrow>
    account_type \<Rightarrow> (('m, 'g) ledger \<times> address \<times> create_args) res" where
  "setup_with_args E parse X account_type = rbind (setup_default E parse X) (\<lambda>s.
     Inr (se_module s, se_id s, create_account_args E X account_type))"

definition setup_with_account :: "('m, 'v, 'g) env \<Rightarrow> (json \<Rightarrow> string + multisig_arg) \<Rightarrow> ('m, 'g) test_crates \<Rightarrow>
    account_type \<Rightarrow> (('m, 'g) ledger \<times> address \<times> address) res" where
  "setup_with_account E parse X account_type = rbind (setup_with_args E parse X account_type) (\<lambda>(l, i, args).
     case expecting ''unwrap'' (account_create_op E i args) l of
       (Inl f, _) \<Rightarrow> Inl f
     | (Inr account, l') \<Rightarrow> Inr (l', i, account))"

text \<open>\<open>EventKind\<close>; the kinds that are no multisig transaction are \<open>KindOther\<close>.\<close>

datatype tx_kind =
    KindSend | KindAccountCreate | KindAccountDisable | KindAccountSetDescription | KindAccountAddRoles
  | KindAccountRemoveRoles | KindAccountAddFeatures | KindMultisigSubmit | KindMultisigApprove
  | KindMultisigRevoke | KindMultisigExecute | KindMultisigWithdraw | KindMultisigSetDefaults | KindOther nat

definition arb_event_kind :: "tx_kind list" where
  "arb_event_kind = [KindSend, KindAccountCreate, KindAccountDisable, KindAccountSetDescription, KindAccountAddRoles,
     KindAccountRemoveRoles, KindAccountAddFeatures, KindMultisigSubmit, KindMultisigApprove, KindMultisigRevoke,
     KindMultisigExecute, KindMultisigWithdraw, KindMultisigSetDefaults]"

definition kind_submit :: "('m, 'g) test_crates \<Rightarrow> address \<Rightarrow> multisig_tx \<Rightarrow> submit_args res" where
  "kind_submit X account tx = rbind (expect_many ''unwrap'' (memo_try X ''A memo'')) (\<lambda>m.
     Inr (SubmitArgs account None tx None None (Some False) None (Some m)))"

definition kind_token :: "('m, 'v, 'g) env \<Rightarrow> ('m, 'g) test_crates \<Rightarrow> address \<Rightarrow> address \<Rightarrow> multisig_tx \<Rightarrow>
    ('m, 'g, bytes) ledger_op" where
  "kind_token E X i account tx = bnd (lift (kind_submit X account tx)) (\<lambda>args.
     expecting ''unwrap'' (multisig_submit_transaction E i args))"

definition event_from_kind :: "('m, 'v, 'g) env \<Rightarrow> ('m, 'g) test_crates \<Rightarrow> nat \<Rightarrow> tx_kind \<Rightarrow> address \<Rightarrow> address \<Rightarrow>
    account_type \<Rightarrow> ('m, 'g, multisig_tx) ledger_op" where
  "event_from_kind E X n kind i account account_type = bnd (lift (mfx_symbol E)) (\<lambda>x.
     let send_tx = TxSend \<lparr>send_from = Some account, send_to = test_identity X 3, send_symbol = x,
       send_amount = 10, send_memo = None\<rparr>
     in case kind of
       KindSend \<Rightarrow> ret send_tx
     | KindAccountCreate \<Rightarrow> ret (TxAccountCreate (create_account_args E X account_type))
     | KindAccountDisable \<Rightarrow> ret (TxAccountDisable account)
     | KindAccountSetDescription \<Rightarrow>
         ret (TxAccountSetDescription \<lparr>de_account = account, de_description = ''New description''\<rparr>)
     | KindAccountAddRoles \<Rightarrow>
         ret (TxAccountAddRoles \<lparr>ro_account = account, ro_roles = [(test_identity X 100, [CanMultisigSubmit])]\<rparr>)
     | KindAccountRemoveRoles \<Rightarrow>
         ret (TxAccountRemoveRoles \<lparr>ro_account = account, ro_roles = [(test_identity X 3, [CanMultisigSubmit])]\<rparr>)
     | KindAccountAddFeatures \<Rightarrow>
         ret (TxAccountAddFeatures \<lparr>fe_account = account, fe_roles = Some [(test_identity X 200, [CanLedgerTransact])],
           fe_features = [account_ledger_feature X]\<rparr>)
     | KindMultisigSubmit \<Rightarrow> bnd (lift (kind_submit X account send_tx)) (\<lambda>args. ret (TxMultisigSubmit args))
     | KindMultisigApprove \<Rightarrow> bnd (kind_token E X i account send_tx) (\<lambda>tok. ret (TxMultisigApprove tok))
     | KindMultisigRevoke \<Rightarrow> bnd (kind_token E X i account send_tx) (\<lambda>tok. ret (TxMultisigRevoke tok))
     | KindMultisigExecute \<Rightarrow> bnd (kind_token E X i account send_tx) (\<lambda>tok.
         andthen (for_each [i, test_identity X 2, test_identity X 3] (\<lambda>j.
             bnd (attempt (approve_multisig E n j tok)) (\<lambda>_. ret ())))
           (ret (TxMultisigExecute tok)))
     | KindMultisigWithdraw \<Rightarrow> bnd (kind_token E X i account send_tx) (\<lambda>tok. ret (TxMultisigWithdraw tok))
     | KindMultisigSetDefaults \<Rightarrow> ret (TxMultisigSetDefaults \<lparr>df_account = account, df_threshold = Some 1,
         df_timeout_in_secs = Some 500, df_execute_automatically = Some True\<rparr>)
     | KindOther _ \<Rightarrow> throw (Panic ''not implemented''))"

definition setup_with_account_and_tx :: "('m, 'v, 'g) env \<Rightarrow> (json \<Rightarrow> string + multisig_arg) \<Rightarrow> ('m, 'g) test_crates \<Rightarrow>
    nat \<Rightarrow> account_type \<Rightarrow> tx_kind \<Rightarrow> (('m, 'g) ledger \<times> address \<times> address \<times> multisig_tx) res" where
  "setup_with_account_and_tx E parse X n account_type kind =
     rbind (setup_with_account E parse X account_type) (\<lambda>(l, i, account).
     case event_from_kind E X n kind i account account_type l of
       (Inl f, _) \<Rightarrow> Inl f
     | (Inr tx, l') \<Rightarrow> Inr (l', i, account, tx))"

definition verify_balance :: "('m, 'v, 'g) env \<Rightarrow> address \<Rightarrow> symbol \<Rightarrow> nat \<Rightarrow> ('m, 'g, unit) ledger_op" where
  "verify_balance E i x amount = bnd (attempt (ledger_balance E i (Some i) (Some [x]))) (\<lambda>r. case r of
     Inl _ \<Rightarrow> throw (Panic ''assertion failed'')
   | Inr balances \<Rightarrow> unless (balances = [(x, amount)]) (Panic ''assertion failed''))"

text \<open>A transaction is of the kind it was made for, and every kind that is drawn has one.\<close>

fun kind_of_tx :: "multisig_tx \<Rightarrow> tx_kind" where
  "kind_of_tx (TxSend _) = KindSend"
| "kind_of_tx (TxAccountCreate _) = KindAccountCreate"
| "kind_of_tx (TxAccountDisable _) = KindAccountDisable"
| "kind_of_tx (TxAccountSetDescription _) = KindAccountSetDescription"
| "kind_of_tx (TxAccountAddRoles _) = KindAccountAddRoles"
| "kind_of_tx (TxAccountRemoveRoles _) = KindAccountRemoveRoles"
| "kind_of_tx (TxAccountAddFeatures _) = KindAccountAddFeatures"
| "kind_of_tx (TxMultisigSubmit _) = KindMultisigSubmit"
| "kind_of_tx (TxMultisigSetDefaults _) = KindMultisigSetDefaults"
| "kind_of_tx (TxMultisigApprove _) = KindMultisigApprove"
| "kind_of_tx (TxMultisigRevoke _) = KindMultisigRevoke"
| "kind_of_tx (TxMultisigExecute _) = KindMultisigExecute"
| "kind_of_tx (TxMultisigWithdraw _) = KindMultisigWithdraw"
| "kind_of_tx (TxOther k) = KindOther k"

lemma event_kind_matches:
  assumes "event_from_kind E X n kind i account account_type l = (Inr tx, l')"
  shows "kind_of_tx tx = kind"
  using assms by (cases kind) (auto simp: event_from_kind_def okD Let_def)

lemma arb_event_kind_all: "kind \<in> set arb_event_kind \<longleftrightarrow> (\<forall>k. kind \<noteq> KindOther k)"
  by (cases kind) (simp_all add: arb_event_kind_def)

text \<open>What a transaction of an account asks for is allowed to be submitted.\<close>

lemma event_tx_ok:
  assumes "event_from_kind E X n kind i account account_type l = (Inr tx, l')"
  shows "tx_ok tx"
  using assms by (cases kind) (auto simp: event_from_kind_def okD Let_def kind_submit_def bt_ok_def)

section \<open>What tests can reach\<close>

text \<open>
  A test holds a ledger, found by \<open>v\<close>. An operation goes on like the server when, from a state of
  the ledger that the server reaches, it panics, does not return, or leaves a state that the server
  reaches. There is no migration in these tests' ledgers.
\<close>

abbreviation server_reach :: "('m, 'v, 'g) env \<Rightarrow> ('m, 'g) ledger \<Rightarrow> ('m, 'g) ledger \<Rightarrow> bool" where
  "server_reach E \<equiv> server_steps E (\<lambda>_. True) (\<lambda>_ _. True)"

definition goes_on :: "('m, 'v, 'g) env \<Rightarrow> ('s \<Rightarrow> ('m, 'g) ledger) \<Rightarrow> ('s, 'a) op \<Rightarrow> bool" where
  "goes_on E v m \<longleftrightarrow> (\<forall>l s r t. server_reach E l (v s) \<longrightarrow> m s = (r, t) \<longrightarrow>
     r = Inl Diverges \<or> (\<exists>msg. r = Inl (Panic msg)) \<or> server_reach E l (v t))"

text \<open>An operation that is one of the ledger, lifted.\<close>

definition acts_as :: "('s \<Rightarrow> ('m, 'g) ledger) \<Rightarrow> ('s, 'a) op \<Rightarrow> ('m, 'g, 'a) ledger_op \<Rightarrow> bool" where
  "acts_as v m lm \<longleftrightarrow> (\<forall>s. fst (m s) = fst (lm (v s)) \<and> v (snd (m s)) = snd (lm (v s)))"

lemma acts_on_module [simp]: "acts_as se_module (on_module lm) lm"
  by (simp add: acts_as_def on_module_def split: prod.split)

named_theorems goes_onI

text \<open>A test that ends has left its ledger in a state that the server reaches.\<close>

lemma goes_onD: "goes_on E v m \<Longrightarrow> m s = (Inr x, t) \<Longrightarrow> server_reach E (v s) (v t)"
  unfolding goes_on_def using server_steps.start by fast

lemma goes_on_bnd [goes_onI]: "goes_on E v m \<Longrightarrow> (\<And>x. goes_on E v (f x)) \<Longrightarrow> goes_on E v (bnd m f)"
  unfolding goes_on_def bnd_run by (fastforce split: prod.splits sum.splits)

lemma goes_on_andthen [goes_onI]: "goes_on E v m \<Longrightarrow> goes_on E v m' \<Longrightarrow> goes_on E v (andthen m m')"
  unfolding andthen_def by (rule goes_on_bnd)

lemma goes_on_expecting [goes_onI]: "goes_on E v m \<Longrightarrow> goes_on E v (expecting msg m)"
  unfolding goes_on_def expecting_run by (fastforce split: prod.splits sum.splits fault.splits)

lemma goes_on_basic [goes_onI]:
  "goes_on E v (ret x)" "goes_on E v (throw e)" "goes_on E v (lift q)" "goes_on E v (gets f)" "goes_on E v (reads g)"
  "goes_on E v (unless b e)"
  by (auto simp: goes_on_def run)

lemma goes_on_whenever [goes_onI]: "goes_on E v m \<Longrightarrow> goes_on E v (whenever b m)"
  by (simp add: goes_on_def run)

lemma goes_on_modify [goes_onI]: "(\<And>s. v (f s) = v s) \<Longrightarrow> goes_on E v (modify f)"
  by (simp add: goes_on_def run)

lemma goes_on_state:
  assumes "acts_as v m lm" and "\<And>l u. server_reach E l u \<Longrightarrow> server_reach E l (snd (lm u))"
  shows "goes_on E v m"
  unfolding goes_on_def
proof (intro allI impI)
  fix l s r t
  assume "server_reach E l (v s)" and s: "m s = (r, t)"
  then have "server_reach E l (snd (lm (v s)))" by (simp add: assms(2))
  then have "server_reach E l (v t)" using assms(1) s unfolding acts_as_def by (metis snd_conv)
  then show "r = Inl Diverges \<or> (\<exists>msg. r = Inl (Panic msg)) \<or> server_reach E l (v t)" by blast
qed

lemma goes_on_request:
  assumes "acts_as v m lm" and "\<And>l. snd (lm l) = snd (run_request E n sender req l)" and "well_formed req"
  shows "goes_on E v m"
proof (rule goes_on_state [OF assms(1)])
  fix l u
  assume "server_reach E l u"
  then have "server_reach E l (snd (run_request E n sender req u))"
    by (rule server_steps.request [OF _ assms(3) TrueI surjective_pairing])
  then show "server_reach E l (snd (lm u))" by (simp only: assms(2))
qed

lemma goes_on_reading: "acts_as v m lm \<Longrightarrow> pure_act lm \<Longrightarrow> goes_on E v m"
  by (erule goes_on_state) (simp add: pure_act_def)

lemma snd_ignored [simp]: "snd (bnd m (\<lambda>_. ret ()) s) = snd (m s)"
  by (simp add: run split: prod.split sum.split)

lemma acts_requests:
  "acts_as v m (ledger_send E i sargs) \<Longrightarrow> goes_on E v m"
  "acts_as v mi (account_create_op E i cargs) \<Longrightarrow> goes_on E v mi"
  "acts_as v m (add_roles E i rargs) \<Longrightarrow> goes_on E v m"
  "acts_as v m (remove_roles E i rargs) \<Longrightarrow> bt_ok (ro_roles rargs) \<Longrightarrow> goes_on E v m"
  "acts_as v mt (tokens_create E i targs) \<Longrightarrow> goes_on E v mt"
  "acts_as v mb (multisig_submit_transaction E i args) \<Longrightarrow> submit_ok args \<Longrightarrow> goes_on E v mb"
  "acts_as v ma (approve_multisig E n i tok) \<Longrightarrow> goes_on E v ma"
  "acts_as v me (execute_multisig E n i tok) \<Longrightarrow> goes_on E v me"
  "acts_as v mu (begin_block E time) \<Longrightarrow> goes_on E v mu"
  by (erule goes_on_request [where n = n and sender = i and req = "ReqSend sargs"]
      goes_on_request [where n = n and sender = i and req = "ReqAccount (AccountCreate cargs)"]
      goes_on_request [where n = n and sender = i and req = "ReqAccount (AccountAddRoles rargs)"]
      goes_on_request [where n = n and sender = i and req = "ReqAccount (AccountRemoveRoles rargs)"]
      goes_on_request [where n = n and sender = i and req = "ReqToken (TokenCreate targs)"]
      goes_on_request [where n = n and sender = i and req = "ReqMultisig (MultisigSubmit args)"]
      goes_on_request [where n = n and sender = i and req = "ReqMultisig (MultisigApprove tok)"]
      goes_on_request [where n = n and sender = i and req = "ReqMultisig (MultisigExecute tok)"]
      goes_on_state; simp add: server_steps.begins [OF _ surjective_pairing])+

lemma acts_reads:
  "acts_as v m (ledger_balance E a b c) \<Longrightarrow> goes_on E v m"
  "acts_as v mi (multisig_info_op E tok) \<Longrightarrow> goes_on E v mi"
  "acts_as v mh (abci_info_op E) \<Longrightarrow> goes_on E v mh"
proof -
  have "pure_act (ledger_balance E a b c)" unfolding ledger_balance_def by (rule pure_get_multiple_balances)
  then show "acts_as v m (ledger_balance E a b c) \<Longrightarrow> goes_on E v m" by (simp add: goes_on_reading)
  have "snd (multisig_info_op E tok s) = s" for s
  proof -
    have "snd (run_query E 0 (QMultisigInfo tok) s) = s" using queries_read_only by blast
    then show ?thesis by (simp add: forget_def run split: prod.splits sum.splits)
  qed
  then show "acts_as v mi (multisig_info_op E tok) \<Longrightarrow> goes_on E v mi"
    by (simp add: goes_on_reading pure_act_def)
  have "keeps (\<lambda>u. u = s) (abci_info_op E)" for s
    unfolding abci_info_op_def get_height_def by (intro keepsI)
  then show "acts_as v mh (abci_info_op E) \<Longrightarrow> goes_on E v mh"
    by (simp add: goes_on_reading pure_act_def keeps_def)
qed

lemmas module_goes_on [goes_onI] = acts_requests [OF acts_on_module] acts_reads [OF acts_on_module]

definition no_migrations :: "('m, 'v, 'g) env \<Rightarrow> bool" where
  "no_migrations E \<longleftrightarrow> (\<forall>g h. no_migration E g h)"

lemma commit_counter:
  assumes E: "store_ok E" "disk_ok E D" and c: "commit_block E s = (Inr i, t)"
  shows "\<exists>h. counter_at E s HEIGHT_ROOT = Inr h"
proof -
  have root: "take (length MULTISIG_TRANSACTIONS_ROOT) HEIGHT_ROOT \<noteq> MULTISIG_TRANSACTIONS_ROOT"
    by (simp add: HEIGHT_ROOT_def MULTISIG_TRANSACTIONS_ROOT_def)
  from c obtain h where "counter_at E (snd (check_timed_out_multisig_transactions E s)) HEIGHT_ROOT = Inr h"
    by (rule commit_block_ok [OF E(1)]) blast
  then show ?thesis using expiry_frame(1) [OF E root, of s] by (auto simp: counter_at_def)
qed

lemma goes_on_commit:
  assumes E: "store_ok E" "disk_ok E D" "no_migrations E" and m: "acts_as v m (abci_commit E)"
  shows "goes_on E v (expecting msg m)"
  unfolding goes_on_def
proof (intro allI impI)
  fix l s r t
  assume l: "server_reach E l (v s)" and s: "expecting msg m s = (r, t)"
  obtain q u where q: "m s = (q, u)" by fastforce
  then have c: "commit_block E (v s) = (q, v u)" using m by (simp add: acts_as_def abci_commit_def prod_eq_iff) (metis fst_conv snd_conv)
  show "r = Inl Diverges \<or> (\<exists>m. r = Inl (Panic m)) \<or> server_reach E l (v t)"
  proof (cases q)
    case (Inl f)
    then show ?thesis using q s by (cases f) (auto simp: expecting_run)
  next
    case (Inr i)
    with c have c: "commit_block E (v s) = (Inr i, v u)" by simp
    obtain h where h: "counter_at E (v s) HEIGHT_ROOT = Inr h" using commit_counter [OF E(1,2) c] ..
    have "no_migration E (migrations (v s)) (h + 1)" using E(3) by (simp add: no_migrations_def)
    from server_steps.commit [OF l c h this TrueI] show ?thesis using q s Inr by (simp add: expecting_run)
  qed
qed

text \<open>Every operation of \<open>Setup\<close> but \<open>set_balance\<close> goes on like the server.\<close>

lemma setup_goes_on:
  "goes_on E se_module (setup_balance E i x)" "goes_on E se_module (setup_mfx_balance E i)"
  "goes_on E se_module (setup_send_as E sender frm to amount x)" "goes_on E se_module (setup_send E frm to amount x)"
  "goes_on E se_module (setup_send_mfx E frm to amount)"
  "goes_on E se_module (setup_create_account_as E X i at)" "goes_on E se_module (setup_create_account E X at)"
  "goes_on E se_module (setup_inc_time amount')" "goes_on E se_module (setup_add_roles_as E i account rs)"
  "goes_on E se_module (setup_add_roles E account rs)"
  unfolding setup_balance_def setup_mfx_balance_def setup_send_as_def setup_send_def setup_send_mfx_def
    setup_create_account_as_def setup_create_account_def setup_inc_time_def setup_add_roles_as_def setup_add_roles_def
  by (intro goes_onI; simp)+

lemma setup_multisig_goes_on:
  "tx_ok tx \<Longrightarrow> goes_on E se_module (setup_create_multisig_as E X i account tx)"
  "tx_ok tx \<Longrightarrow> goes_on E se_module (setup_create_multisig E X account tx)"
  "goes_on E se_module (setup_multisig_send E X account to amount x)"
  "goes_on E se_module (setup_multisig_send_mfx E X account to amount)"
  "goes_on E se_module (setup_multisig_approve E n i tok)" "goes_on E se_module (setup_multisig_execute_as E n i tok)"
  "goes_on E se_module (setup_multisig_execute E n tok)" "goes_on E se_module (setup_assert_multisig_info E tok check)"
  unfolding setup_create_multisig_as_def setup_create_multisig_def setup_multisig_send_def setup_multisig_send_mfx_def
    setup_multisig_approve_def setup_multisig_execute_as_def setup_multisig_execute_def setup_assert_multisig_info_def
  by (intro goes_onI; simp)+

lemma setup_must_goes_on:
  "goes_on E se_module (setup_must_create_account_as E X i at)" "goes_on E se_module (setup_must_create_account E X at)"
  "tx_ok tx \<Longrightarrow> goes_on E se_module (setup_must_create_multisig E X account tx)"
  "goes_on E se_module (setup_must_approve E n i tok)" "goes_on E se_module (setup_must_execute_as E n i tok)"
  "goes_on E se_module (setup_must_execute E n tok)"
  unfolding setup_must_create_account_as_def setup_must_create_account_def setup_must_create_multisig_def
    setup_must_approve_def setup_must_execute_as_def setup_must_execute_def
  by (intro goes_on_expecting setup_goes_on setup_multisig_goes_on; assumption)+

lemma setup_block_goes_on:
  assumes "store_ok E" and "disk_ok E D" and "no_migrations E" and "goes_on E se_module inner"
  shows "goes_on E se_module (setup_block E inner)"
proof -
  have "goes_on E se_module tick"
    unfolding tick_def by (auto intro!: goes_onI split: option.split)
  then show ?thesis unfolding setup_block_def
    by (intro goes_onI goes_on_commit [OF assms(1-3)] assms(4) acts_on_module)
qed

end
