(* ===== verification/Worlds.thy ===== *)
theory Worlds
  imports TestSupport
begin

text \<open>
  The worlds of the feature files (\<open>test-utils/src/cucumber.rs\<close>, \<open>test-macros\<close>): phrases for
  identities, errors and permissions with their parsers, the given steps and the checks. The phrases
  of the parameters' expressions are all understood; one permission has no phrase, and one error
  is no error of its own.
\<close>

text \<open>The traits \<open>LedgerWorld\<close>, \<open>AccountWorld\<close> and \<open>TokenWorld\<close>, as the macros derive them from the fields of a world.\<close>

record ('m, 'g) world =
  w_setup :: "('m, 'g) test_setup"
  w_error :: "many_error option"
  w_account :: address
  w_info :: token_info
  w_ext_info :: ext_info

type_synonym ('m, 'g, 'a) world_op = "(('m, 'g) world, 'a) op"

definition w_setup_id :: "('m, 'g) world \<Rightarrow> address" where
  "w_setup_id w = se_id (w_setup w)"

definition in_world :: "('m, 'g, 'a) ledger_op \<Rightarrow> ('m, 'g, 'a) world_op" where
  "in_world m = (\<lambda>w. case on_module m (w_setup w) of (r, s) \<Rightarrow> (r, w\<lparr>w_setup := s\<rparr>))"

section \<open>Phrases\<close>

datatype some_id = SomeNumber u32 | Myself | AnonymousId | RandomId | TheAccount | TokenIdentity | NoOne

definition some_id_of :: "string \<Rightarrow> some_id res" where
  "some_id_of s =
     (if s = ''myself'' then Inr Myself
      else if s = ''anonymous'' then Inr AnonymousId
      else if s = ''random'' then Inr RandomId
      else if s = ''the account'' then Inr TheAccount
      else if s = ''token identity'' then Inr TokenIdentity
      else if s = ''no one'' then Inr NoOne
      else rbind (panic_on_err ''Unable to parse identity id'' (parse_u32 s)) (\<lambda>i. Inr (SomeNumber i)))"

fun as_address :: "('m, 'v, 'g) env \<Rightarrow> ('m, 'g) test_crates \<Rightarrow> ('m, 'g) world \<Rightarrow> some_id \<Rightarrow> address res" where
  "as_address E X w Myself = Inr (w_setup_id w)"
| "as_address E X w (SomeNumber seed) = Inr (test_identity X seed)"
| "as_address E X w AnonymousId = Inr (anonymous_id X)"
| "as_address E X w RandomId = Inr (random_id X)"
| "as_address E X w TheAccount = Inr (w_account w)"
| "as_address E X w TokenIdentity =
     expect_many ''unwrap'' (address_from_str E ''maffbahksdwaqeenayy2gxke32hgb7aq4ao4wt745lsfs6wijp'')"
| "as_address E X w NoOne = Inl (Panic ''not implemented'')"

definition as_maybe_address :: "('m, 'v, 'g) env \<Rightarrow> ('m, 'g) test_crates \<Rightarrow> ('m, 'g) world \<Rightarrow> some_id \<Rightarrow> address option res" where
  "as_maybe_address E X w i = (if i = NoOne then Inr None else rbind (as_address E X w i) (\<lambda>a. Inr (Some a)))"

datatype some_error =
    SomeUnauthorized | SomeMissingPermission | SomeImmutable | SomeInvalidSender | SomeUnableToDistributeZero
  | SomePartialBurnDisabled | SomeMissingFunds | SomeOverMaximum | SomeTickerExists

definition some_error_phrases :: "(string \<times> some_error) list" where
  "some_error_phrases = [(''unauthorized'', SomeUnauthorized), (''missing permission'', SomeMissingPermission),
     (''immutable'', SomeImmutable), (''invalid sender'', SomeInvalidSender),
     (''unable to distribute zero'', SomeUnableToDistributeZero), (''partial burn disabled'', SomePartialBurnDisabled),
     (''missing funds'', SomeMissingFunds), (''over maximum'', SomeOverMaximum), (''ticker exists'', SomeTickerExists)]"

definition some_error_of :: "string \<Rightarrow> some_error res" where
  "some_error_of s = (case map_of some_error_phrases s of
     Some e \<Rightarrow> Inr e | None \<Rightarrow> Inl (Panic ''not implemented''))"

datatype some_permission =
    PermissionCreate | PermissionUpdate | PermissionAddExtInfo | PermissionRemoveExtInfo | PermissionMint | PermissionBurn

definition some_permission_of :: "string \<Rightarrow> string + some_permission" where
  "some_permission_of s = (case map_of [(''token creation'', PermissionCreate), (''token mint'', PermissionMint),
       (''token burn'', PermissionBurn), (''token update'', PermissionUpdate),
       (''token add extended info'', PermissionAddExtInfo), (''token remove extended info'', PermissionRemoveExtInfo)] s of
     Some p \<Rightarrow> Inr p | None \<Rightarrow> Inl (''Invalid `SomeError`: '' @ s))"

text \<open>The alternatives of the regular expressions of the three parameters; an identity may also be \<open>id\<close> with digits.\<close>

definition id_phrases :: "string list" where
  "id_phrases = [''myself'', ''random'', ''anonymous'', ''the account'', ''token identity'', ''no one'']"

definition error_phrases :: "string list" where
  "error_phrases = [''unauthorized'', ''missing permission'', ''immutable'', ''invalid sender'', ''unable to distribute zero'',
     ''partial burn disabled'', ''missing funds'', ''over maximum'', ''ticker exists'']"

definition permission_phrases :: "string list" where
  "permission_phrases = [''token creation'', ''token mint'', ''token update'', ''token add extended info'',
     ''token remove extended info'']"

fun as_role :: "some_permission \<Rightarrow> role" where
  "as_role PermissionCreate = CanTokensCreate"
| "as_role PermissionMint = CanTokensMint"
| "as_role PermissionBurn = CanTokensBurn"
| "as_role PermissionUpdate = CanTokensUpdate"
| "as_role PermissionAddExtInfo = CanTokensAddExtendedInfo"
| "as_role PermissionRemoveExtInfo = CanTokensRemoveExtendedInfo"

text \<open>
  \<open>ManyError::code\<close>: the attribute errors of \<open>error.rs\<close> have the numbers of its macros, whatever
  their arguments; the other codes are those of other crates.
\<close>

datatype many_code = AttributeCode "nat \<times> nat" | RoleMissingCode | UnknownCode

fun as_many_code :: "some_error \<Rightarrow> many_code" where
  "as_many_code SomeUnauthorized = AttributeCode (ledger_error_code Unauthorized)"
| "as_many_code SomeMissingPermission = RoleMissingCode"
| "as_many_code SomeImmutable = UnknownCode"
| "as_many_code SomeInvalidSender = AttributeCode (token_error_code InvalidSender)"
| "as_many_code SomeUnableToDistributeZero = AttributeCode (mintburn_error_code (UnableToDistributeZero 0))"
| "as_many_code SomePartialBurnDisabled = AttributeCode (mintburn_error_code PartialBurnDisabled)"
| "as_many_code SomeMissingFunds = AttributeCode (mintburn_error_code (MissingFunds 0 0 0))"
| "as_many_code SomeOverMaximum = AttributeCode (mintburn_error_code (OverMaximumSupply 0 0 0))"
| "as_many_code SomeTickerExists = AttributeCode (token_error_code (TickerExists []))"

fun code_of :: "many_error \<Rightarrow> many_code option" where
  "code_of (LedgerError e) = Some (AttributeCode (ledger_error_code e))"
| "code_of (TokenError e) = Some (AttributeCode (token_error_code e))"
| "code_of (MintBurnError e) = Some (AttributeCode (mintburn_error_code e))"
| "code_of (AccountError (UserNeedsRole r)) = Some RoleMissingCode"
| "code_of (Unknown m) = Some UnknownCode"
| "code_of _ = None"

section \<open>Steps\<close>

definition given_token_account :: "('m, 'v, 'g) env \<Rightarrow> ('m, 'g) test_crates \<Rightarrow> ('m, 'g, unit) world_op" where
  "given_token_account E X = bnd (gets w_setup_id) (\<lambda>sender.
     bnd (expecting ''Unable to create account'' (in_world (account_create_op E sender
         \<lparr>cr_description = Some ''Token Account'', cr_roles = [], cr_features = [token_account_feature X]\<rparr>))) (\<lambda>account.
     modify (\<lambda>w. w\<lparr>w_account := account\<rparr>)))"

definition given_account_id_owner :: "('m, 'v, 'g) env \<Rightarrow> ('m, 'g) test_crates \<Rightarrow> some_id \<Rightarrow> ('m, 'g, unit) world_op" where
  "given_account_id_owner E X who = bnd (reads (\<lambda>w. as_address E X w who)) (\<lambda>i.
     bnd (gets w_setup_id) (\<lambda>sender.
     bnd (gets w_account) (\<lambda>account.
     andthen (expecting ''Unable to add role to account''
         (in_world (add_roles E sender \<lparr>ro_account = account, ro_roles = [(i, [Owner])]\<rparr>)))
       (whenever (i \<noteq> sender) (expecting ''Unable to remove myself as account owner''
         (in_world (remove_roles E sender \<lparr>ro_account = account, ro_roles = [(sender, [Owner])]\<rparr>)))))))"

definition given_account_part_of_can_create :: "('m, 'v, 'g) env \<Rightarrow> ('m, 'g) test_crates \<Rightarrow> some_id \<Rightarrow> some_permission \<Rightarrow>
    ('m, 'g, unit) world_op" where
  "given_account_part_of_can_create E X who permission = bnd (reads (\<lambda>w. as_address E X w who)) (\<lambda>i.
     bnd (gets w_setup_id) (\<lambda>sender.
     bnd (gets w_account) (\<lambda>account.
     expecting ''Unable to add role to account''
       (in_world (add_roles E sender \<lparr>ro_account = account, ro_roles = [(i, [as_role permission])]\<rparr>)))))"

definition default_token :: "('m, 'v, 'g) env \<Rightarrow> ('m, 'g) test_crates \<Rightarrow> some_id \<Rightarrow> nat option \<Rightarrow> ('m, 'g, unit) world_op" where
  \<comment> \<open>\<open>_create_default_token\<close>\<close>
  "default_token E X who max_supply = bnd (reads (\<lambda>w. as_maybe_address E X w who)) (\<lambda>a.
     bnd (gets w_setup_id) (\<lambda>me.
     case (case a of Some i \<Rightarrow> (i, Inl i) | None \<Rightarrow> (me, Inr ())) of (i, own) \<Rightarrow>
     bnd (lift (default_token_create_args E X (Some own) max_supply)) (\<lambda>args.
     bnd (expecting ''Unable to create default token'' (in_world (tokens_create E i args))) (\<lambda>info.
     modify (\<lambda>w. w\<lparr>w_info := info\<rparr>)))))"

definition create_default_token_unlimited :: "('m, 'v, 'g) env \<Rightarrow> ('m, 'g) test_crates \<Rightarrow> some_id \<Rightarrow> ('m, 'g, unit) world_op" where
  "create_default_token_unlimited E X who = default_token E X who None"

definition create_default_token :: "('m, 'v, 'g) env \<Rightarrow> ('m, 'g) test_crates \<Rightarrow> some_id \<Rightarrow> ('m, 'g, unit) world_op" where
  "create_default_token E X who = default_token E X who (Some 100000000)"

definition refresh_token_info :: "('m, 'v, 'g) env \<Rightarrow> ('m, 'g, unit) world_op" where
  "refresh_token_info E = bnd (gets (\<lambda>w. ti_symbol (w_info w))) (\<lambda>x.
     bnd (expecting ''Unable to query token info'' (in_world (tokens_info E
         \<lparr>tia_symbol = x, tia_extended_info = None\<rparr>))) (\<lambda>(info, ext).
     modify (\<lambda>w. w\<lparr>w_info := info, w_ext_info := ext\<rparr>)))"

text \<open>The checks; \<open>ManyError::argument\<close> and the parsers of its arguments are arguments.\<close>

definition error_argument :: "(many_error \<Rightarrow> string \<Rightarrow> string option) \<Rightarrow> string \<Rightarrow> ('m, 'g, string) world_op" where
  "error_argument argument field = reads (\<lambda>w. case w_error w of
     None \<Rightarrow> Inl (Panic ''unwrap'')
   | Some e \<Rightarrow> (case argument e field of None \<Rightarrow> Inl (Panic ''unwrap'') | Some t \<Rightarrow> Inr t))"

definition assert_same :: "'a \<Rightarrow> 'a \<Rightarrow> ('w, unit) op" where
  "assert_same a b = unless (a = b) (Panic ''assertion failed'')"

definition verify_error_role :: "('m, 'v, 'g) env \<Rightarrow> (many_error \<Rightarrow> string \<Rightarrow> string option) \<Rightarrow> role option \<Rightarrow>
    ('m, 'g, unit) world_op" where
  "verify_error_role E argument r = bnd (error_argument argument ''role'') (\<lambda>t.
     bnd (lift (case role_from_str E t of None \<Rightarrow> Inl (Panic ''unwrap'') | Some q \<Rightarrow> Inr q)) (\<lambda>q.
     bnd (lift (case r of None \<Rightarrow> Inl (Panic ''unwrap'') | Some r \<Rightarrow> Inr r)) (\<lambda>r. assert_same q r)))"

definition verify_error_addr :: "('m, 'v, 'g) env \<Rightarrow> (many_error \<Rightarrow> string \<Rightarrow> string option) \<Rightarrow> many_error + address \<Rightarrow>
    ('m, 'g, unit) world_op" where
  "verify_error_addr E argument addr = bnd (error_argument argument ''symbol'') (\<lambda>t.
     bnd (lift (expect_many ''unwrap'' (address_from_str E t))) (\<lambda>a.
     bnd (lift (expect_many ''unwrap'' addr)) (\<lambda>b. assert_same a b)))"

definition verify_error_code :: "(many_error \<Rightarrow> 'c) \<Rightarrow> 'c \<Rightarrow> ('m, 'g, unit) world_op" where
  "verify_error_code code c = bnd (reads (\<lambda>w. case w_error w of
       None \<Rightarrow> Inl (Panic ''Expecting an error'') | Some e \<Rightarrow> Inr e)) (\<lambda>e. assert_same (code e) c)"

definition verify_error_ticker :: "(many_error \<Rightarrow> string \<Rightarrow> string option) \<Rightarrow> string \<Rightarrow> ('m, 'g, unit) world_op" where
  "verify_error_ticker argument tick' = bnd (error_argument argument ''ticker'') (\<lambda>t. assert_same tick' t)"

section \<open>Phrases are understood\<close>

lemma digits_are_numbers:
  assumes "n < 2 ^ 32"
  shows "some_id_of (decimal n) = Inr (SomeNumber (word_of_nat n))"
proof -
  have d: "parse_u32 (decimal n) = Inr (word_of_nat n)" using decimal_parsed [OF assms] by (simp add: parse_u32_def)
  have "\<forall>p \<in> set id_phrases. \<exists>e. parse_u32 p = Inl e"
    by (simp add: id_phrases_def parse_u32_def parse_unsigned_def less_eq_char_def)
  with d have "decimal n \<notin> set id_phrases" by (metis sum.distinct(1))
  with d show ?thesis by (simp add: some_id_of_def id_phrases_def)
qed

lemma phrases_understood:
  "\<exists>is. map some_id_of id_phrases = map Inr is \<and> distinct is"
  "\<exists>es. map some_error_of error_phrases = map Inr es \<and> distinct es"
  "\<exists>ps. map some_permission_of permission_phrases = map Inr ps \<and> distinct ps"
  by (rule exI [of _ "[Myself, RandomId, AnonymousId, TheAccount, TokenIdentity, NoOne]"],
      simp add: id_phrases_def some_id_of_def)
    (rule exI [of _ "map snd some_error_phrases"],
      simp add: error_phrases_def some_error_of_def some_error_phrases_def,
     rule exI [of _ "[PermissionCreate, PermissionMint, PermissionUpdate, PermissionAddExtInfo, PermissionRemoveExtInfo]"],
      simp add: permission_phrases_def some_permission_of_def)

text \<open>No phrase of the expression stands for the permission to burn, though the parser knows one.\<close>

lemma burn_has_no_phrase:
  "p \<in> set permission_phrases \<Longrightarrow> some_permission_of p \<noteq> Inr PermissionBurn"
  "some_permission_of ''token burn'' = Inr PermissionBurn"
  by (auto simp: permission_phrases_def some_permission_of_def)

text \<open>Different phrases are different codes, and the codes are those of the errors they name.\<close>

lemma error_codes_differ: "as_many_code a = as_many_code b \<longleftrightarrow> a = b"
  by (cases a; cases b) simp_all

lemma codes_of_errors:
  "code_of (LedgerError Unauthorized) = Some (as_many_code SomeUnauthorized)"
  "code_of (AccountError (UserNeedsRole r)) = Some (as_many_code SomeMissingPermission)"
  "code_of (TokenError InvalidSender) = Some (as_many_code SomeInvalidSender)"
  "code_of (MintBurnError (UnableToDistributeZero x)) = Some (as_many_code SomeUnableToDistributeZero)"
  "code_of (MintBurnError PartialBurnDisabled) = Some (as_many_code SomePartialBurnDisabled)"
  "code_of (MintBurnError (MissingFunds x a b)) = Some (as_many_code SomeMissingFunds)"
  "code_of (MintBurnError (OverMaximumSupply x a b)) = Some (as_many_code SomeOverMaximum)"
  "code_of (TokenError (TickerExists t)) = Some (as_many_code SomeTickerExists)"
  by simp_all

text \<open>
  A ticker that is taken is refused with the code that the phrase names when a token is updated;
  when one is created the refusal has the code of an unknown error.
\<close>

lemma taken_ticker_codes:
  assumes E: "store_ok E" and m: "get_symbols_and_tickers E s = (Inr m, s)" and t: "tk \<in> set (map snd m)"
  shows "\<exists>e. fst (update_ticker E x tk s) = Inl (Err e) \<and> code_of e = Some (as_many_code SomeTickerExists)"
    and "tokens_create E sender args s = (Inr info, u) \<Longrightarrow> ticker (tc_summary args) \<noteq> tk"
proof -
  show "\<exists>e. fst (update_ticker E x tk s) = Inl (Err e) \<and> code_of e = Some (as_many_code SomeTickerExists)"
    using t by (simp add: update_ticker_def run m)
  assume c: "tokens_create E sender args s = (Inr info, u)"
  have pure: "pure_act (needs_migration E q)" "pure_act (bnd (token_identity E) (\<lambda>i. lift (verify_tokens_sender sender i)))"
      "pure_act (case tc_owner args of Some (Inl addr) \<Rightarrow> verify_acl E sender addr [CanTokensCreate] (token_feature_id E) | _ \<Rightarrow> ret ())" for q
    by (auto intro!: pure_needs_migration pure_bnd pure_token_identity pure_lift pure_verify_acl pure_ret split: option.split sum.split)
  from c obtain q1 s1 q2 s2 q3 s3 where "needs_migration E ''tokens.create'' s = (Inr q1, s1)"
    "bnd (token_identity E) (\<lambda>i. lift (verify_tokens_sender sender i)) s1 = (Inr q2, s2)"
    "(case tc_owner args of Some (Inl addr) \<Rightarrow> verify_acl E sender addr [CanTokensCreate] (token_feature_id E)
      | _ \<Rightarrow> ret ()) s2 = (Inr q3, s3)"
    and c3: "bnd (get_symbols_and_tickers E) (\<lambda>m. if ticker (tc_summary args) \<in> set (map snd m)
       then raise (Unknown ''The ticker already exists on this network'') else create_token E sender args) s3 = (Inr info, u)"
    unfolding tokens_create_def andthen_ok by blast
  then have "s3 = s" using pure_actD [OF pure(1)] pure_actD [OF pure(2)] pure_actD [OF pure(3)] by blast
  with c3 m have "ticker (tc_summary args) \<notin> set (map snd m)" by (auto simp: bnd_ok throw_ok split: if_splits)
  then show "ticker (tc_summary args) \<noteq> tk" using m t by auto
qed

section \<open>Steps go on like the server\<close>

abbreviation w_ledger :: "('m, 'g) world \<Rightarrow> ('m, 'g) ledger" where
  "w_ledger w \<equiv> se_module (w_setup w)"

lemma acts_in_world: "acts_as w_ledger (in_world m) m"
  by (simp add: acts_as_def in_world_def on_module_def split: prod.split)

lemmas world_goes_on [goes_onI] = acts_requests [OF acts_in_world] acts_reads [OF acts_in_world]

lemma tokens_info_state: "pure_act (tokens_info E args)"
  unfolding tokens_info_def andthen_def
  by (intro pure_bnd pure_needs_migration pure_get_symbols) (simp add: pure_throw pure_info_token)

lemma steps_go_on:
  "goes_on E w_ledger (given_token_account E X)"
  "goes_on E w_ledger (given_account_id_owner E X who)"
  "goes_on E w_ledger (given_account_part_of_can_create E X who permission)"
  "goes_on E w_ledger (create_default_token_unlimited E X who)"
  "goes_on E w_ledger (create_default_token E X who)"
  "goes_on E w_ledger (refresh_token_info E)"
proof -
  have default: "goes_on E w_ledger (default_token E X who m)" for m
    unfolding default_token_def by (intro goes_onI) (auto intro!: goes_onI split: prod.split option.split)
  show "goes_on E w_ledger (create_default_token_unlimited E X who)" "goes_on E w_ledger (create_default_token E X who)"
    unfolding create_default_token_unlimited_def create_default_token_def by (rule default)+
  show "goes_on E w_ledger (given_token_account E X)"
    unfolding given_token_account_def by (intro goes_onI) simp
  show "goes_on E w_ledger (given_account_id_owner E X who)"
    unfolding given_account_id_owner_def by (intro goes_onI) (simp add: bt_ok_def)
  show "goes_on E w_ledger (given_account_part_of_can_create E X who permission)"
    unfolding given_account_part_of_can_create_def by (intro goes_onI)
  show "goes_on E w_ledger (refresh_token_info E)"
    unfolding refresh_token_info_def
    by (intro goes_onI goes_on_reading [OF acts_in_world tokens_info_state]) (auto intro!: goes_onI split: prod.split)
qed

text \<open>After a step that gives the account an owner, it has that owner.\<close>

lemma assert_same_ok [okD]: "assert_same a b s = (Inr u, t) \<longleftrightarrow> a = b \<and> t = s"
  by (auto simp: assert_same_def run)

text \<open>A check passes exactly on the errors with the code.\<close>

lemma verify_error_code_passes:
  "verify_error_code code c w = (Inr u, w') \<longleftrightarrow> w' = w \<and> (\<exists>e. w_error w = Some e \<and> code e = c)"
  by (auto simp: verify_error_code_def okD split: option.splits)

end
