(* ===== verification/Chain.thy ===== *)
theory Chain
  imports Startup
begin

text \<open>
  The servers behind the block chain: the calls that tendermint makes of the bridge
  (\<open>abci_app.rs\<close>), with the modules of the ledger or of the key-value server as the server that
  the bridge calls. What the ledger goes through behind the bridge is exactly what the calls ask for
  (\<open>replay\<close>). The interface \<open>chained\<close> says what a server promises: it goes through its own steps
  whatever the bridge asks. Then every run of the chain is a run of the server.
\<close>

section \<open>A server of the bridge\<close>

text \<open>
  What the server of another crate (\<open>ManyServer\<close>) does with an envelope: it decodes it and checks its
  signature, calls the endpoint, and writes the answer, which may depend on the state the
  endpoint left.
\<close>

record ('s, 'e, 'q) many_server =
  sv_request :: "'e \<Rightarrow> many_error + address \<times> 'q"
  sv_refusal :: "'e \<Rightarrow> many_error \<Rightarrow> string + 'e"
  sv_answer :: "'e \<Rightarrow> unit res \<Rightarrow> 's \<Rightarrow> string + 'e"
  sv_info :: "abci_info \<Rightarrow> bytes"
  sv_commit :: "commit_info \<Rightarrow> bytes"
  sv_crashed :: many_error

definition call_answer :: "('s, 'e, 'q) many_server \<Rightarrow> ('a \<Rightarrow> bytes) \<Rightarrow> 'a res \<times> 's \<Rightarrow> (many_error + bytes) \<times> 's" where
  "call_answer V f = (\<lambda>(r, s). (case r of
     Inr x \<Rightarrow> Inr (f x) | Inl (Err e) \<Rightarrow> Inl e | Inl _ \<Rightarrow> Inl (sv_crashed V), s))"

definition receive :: "('s, 'e, 'q) many_server \<Rightarrow> (address \<Rightarrow> 'q \<Rightarrow> ('s, unit) op) \<Rightarrow> 'e \<Rightarrow> 's \<Rightarrow> (string + 'e) \<times> 's" where
  "receive V run envelope s = (case sv_request V envelope of
     Inl e \<Rightarrow> (sv_refusal V envelope e, s)
   | Inr (sender, q) \<Rightarrow> (case run sender q s of (r, t) \<Rightarrow> (sv_answer V envelope r t, t)))"

lemma snd_call_answer [simp]: "snd (call_answer V f x) = snd x"
  by (simp add: call_answer_def split_def)

lemma snd_receive: "snd (receive V run envelope s) =
    (case sv_request V envelope of Inl e \<Rightarrow> s | Inr (sender, q) \<Rightarrow> snd (run sender q s))"
  by (simp add: receive_def split_def split: sum.split)

section \<open>What tendermint calls\<close>

datatype abci_event =
    AskInfo
  | AskQuery bytes
  | BeginBlock "int option option"
  | DeliverTx bytes
  | EndBlock

fun chain_event :: "('e, 'x) wire \<Rightarrow> ('e, 'w) server \<Rightarrow> abci_event \<Rightarrow> 'w \<Rightarrow> 'w" where
  "chain_event W S AskInfo w = snd (app_info_of W S [] w)"
| "chain_event W S (AskQuery data) w = snd (app_query W S data w)"
| "chain_event W S (BeginBlock header) w = app_begin_block S header w"
| "chain_event W S (DeliverTx tx) w = snd (deliver_tx W S tx w)"
| "chain_event W S EndBlock w = app_end_block S w"

text \<open>
  A run of the chain: any calls in any order, with any bytes; \<open>K\<close> says which commits are considered.
\<close>

inductive chain_run :: "('e, 'x) wire \<Rightarrow> ('e, 'w) server \<Rightarrow> ('w \<Rightarrow> 'w \<Rightarrow> bool) \<Rightarrow> 'w \<Rightarrow> 'w \<Rightarrow> bool"
  for W S K s where
  genesis: "chain_run W S K s s"
| event: "chain_run W S K s t \<Longrightarrow> u = chain_event W S ev t \<Longrightarrow> chain_run W S K s u"
| block: "chain_run W S K s t \<Longrightarrow> app_commit W S t = (r, u) \<Longrightarrow> K t u \<Longrightarrow> chain_run W S K s u"

lemma snd_app_info: "snd (app_info_of W S a w) = snd (srv_call S CallInfo w)"
  by (simp add: app_info_of_def split_def)

lemma app_query_state:
  "snd (app_query W S data w) = (case envelope_from_slice W data of Inl _ \<Rightarrow> w | Inr e \<Rightarrow> snd (srv_send S e w))"
  by (simp add: app_query_def split_def split: sum.split)

lemma deliver_state:
  "snd (deliver_tx W S tx w) = (case envelope_from_slice W tx of Inl _ \<Rightarrow> w | Inr e \<Rightarrow> snd (srv_send S e w))"
  by (simp add: deliver_tx_def split_def split: sum.split)

lemma app_commit_state: "snd (app_commit W S w) = snd (srv_call S CallCommit w)"
  by (simp add: app_commit_def split_def)

section \<open>The interface\<close>

text \<open>
  \<open>R i s t\<close>: the server gets from \<open>s\<close> to \<open>t\<close> by its own steps. The index is what a server is made of;
  \<open>ok\<close> what is assumed of it.
\<close>

locale chained =
  fixes ok :: "'i \<Rightarrow> bool"
    and S :: "'i \<Rightarrow> ('e, 'w) server"
    and K :: "'i \<Rightarrow> 'w \<Rightarrow> 'w \<Rightarrow> bool"
    and R :: "'i \<Rightarrow> 'w \<Rightarrow> 'w \<Rightarrow> bool"
  assumes starts: "R i s s"
    and calls: "ok i \<Longrightarrow> R i s t \<Longrightarrow> call \<noteq> CallCommit \<Longrightarrow> R i s (snd (srv_call (S i) call t))"
    and sends: "ok i \<Longrightarrow> R i s t \<Longrightarrow> R i s (snd (srv_send (S i) e t))"
    and commits: "ok i \<Longrightarrow> R i s t \<Longrightarrow> snd (srv_call (S i) CallCommit t) = u \<Longrightarrow> K i t u \<Longrightarrow> R i s u"
begin

lemma events:
  assumes "ok i" and "R i s t"
  shows "R i s (chain_event W (S i) ev t)"
proof (cases ev)
  case AskInfo
  then show ?thesis by (simp add: snd_app_info calls [OF assms])
next
  case (AskQuery data)
  then show ?thesis by (simp add: app_query_state sends [OF assms] assms(2) split: sum.split)
next
  case (BeginBlock header)
  then show ?thesis by (simp add: app_begin_block_def Let_def calls [OF assms])
next
  case (DeliverTx tx)
  then show ?thesis by (simp add: deliver_state sends [OF assms] assms(2) split: sum.split)
next
  case EndBlock
  then show ?thesis by (simp add: app_end_block_def calls [OF assms])
qed

lemma run_steps:
  assumes "chain_run W (S i) (K i) s t" and "ok i"
  shows "R i s t"
  using assms(1)
proof (induction rule: chain_run.induct)
  case genesis
  show ?case by (rule starts)
next
  case (event t u ev)
  then show ?case by (simp add: events [OF assms(2)])
next
  case (block t r u)
  have "snd (srv_call (S i) CallCommit t) = u"
    using app_commit_state [of W "S i" t] block.hyps(2) by simp
  from commits [OF assms(2) block.IH this block.hyps(3)] show ?case .
qed

end

section \<open>The ledger behind the bridge\<close>

text \<open>Ending a block is left to the default of the backend's trait, which does nothing.\<close>

fun ledger_call :: "('m, 'v, 'g) env \<Rightarrow> (('m, 'g) ledger, 'e, 'q) many_server \<Rightarrow> abci_call \<Rightarrow> ('m, 'g) ledger \<Rightarrow>
    (many_error + bytes) \<times> ('m, 'g) ledger" where
  "ledger_call E V CallInfo s = call_answer V (sv_info V) (abci_info_op E s)"
| "ledger_call E V (CallBeginBlock time) s = call_answer V (\<lambda>_. []) (begin_block E time s)"
| "ledger_call E V CallEndBlock s = (Inr [], s)"
| "ledger_call E V CallCommit s = call_answer V (sv_commit V) (abci_commit E s)"

definition ledger_run :: "('m, 'v, 'g) env \<Rightarrow> nat \<Rightarrow> address \<Rightarrow> ledger_query + server_request \<Rightarrow> ('m, 'g, unit) ledger_op" where
  "ledger_run E n sender x = (case x of Inl q \<Rightarrow> run_query E sender q | Inr req \<Rightarrow> run_request E n sender req)"

type_synonym ('m, 'g, 'e) ledger_server = "(('m, 'g) ledger, 'e, ledger_query + server_request) many_server"

definition ledger_backend :: "('m, 'v, 'g) env \<Rightarrow> nat \<Rightarrow> ('m, 'g, 'e) ledger_server \<Rightarrow> ('e, ('m, 'g) ledger) server" where
  "ledger_backend E n V = \<lparr>srv_call = ledger_call E V, srv_send = receive V (ledger_run E n)\<rparr>"

text \<open>The requests that envelopes hold, and commits at which no migration starts.\<close>

definition requests_meet :: "('s, 'e, 'a + 'b) many_server \<Rightarrow> ('b \<Rightarrow> bool) \<Rightarrow> bool" where
  "requests_meet V P \<longleftrightarrow> (\<forall>envelope sender req. sv_request V envelope = Inr (sender, Inr req) \<longrightarrow> P req)"

definition quiet_commit :: "('m, 'v, 'g) env \<Rightarrow> (('m, 'g) ledger \<Rightarrow> ('m, 'g) ledger \<Rightarrow> bool) \<Rightarrow>
    ('m, 'g) ledger \<Rightarrow> ('m, 'g) ledger \<Rightarrow> bool" where
  "quiet_commit E C t u \<longleftrightarrow> (\<exists>i h. fst (abci_commit E t) = Inr i \<and> counter_at E t HEIGHT_ROOT = Inr h \<and>
     no_migration E (migrations t) (h + 1)) \<and> C t u"

lemma abci_info_state: "snd (abci_info_op E t) = t"
proof -
  have "keeps (\<lambda>u. u = t) (abci_info_op E)"
    unfolding abci_info_op_def get_height_def by (intro keepsI)
  then show ?thesis by (simp add: keeps_def)
qed

lemma ledger_calls:
  assumes "server_steps E P C s t" and "call \<noteq> CallCommit"
  shows "server_steps E P C s (snd (ledger_call E V call t))"
  using assms server_steps.begins [OF assms(1) surjective_pairing]
  by (cases call) (simp_all add: abci_info_state)

lemma ledger_sends:
  assumes "requests_meet V (\<lambda>req. well_formed req \<and> P req)" and "server_steps E P C s t"
  shows "server_steps E P C s (snd (receive V (ledger_run E n) e t))"
proof -
  have "server_steps E P C s (snd (ledger_run E n sender x t))" if "sv_request V e = Inr (sender, x)" for sender x
  proof (cases x)
    case (Inl q)
    then show ?thesis using assms(2) queries_read_only [of q E sender t] by (simp add: ledger_run_def)
  next
    case (Inr req)
    then have "well_formed req" "P req" using assms(1) that unfolding requests_meet_def by blast+
    from server_steps.request [where P = P and req = req, OF assms(2) this surjective_pairing]
    show ?thesis using Inr by (simp add: ledger_run_def)
  qed
  then show ?thesis using assms(2) by (simp add: snd_receive split: sum.split)
qed

lemma ledger_commits:
  assumes "server_steps E P C s t" and "snd (ledger_call E V CallCommit t) = u" and "quiet_commit E C t u"
  shows "server_steps E P C s u"
proof -
  obtain i h where i: "fst (abci_commit E t) = Inr i" "counter_at E t HEIGHT_ROOT = Inr h"
      "no_migration E (migrations t) (h + 1)" "C t u"
    using assms(3) unfolding quiet_commit_def by blast
  then have "commit_block E t = (Inr i, u)" using assms(2) by (simp add: abci_commit_def prod_eq_iff)
  from server_steps.commit [OF assms(1) this i(2-4)] show ?thesis .
qed

interpretation ledger_chain: chained
  "\<lambda>(E, n, V, P, C). requests_meet V (\<lambda>req. well_formed req \<and> P req)"
  "\<lambda>(E, n, V, P, C). ledger_backend E n V" "\<lambda>(E, n, V, P, C). quiet_commit E C"
  "\<lambda>(E, n, V, P, C). server_steps E P C"
proof (unfold_locales, goal_cases)
  case (1 i s)
  show ?case by (simp add: server_steps.start split: prod.split)
next
  case (2 i s t call)
  obtain E n V P C where "i = (E, n, V, P, C)" by (cases i)
  with 2 show ?case by (simp add: ledger_backend_def ledger_calls)
next
  case (3 i s t e)
  obtain E n V P C where "i = (E, n, V, P, C)" by (cases i)
  with 3 show ?case by (simp add: ledger_backend_def ledger_sends)
next
  case (4 i s t u)
  obtain E n V P C where "i = (E, n, V, P, C)" by (cases i)
  with 4 ledger_commits [of E P C s t V u] show ?case by (simp add: ledger_backend_def)
qed

section \<open>The key-value server behind the bridge\<close>

datatype kv_question =
    AskGet bytes
  | AskMetadata bytes
  | AskHash
  | AskRoles address
  | AskRolesOf address "address list"
  | AskAccount address
  | AskEventsInfo
  | AskEventsList list_args

fun kv_ask :: "('m, 'v, 'g) env \<Rightarrow> kv_question \<Rightarrow> ('m, unit) kv_op" where
  "kv_ask E (AskGet k) = forget (kv_get_op E k)"
| "kv_ask E (AskMetadata k) = forget (kv_query E k)"
| "kv_ask E AskHash = forget (kv_info E)"
| "kv_ask E (AskRoles i) = forget (kv_list_roles E i)"
| "kv_ask E (AskRolesOf i ids) = forget (kv_get_roles E i ids)"
| "kv_ask E (AskAccount i) = forget (kv_account_info E i)"
| "kv_ask E AskEventsInfo = forget (kv_events_info E)"
| "kv_ask E (AskEventsList args) = forget (kv_list_events E args)"

lemma kv_ask_state: "snd (kv_ask E q s) = s"
proof -
  have "keeps (\<lambda>u. u = s) (kv_ask E q)"
    by (cases q) (auto simp: forget_def kv_get_op_def kv_get_def kv_raw_get_def kv_query_def kv_get_metadata_def
        kv_info_def kv_list_roles_def kv_get_roles_def kv_existing_account_def kv_account_info_def
        kv_events_info_def kv_nb_events_def kv_list_events_def Let_def intro!: keepsI split: option.split sum.split bool.split)
  then show ?thesis by (simp add: keeps_def)
qed

fun kv_call :: "('m, 'v, 'g) env \<Rightarrow> ('m kv, 'e, 'q) many_server \<Rightarrow> abci_call \<Rightarrow> 'm kv \<Rightarrow> (many_error + bytes) \<times> 'm kv" where
  "kv_call E V CallInfo s = call_answer V (sv_info V) (kv_abci_info E s)"
| "kv_call E V (CallBeginBlock time) s = call_answer V (\<lambda>_. []) (kv_begin_block E time s)"
| "kv_call E V CallEndBlock s = (Inr [], s)"
| "kv_call E V CallCommit s = call_answer V (sv_commit V) (kv_abci_commit E s)"

definition kv_run_any :: "('m, 'v, 'g) env \<Rightarrow> address \<Rightarrow> kv_question + kv_request \<Rightarrow> ('m, unit) kv_op" where
  "kv_run_any E sender x = (case x of Inl q \<Rightarrow> kv_ask E q | Inr req \<Rightarrow> kv_run E sender req)"

definition kv_backend :: "('m, 'v, 'g) env \<Rightarrow> ('m kv, 'e, kv_question + kv_request) many_server \<Rightarrow> ('e, 'm kv) server" where
  "kv_backend E V = \<lparr>srv_call = kv_call E V, srv_send = receive V (kv_run_any E)\<rparr>"

lemma kv_abci_info_state: "snd (kv_abci_info E t) = t"
proof -
  have "keeps (\<lambda>u. u = t) (kv_abci_info E)"
    unfolding kv_abci_info_def kv_get_height_def by (intro keepsI)
  then show ?thesis by (simp add: keeps_def)
qed

lemma kv_calls:
  assumes "kv_steps E s t" and "call \<noteq> CallCommit"
  shows "kv_steps E s (snd (kv_call E V call t))"
  using assms kv_steps.block [OF assms(1) surjective_pairing]
  by (cases call) (simp_all add: kv_abci_info_state)

lemma kv_sends:
  assumes "requests_meet V kv_request_ok" and "kv_steps E s t"
  shows "kv_steps E s (snd (receive V (kv_run_any E) e t))"
proof -
  have "kv_steps E s (snd (kv_run_any E sender x t))" if "sv_request V e = Inr (sender, x)" for sender x
  proof (cases x)
    case (Inl q)
    then show ?thesis using assms(2) by (simp add: kv_run_any_def kv_ask_state)
  next
    case (Inr req)
    then have "kv_request_ok req" using assms(1) that unfolding requests_meet_def by blast
    from kv_steps.request [OF assms(2) this surjective_pairing]
    show ?thesis using Inr by (simp add: kv_run_any_def)
  qed
  then show ?thesis using assms(2) by (simp add: snd_receive split: sum.split)
qed

lemma kv_commits:
  assumes "kv_steps E s t"
  shows "kv_steps E s (snd (kv_call E V CallCommit t))"
  using kv_steps.commit [OF assms surjective_pairing] by (simp add: kv_abci_commit_def)

interpretation kv_chain: chained
  "\<lambda>(E, V). requests_meet V kv_request_ok" "\<lambda>(E, V). kv_backend E V" "\<lambda>_ _ _. True" "\<lambda>(E, V). kv_steps E"
proof (unfold_locales, goal_cases)
  case (1 i s)
  show ?case by (simp add: kv_steps.start split: prod.split)
next
  case (2 i s t call)
  obtain E V where "i = (E, V)" by (cases i)
  with 2 show ?case by (simp add: kv_backend_def kv_calls)
next
  case (3 i s t e)
  obtain E V where "i = (E, V)" by (cases i)
  with 3 show ?case by (simp add: kv_backend_def kv_sends)
next
  case (4 i s t u)
  obtain E V where "i = (E, V)" by (cases i)
  with 4 kv_commits [of E s t V] show ?case by (auto simp: kv_backend_def)
qed

section \<open>Properties\<close>

text \<open>
  The promises of the server hold behind the chain: a run whose commits succeed and start no
  migration is a run of the server.
\<close>

lemma chain_run_is_server_run:
  assumes "chain_run W (ledger_backend E n V) (quiet_commit E C) s t"
    and "requests_meet V (\<lambda>req. well_formed req \<and> P req)"
  shows "server_steps E P C s t"
  using ledger_chain.run_steps [of W "(E, n, V, P, C)" s t] assms by simp















text \<open>
  C34. A key-value server behind the block chain survives a restart: after any run of the chain from a
  fresh store and a commit, \<open>main\<close> without \<open>--clean\<close> gives the state of that commit back, but for the
  block's time and the cached hash, whatever initial state it is given.
\<close>

theorem kv_resumes_behind_chain:
  assumes kv: "kv_env_ok E" "kv_new E (Inr m) acl ident bc = Inr s0" "mview E m SUBRESOURCE_ID_KEY = None"
    and chain: "chain_run W (kv_backend E V) (\<lambda>_ _. True) s0 s" "requests_meet V kv_request_ok"
      "app_commit W (kv_backend E V) s = (r, t)" "fst (kv_commit E s) = Inr i"
    and start: "\<not> opt_clean opts" "dir_exists F w" "read_pem F w = Inr pem" "key_of_pem F pem = Inr key"
    and store: "open_store F w = (Inr (persistent_store t), w')" "opt_abci opts = blockchain t"
  shows "kv_start F E opts w = (Inr (t\<lparr>current_time := None, current_hash := None\<rparr>), w')"
proof -
  have steps: "kv_steps E s0 s"
    using kv_chain.run_steps [of W "(E, V)" s0 s] chain(1,2) by simp
  have "snd (kv_commit E s) = t"
    using app_commit_state [of W "kv_backend E V" s] chain(3) by (simp add: kv_backend_def kv_abci_commit_def)
  with chain(4) have "kv_commit E s = (Inr i, t)" by (simp add: prod_eq_iff)
  from kv_resumes [OF kv steps this start store] show ?thesis .
qed

section \<open>Witnesses\<close>

text \<open>Every request of an envelope disables the account 101.\<close>

definition ref_many_server :: "(ref_store, string list, ex_envelope) ledger_server" where
  "ref_many_server = \<lparr>sv_request = (\<lambda>e. case e of
       Inl m \<Rightarrow> Inr (rq_from m, if rq_method m = ''ledger.info'' then Inl QLedgerInfo else Inr (ReqAccount (AccountDisable 101)))
     | Inr _ \<Rightarrow> Inl InvalidIdentity),
     sv_refusal = (\<lambda>_ _. Inl ''refused''), sv_answer = (\<lambda>_ r _. Inr (Inr (if is_ok r then ''1'' else ''0''))),
     sv_info = (\<lambda>_. []), sv_commit = (\<lambda>_. []), sv_crashed = InvalidIdentity\<rparr>"

lemma chain_run_is_server_run_witness:
  "server_steps ref_env (\<lambda>_. True) (\<lambda>_ _. True) (ref_accounts None)
    (chain_event ex_bridge (ledger_backend ref_env 0 ref_many_server) (DeliverTx (CHR 0x05 # ''account.disable''))
      (chain_event ex_bridge (ledger_backend ref_env 0 ref_many_server) (BeginBlock (Some (Some 100))) (ref_accounts None)))"
  by (rule chain_run_is_server_run [OF chain_run.event [OF chain_run.event [OF chain_run.genesis refl] refl]])
    (simp add: requests_meet_def ref_many_server_def split: sum.split)

text \<open>The key-value server takes every request as one to put a value.\<close>

definition ref_kv_server :: "(ref_store kv, ex_envelope, kv_question + kv_request) many_server" where
  "ref_kv_server = \<lparr>sv_request = (\<lambda>e. case e of
       Inl m \<Rightarrow> Inr (rq_from m, if rq_method m = ''kvstore.info'' then Inl AskHash
         else Inr (KvPut \<lparr>pa_key = ''k'', pa_value = ''v'', pa_owner = None\<rparr>))
     | Inr _ \<Rightarrow> Inl InvalidIdentity),
     sv_refusal = (\<lambda>_ _. Inl ''refused''), sv_answer = (\<lambda>_ r _. Inr (Inr (if is_ok r then ''1'' else ''0''))),
     sv_info = (\<lambda>_. []), sv_commit = (\<lambda>_. []), sv_crashed = InvalidIdentity\<rparr>"

definition ref_kv_block :: "ref_store kv \<Rightarrow> ref_store kv" where
  "ref_kv_block s = chain_event ex_bridge (kv_backend ref_env ref_kv_server) (BeginBlock (Some (Some 100))) s"

theorem kv_resumes_behind_chain_witness:
  "\<exists>s0 r t. kv_new ref_env (Inr \<lparr>work = [], disk = []\<rparr>) [] 2 True = Inr s0 \<and>
    app_commit ex_bridge (kv_backend ref_env ref_kv_server) (ref_kv_block s0) = (r, t) \<and>
    kv_start (ref_host (Inl ''not found'')) ref_env (ref_options\<lparr>opt_abci := blockchain t\<rparr>) (Some (persistent_store t)) =
      (Inr (t\<lparr>current_time := None, current_hash := None\<rparr>), Some (persistent_store t))"
proof -
  obtain s0 where s0: "kv_new ref_env (Inr \<lparr>work = [], disk = []\<rparr>) [] 2 True = Inr s0" using ref_kv_new by blast
  then have "kv_counter ref_env s0 HEIGHT_ROOT = Inr 0"
    using ref_kv_env_ok by (auto simp: kv_new_def Let_def run kv_counter_def simp del: ref_view) simp
  moreover obtain time where "ref_kv_block s0 = s0\<lparr>current_time := time\<rparr>"
    using kv_begin_block_state [of ref_env "Some 100" s0] 
    by (auto simp: ref_kv_block_def app_begin_block_def kv_backend_def)
  ultimately have "kv_counter ref_env (ref_kv_block s0) HEIGHT_ROOT = Inr 0"
    by (simp add: kv_counter_def view_def del: ref_view)
  from kv_commit_run [OF ref_kv_env_ok this] obtain i where i: "fst (kv_commit ref_env (ref_kv_block s0)) = Inr i" by simp
  obtain r t where c: "app_commit ex_bridge (kv_backend ref_env ref_kv_server) (ref_kv_block s0) = (r, t)" by fastforce
  have m: "mview ref_env \<lparr>work = [], disk = []\<rparr> SUBRESOURCE_ID_KEY = None" by simp
  have V: "requests_meet ref_kv_server kv_request_ok"
    by (simp add: requests_meet_def ref_kv_server_def split: sum.split)
  have "chain_run ex_bridge (kv_backend ref_env ref_kv_server) (\<lambda>_ _. True) s0 (ref_kv_block s0)"
    unfolding ref_kv_block_def by (rule chain_run.event [OF chain_run.genesis refl])
  from kv_resumes_behind_chain [OF ref_kv_env_ok s0 m this V c i, of "ref_options\<lparr>opt_abci := blockchain t\<rparr>"
      "ref_host (Inl ''not found'')" "Some (persistent_store t)" "''pem''" 9 "Some (persistent_store t)"] s0 c
  show ?thesis by (fastforce simp: ref_host_def ref_options_def)
qed

end
