(* ===== verification/Rights.thy ===== *)
theory Rights
  imports Promises
begin

text \<open>
  Two more promises of the server as a whole. Who may change a token: for every request of every
  module, multisig executions included, what it takes to change what is stored for a token. And
  addresses of accounts and tokens: one that was handed out is never handed out again.
\<close>

section \<open>Who may change a token\<close>

text \<open>
  Requests other than those on tokens do not write the entries of a token, whatever multisig
  transactions they execute: \<open>V\<close> is what was stored.
\<close>

definition no_token_request :: "server_request \<Rightarrow> bool" where
  "no_token_request req \<longleftrightarrow> (case req of ReqToken _ \<Rightarrow> False | ReqMint _ \<Rightarrow> False | ReqBurn _ \<Rightarrow> False | _ \<Rightarrow> True)"

definition entries_of :: "symbol \<Rightarrow> (bytes \<Rightarrow> 'v option) \<Rightarrow> ('m, 'v, 'g) env \<Rightarrow> ('m, 'g) ledger \<Rightarrow> bool" where
  "entries_of x V E s \<longleftrightarrow> (\<forall>k \<in> token_keys E x. view E s k = V k)"

lemma entries_of_rests: "plain_env E D \<Longrightarrow> rests_on E D False (token_keys E x) (entries_of x V E)"
  by (simp add: rests_on_def plain_env_def entries_of_def)

lemma token_keys_apart:
  "token_keys E x \<inter> event_keys = {}" "token_keys E x \<inter> balance_keys E' = {}" "token_keys E x \<inter> account_keys E' = {}"
  "token_keys E x \<inter> counter_keys E' = {}" "token_keys E x \<inter> multisig_keys = {}" "token_keys E x \<inter> idstore_keys = {}"
  "SYMBOLS_ROOT \<notin> token_keys E x" "DATA_ATTRIBUTES_KEY \<notin> token_keys E x" "HEIGHT_ROOT \<notin> token_keys E x"
  by (auto simp: token_keys_def family_defs multisig_key_prefix)

interpretation token_entries: server_part plain_env "\<lambda>E D. entries_of x V E" "\<lambda>_. no_token_request" "\<lambda>_ _. True"
  for x V
proof (rule server_partI [where K = "\<lambda>E. token_keys E x" and num = False])
  fix E :: "('a, 'b, 'c) env" and D
  assume E: "plain_env E D"
  show "rests_on E D False (token_keys E x) (entries_of x V E) \<and> token_keys E x \<inter> event_keys = {}"
    using entries_of_rests [OF E] token_keys_apart by blast
  have "token_laws E no_token_request (entries_of x V E)"
    by (simp add: token_laws_def no_token_request_def)
  then show "((token_keys E x \<inter> counter_keys E = {} \<or> keeps (entries_of x V E) (get_next_subresource E TOKEN_IDENTITY_ROOT)) \<and>
      token_keys E x \<inter> all_token_keys E = {} \<and> token_keys E x \<inter> balance_keys E = {} \<and> SYMBOLS_ROOT \<notin> token_keys E x) \<or>
      token_laws E no_token_request (entries_of x V E)" by blast
qed (simp_all add: token_keys_apart)

lemma other_requests_change_no_token:
  assumes "plain_env E D" and "txs_ok E D s" and "well_formed req" and "no_token_request req"
    and "k \<in> token_keys E x"
  shows "view E (snd (run_request E n sender req s)) k = view E s k"
proof -
  have "token_entries.J x (view E s) E D s" using assms(2) by (simp add: token_entries.J_def entries_of_def)
  from keeps_snd [OF token_entries.keeps_request [OF assms(1,3,4)] this]
  have "entries_of x (view E s) E (snd (run_request E n sender req s))" by (simp add: token_entries.J_def)
  with assms(5) show ?thesis by (simp add: entries_of_def)
qed

text \<open>Creating a token leaves those alone that are known.\<close>

lemma leads_if: "leads P m I \<Longrightarrow> leads P n I \<Longrightarrow> leads P (if b then m else n) I"
  by simp

lemma leads_throw: "(\<And>s. P s \<Longrightarrow> I s) \<Longrightarrow> leads P (throw e) I"
  by (simp add: leads_def throw_run)

lemma leads_ignored: "leads P m I \<Longrightarrow> leads P (bnd m (\<lambda>_. ret ())) I"
  by (auto simp: leads_def bnd_run ret_run split: prod.split sum.split)

lemma created_other:
  assumes E: "plain_env E D" "subresources_ok E" and x: "known E s x" and k: "k \<in> token_keys E x"
  shows "view E (snd (run_token E sender (TokenCreate args) s)) k = view E s k"
proof -
  have e: "env_ok E" "store_ok E" using E by (simp_all add: plain_env_def)
  note R = entries_of_rests [OF E(1), of x "view E s"]
  let ?G = "entries_of x (view E s) E"
  have s: "?G u" if "u = s" for u using that by (simp add: entries_of_def)
  have root: "TOKEN_IDENTITY_ROOT \<noteq> key_for_subresource_counter E i b" for i b by simp
  have other: "y \<noteq> x" if next': "get_next_subresource E TOKEN_IDENTITY_ROOT s = (Inr y, t)" for y t
  proof -
    from get_next_subresource_ok [OF e(2) E(2) next' root] obtain syms where
        "get_symbols E s = (Inr syms, s)" "y \<notin> set syms" by metis
    with x show ?thesis by (auto simp: known_def)
  qed
  have "leads (\<lambda>u. u = s) (create_token E sender args) ?G"
    unfolding leads_def
  proof (intro allI impI)
    fix u assume u: "u = s"
    show "?G (snd (create_token E sender args u))"
      unfolding u
    proof (rule create_token_at [OF R token_keys_apart(1,7)])
      show "?G (snd (get_next_subresource E TOKEN_IDENTITY_ROOT s))"
        using keeps_snd [OF frame_next [OF R token_keys_apart(4)]] s by blast
      fix y t
      assume "get_next_subresource E TOKEN_IDENTITY_ROOT s = (Inr y, t)"
      from other [OF this] e(1) show "key_for_symbol E y \<notin> token_keys E x \<and> key_for_ext_info E y \<notin> token_keys E x \<and>
          (\<forall>a. key_for_account_balance E a y \<notin> token_keys E x)"
        by (auto simp: token_keys_def)
    qed
  qed
  then have "leads (\<lambda>u. u = s) (tokens_create E sender args) ?G"
    unfolding tokens_create_def
    by (intro leads_andthen [OF s] leads_bnd [OF s] leads_if leads_throw pure_needs_migration pure_bnd
        pure_token_identity pure_lift pure_symbols_and_tickers)
      (auto intro: pure_verify_acl pure_ret s split: option.split sum.split)
  then have "leads (\<lambda>u. u = s) (run_token E sender (TokenCreate args)) ?G"
    by (simp add: leads_ignored)
  with k show ?thesis by (simp add: leads_def entries_of_def)
qed

text \<open>Creating, minting and burning are for the token identity.\<close>

lemma tokens_sender_checked:
  assumes "bnd (token_identity E) (\<lambda>i. lift (verify_tokens_sender sender i)) s = (Inr u, t)"
  shows "token_identity E s = (Inr sender, s)"
  using assms pure_actD [OF pure_token_identity]
  by (auto simp: bnd_ok lift_ok verify_tokens_sender_def split: if_splits)

lemma creation_checked:
  assumes "snd (run_token E sender (TokenCreate args) s) \<noteq> s"
  shows "token_identity E s = (Inr sender, s)"
proof -
  let ?check = "bnd (token_identity E) (\<lambda>i. lift (verify_tokens_sender sender i))"
  have pure: "pure_act ?check" by (intro pure_bnd pure_token_identity pure_lift)
  have "snd (tokens_create E sender args s) \<noteq> s"
    using assms by (auto simp: bnd_run ret_run split: prod.splits sum.splits)
  with andthen_pure_cases [OF pure_needs_migration, of E "''tokens.create''" _ s]
    andthen_pure_cases [OF pure, of _ s]
  obtain u where "?check s = (Inr u, s)"
    unfolding tokens_create_def by metis
  then show ?thesis by (rule tokens_sender_checked)
qed

lemma allowed_identity:
  assumes "mint_burn_allowed E m sender x s = (Inr u, t)"
  shows "token_identity E s = (Inr sender, s)"
proof -
  from assms obtain u1 s1 u2 s2 where "needs_migration E m s = (Inr u1, s1)"
    and c: "bnd (token_identity E) (\<lambda>i. lift (verify_tokens_sender sender i)) s1 = (Inr u2, s2)"
    unfolding mint_burn_allowed_def andthen_ok by blast
  then have "s1 = s" using pure_act_state [OF pure_needs_migration] by blast
  with tokens_sender_checked [OF c] show ?thesis by simp
qed

text \<open>What minting and burning do to the entries of a token: the supply moves, all else stays.\<close>

definition supply_only :: "('m, 'v, 'g) env \<Rightarrow> (nat \<Rightarrow> nat \<Rightarrow> nat) \<Rightarrow> symbol \<Rightarrow> ('m, 'g) ledger \<Rightarrow>
    ('m, 'g) ledger \<Rightarrow> bool" where
  "supply_only E f x s t \<longleftrightarrow> view E t (key_for_ext_info E x) = view E s (key_for_ext_info E x) \<and>
     (\<exists>info c. token_info_at E s x = Some info \<and> token_info_at E t x = Some (supply_changed f c info))"

lemma supply_only_cong:
  assumes "\<And>k. k \<in> token_keys E x \<Longrightarrow> view E u k = view E t k"
  shows "supply_only E f x s u = supply_only E f x s t"
  using assms by (simp add: supply_only_def token_info_at_def token_keys_def)

lemma changed_tokens:
  assumes E: "env_ok E" and k: "k \<in> token_keys E x"
    and at: "atomic m" and ok: "\<And>u t. m s = (Inr u, t) \<Longrightarrow> \<exists>info. token_info_at E s y = Some info \<and>
      batch_ok (change_all E s y f d info) \<and> t = maybe_committed E (applied E (change_all E s y f d info) s)"
    and ch: "view E (snd (m s)) k \<noteq> view E s k"
  shows "y = x \<and> supply_only E f x s (snd (m s))"
proof -
  obtain r t where run: "m s = (r, t)" by fastforce
  from ch run atomicD [OF at] obtain u where r: "r = Inr u" by (cases r) auto
  from ok [OF run [unfolded r]] obtain info where i: "token_info_at E s y = Some info"
    and b: "batch_ok (change_all E s y f d info)"
    and t: "t = maybe_committed E (applied E (change_all E s y f d info) s)" by blast
  have off: "view E t k' = view E s k'" if "k' \<notin> fst ` set (change_all E s y f d info)" for k'
    using E b that by (simp add: t apply_batch_other)
  have keys: "k' \<in> fst ` set (change_all E s y f d info) \<Longrightarrow> k' = key_for_symbol E y \<or>
      (\<exists>a. k' = key_for_account_balance E a y)" for k'
    by (auto simp: change_all_def change_batch_def)
  have "k = key_for_symbol E y"
  proof (rule ccontr)
    assume "k \<noteq> key_for_symbol E y"
    moreover have "k \<noteq> key_for_account_balance E a y" for a using k by (auto simp: token_keys_def)
    ultimately have "k \<notin> fst ` set (change_all E s y f d info)" using keys by blast
    from off [OF this] ch run show False by simp
  qed
  with k E have xy: "y = x" by (auto simp: token_keys_def)
  have "key_for_ext_info E x \<notin> fst ` set (change_all E s y f d info)" using keys E by fastforce
  from off [OF this] have ext: "view E t (key_for_ext_info E x) = view E s (key_for_ext_info E x)" .
  have "token_info_at E t x = Some (supply_changed f (sum_list (map snd d)) info)"
    using E view_change_all(1) [OF E b] by (simp add: t token_info_at_def xy)
  with i ext xy run show ?thesis by (auto simp: supply_only_def)
qed

lemma view_after:
  assumes "\<And>v. keeps (\<lambda>u. view E u k = v) n"
  shows "view E (snd (andthen m n s)) k = view E (snd (m s)) k"
proof -
  obtain r t where m: "m s = (r, t)" by fastforce
  show ?thesis
  proof (cases r)
    case (Inl e)
    with m show ?thesis by (simp add: andthen_run)
  next
    case (Inr u)
    with m keeps_snd [OF assms refl, of t] show ?thesis by (simp add: andthen_run)
  qed
qed

lemma mint_rights:
  assumes E: "env_ok E" and k: "k \<in> token_keys E x" and ch: "view E (snd (mint E sender args s)) k \<noteq> view E s k"
  shows "token_identity E s = (Inr sender, s) \<and> mi_symbol args = x \<and> supply_only E (+) x s (snd (mint E sender args s))"
proof -
  let ?y = "mi_symbol args" and ?d = "mi_distribution args"
  let ?m = "mint_token E ?y ?d"
  let ?n = "log_event E (EvTokenMint ?y ?d (mi_memo args))"
  have st: "store_ok E" using E by simp
  from andthen_pure_cases [OF pure_mint_burn_allowed, of E "''tokens.mint''" sender ?y "andthen ?m ?n" s] ch
  obtain u where a: "mint_burn_allowed E ''tokens.mint'' sender ?y s = (Inr u, s)"
    and run: "mint E sender args s = andthen ?m ?n s" unfolding mint_def by auto
  have log: "view E (snd (andthen ?m ?n s)) k' = view E (snd (?m s)) k'" if "k' \<in> token_keys E x" for k'
    by (intro view_after keeps_log_event [OF st] token_keys_log_free [OF that])
  have "?y = x \<and> supply_only E (+) x s (snd (?m s))"
  proof (rule changed_tokens [OF E k mint_token_atomic [OF st]])
    show "\<exists>info. token_info_at E s ?y = Some info \<and> batch_ok (change_all E s ?y (+) ?d info) \<and>
        t = maybe_committed E (applied E (change_all E s ?y (+) ?d info) s)" if "?m s = (Inr u, t)" for u t
      using mint_token_ok [OF E allowed_known [OF a] that] by metis
    show "view E (snd (?m s)) k \<noteq> view E s k" using ch log [OF k] by (simp add: run)
  qed
  moreover have "supply_only E (+) x s (snd (andthen ?m ?n s)) = supply_only E (+) x s (snd (?m s))"
    by (rule supply_only_cong) (rule log)
  ultimately show ?thesis using allowed_identity [OF a] unfolding run by blast
qed

lemma burn_rights:
  assumes E: "env_ok E" and k: "k \<in> token_keys E x" and ch: "view E (snd (burn E sender args s)) k \<noteq> view E s k"
  shows "token_identity E s = (Inr sender, s) \<and> bu_symbol args = x \<and> supply_only E (-) x s (snd (burn E sender args s))"
proof -
  let ?y = "bu_symbol args" and ?d = "bu_distribution args"
  let ?m = "burn_token E ?y ?d"
  let ?n = "andthen (log_event E (EvTokenBurn ?y ?d (bu_memo args))) (ret ?d)"
  let ?flag = "unless (bu_error_on_under_burn args \<noteq> Some False) (Err (MintBurnError PartialBurnDisabled))"
  have st: "store_ok E" using E by simp
  have changed: "snd (burn E sender args s) \<noteq> s" using ch by auto
  with andthen_pure_cases [OF pure_mint_burn_allowed, of E "''tokens.burn''" sender ?y
      "andthen ?flag (andthen ?m ?n)" s]
  obtain u where a: "mint_burn_allowed E ''tokens.burn'' sender ?y s = (Inr u, s)"
    and flag: "burn E sender args s = andthen ?flag (andthen ?m ?n) s" unfolding burn_def by blast
  have "pure_act ?flag" by (simp add: unless_lift pure_lift)
  from andthen_pure_cases [OF this, of "andthen ?m ?n" s] changed
  have run: "burn E sender args s = andthen ?m ?n s" unfolding flag by blast
  have log: "view E (snd (andthen ?m ?n s)) k' = view E (snd (?m s)) k'" if "k' \<in> token_keys E x" for k'
    by (intro view_after keeps_andthen keeps_ret keeps_log_event [OF st] token_keys_log_free [OF that])
  have "?y = x \<and> supply_only E (-) x s (snd (?m s))"
  proof (rule changed_tokens [OF E k burn_token_atomic [OF st]])
    show "\<exists>info. token_info_at E s ?y = Some info \<and> batch_ok (change_all E s ?y (-) ?d info) \<and>
        t = maybe_committed E (applied E (change_all E s ?y (-) ?d info) s)" if "?m s = (Inr u, t)" for u t
      using burn_token_ok [OF E allowed_known [OF a] that] by metis
    show "view E (snd (?m s)) k \<noteq> view E s k" using ch log [OF k] by (simp add: run)
  qed
  moreover have "supply_only E (-) x s (snd (andthen ?m ?n s)) = supply_only E (-) x s (snd (?m s))"
    by (rule supply_only_cong) (rule log)
  ultimately show ?thesis using allowed_identity [OF a] unfolding run by blast
qed

section \<open>Addresses handed out\<close>

text \<open>
  \<open>handed_out root ident c\<close>: the number \<open>c\<close> of the identity under \<open>root\<close> is below its counter, so it was
  handed out. Only the search for a free subresource writes counters, for either identity, and it
  never lowers one.
\<close>

definition handed_out :: "bytes \<Rightarrow> address \<Rightarrow> u32 \<Rightarrow> ('m, 'v, 'g) env \<Rightarrow> ('m, 'g) ledger \<Rightarrow> bool" where
  "handed_out root ident c E s \<longleftrightarrow> sub_identity E s root = Inr ident \<and>
     (\<exists>n. sub_counter E s ident = Inr n \<and> c < n)"

definition root_env :: "bytes \<Rightarrow> ('m, 'v, 'g) env \<Rightarrow> ('m \<Rightarrow> bytes \<rightharpoonup> 'v) \<Rightarrow> bool" where
  "root_env root E D \<longleftrightarrow> plain_env E D \<and> subresources_ok E \<and>
     (root = ACCOUNT_IDENTITY_ROOT \<or> root = TOKEN_IDENTITY_ROOT)"

definition root_keys :: "('m, 'v, 'g) env \<Rightarrow> bytes set" where
  "root_keys E = counter_keys E \<union> {ACCOUNT_IDENTITY_ROOT, TOKEN_IDENTITY_ROOT, IDENTITY_ROOT}"

lemma root_keys_apart:
  "root_keys E \<inter> event_keys = {}" "root_keys E \<inter> balance_keys E' = {}" "root_keys E \<inter> all_token_keys E' = {}"
  "root_keys E \<inter> idstore_keys = {}" "root_keys E \<inter> multisig_keys = {}" "root_keys E \<inter> account_keys E' = {}"
  "DATA_ATTRIBUTES_KEY \<notin> root_keys E" "SYMBOLS_ROOT \<notin> root_keys E" "HEIGHT_ROOT \<notin> root_keys E"
proof -
  have "ACCOUNT_IDENTITY_ROOT \<noteq> DATA_ATTRIBUTES_KEY" "ACCOUNT_IDENTITY_ROOT \<noteq> HEIGHT_ROOT"
    "TOKEN_IDENTITY_ROOT \<noteq> DATA_ATTRIBUTES_KEY" "TOKEN_IDENTITY_ROOT \<noteq> HEIGHT_ROOT"
    "TOKEN_IDENTITY_ROOT \<noteq> IDSTORE_SEED_ROOT"
    by (simp_all add: root_defs IDSTORE_SEED_ROOT_def)
  then show "root_keys E \<inter> event_keys = {}" "root_keys E \<inter> balance_keys E' = {}" "root_keys E \<inter> all_token_keys E' = {}"
    "root_keys E \<inter> idstore_keys = {}" "root_keys E \<inter> multisig_keys = {}" "root_keys E \<inter> account_keys E' = {}"
    "DATA_ATTRIBUTES_KEY \<notin> root_keys E" "SYMBOLS_ROOT \<notin> root_keys E" "HEIGHT_ROOT \<notin> root_keys E"
    by (auto simp: root_keys_def family_defs multisig_key_prefix)
qed

lemma handed_out_rests:
  fixes E :: "('m, 'v, 'g) env"
  assumes E: "root_env root E D"
  shows "rests_on E D False (root_keys E) (handed_out root ident c E)"
  unfolding rests_on_def
proof (intro conjI allI impI)
  show "env_ok E" "disk_ok E D" using E by (simp_all add: root_env_def plain_env_def)
  fix s t :: "('m, 'g) ledger"
  assume s: "handed_out root ident c E s" and m: "migrations t = migrations s"
    and v: "\<forall>k \<in> root_keys E. view E t k = view E s k"
  have "sub_identity E t root = sub_identity E s root"
    using v E by (auto simp: sub_identity_def root_keys_def root_env_def split: option.split)
  moreover have "sub_counter E t j = sub_counter E s j" for j
    using v m by (simp add: sub_counter_def token_migration_active_def root_keys_def ball_Un)
  ultimately show "handed_out root ident c E t" using s by (simp add: handed_out_def)
qed

lemma taken_counter_grows:
  assumes E: "store_ok E" "subresources_ok E" and n: "sub_counter E s ident = Inr n"
    and c0: "sub_counter E s ident' = Inr c0" and d: "c0 \<le> d" "d \<le> max_subresource_id E"
  shows "\<exists>m. sub_counter E (subresource_taken E ident' d s) ident = Inr m \<and> n \<le> m"
proof (cases "key_for_subresource_counter E ident (token_migration_active E s) =
    key_for_subresource_counter E ident' (token_migration_active E s)")
  case True
  then have "sub_counter E s ident = sub_counter E s ident'" by (simp add: sub_counter_def)
  with n c0 d(1) have "n \<le> d" by simp
  moreover have "d \<le> d + 1"
    using unat_step [OF d(2)] E(2) by (simp add: subresources_ok_def word_le_nat_alt)
  moreover have "sub_counter E (subresource_taken E ident' d s) ident = Inr (d + 1)"
    using True E(1) by (simp add: sub_counter_def subresource_taken_def)
  ultimately show ?thesis by (metis order_trans)
next
  case False
  with n E(1) show ?thesis by (simp add: sub_counter_def subresource_taken_def)
qed

lemma root_kind_apart:
  "root = ACCOUNT_IDENTITY_ROOT \<or> root = TOKEN_IDENTITY_ROOT \<Longrightarrow> root \<noteq> key_for_subresource_counter E i b"
  by auto

lemma handed_out_next:
  assumes E: "root_env root E D" and root': "root' = ACCOUNT_IDENTITY_ROOT \<or> root' = TOKEN_IDENTITY_ROOT"
  shows "keeps (handed_out root ident c E) (get_next_subresource E root')"
  unfolding keeps_def
proof (intro allI impI)
  fix s assume s: "handed_out root ident c E s"
  have e: "store_ok E" "subresources_ok E" and root: "root = ACCOUNT_IDENTITY_ROOT \<or> root = TOKEN_IDENTITY_ROOT"
    using E by (simp_all add: root_env_def plain_env_def)
  obtain r t where run: "get_next_subresource E root' s = (r, t)" by fastforce
  show "handed_out root ident c E (snd (get_next_subresource E root' s))"
  proof (cases r)
    case (Inl err)
    from get_next_subresource_error [OF e root_kind_apart [OF root'] run [unfolded Inl]] s run show ?thesis by simp
  next
    case (Inr a)
    from get_next_subresource_ok [OF e run [unfolded Inr] root_kind_apart [OF root']] obtain ident' c0 d where
        c0: "sub_counter E s ident' = Inr c0" and d: "c0 \<le> d" "d \<le> max_subresource_id E"
      and t: "t = subresource_taken E ident' d s" by metis
    obtain n where n: "sub_counter E s ident = Inr n" "c < n" using s by (auto simp: handed_out_def)
    from taken_counter_grows [OF e n(1) c0 d] n(2) have "\<exists>m. sub_counter E t ident = Inr m \<and> c < m"
      unfolding t by (auto intro: less_le_trans)
    moreover have "sub_identity E t root = Inr ident"
      using s sub_identity_taken [OF e(1) root_kind_apart [OF root]] by (simp add: t handed_out_def)
    ultimately show ?thesis using run by (simp add: handed_out_def)
  qed
qed

interpretation handed: server_part "root_env root" "\<lambda>E D. handed_out root ident c E" "\<lambda>_ _. True" "\<lambda>_ _. True"
  for root ident c
proof (rule server_partI [where K = root_keys and num = False])
  fix E :: "('a, 'b, 'c) env" and D
  assume E: "root_env root E D"
  note R = handed_out_rests [OF E, of ident c]
  show "rests_on E D False (root_keys E) (handed_out root ident c E) \<and> root_keys E \<inter> event_keys = {}"
    using R by (simp add: root_keys_apart)
  have next': "keeps (handed_out root ident c E) (get_next_subresource E ACCOUNT_IDENTITY_ROOT)"
    "keeps (handed_out root ident c E) (get_next_subresource E TOKEN_IDENTITY_ROOT)"
    using handed_out_next [OF E] by simp_all
  have "keeps (handed_out root ident c E) (commit_account E i a)" for i a
    using root_keys_apart(6) by (intro frame_commit_account [OF R]) auto
  then have "keeps (handed_out root ident c E) (add_account E a)" for a
    unfolding add_account_def add_account_raw_def Let_def
    by (intro keeps_bnd keeps_andthen keeps_whenever keeps_ret frame_log [OF R root_keys_apart(1)] next'(1))
  then show "root_keys E \<inter> account_keys E = {} \<and> root_keys E \<inter> counter_keys E = {} \<or>
      account_laws E (handed_out root ident c E)"
    unfolding account_laws_def
    by (intro disjI2 conjI allI impI stores_keep_frame [OF R root_keys_apart(1,6)]
        frame_stores(6) [OF R root_keys_apart(1,6)])
  show "(root_keys E \<inter> counter_keys E = {} \<or> keeps (handed_out root ident c E) (get_next_subresource E TOKEN_IDENTITY_ROOT)) \<and>
      root_keys E \<inter> all_token_keys E = {} \<and> root_keys E \<inter> balance_keys E = {} \<and> SYMBOLS_ROOT \<notin> root_keys E \<or>
      token_laws E (\<lambda>_. True) (handed_out root ident c E)"
    using next'(2) by (simp add: root_keys_apart)
qed (simp_all add: root_keys_apart)

section \<open>Properties\<close>

text \<open>
  C14. What it takes to change what is stored for a token, its information or its extended information,
  by any request to any module. Either it is a request to update the token or its extended
  information, the token has an owner, and the sender is that owner or holds the request's role (or
  the owner role) on the owner's account. Or it is a mint or a burn of this token by the token
  identity, and nothing but the supply changes. Or it creates a token, again by the token
  identity, and this one was not known. So a token without owner changes in its supply only.
\<close>

theorem token_changed_by_right:
  assumes "env_ok E" and "disk_ok E D" and "account_ok E" and "subresources_ok E"
    and "txs_ok E D s" and "well_formed req"
    and "k = key_for_symbol E x \<or> k = key_for_ext_info E x"
    and "view E (snd (run_request E n sender req s)) k \<noteq> view E s k"
  shows "(\<exists>treq r info ow. req = ReqToken treq \<and> token_target treq = Some (x, r) \<and>
      token_info_at E s x = Some info \<and> ti_owner info = Some ow \<and> acts_for E s sender ow r) \<or>
    (\<exists>args. req = ReqMint args \<and> mi_symbol args = x \<and> token_identity E s = (Inr sender, s) \<and>
      supply_only E (+) x s (snd (run_request E n sender req s))) \<or>
    (\<exists>args. req = ReqBurn args \<and> bu_symbol args = x \<and> token_identity E s = (Inr sender, s) \<and>
      supply_only E (-) x s (snd (run_request E n sender req s))) \<or>
    (\<exists>args. req = ReqToken (TokenCreate args) \<and> token_identity E s = (Inr sender, s) \<and> \<not> known E s x)"
proof -
  have E: "plain_env E D" using assms(1,2) by (simp add: plain_env_def)
  have k: "k \<in> token_keys E x" using assms(7) by (auto simp: token_keys_def)
  have ch: "snd (run_request E n sender req s) \<noteq> s" using assms(8) by auto
  show ?thesis
  proof (cases req)
    case (ReqToken treq)
    show ?thesis
    proof (cases "token_target treq")
      case None
      then obtain args where "treq = TokenCreate args" by (cases treq) auto
      with ReqToken ch assms(8) creation_checked [of E sender args s] created_other [OF E assms(4) _ k] show ?thesis
        by auto
    next
      case (Some p)
      obtain y r where p: "p = (y, r)" by fastforce
      have "y = x" using token_change_other [OF assms(1) Some [unfolded p] _ k] assms(8) ReqToken by auto
      moreover obtain info ow where "token_info_at E s y = Some info" "ti_owner info = Some ow" "acts_for E s sender ow r"
        using token_change_checked [OF assms(1,3) Some [unfolded p], of sender s] ch ReqToken by auto
      ultimately show ?thesis using ReqToken Some p by blast
    qed
  next
    case (ReqMint args)
    with mint_rights [OF assms(1) k] assms(8) show ?thesis by auto
  next
    case (ReqBurn args)
    have "snd (run_request E n sender req s) = snd (burn E sender args s)"
      by (simp add: ReqBurn bnd_run ret_run split: prod.split sum.split)
    with burn_rights [OF assms(1) k, of sender args s] assms(8) ReqBurn show ?thesis by metis
  qed (use other_requests_change_no_token [OF E assms(5,6) _ k, of n sender] assms(8)
    in \<open>simp_all add: no_token_request_def\<close>)
qed

text \<open>
  C18. Addresses are handed out once. The search for a new address of an account or a token always
  returns. The address it gives is none of the known symbols, and it is never given again: after any
  requests to any module, their nested executions and blocks at whose heights no migration starts, the
  search for the same kind of address gives another one.
\<close>

theorem address_handed_out_once:
  assumes "env_ok E" and "disk_ok E D" and "subresources_ok E" and "txs_ok E D s"
    and "root = ACCOUNT_IDENTITY_ROOT \<or> root = TOKEN_IDENTITY_ROOT"
  shows "case get_next_subresource E root s of
      (Inl e, t) \<Rightarrow> e \<noteq> Diverges
    | (Inr a, t) \<Rightarrow> (\<exists>syms. get_symbols E s = (Inr syms, s) \<and> a \<notin> set syms) \<and>
        (\<forall>u b v. server_steps E (\<lambda>_. True) (\<lambda>_ _. True) t u \<longrightarrow>
           get_next_subresource E root u = (Inr b, v) \<longrightarrow> b \<noteq> a)"
proof -
  have st: "store_ok E" using assms(1) by simp
  have env: "root_env root E D" using assms by (simp add: root_env_def plain_env_def)
  note root = root_kind_apart [OF assms(5)]
  obtain r t where run: "get_next_subresource E root s = (r, t)" by fastforce
  show ?thesis
  proof (cases r)
    case (Inl e)
    with run get_next_subresource_returns [OF st assms(3), of root s] show ?thesis by auto
  next
    case (Inr a)
    from get_next_subresource_ok [OF st assms(3) run [unfolded Inr] root] obtain ident c0 c syms where
        i: "sub_identity E s root = Inr ident" and max: "c \<le> max_subresource_id E"
      and a: "with_subresource_id E ident c = Inr a" and syms: "get_symbols E s = (Inr syms, s)" "a \<notin> set syms"
      and t: "t = subresource_taken E ident c s" by metis
    have "c < c + 1" using unat_step [OF max] assms(3) by (simp add: subresources_ok_def word_less_nat_alt)
    then have out: "handed_out root ident c E t"
      using i by (simp add: handed_out_def t sub_identity_taken [OF st root] sub_counter_taken [OF st])
    have "keeps (txs_ok E D) (get_next_subresource E root)"
      by (rule frame_next [OF handed.txs_rests [OF env]]) simp
    from keeps_snd [OF this assms(4)] run have txs: "txs_ok E D t" by simp
    have "b \<noteq> a" if "server_steps E (\<lambda>_. True) (\<lambda>_ _. True) t u" "get_next_subresource E root u = (Inr b, v)" for u b v
    proof
      assume "b = a"
      have "handed_out root ident c E u"
        using handed.reachable [OF that(1) env, of ident c] out txs by (simp add: handed.J_def)
      then obtain n where n: "sub_identity E u root = Inr ident" "sub_counter E u ident = Inr n" "c < n"
        unfolding handed_out_def by blast
      from get_next_subresource_ok [OF st assms(3) that(2) root] n(1,2) obtain d where
          "n \<le> d" "with_subresource_id E ident d = Inr b" by (metis sum.inject(2))
      with a \<open>b = a\<close> n(3) assms(3) show False unfolding subresources_ok_def by (metis leD)
    qed
    with syms run Inr show ?thesis by auto
  qed
qed

section \<open>Witnesses\<close>

lemma token_changed_by_right_witness:
  "\<exists>info ow. token_info_at ref_env ref_tokens 7 = Some info \<and> ti_owner info = Some ow \<and>
     acts_for ref_env ref_tokens 5 ow CanTokensRemoveExtendedInfo"
proof -
  have old: "view ref_env ref_tokens (key_for_ext_info ref_env 7) = Some (RExtInfo [([0], ''memo'')])"
    by (simp add: ref_tokens_def)
  let ?req = "ReqToken (TokenRemoveExtendedInfo \<lparr>tr_symbol = 7, tr_extended_info = [[0]], tr_memo = None\<rparr>)"
  have ch: "view ref_env (snd (run_request ref_env 1 5 ?req ref_tokens)) (key_for_ext_info ref_env 7) \<noteq>
      view ref_env ref_tokens (key_for_ext_info ref_env 7)"
    using old ref_remove_ext by (simp del: run_token.simps)
  have wf: "well_formed ?req" by simp
  show ?thesis
    using token_changed_by_right [OF ref_env_ok ref_disk_ok ref_account_ok ref_subresources_ok ref_txs(2) wf _ ch]
    by auto
qed

lemma address_handed_out_once_witness:
  "fst (get_next_subresource ref_env ACCOUNT_IDENTITY_ROOT (ref_ledger ref_founded [])) = Inr 601 \<and>
   (\<exists>syms. get_symbols ref_env (ref_ledger ref_founded []) = (Inr syms, ref_ledger ref_founded []) \<and>
     601 \<notin> set syms)"
proof -
  have "txs_ok ref_env (\<lambda>m. map_of (disk m)) (ref_ledger ref_founded [])"
    by (rule ref_txs_ok) (simp add: ref_founded_def multisig_keys_def root_defs key_defs MULTISIG_TRANSACTIONS_ROOT_def)
  from address_handed_out_once [OF ref_env_ok ref_disk_ok ref_subresources_ok this, of ACCOUNT_IDENTITY_ROOT]
  show ?thesis
    using ref_next_account by (auto split: prod.splits)
qed

end
