(* ===== verification/Spec2Isabelle.thy ===== *)
theory Spec2Isabelle
  imports Mains Worlds Chain Rights
begin

text \<open>
  A model of the application servers of the MANY framework, with the theorems that make them
  correct. Sources are named by their path under \<open>src/src\<close>.

  \<^bold>\<open>The program.\<close> \<open>many-ledger\<close> is a server for balances, accounts, multi-signature transactions,
  tokens and identities, \<open>many-kvstore\<close> a server for keys with owners. Both keep their whole state
  in a merk store (a Merkle tree over RocksDB), as byte strings under byte keys, and log an event
  for what they do. A server runs alone, and commits after every request, or behind a block chain:
  then \<open>many-abci\<close> sends commands through tendermint and queries to the server at once, and hands
  over begin-block, deliver and commit; the server commits once per block and runs the migrations
  that start at its height.

  \<^bold>\<open>State and operations.\<close> A method \<open>fn f(&mut self, ..) -> Result<T, E>\<close> is an action, a function
  from the state to a result and the state it leaves; an early return keeps the writes made
  before it, as in the code. Errors are values (\<open>Err\<close>), a panic and endless recursion are faults
  of their own. The code of other crates is a parameter, a field of the record \<open>env\<close> (\<open>wire\<close>,
  \<open>node\<close> and \<open>server\<close> for the bridge, \<open>client\<close> and \<open>keyring\<close> for the command lines, \<open>host\<close> for files,
  \<open>test_crates\<close> for the tests), and what is assumed of it is a named predicate
  (\<open>store_ok\<close>, \<open>disk_ok\<close>, \<open>codec_ok\<close>, \<open>address_ok\<close>, \<open>event_id_ok\<close>, \<open>account_ok\<close>, \<open>subresources_ok\<close>,
  \<open>search_ok\<close>, \<open>removal_ok\<close>, \<open>opens_empty\<close>). \<open>Reference\<close> builds a concrete environment that satisfies them; the witnesses
  evaluate the operations in it.

  \<^bold>\<open>Foundations.\<close>
  \<^item> \<open>Prelude\<close>: actions with their laws, big-endian numbers, UTF-8; \<open>Containers\<close>: \<open>BTreeMap\<close> and
    \<open>BTreeSet\<close> as sorted lists, interface \<open>ordered_map\<close>; \<open>Errors\<close>: \<open>error.rs\<close> of both servers;
    \<open>External\<close>: the data and functions of other crates.
  \<^item> \<open>Store\<close>: reads, batches and commits of the merk store, and what the iterators see (what was
    committed, not what was written since); \<open>Keys\<close>: the keys of the ledger, which never collide.

  \<^bold>\<open>The ledger.\<close>
  \<^item> \<open>LedgerStorage\<close>: \<open>storage.rs\<close>, \<open>storage/event.rs\<close>, \<open>storage/iterator.rs\<close>; the record \<open>ledger\<close> is
    \<open>LedgerStorage\<close>. \<open>EventLog\<close>: logging takes a fresh number and touches nothing else, ranges of
    events are exact, the search for a free subresource returns and moves its counter on.
  \<^item> \<open>Balances\<close>: \<open>storage/ledger.rs\<close>, \<open>ledger_commands.rs\<close>, \<open>data.rs\<close>. The contract of a transfer with
    its refusals in order, conservation, exact account counters.
  \<^item> \<open>Accounts\<close>: \<open>storage/account.rs\<close>, \<open>module/account.rs\<close>. Accounts own themselves, are changed by
    owners only, and a disabled one is never changed again; a transfer needs authority.
  \<^item> \<open>Tokens\<close>: \<open>storage/ledger_tokens.rs\<close> and its module: unique tickers, owner's authority, a created
    token is consistent. \<open>MintBurn\<close>: supply covers the sum of the balances and is equal to it
    (\<open>supply_exact\<close>) until something is minted for the anonymous address; minting is atomic.
  \<^item> \<open>Multisig\<close>, \<open>MultisigSafety\<close>: \<open>storage/multisig.rs\<close> and its module. Execution recurses through
    nested transactions; the depth is an argument, the result does not depend on it once some
    depth is enough, and an entry that executes itself never returns at any depth. Quorum before
    execution, expiry goes by the last commit.
  \<^item> \<open>Abci\<close>: \<open>storage/abci.rs\<close>, \<open>module/abci.rs\<close>. A commit returns, keeps event numbers fresh after
    the first block, and a restart continues from it.
  \<^item> \<open>IdStore\<close>: \<open>storage/idstore.rs\<close>, \<open>module/idstore.rs\<close>, \<open>idstore-export\<close>. Credentials are found by
    phrase and address, phrases never change hands, an export can be imported.
  \<^item> \<open>Migrations\<close>: \<open>migration/*.rs\<close>. Each migration does exactly what it announces to the entries it
    is for and nothing to the others.
  \<^item> \<open>Modules\<close>: \<open>module/event.rs\<close>, \<open>module/data.rs\<close>, \<open>json.rs\<close>, \<open>module.rs\<close>, the allow list, the
    endpoint table, and the event list of both servers. Lists are exact, queries read only.

  \<^bold>\<open>The ledger as one system.\<close>
  \<^item> \<open>Frames\<close>: which keys each operation writes, as rules that carry any invariant of other keys over it.
    \<open>Execution\<close>: the interface \<open>ledger_part\<close>: an invariant that every operation keeps holds through
    nested multisig execution.
  \<^item> \<open>Server\<close>: all requests of all modules and blocks as the relation \<open>server_steps\<close>, and the interface
    \<open>server_part\<close>; \<open>ServerProps\<close> interprets it on the promises of the components, \<open>Supply\<close> on the
    supply of a token. \<open>Promises\<close> states what holds in every state the server reaches: accounts own
    themselves, disabled accounts stay, and closed entries too but for the commit of the first block,
    tickers are unique, phrases are kept, the supply covers what the holders hold. \<open>Rights\<close>: what it
    takes to change a token by any request, and that no address is handed out twice.

  \<^bold>\<open>The key-value server.\<close>
  \<^item> \<open>KvStore\<close>: \<open>many-kvstore/src\<close>, all of storage and modules.
  \<^item> \<open>KvSafety\<close>: the abstraction of its store to two maps (metadata and values of keys), the
    specification \<open>kv_spec\<close> of its commands over them, and the step relation \<open>kv_steps\<close>.
  \<^item> \<open>KvProps\<close>: the server refines the specification, keys change by their owner's authority only,
    disabled keys are refused, a restart after a commit gives the state back. The interface
    \<open>account_storage\<close>, under which accounts own themselves, is interpreted on both servers.

  \<^bold>\<open>The bridge.\<close> \<open>Bridge\<close>: \<open>many_app.rs\<close>, \<open>abci_app.rs\<close> and \<open>module.rs\<close> of \<open>many-abci\<close>. Only listed
  commands are broadcast, replicas deliver the same responses, lists of blocks are exact.
  \<open>Chain\<close> puts both servers behind it: after any calls of tendermint the ledger is in the state that the
  requests in their bytes, the begun blocks and the commits lead to, once each and in order. By the
  interface \<open>chained\<close> it makes a run of \<open>server_steps\<close> when the commits succeed and start no migration,
  so the promises hold there too, and the key-value server makes a run of \<open>kv_steps\<close>, so that after
  a commit a restart gives its state back.

  \<^bold>\<open>The programs around the servers.\<close>
  \<^item> \<open>Client\<close>: the command lines \<open>ledger\<close> (\<open>main.rs\<close>, \<open>tokens.rs\<close>, \<open>multisig.rs\<close>) and \<open>kvstore\<close>, from
    parsed options to what is printed; their loop that waits for an answer. \<open>ClientProps\<close>: a
    command over the bridge is answered with what the server answered in its block, when the block
    comes before the sixtieth question; after sixty the client gives up; names of symbols are resolved alike by all commands.
  \<^item> \<open>Proxy\<close>: \<open>http_proxy\<close>, which is a web site of the key-value server's state, and \<open>ledger-db\<close>, which
    names what the ledger stored.
  \<^item> \<open>Startup\<close>: \<open>main\<close> of \<open>many-ledger\<close>, \<open>many-kvstore\<close> and \<open>many-abci\<close>: a restarted server continues from
    its last commit, \<open>--clean\<close> starts afresh, the modules and the list that guards one of them, and
    the loops that wait for other programs, which end. \<open>Programs\<close>: the rest of the programs, from the
    key of a client (hardware module, PEM file or none) to the report and the exit status, the
    amounts of the client on the wire, the features of a state file, and the ledger with testing features.
    \<open>Mains\<close>: the six functions \<open>main\<close>, which set up logging first.

  \<^bold>\<open>The support for tests.\<close> \<open>TestSupport\<close>: \<open>many-ledger/test-utils\<close>, a ledger with an identity and a
  clock and its operations; \<open>Worlds\<close>: phrases, steps and checks of the feature files. What they do to
  the ledger is what the server does on requests and blocks (\<open>goes_on\<close>), so a test that ends has
  seen only states that the server reaches, unless it sets balances.

  \<^bold>\<open>Bounds.\<close> Integers have the width of the code (\<open>u8\<close>, \<open>u32\<close>, \<open>u64\<close>) and wrap; amounts are
  natural numbers, as the code's are unbounded, and taking too much panics. The depth of nested
  multisig execution is the only fuel. Loops over iterators and batches are structural; those that
  wait (\<open>waiting\<close>, \<open>awaiting\<close>) are partial functions, and that they end is proved: a client asks
  sixty times, the bridge asks until its clock has passed the limit.

  \<^bold>\<open>What the model shows to be wrong.\<close> \<open>self_execution_diverges\<close>, \<open>first_block_overwritten\<close>,
  \<open>existing_entry_replaced\<close>, \<open>restart_forgets_event_numbers\<close>, \<open>transfer_unreachable\<close>,
  \<open>block_height_truncated\<close>, \<open>two_symbols_refused\<close>, \<open>burn_needs_flag\<close> (the client's default makes
  every burn fail), \<open>kv_clean_serves_old\<close> (the key-value server ignores a failing removal),
  \<open>anonymous_mint_inflates\<close> (what is minted for the anonymous address overwrites what was there and
  nobody holds it), \<open>first_block_entry_replaced\<close> (after the first block a new multisig entry may
  replace a closed one), \<open>block_list_exact\<close> (a count of zero lists up to thirty blocks),
  \<open>ledger_list_guards_sends\<close> (the list of allowed senders guards one module only) and
  \<open>taken_ticker_codes\<close> (a taken ticker is refused under two different codes). Expiry reads
  the last commit, so it overwrites what the block did to an overdue entry (\<open>expiry_exact\<close>).

  \<^bold>\<open>Not modelled.\<close> The text of command lines and JSON files, which libraries parse: the model starts from
  their values. Log output and tracing, and the HTTP servers of other crates with the signals that
  stop them. The tests themselves, whose assertions the theorems take the place of.
\<close>

end
